(* ===== verification/Prelude.thy ===== *)
theory Prelude
  imports Complex_Main "HOL-Library.AList" "HOL-Library.Char_ord" "HOL-Library.List_Lexorder"
begin

text \<open>
  The prelude of the development: the part of Go that every component uses.

  \<^item> Go errors (\<open>err\<close>), with \<open>fmt.Errorf\<close> as \<open>ErrorNew\<close> and its \<open>%w\<close> wrapping as
    \<open>Wrapped\<close>, and the text an error prints (\<open>Error\<close>);
  \<^item> the result of a Go call (\<open>'a res\<close>): a value, an error value, a panic that a \<open>recover\<close>
    of the same goroutine can catch, or the crash of the process (a panic in a goroutine that
    nothing recovers), with sequencing (\<open>rbind\<close>) and wrapping (\<open>wrap_err\<close>);
  \<^item> machine integers: an \<open>int\<close> or \<open>int64\<close> is an \<open>int\<close> whose products are wrapped by \<open>wrap64\<close>;
  \<^item> decimal conversion, \<open>strconv.Atoi\<close> and \<open>%d\<close>;
  \<^item> generic lemmas on association lists, which model Go's maps.

  A Go string is a sequence of bytes, and so is \<open>string\<close> here: one \<open>char\<close> per byte.
\<close>

named_theorems res_simps \<open>rewriting of sequenced Go results\<close>
named_theorems state_defs \<open>definitions of the handlers of the state types\<close>
named_theorems next_sound \<open>a handler only continues at a declared successor\<close>

section \<open>Errors\<close>

datatype err =
    ErrorNew string
  | Wrapped string err
  | StateMachineError (ErrorType: string) (Message: string) (Cause: "err option")

fun Error :: "err \<Rightarrow> string" where
  "Error (ErrorNew m) = m"
| "Error (Wrapped p e) = p @ '': '' @ Error e"
| "Error (StateMachineError t m None) = t @ '': '' @ m"
| "Error (StateMachineError t m (Some c)) = t @ '': '' @ m @ '' (cause: '' @ Error c @ '')''"

section \<open>Results of Go calls\<close>

datatype 'a res = Ok 'a | Err err | Panic string | Crash string

fun rbind :: "'a res \<Rightarrow> ('a \<Rightarrow> 'b res) \<Rightarrow> 'b res" where
  "rbind (Ok x) f = f x"
| "rbind (Err e) f = Err e"
| "rbind (Panic m) f = Panic m"
| "rbind (Crash m) f = Crash m"

fun map_err :: "(err \<Rightarrow> err) \<Rightarrow> 'a res \<Rightarrow> 'a res" where
  "map_err f (Ok x) = Ok x"
| "map_err f (Err e) = Err (f e)"
| "map_err f (Panic m) = Panic m"
| "map_err f (Crash m) = Crash m"

abbreviation wrap_err :: "string \<Rightarrow> 'a res \<Rightarrow> 'a res" where
  "wrap_err p r \<equiv> map_err (Wrapped p) r"

text \<open>A check that returns an \<open>error\<close>: \<open>None\<close> is Go's nil. \<open>check_seq\<close> stops at the first error.\<close>

type_synonym check = "err option"

fun check_seq :: "check list \<Rightarrow> check" where
  "check_seq [] = None"
| "check_seq (c # cs) = (case c of None \<Rightarrow> check_seq cs | Some e \<Rightarrow> Some e)"

definition fail_if :: "bool \<Rightarrow> string \<Rightarrow> check" where
  "fail_if b m = (if b then Some (ErrorNew m) else None)"

text \<open>A loop \<open>for i, x := range xs\<close> whose body returns an error: the index is passed on.\<close>

fun check_each :: "(nat \<Rightarrow> 'a \<Rightarrow> check) \<Rightarrow> nat \<Rightarrow> 'a list \<Rightarrow> check" where
  "check_each f i [] = None"
| "check_each f i (x # xs) = (case f i x of None \<Rightarrow> check_each f (Suc i) xs | Some e \<Rightarrow> Some e)"

lemma rbind_cong [fundef_cong]:
  "r = r' \<Longrightarrow> (\<And>x. r' = Ok x \<Longrightarrow> f x = g x) \<Longrightarrow> rbind r f = rbind r' g"
  by (cases r') auto

lemma check_each_cong [fundef_cong]:
  "xs = ys \<Longrightarrow> i = j \<Longrightarrow> (\<And>k x. x \<in> set ys \<Longrightarrow> f k x = g k x) \<Longrightarrow>
   check_each f i xs = check_each g j ys"
proof (induction ys arbitrary: xs i j)
  case (Cons y ys)
  then show ?case by (auto split: option.split)
qed simp

lemma rbind_eq_Ok [res_simps]: "rbind r f = Ok y \<longleftrightarrow> (\<exists>x. r = Ok x \<and> f x = Ok y)"
  by (cases r) auto

lemma rbind_eq_Err [res_simps]:
  "rbind r f = Err e \<longleftrightarrow> r = Err e \<or> (\<exists>x. r = Ok x \<and> f x = Err e)"
  by (cases r) auto

lemma rbind_eq_Panic [res_simps]:
  "rbind r f = Panic m \<longleftrightarrow> r = Panic m \<or> (\<exists>x. r = Ok x \<and> f x = Panic m)"
  by (cases r) auto

lemma map_err_eq_Ok [simp]: "map_err f r = Ok x \<longleftrightarrow> r = Ok x"
  by (cases r) auto

lemma map_err_eq_Panic [simp]: "map_err f r = Panic m \<longleftrightarrow> r = Panic m"
  by (cases r) auto

lemma map_err_eq_Err [res_simps]: "map_err f r = Err e \<longleftrightarrow> (\<exists>e'. r = Err e' \<and> e = f e')"
  by (cases r) auto

lemma rbind_assoc: "rbind (rbind r f) g = rbind r (\<lambda>x. rbind (f x) g)"
  by (cases r) auto

lemma check_seq_None [simp]: "check_seq cs = None \<longleftrightarrow> (\<forall>c\<in>set cs. c = None)"
  by (induction cs) (auto split: option.splits)

lemma fail_if_None [simp]: "fail_if b m = None \<longleftrightarrow> \<not> b"
  by (simp add: fail_if_def)

lemma fail_if_Some: "fail_if b m = Some e \<longleftrightarrow> b \<and> e = ErrorNew m"
  by (auto simp: fail_if_def)

lemma check_each_None [simp]:
  "check_each f i xs = None \<longleftrightarrow> (\<forall>j<length xs. f (i + j) (xs ! j) = None)"
proof (induction xs arbitrary: i)
  case (Cons x xs)
  have "(\<forall>j<length (x # xs). f (i + j) ((x # xs) ! j) = None) \<longleftrightarrow>
        f i x = None \<and> (\<forall>j<length xs. f (Suc i + j) (xs ! j) = None)"
    by (auto simp: less_Suc_eq_0_disj)
  then show ?case using Cons.IH [of "Suc i"] by (auto split: option.splits)
qed simp

declare check_seq.simps(2) [simp del] check_each.simps(2) [simp del]

section \<open>Machine integers\<close>

text \<open>
  Go's \<open>int\<close> (on the 64-bit platforms the module targets), \<open>int64\<close> and \<open>time.Duration\<close> are 64-bit
  two's complement. Their values are \<open>int\<close>s of that range; \<open>wrap64\<close> is the wrap-around of an
  arithmetic result.
\<close>

definition wrap64 :: "int \<Rightarrow> int" where
  "wrap64 i = signed_take_bit 63 i"

definition in_int64 :: "int \<Rightarrow> bool" where
  "in_int64 i \<longleftrightarrow> - (2 ^ 63) \<le> i \<and> i < 2 ^ 63"

lemma wrap64_id [simp]: "in_int64 i \<Longrightarrow> wrap64 i = i"
  unfolding wrap64_def in_int64_def by (rule signed_take_bit_int_eq_self) auto

lemma wrap64_range [simp]: "in_int64 (wrap64 i)"
  using signed_take_bit_int_greater_eq_minus_exp [of 63 i] signed_take_bit_int_less_exp [of 63 i]
  unfolding wrap64_def in_int64_def by simp

section \<open>Decimal conversion\<close>

definition digit_char :: "nat \<Rightarrow> char" where
  "digit_char d = char_of (48 + d)"

fun show_nat :: "nat \<Rightarrow> string" where
  "show_nat n = (if n < 10 then [digit_char n] else show_nat (n div 10) @ [digit_char (n mod 10)])"

declare show_nat.simps [simp del]

definition itoa :: "int \<Rightarrow> string" where
  "itoa i = (if i < 0 then ''-'' @ show_nat (nat (- i)) else show_nat (nat i))"

definition is_digit :: "char \<Rightarrow> bool" where
  "is_digit c \<longleftrightarrow> 48 \<le> (of_char c :: nat) \<and> (of_char c :: nat) \<le> 57"

fun digits_val :: "nat \<Rightarrow> string \<Rightarrow> nat" where
  "digits_val acc [] = acc"
| "digits_val acc (c # cs) = digits_val (10 * acc + (of_char c - 48)) cs"

definition parse_digits :: "string \<Rightarrow> nat option" where
  "parse_digits s = (if s \<noteq> [] \<and> list_all is_digit s then Some (digits_val 0 s) else None)"

text \<open>\<open>strconv.Atoi\<close>: an optional sign, at least one decimal digit, and the 64-bit range.\<close>

definition atoi :: "string \<Rightarrow> int option" where
  "atoi s =
    (let (neg, ds) = (case s of
           [] \<Rightarrow> (False, [])
         | c # cs \<Rightarrow> if c = CHR ''-'' then (True, cs)
                   else if c = CHR ''+'' then (False, cs) else (False, c # cs))
     in case parse_digits ds of
          None \<Rightarrow> None
        | Some n \<Rightarrow> (let i = (if neg then - int n else int n)
                   in if in_int64 i then Some i else None))"

lemma of_char_digit_char [simp]: "d < 10 \<Longrightarrow> (of_char (digit_char d) :: nat) = 48 + d"
  by (simp add: digit_char_def of_char_of)

lemma is_digit_digit_char [simp]: "d < 10 \<Longrightarrow> is_digit (digit_char d)"
  by (simp add: is_digit_def)

lemma show_nat_digits: "list_all is_digit (show_nat n) \<and> show_nat n \<noteq> []"
proof (induction n rule: show_nat.induct)
  case (1 n)
  then show ?case by (cases "n < 10") (auto simp: show_nat.simps [of n])
qed

lemma digits_val_append: "digits_val a (xs @ ys) = digits_val (digits_val a xs) ys"
  by (induction xs arbitrary: a) auto

lemma digits_val_show_nat: "digits_val 0 (show_nat n) = n"
proof (induction n rule: show_nat.induct)
  case (1 n)
  show ?case
  proof (cases "n < 10")
    case True
    then show ?thesis by (simp add: show_nat.simps [of n])
  next
    case False
    with 1 have "digits_val 0 (show_nat (n div 10)) = n div 10" by simp
    with False show ?thesis by (simp add: show_nat.simps [of n] digits_val_append)
  qed
qed

lemma parse_digits_show_nat [simp]: "parse_digits (show_nat n) = Some n"
  using show_nat_digits [of n] by (simp add: parse_digits_def digits_val_show_nat)

lemma show_nat_inj: "show_nat m = show_nat n \<Longrightarrow> m = n"
  by (metis digits_val_show_nat)

lemma show_nat_hd: "\<exists>c cs. show_nat n = c # cs \<and> is_digit c"
  using show_nat_digits [of n] by (cases "show_nat n") auto

lemma not_digit_sign [simp]: "\<not> is_digit CHR ''-''" "\<not> is_digit CHR ''+''" "\<not> is_digit CHR '':''"
  by (simp_all add: is_digit_def)

lemma atoi_itoa:
  assumes "in_int64 i"
  shows "atoi (itoa i) = Some i"
proof (cases "i < 0")
  case True
  then show ?thesis using assms by (simp add: atoi_def itoa_def)
next
  case False
  obtain c cs where c: "show_nat (nat i) = c # cs" "is_digit c"
    using show_nat_hd by blast
  then have "c \<noteq> CHR ''-''" "c \<noteq> CHR ''+''" by auto
  with c have "parse_digits (c # cs) = Some (nat i)" by (metis parse_digits_show_nat)
  with False c \<open>c \<noteq> CHR ''-''\<close> \<open>c \<noteq> CHR ''+''\<close> assms show ?thesis
    by (simp add: atoi_def itoa_def)
qed

lemma itoa_inj: "itoa i = itoa j \<Longrightarrow> in_int64 i \<Longrightarrow> in_int64 j \<Longrightarrow> i = j"
  by (metis atoi_itoa option.inject)

lemma itoa_no_colon: "CHR '':'' \<notin> set (itoa i)"
proof -
  have "\<not> (CHR '':'' \<in> set (show_nat n))" for n
    using show_nat_digits [of n] not_digit_sign(3) by (auto simp: list_all_iff)
  then show ?thesis by (simp add: itoa_def)
qed

section \<open>Go maps as association lists\<close>

text \<open>
  A Go map is an association list with distinct keys. Reading is \<open>map_of\<close>, assignment is
  \<open>AList.update\<close>. Go leaves the order in which \<open>range\<close> visits a map open; here it is the order
  of the list, and a theorem over all lists covers every order.
\<close>

abbreviation distinct_keys :: "('k \<times> 'v) list \<Rightarrow> bool" where
  "distinct_keys m \<equiv> distinct (map fst m)"

lemma map_of_update [simp]: "map_of (AList.update k v m) = (map_of m)(k \<mapsto> v)"
  by (rule update_conv')

lemma distinct_keys_update [simp]: "distinct_keys m \<Longrightarrow> distinct_keys (AList.update k v m)"
  by (rule distinct_update)

lemma map_of_filter_snd:
  "distinct_keys m \<Longrightarrow> map_of (filter (\<lambda>kv. P (snd kv)) m) k =
   (case map_of m k of None \<Rightarrow> None | Some v \<Rightarrow> if P v then Some v else None)"
proof (induction m)
  case (Cons a m)
  have "fst a \<notin> fst ` set m" using Cons.prems by simp
  then have "map_of m (fst a) = None" by (simp add: map_of_eq_None_iff)
  with Cons show ?case by (cases a) (auto split: option.splits)
qed simp

lemma distinct_keys_filter [simp]: "distinct_keys m \<Longrightarrow> distinct_keys (filter P m)"
  by (simp add: distinct_map_filter)

lemma map_of_in_set: "map_of m k = Some v \<Longrightarrow> (k, v) \<in> set m"
  by (rule map_of_SomeD)

section \<open>Bounds\<close>

text \<open>A property that more fuel preserves and that each element of a list gets with some fuel holds for all of them at once.\<close>

lemma uniform_bound:
  fixes P :: "nat \<Rightarrow> 'a \<Rightarrow> bool"
  assumes "\<And>x. x \<in> set xs \<Longrightarrow> \<exists>n. P n x" and "\<And>m n x. P m x \<Longrightarrow> m \<le> n \<Longrightarrow> P n x"
  shows "\<exists>n. \<forall>x\<in>set xs. P n x"
  using assms(1)
proof (induction xs)
  case (Cons x xs)
  then obtain n where n: "\<forall>x\<in>set xs. P n x" by auto
  obtain m where "P m x" using Cons.prems [of x] by auto
  with n assms(2) have "P (max n m) x" "\<forall>x\<in>set xs. P (max n m) x"
    by (meson max.cobounded1 max.cobounded2)+
  then show ?case by auto
qed simp

section \<open>Operations on an external state\<close>

text \<open>A call of a database, a queue or a store: the result, and the new state of the system called.\<close>

type_synonym ('s, 'r) op = "'s \<Rightarrow> 'r res \<times> 's"

text \<open>Sequencing of operations, and the wrapping of their errors.\<close>

definition op_bind :: "('s, 'a) op \<Rightarrow> ('a \<Rightarrow> ('s, 'b) op) \<Rightarrow> ('s, 'b) op" where
  "op_bind f g s =
    (case f s of
       (Ok a, s1) \<Rightarrow> g a s1
     | (Err e, s1) \<Rightarrow> (Err e, s1)
     | (Panic m, s1) \<Rightarrow> (Panic m, s1)
     | (Crash m, s1) \<Rightarrow> (Crash m, s1))"

definition op_return :: "'a res \<Rightarrow> ('s, 'a) op" where
  "op_return r s = (r, s)"

definition op_wrap :: "string \<Rightarrow> ('s, 'a) op \<Rightarrow> ('s, 'a) op" where
  "op_wrap p f s = (case f s of (r, s1) \<Rightarrow> (wrap_err p r, s1))"

text \<open>The callers that log an error and go on: only the state remains.\<close>

definition op_log :: "('s, 'a) op \<Rightarrow> 's \<Rightarrow> 's" where
  "op_log f s = snd (f s)"

lemma op_bind_eq:
  "op_bind f g s = (r, s2) \<longleftrightarrow>
    (\<exists>a s1. f s = (Ok a, s1) \<and> g a s1 = (r, s2)) \<or> (\<exists>e. f s = (Err e, s2) \<and> r = Err e) \<or>
    (\<exists>m. f s = (Panic m, s2) \<and> r = Panic m) \<or> (\<exists>m. f s = (Crash m, s2) \<and> r = Crash m)"
  by (cases "f s", cases "fst (f s)") (auto simp: op_bind_def)

lemma snd_op_wrap [simp]: "snd (op_wrap m f s) = snd (f s)"
  by (simp add: op_wrap_def split: prod.split)

lemma snd_op_return [simp]: "snd (op_return r s) = s" and fst_op_return [simp]: "fst (op_return r s) = r"
  by (simp_all add: op_return_def)

lemma op_return_eq [simp]: "op_return r s = (q, s') \<longleftrightarrow> q = r \<and> s' = s"
  by (auto simp: op_return_def)

lemma snd_op_bind_return [simp]: "snd (op_bind f (\<lambda>a. op_return (g a)) s) = snd (f s)"
  by (cases "f s"; cases "fst (f s)") (auto simp: op_bind_def op_return_def)

lemma op_bind_return [simp]: "op_bind (op_return r) g s = (case r of Ok a \<Rightarrow> g a s | Err e \<Rightarrow> (Err e, s) | Panic m \<Rightarrow> (Panic m, s) | Crash m \<Rightarrow> (Crash m, s))"
  by (simp add: op_bind_def op_return_def)

lemma snd_op_bind:
  "P (snd (f s)) \<Longrightarrow> (\<And>a. fst (f s) = Ok a \<Longrightarrow> P (snd (g a (snd (f s))))) \<Longrightarrow> P (snd (op_bind f g s))"
  by (cases "f s"; cases "fst (f s)") (auto simp: op_bind_def)

lemma op_wrap_Ok: "op_wrap m f s = (Ok a, s') \<longleftrightarrow> f s = (Ok a, s')"
  by (cases "f s"; cases "fst (f s)") (auto simp: op_wrap_def)

section \<open>Loops with fuel\<close>

text \<open>
  A loop as a function of fuel: \<open>once f c\<close> is one iteration at the configuration \<open>c\<close>, which goes on (\<open>Inl\<close>), ends (\<open>Inr\<close>) or lacks fuel. If an
  iteration keeps its result when it gets more fuel, so does the loop; a result is reached by a sequence of iterations; and a rank
  that every iteration decreases bounds the fuel that is needed.
\<close>

locale fuelled_loop =
  fixes once :: "nat \<Rightarrow> 'c \<Rightarrow> ('c + 'r) option" and loop :: "nat \<Rightarrow> 'c \<Rightarrow> 'r option"
  assumes loop_0: "loop 0 c = None"
    and loop_Suc: "loop (Suc f) c = (case once f c of None \<Rightarrow> None | Some (Inr r) \<Rightarrow> Some r | Some (Inl c') \<Rightarrow> loop f c')"
    and once_mono: "f \<le> g \<Longrightarrow> once f c = Some q \<Longrightarrow> once g c = Some q"
begin

lemma loop_mono: "loop f c = Some r \<Longrightarrow> f \<le> g \<Longrightarrow> loop g c = Some r"
proof (induction f arbitrary: g c)
  case (Suc f)
  then obtain g' where g: "g = Suc g'" "f \<le> g'" by (cases g) auto
  from Suc.prems(1) obtain q where q: "once f c = Some q" by (auto simp: loop_Suc split: option.splits)
  with once_mono [OF g(2) q] Suc.prems(1) Suc.IH [OF _ g(2)] show ?case
    by (auto simp: g(1) loop_Suc split: sum.splits)
qed (simp add: loop_0)

lemma loop_trace:
  "loop f c = Some r \<Longrightarrow> \<exists>c' g. (\<lambda>a b. \<exists>n. once n a = Some (Inl b))\<^sup>*\<^sup>* c c' \<and> once g c' = Some (Inr r)"
proof (induction f arbitrary: c)
  case (Suc f)
  then obtain q where q: "once f c = Some q" by (auto simp: loop_Suc split: option.splits)
  show ?case
  proof (cases q)
    case (Inl c1)
    with q Suc.prems have "loop f c1 = Some r" by (simp add: loop_Suc)
    from Suc.IH [OF this] q Inl show ?thesis by (metis (mono_tags, lifting) converse_rtranclp_into_rtranclp)
  next
    case (Inr r')
    with q Suc.prems have "once f c = Some (Inr r)" by (simp add: loop_Suc)
    then show ?thesis by blast
  qed
qed (simp add: loop_0)

lemma loop_returns:
  assumes "\<And>n c c'. once n c = Some (Inl c') \<Longrightarrow> rank c' < (rank c :: nat)" and "\<And>g c. f \<le> g \<Longrightarrow> once g c \<noteq> None"
  shows "f + rank c < n \<Longrightarrow> loop n c \<noteq> None"
proof (induction n arbitrary: c)
  case (Suc n)
  then obtain q where q: "once n c = Some q" using assms(2) [of n c] by auto
  show ?case
  proof (cases q)
    case (Inl c')
    with q assms(1) Suc.prems have "f + rank c' < n" by (metis add_less_cancel_left less_Suc_eq_le less_le_trans)
    with Suc.IH q Inl show ?thesis by (simp add: loop_Suc)
  qed (use q in \<open>simp add: loop_Suc\<close>)
qed simp

end

end
