(* ===== verification/GoValue.thy ===== *)
theory GoValue
  imports Prelude "HOL-Library.Log_Nat"
begin

text \<open>
  The dynamic values that flow through a state machine: what a Go \<open>interface{}\<close> holds after
  decoding JSON or after a task handler returned it.

  \<^item> \<open>f64\<close> is an IEEE 754 double: the finite values are rationals, with the two infinities and
    one NaN. The sign of zero is not represented: no operation of the modelled code observes it.
    Comparisons follow IEEE (every comparison with NaN is false), \<open>round_f64\<close> is rounding to
    nearest, ties to even, and \<open>f64_to_int64\<close> is the conversion to \<open>int64\<close> of the amd64 target.
  \<^item> \<open>gval\<close> has one constructor per dynamic type the sources distinguish in a type switch or a
    type assertion. A map is an association list (see \<open>Prelude\<close>), a nil map inside an interface
    is the empty map. Instants (\<open>time.Time\<close>) are nanoseconds since the Unix epoch.
\<close>

section \<open>Doubles\<close>

datatype f64 = NaN | NegInf | Fin rat | PosInf

instantiation f64 :: ord
begin

fun less_eq_f64 :: "f64 \<Rightarrow> f64 \<Rightarrow> bool" where
  "less_eq_f64 NaN b = False"
| "less_eq_f64 a NaN = False"
| "less_eq_f64 NegInf b = True"
| "less_eq_f64 a PosInf = True"
| "less_eq_f64 (Fin x) (Fin y) = (x \<le> y)"
| "less_eq_f64 a b = False"

fun less_f64 :: "f64 \<Rightarrow> f64 \<Rightarrow> bool" where
  "less_f64 (Fin x) (Fin y) = (x < y)"
| "less_f64 NegInf (Fin y) = True"
| "less_f64 NegInf PosInf = True"
| "less_f64 (Fin x) PosInf = True"
| "less_f64 a b = False"

instance ..

end

definition f64_eq :: "f64 \<Rightarrow> f64 \<Rightarrow> bool" where
  "f64_eq a b \<longleftrightarrow> a \<le> b \<and> b \<le> a"

definition ilog2 :: "rat \<Rightarrow> int" where
  "ilog2 x = (let (p, q) = quotient_of x; l = bitlen p - bitlen q
              in if 2 powi l \<le> x then l else l - 1)"

definition round_half_even :: "rat \<Rightarrow> int" where
  "round_half_even x =
    (let f = \<lfloor>x\<rfloor>; d = x - of_int f
     in if d < 1 / 2 then f else if 1 / 2 < d then f + 1 else if even f then f else f + 1)"

definition round_f64 :: "rat \<Rightarrow> f64" where
  "round_f64 x =
    (if x = 0 then Fin 0
     else let e = max (ilog2 \<bar>x\<bar> - 52) (- 1074);
              y = of_int (round_half_even (\<bar>x\<bar> / 2 powi e)) * 2 powi e
          in if 2 powi 1024 \<le> y then (if x < 0 then NegInf else PosInf) else Fin (sgn x * y))"

definition f64_of_int :: "int \<Rightarrow> f64" where
  "f64_of_int i = round_f64 (of_int i)"

fun f64_sgn :: "f64 \<Rightarrow> rat" where
  "f64_sgn NegInf = - 1"
| "f64_sgn PosInf = 1"
| "f64_sgn (Fin x) = sgn x"
| "f64_sgn NaN = 0"

fun f64_mul :: "f64 \<Rightarrow> f64 \<Rightarrow> f64" where
  "f64_mul (Fin x) (Fin y) = round_f64 (x * y)"
| "f64_mul a b =
     (if f64_sgn a * f64_sgn b = 0 then NaN
      else if f64_sgn a * f64_sgn b < 0 then NegInf else PosInf)"

fun f64_add :: "f64 \<Rightarrow> f64 \<Rightarrow> f64" where
  "f64_add (Fin x) (Fin y) = round_f64 (x + y)"
| "f64_add NaN b = NaN"
| "f64_add a NaN = NaN"
| "f64_add PosInf NegInf = NaN"
| "f64_add NegInf PosInf = NaN"
| "f64_add PosInf b = PosInf"
| "f64_add a PosInf = PosInf"
| "f64_add NegInf b = NegInf"
| "f64_add a NegInf = NegInf"

definition truncate_rat :: "rat \<Rightarrow> int" where
  "truncate_rat x = (if x < 0 then \<lceil>x\<rceil> else \<lfloor>x\<rfloor>)"

fun f64_to_int64 :: "f64 \<Rightarrow> int" where
  "f64_to_int64 (Fin x) = (if in_int64 (truncate_rat x) then truncate_rat x else - (2 ^ 63))"
| "f64_to_int64 _ = - (2 ^ 63)"

lemma round_half_even_of_int [simp]: "round_half_even (of_int i) = i"
  by (simp add: round_half_even_def)

lemma ilog2_of_int:
  assumes "0 < i"
  shows "ilog2 (of_int i) = bitlen i - 1"
proof -
  have q: "quotient_of (of_int i :: rat) = (i, 1)" by simp
  have b1: "bitlen 1 = 1" by (simp add: bitlen_def floorlog_def)
  have "2 ^ nat (bitlen i - 1) \<le> i" using assms bitlen_bounds [of i] by simp
  then have "(of_int (2 ^ nat (bitlen i - 1)) :: rat) \<le> of_int i" by (simp only: of_int_le_iff)
  moreover have "0 \<le> bitlen i - 1" using assms bitlen_bounds [of i] by (cases "bitlen i \<le> 0") auto
  ultimately have "(2 :: rat) powi (bitlen i - 1) \<le> of_int i"
    by (simp add: power_int_def)
  then show ?thesis by (simp add: ilog2_def q b1)
qed

lemma round_f64_pos_int:
  assumes "0 < i" "i < 2 ^ 53"
  shows "round_f64 (of_int i) = Fin (of_int i)"
proof -
  define e where "e = max (ilog2 (of_int i) - 52) (- 1074)"
  have "2 ^ nat (bitlen i - 1) \<le> i" using assms(1) bitlen_bounds [of i] by simp
  then have "2 ^ nat (bitlen i - 1) < (2 :: int) ^ 53" using assms(2) by linarith
  then have "nat (bitlen i - 1) < 53" by (rule power_less_imp_less_exp [rotated]) simp
  then have "e \<le> 0" by (simp add: e_def ilog2_of_int [OF assms(1)])
  then obtain k where k: "e = - int k" by (metis nonneg_int_cases neg_0_le_iff_le add.inverse_inverse)
  have div: "(of_int i :: rat) / 2 powi e = of_int (i * 2 ^ k)"
    by (simp add: k power_int_minus field_simps)
  have "round_half_even ((of_int i :: rat) / 2 powi e) = i * 2 ^ k"
    unfolding div by (rule round_half_even_of_int)
  then have y: "of_int (round_half_even ((of_int i :: rat) / 2 powi e)) * 2 powi e = (of_int i :: rat)"
    by (simp add: k power_int_minus field_simps)
  have "(of_int i :: rat) < of_int (2 ^ 53)" using assms(2) by (simp only: of_int_less_iff)
  also have "\<dots> \<le> 2 powi 1024" by (simp add: power_int_def)
  finally have lt: "\<not> 2 powi 1024 \<le> (of_int i :: rat)" by simp
  show ?thesis using assms(1) lt y unfolding round_f64_def e_def by (simp add: Let_def)
qed

lemma round_f64_uminus:
  "round_f64 x = Fin y \<Longrightarrow> round_f64 (- x) = Fin (- y)"
  by (auto simp: round_f64_def Let_def sgn_if split: if_splits)

lemma f64_of_int_exact:
  assumes "\<bar>i\<bar> < 2 ^ 53"
  shows "f64_of_int i = Fin (of_int i)"
proof (cases "0 < i")
  case True
  with assms show ?thesis by (simp add: f64_of_int_def round_f64_pos_int)
next
  case False
  show ?thesis
  proof (cases "i = 0")
    case True
    then show ?thesis by (simp add: f64_of_int_def round_f64_def)
  next
    case ne: False
    with False assms have "round_f64 (of_int (- i)) = Fin (of_int (- i))"
      by (intro round_f64_pos_int) auto
    then show ?thesis using round_f64_uminus [of "of_int (- i)"] by (simp add: f64_of_int_def)
  qed
qed

lemma f64_to_int64_range [simp]: "in_int64 (f64_to_int64 x)"
  by (cases x) (auto simp: in_int64_def)

section \<open>Dynamic values\<close>

datatype ikind = KInt | KInt8 | KInt16 | KInt32 | KInt64 | KUint | KUint8 | KUint16 | KUint32 | KUint64

datatype gval =
    GNil
  | GBool bool
  | GString string
  | GFloat64 f64
  | GFloat32 f64
  | GInteger ikind int
  | GNumber string
  | GTime int
  | GMap "(string \<times> gval) list"
  | GSlice "gval list"
  | GMapSlice "(string \<times> gval) list list"
  | GMessageStateResult string string gval gval int "int option"
  | GRuntimeError string

type_synonym gmap = "(string \<times> gval) list"

text \<open>\<open>GMessageStateResult status correlationKey correlationValue inputData createdAt timeoutAt\<close> is a
  pointer to a \<open>MessageStateResult\<close> with its \<open>CorrelationData\<close>; \<open>GRuntimeError\<close> is the value a
  recovered runtime panic carries.\<close>

fun type_name :: "gval \<Rightarrow> string" where
  "type_name GNil = ''<nil>''"
| "type_name (GBool _) = ''bool''"
| "type_name (GString _) = ''string''"
| "type_name (GFloat64 _) = ''float64''"
| "type_name (GFloat32 _) = ''float32''"
| "type_name (GInteger KInt _) = ''int''"
| "type_name (GInteger KInt8 _) = ''int8''"
| "type_name (GInteger KInt16 _) = ''int16''"
| "type_name (GInteger KInt32 _) = ''int32''"
| "type_name (GInteger KInt64 _) = ''int64''"
| "type_name (GInteger KUint _) = ''uint''"
| "type_name (GInteger KUint8 _) = ''uint8''"
| "type_name (GInteger KUint16 _) = ''uint16''"
| "type_name (GInteger KUint32 _) = ''uint32''"
| "type_name (GInteger KUint64 _) = ''uint64''"
| "type_name (GNumber _) = ''json.Number''"
| "type_name (GTime _) = ''time.Time''"
| "type_name (GMap _) = ''map[string]interface {}''"
| "type_name (GSlice _) = ''[]interface {}''"
| "type_name (GMapSlice _) = ''[]map[string]interface {}''"
| "type_name (GMessageStateResult _ _ _ _ _ _) = ''*states.MessageStateResult''"
| "type_name (GRuntimeError _) = ''runtime.Error''"

fun is_map :: "gval \<Rightarrow> bool" where
  "is_map (GMap _) = True"
| "is_map _ = False"

text \<open>Well-formed values: the keys of every map are distinct, as they are in Go.\<close>

fun wf_gval :: "gval \<Rightarrow> bool"
  and wf_fields :: "gmap \<Rightarrow> bool"
  and wf_elems :: "gval list \<Rightarrow> bool"
  and wf_maps :: "gmap list \<Rightarrow> bool" where
  "wf_gval (GMap m) = (distinct_keys m \<and> wf_fields m)"
| "wf_gval (GSlice xs) = wf_elems xs"
| "wf_gval (GMapSlice ms) = wf_maps ms"
| "wf_gval (GMessageStateResult _ _ v w _ _) = (wf_gval v \<and> wf_gval w)"
| "wf_gval _ = True"
| "wf_fields [] = True"
| "wf_fields ((k, v) # m) = (wf_gval v \<and> wf_fields m)"
| "wf_elems [] = True"
| "wf_elems (x # xs) = (wf_gval x \<and> wf_elems xs)"
| "wf_maps [] = True"
| "wf_maps (m # ms) = (distinct_keys m \<and> wf_fields m \<and> wf_maps ms)"

abbreviation wf_gmap :: "gmap \<Rightarrow> bool" where
  "wf_gmap m \<equiv> distinct_keys m \<and> wf_fields m"

lemma wf_fields_iff: "wf_fields m \<longleftrightarrow> (\<forall>(k, v) \<in> set m. wf_gval v)"
  by (induction m) auto

lemma wf_elems_iff: "wf_elems xs \<longleftrightarrow> (\<forall>x \<in> set xs. wf_gval x)"
  by (induction xs) auto

lemma wf_maps_iff: "wf_maps ms \<longleftrightarrow> (\<forall>m \<in> set ms. wf_gmap m)"
  by (induction ms) auto

lemma wf_fields_lookup: "wf_fields m \<Longrightarrow> map_of m k = Some v \<Longrightarrow> wf_gval v"
  by (auto simp: wf_fields_iff dest!: map_of_in_set)

lemma wf_fields_update [simp]: "wf_fields m \<Longrightarrow> wf_gval v \<Longrightarrow> wf_fields (AList.update k v m)"
  by (induction m) auto

lemma wf_fields_filter [simp]: "wf_fields m \<Longrightarrow> wf_fields (filter P m)"
  by (auto simp: wf_fields_iff)

end
