(* ===== verification/Jsonpath.thy ===== *)
theory Jsonpath
  imports GoValue
begin

text \<open>
  The JSONPath processor of \<open>internal/states/jsonpath.go\<close>: reading a value at a path, building and
  merging a value at a path, expanding parameter templates. One definition per function, with the
  function's name; a Go \<open>for\<close> loop is a recursion over what is left to visit.

  The lemmas give: the printed form of a path is parsed back (\<open>render\<close>), a value wrapped
  at a path is read back there, the value written by \<open>setValue\<close> into a map is read back and the other
  keys keep their values, and what \<open>mergeMaps\<close> holds at each key.
\<close>

section \<open>Strings\<close>

definition HasPrefix :: "string \<Rightarrow> string \<Rightarrow> bool" where
  "HasPrefix s p \<longleftrightarrow> take (length p) s = p"

definition TrimPrefix :: "string \<Rightarrow> string \<Rightarrow> string" where
  "TrimPrefix s p = (if HasPrefix s p then drop (length p) s else s)"

section \<open>Paths\<close>

fun splitPath_loop :: "string \<Rightarrow> string list \<Rightarrow> string \<Rightarrow> bool \<Rightarrow> string list" where
  "splitPath_loop [] parts cur inBrackets = (if cur \<noteq> [] then parts @ [cur] else parts)"
| "splitPath_loop (ch # cs) parts cur inBrackets =
     (if ch = CHR ''.'' then
        if \<not> inBrackets then
          if cur \<noteq> [] then splitPath_loop cs (parts @ [cur]) [] inBrackets
          else splitPath_loop cs parts cur inBrackets
        else splitPath_loop cs parts (cur @ [ch]) inBrackets
      else if ch = CHR ''['' then
        if \<not> inBrackets then
          if cur \<noteq> [] then splitPath_loop cs (parts @ [cur]) [ch] True
          else splitPath_loop cs parts (cur @ [ch]) True
        else splitPath_loop cs parts (cur @ [ch]) inBrackets
      else if ch = CHR '']'' then
        if inBrackets then splitPath_loop cs (parts @ [cur @ [ch]]) [] False
        else splitPath_loop cs parts (cur @ [ch]) inBrackets
      else splitPath_loop cs parts (cur @ [ch]) inBrackets)"

definition splitPath :: "string \<Rightarrow> string list" where
  "splitPath path = splitPath_loop path [] [] False"

definition isArrayIndexPart :: "string \<Rightarrow> bool" where
  "isArrayIndexPart part \<longleftrightarrow> part \<noteq> [] \<and> hd part = CHR ''['' \<and> last part = CHR '']''"

text \<open>The slice \<open>part[1 : len(part)-1]\<close> of an index part.\<close>

definition index_text :: "string \<Rightarrow> string" where
  "index_text part = butlast (tl part)"

section \<open>Reading\<close>

definition slice_index :: "gval list \<Rightarrow> int \<Rightarrow> gval res" where
  "slice_index arr index =
    (if index < 0 \<or> int (length arr) \<le> index then Err (ErrorNew ''array index out of bounds'')
     else Ok (arr ! nat index))"

definition handleArrayIndex :: "gval \<Rightarrow> string \<Rightarrow> gval res" where
  "handleArrayIndex current part =
    (case atoi (index_text part) of
       None \<Rightarrow> Err (ErrorNew (''invalid array index: '' @ part))
     | Some index \<Rightarrow>
         (case current of
            GSlice arr \<Rightarrow> slice_index arr index
          | GMapSlice arrOfMaps \<Rightarrow> slice_index (map GMap arrOfMaps) index
          | _ \<Rightarrow> Err (ErrorNew ''cannot index non-array'')))"

definition extractFieldValue :: "gmap \<Rightarrow> string \<Rightarrow> gval res" where
  "extractFieldValue obj field =
    (case map_of obj field of
       None \<Rightarrow> Err (ErrorNew (''field '' @ [CHR 0x27] @ field @ [CHR 0x27] @ '' not found''))
     | Some val \<Rightarrow> Ok val)"

definition conversion_panic :: "gval \<Rightarrow> string" where
  "conversion_panic v =
    (if v = GNil then ''interface conversion: interface {} is nil, not map[string]interface {}''
     else ''interface conversion: interface {} is '' @ type_name v @ '', not map[string]interface {}'')"

definition handleObjectField :: "gval \<Rightarrow> string \<Rightarrow> gval res" where
  "handleObjectField current part =
    (case current of
       GMap rootObj \<Rightarrow>
         (case map_of rootObj ''$'' of
            Some (GMap obj) \<Rightarrow> extractFieldValue obj part
          | Some v \<Rightarrow> Panic (conversion_panic v)
          | None \<Rightarrow> extractFieldValue rootObj part)
     | _ \<Rightarrow> Err (ErrorNew (''cannot access root-field '' @ [CHR 0x27] @ part @ [CHR 0x27] @
                          '' on type '' @ type_name current)))"

fun get_parts :: "string list \<Rightarrow> gval \<Rightarrow> gval res" where
  "get_parts [] current = Ok current"
| "get_parts (part # parts) current =
     (if part = [] then get_parts parts current
      else if isArrayIndexPart part then rbind (handleArrayIndex current part) (get_parts parts)
      else rbind (handleObjectField current part) (get_parts parts))"

definition path_parts :: "string \<Rightarrow> string list" where
  "path_parts path = splitPath (TrimPrefix (TrimPrefix path ''$'') ''.'')"

abbreviation not_rooted :: err where
  "not_rooted \<equiv> ErrorNew (''path must start with '' @ [CHR 0x27, CHR ''$'', CHR 0x27])"

definition getValue :: "gval \<Rightarrow> string \<Rightarrow> gval res" where
  "getValue data path =
    (if path = ''$'' then Ok data
     else if \<not> HasPrefix path ''$'' then Err not_rooted
     else get_parts (path_parts path) data)"

section \<open>Writing\<close>

text \<open>
  \<open>make([]interface{}, index+1)\<close> panics for a negative length and for one beyond what the runtime
  can address (\<open>2 ^ 44\<close> interface values of 16 bytes on amd64); with \<open>index = -1\<close> the empty slice is
  made and the assignment to \<open>arr[-1]\<close> panics.
\<close>

definition make_indexed :: "int \<Rightarrow> gval \<Rightarrow> gval res" where
  "make_indexed index v =
    (if index = - 1 then Panic ''runtime error: index out of range [-1]''
     else if index < 0 \<or> 2 ^ 44 \<le> index then Panic ''runtime error: makeslice: len out of range''
     else Ok (GSlice (replicate (nat index) GNil @ [v])))"

definition wrap_part :: "string \<Rightarrow> gval \<Rightarrow> gval res" where
  "wrap_part part v =
    (if part = [] then Ok v
     else if isArrayIndexPart part then
       (case atoi (index_text part) of
          None \<Rightarrow> Err (ErrorNew (''invalid array index: '' @ part))
        | Some index \<Rightarrow> make_indexed index v)
     else Ok (GMap [(part, v)]))"

text \<open>The loop from the last part to the first.\<close>

fun wrap_parts :: "string list \<Rightarrow> gval \<Rightarrow> gval res" where
  "wrap_parts [] v = Ok v"
| "wrap_parts (part # parts) v = rbind (wrap_parts parts v) (wrap_part part)"

definition wrapValue :: "string \<Rightarrow> gval \<Rightarrow> gval res" where
  "wrapValue path value =
    (if path = ''$'' then Ok value
     else if \<not> HasPrefix path ''$'' then Err not_rooted
     else wrap_parts (path_parts path) value)"

fun merge_into :: "gmap \<Rightarrow> gmap \<Rightarrow> gmap" where
  "merge_into result [] = result"
| "merge_into result ((k, v) # b) =
     (if v = GNil then merge_into result b
      else merge_into
        (AList.update k
          (case (map_of result k, v) of
             (Some (GMap aMap), GMap bMap) \<Rightarrow>
               GMap (merge_into (filter (\<lambda>kv. snd kv \<noteq> GNil) aMap) bMap)
           | _ \<Rightarrow> v)
          result)
        b)"

definition mergeMaps :: "gmap \<Rightarrow> gmap \<Rightarrow> gmap" where
  "mergeMaps a b = merge_into (filter (\<lambda>kv. snd kv \<noteq> GNil) a) b"

definition setValue :: "gval \<Rightarrow> string \<Rightarrow> gval \<Rightarrow> gval res" where
  "setValue data path value =
    (if path = ''$'' then Ok value
     else if \<not> HasPrefix path ''$'' then Err not_rooted
     else rbind (wrap_parts (path_parts path) value) (\<lambda>result.
       (case (data, result) of
          (GMap dataMap, GMap resultMap) \<Rightarrow> Ok (GMap (mergeMaps dataMap resultMap))
        | _ \<Rightarrow> Ok result)))"

section \<open>The three paths of a state\<close>

definition ApplyInputPath :: "gval \<Rightarrow> string option \<Rightarrow> gval res" where
  "ApplyInputPath input path =
    (case path of
       None \<Rightarrow> Ok input
     | Some p \<Rightarrow> if p = [] \<or> p = ''$'' then Ok input else getValue input p)"

definition ApplyResultPath :: "gval \<Rightarrow> gval \<Rightarrow> string option \<Rightarrow> gval res" where
  "ApplyResultPath input result path =
    (case path of
       None \<Rightarrow> Ok result
     | Some p \<Rightarrow> if p = [] then Ok result
               else if p = ''$'' then Ok result
               else setValue input p result)"

definition ApplyOutputPath :: "gval \<Rightarrow> string option \<Rightarrow> gval res" where
  "ApplyOutputPath output path =
    (case path of
       None \<Rightarrow> Ok output
     | Some p \<Rightarrow>
         if p = [] \<or> p = ''$'' then Ok output
         else (case getValue output p of
                 Err _ \<Rightarrow> wrapValue p output
               | r \<Rightarrow> r))"

section \<open>Templates\<close>

fun expandValue :: "gval \<Rightarrow> gval \<Rightarrow> gval res"
  and expandFields :: "gmap \<Rightarrow> gval \<Rightarrow> gmap res"
  and expandElems :: "gval list \<Rightarrow> gval \<Rightarrow> gval list res" where
  "expandValue (GString s) input = (if HasPrefix s ''$'' then getValue input s else Ok (GString s))"
| "expandValue (GMap m) input = rbind (expandFields m input) (\<lambda>r. Ok (GMap r))"
| "expandValue (GSlice xs) input = rbind (expandElems xs input) (\<lambda>r. Ok (GSlice r))"
| "expandValue v input = Ok v"
| "expandFields [] input = Ok []"
| "expandFields ((k, v) # m) input =
     rbind (expandValue v input) (\<lambda>v'. rbind (expandFields m input) (\<lambda>m'. Ok ((k, v') # m')))"
| "expandElems [] input = Ok []"
| "expandElems (x # xs) input =
     rbind (expandValue x input) (\<lambda>x'. rbind (expandElems xs input) (\<lambda>xs'. Ok (x' # xs')))"

fun ExpandParameters :: "gmap \<Rightarrow> gval \<Rightarrow> gmap res" where
  "ExpandParameters [] input = Ok []"
| "ExpandParameters ((k, v) # params) input =
     rbind (wrap_err (''failed to expand parameter '' @ [CHR 0x27] @ k @ [CHR 0x27]) (expandValue v input))
       (\<lambda>v'. rbind (ExpandParameters params input) (\<lambda>r. Ok ((k, v') # r)))"

definition SetValue :: "gval \<Rightarrow> string \<Rightarrow> gval \<Rightarrow> unit res" where
  "SetValue data path value = rbind (setValue data path value) (\<lambda>_. Ok ())"

definition Get :: "gval \<Rightarrow> string \<Rightarrow> gval res" where
  "Get data path = getValue data path"

definition Set_path :: "gval \<Rightarrow> string \<Rightarrow> gval \<Rightarrow> gval res" where
  "Set_path data path value = setValue data path value"

definition ExpandValue :: "gval \<Rightarrow> gval \<Rightarrow> gval res" where
  "ExpandValue value input = expandValue value input"

definition MergeMaps :: "gmap \<Rightarrow> gmap \<Rightarrow> gmap" where
  "MergeMaps a b = mergeMaps a b"

section \<open>Parsing: the printed form of a path is parsed back\<close>

text \<open>A path is a list of field names and array positions; \<open>render\<close> prints it as
  \<open>$.a.b[2].c\<close> and \<open>part_of\<close> is the part the splitter has to find for a segment.\<close>

datatype segment = Field string | Index nat

fun render_segment :: "segment \<Rightarrow> string" where
  "render_segment (Field f) = ''.'' @ f"
| "render_segment (Index i) = ''['' @ show_nat i @ '']''"

definition render :: "segment list \<Rightarrow> string" where
  "render segs = ''$'' @ concat (map render_segment segs)"

fun part_of :: "segment \<Rightarrow> string" where
  "part_of (Field f) = f"
| "part_of (Index i) = ''['' @ show_nat i @ '']''"

definition plain_char :: "char \<Rightarrow> bool" where
  "plain_char c \<longleftrightarrow> c \<noteq> CHR ''.'' \<and> c \<noteq> CHR ''['' \<and> c \<noteq> CHR '']''"

fun plain_segment :: "segment \<Rightarrow> bool" where
  "plain_segment (Field f) = (f \<noteq> [] \<and> list_all plain_char f)"
| "plain_segment (Index i) = True"

lemma is_digit_plain: "is_digit c \<Longrightarrow> plain_char c"
  by (auto simp: is_digit_def plain_char_def)

lemma show_nat_plain: "list_all plain_char (show_nat n)"
  using show_nat_digits [of n] is_digit_plain by (auto simp: list_all_iff)

lemma splitPath_loop_plain:
  "list_all plain_char n \<Longrightarrow>
   splitPath_loop (n @ rest) parts cur b = splitPath_loop rest parts (cur @ n) b"
  by (induction n arbitrary: cur) (auto simp: plain_char_def)

lemma splitPath_loop_flush:
  "cur \<noteq> [] \<Longrightarrow> segs \<noteq> [] \<Longrightarrow>
   splitPath_loop (concat (map render_segment segs)) parts cur False =
   splitPath_loop (concat (map render_segment segs)) (parts @ [cur]) [] False"
  by (cases segs; cases "hd segs") auto

lemma splitPath_loop_render:
  "list_all plain_segment segs \<Longrightarrow>
   splitPath_loop (concat (map render_segment segs)) parts [] False = parts @ map part_of segs"
proof (induction segs arbitrary: parts)
  case (Cons sg segs)
  show ?case
  proof (cases sg)
    case (Field f)
    with Cons.prems have f: "f \<noteq> []" "list_all plain_char f" by auto
    have "splitPath_loop (concat (map render_segment (sg # segs))) parts [] False =
          splitPath_loop (concat (map render_segment segs)) parts f False"
      using f(2) by (simp add: Field splitPath_loop_plain)
    also have "\<dots> = parts @ [f] @ map part_of segs"
      using Cons f(1) by (cases "segs = []") (auto simp: splitPath_loop_flush)
    finally show ?thesis by (simp add: Field)
  next
    case (Index i)
    with Cons show ?thesis by (simp add: splitPath_loop_plain show_nat_plain)
  qed
qed simp

lemma splitPath_TrimPrefix_dot: "splitPath (TrimPrefix s ''.'') = splitPath s"
  by (cases s) (auto simp: splitPath_def TrimPrefix_def HasPrefix_def)

lemma isArrayIndexPart_Index [simp]: "isArrayIndexPart (''['' @ s @ '']'')"
  by (simp add: isArrayIndexPart_def)

lemma isArrayIndexPart_Field [simp]: "list_all plain_char f \<Longrightarrow> \<not> isArrayIndexPart f"
  by (cases f) (auto simp: isArrayIndexPart_def plain_char_def)

lemma index_text_Index [simp]: "index_text (''['' @ s @ '']'') = s"
  by (simp add: index_text_def butlast_append)

section \<open>A value wrapped at a path is read back at that path\<close>

lemma get_parts_append: "get_parts (ps @ qs) v = rbind (get_parts ps v) (get_parts qs)"
  by (induction ps arbitrary: v) (auto simp: rbind_assoc intro!: rbind_cong)

lemma slice_index_made [simp]:
  "0 \<le> index \<Longrightarrow> slice_index (replicate (nat index) GNil @ [v]) index = Ok v"
  by (simp add: slice_index_def nth_append)

lemma get_wrap_part:
  assumes "wrap_part part v = Ok r" and "part \<noteq> ''$''"
  shows "get_parts [part] r = Ok v"
proof (cases "isArrayIndexPart part")
  case True
  with assms(1) obtain index where "part \<noteq> []" "atoi (index_text part) = Some index"
      "make_indexed index v = Ok r"
    by (auto simp: wrap_part_def isArrayIndexPart_def split: option.splits if_splits)
  then show ?thesis using True
    by (auto simp: make_indexed_def handleArrayIndex_def split: if_splits)
next
  case False
  with assms show ?thesis
    by (auto simp: wrap_part_def handleObjectField_def extractFieldValue_def)
qed

lemma get_wrap_parts:
  assumes "wrap_parts ps v = Ok r" and "''$'' \<notin> set ps"
  shows "get_parts ps r = Ok v"
  using assms
proof (induction ps arbitrary: r)
  case (Cons p ps)
  then obtain r' where r': "wrap_parts ps v = Ok r'" "wrap_part p r' = Ok r"
    by (auto simp: rbind_eq_Ok)
  from Cons.prems r'(2) have "get_parts [p] r = Ok r'" by (intro get_wrap_part) auto
  moreover have "get_parts ps r' = Ok v" using Cons r'(1) by auto
  ultimately show ?case using get_parts_append [of "[p]" ps r] by simp
qed simp

section \<open>What a merged map holds\<close>

definition nonnil :: "gval option \<Rightarrow> gval option" where
  "nonnil x = (if x = Some GNil then None else x)"

fun merge_opt :: "gval option \<Rightarrow> gval option \<Rightarrow> gval option" where
  "merge_opt x None = x"
| "merge_opt (Some (GMap a)) (Some (GMap b)) = Some (GMap (mergeMaps a b))"
| "merge_opt x (Some v) = Some v"

lemma merge_opt_not_map: "\<not> is_map v \<Longrightarrow> merge_opt x (Some v) = Some v"
  by (cases "(x, Some v)" rule: merge_opt.cases) auto

lemma merge_opt_old_not_map: "\<not> (\<exists>a. x = Some (GMap a)) \<Longrightarrow> merge_opt x (Some v) = Some v"
  by (cases "(x, Some v)" rule: merge_opt.cases) auto

lemma merged_value:
  "(case (map_of result k, v) of
      (Some (GMap aMap), GMap bMap) \<Rightarrow> GMap (merge_into (filter (\<lambda>kv. snd kv \<noteq> GNil) aMap) bMap)
    | _ \<Rightarrow> v) = the (merge_opt (map_of result k) (Some v))"
  by (cases "(map_of result k, Some v)" rule: merge_opt.cases)
    (auto simp: mergeMaps_def split: option.split gval.split)

lemma merge_opt_Some: "Some (the (merge_opt x (Some v))) = merge_opt x (Some v)"
  by (cases "(x, Some v)" rule: merge_opt.cases) auto

lemma merge_into_Cons:
  "merge_into result ((k, v) # b) =
     (if v = GNil then merge_into result b
      else merge_into (AList.update k (the (merge_opt (map_of result k) (Some v))) result) b)"
  by (simp only: merge_into.simps(2) merged_value)

declare merge_into.simps(2) [simp del]

lemma map_of_merge_into:
  "distinct_keys b \<Longrightarrow>
   map_of (merge_into result b) k = merge_opt (map_of result k) (nonnil (map_of b k))"
proof (induction b arbitrary: result)
  case Nil
  then show ?case by (simp add: nonnil_def)
next
  case (Cons kv b)
  obtain k' v where kv: "kv = (k', v)" by fastforce
  have fresh: "map_of b k' = None" using Cons.prems kv by (simp add: map_of_eq_None_iff)
  show ?case
    using Cons.IH Cons.prems fresh
    by (auto simp: kv merge_into_Cons nonnil_def merge_opt_Some)
qed

lemma map_of_mergeMaps:
  assumes "distinct_keys a" and "distinct_keys b"
  shows "map_of (mergeMaps a b) k = merge_opt (nonnil (map_of a k)) (nonnil (map_of b k))"
proof -
  have "map_of (filter (\<lambda>kv. snd kv \<noteq> GNil) a) k = nonnil (map_of a k)"
    using map_of_filter_snd [OF assms(1), of "\<lambda>v. v \<noteq> GNil" k]
    by (auto simp: nonnil_def split: option.splits)
  with assms(2) show ?thesis by (simp add: mergeMaps_def map_of_merge_into)
qed

lemma wf_merge_into:
  "wf_gmap r \<Longrightarrow> wf_gmap b \<Longrightarrow> wf_gmap (merge_into r b)"
proof (induction r b rule: merge_into.induct)
  case (2 r k v b)
  let ?w = "case (map_of r k, v) of
             (Some (GMap aMap), GMap bMap) \<Rightarrow>
               GMap (merge_into (filter (\<lambda>kv. snd kv \<noteq> GNil) aMap) bMap)
           | _ \<Rightarrow> v"
  show ?case
  proof (cases "v = GNil")
    case True
    with 2 show ?thesis by (simp add: merge_into.simps(2))
  next
    case False
    have "wf_gval ?w"
    proof (cases "\<exists>am bm. map_of r k = Some (GMap am) \<and> v = GMap bm")
      case True
      then obtain am bm where ab: "map_of r k = Some (GMap am)" "v = GMap bm" by blast
      then have "wf_gmap am" using "2.prems"(1) wf_fields_lookup by fastforce
      then have "wf_gmap (merge_into (filter (\<lambda>kv. snd kv \<noteq> GNil) am) bm)"
        using "2.IH"(2) [of "Some (GMap am)" v "GMap am" am bm] ab "2.prems"(2) False by simp
      then show ?thesis using ab by simp
    next
      case False
      then show ?thesis using "2.prems" by (auto split: option.splits gval.splits)
    qed
    then show ?thesis using "2.IH"(3) "2.prems" False by (simp add: merge_into.simps(2))
  qed
qed simp

lemma wf_mergeMaps: "wf_gmap a \<Longrightarrow> wf_gmap b \<Longrightarrow> wf_gmap (mergeMaps a b)"
  by (simp add: mergeMaps_def wf_merge_into)

section \<open>A value written into a map is read back\<close>

text \<open>
  \<open>path_clear ps m\<close>: the maps of \<open>m\<close> that the path visits have no key \<open>$\<close>. (The reader treats
  such a key as a wrapper of the whole object, see \<open>handleObjectField\<close>.)
\<close>

fun path_clear :: "string list \<Rightarrow> gmap \<Rightarrow> bool" where
  "path_clear [] m = True"
| "path_clear (p # ps) m =
     (if p = [] then path_clear ps m
      else map_of m ''$'' = None \<and>
           (case map_of m p of Some (GMap m') \<Rightarrow> path_clear ps m' | _ \<Rightarrow> True))"

lemma wrap_parts_not_nil: "wrap_parts ps v = Ok r \<Longrightarrow> v \<noteq> GNil \<Longrightarrow> r \<noteq> GNil"
proof (induction ps arbitrary: r)
  case (Cons p ps)
  then obtain r' where "wrap_parts ps v = Ok r'" "wrap_part p r' = Ok r" "r' \<noteq> GNil"
    by (auto simp: rbind_eq_Ok)
  then show ?case by (auto simp: wrap_part_def make_indexed_def split: if_splits option.splits)
qed simp

lemma wrap_part_GMap:
  "wrap_part p r = Ok (GMap m) \<Longrightarrow>
   p = [] \<and> r = GMap m \<or> p \<noteq> [] \<and> \<not> isArrayIndexPart p \<and> m = [(p, r)]"
  by (auto simp: wrap_part_def make_indexed_def split: if_splits option.splits)

lemma get_field_no_dollar:
  "p \<noteq> [] \<Longrightarrow> \<not> isArrayIndexPart p \<Longrightarrow> map_of m ''$'' = None \<Longrightarrow> map_of m p = Some v \<Longrightarrow>
   get_parts (p # ps) (GMap m) = get_parts ps v"
  by (simp add: handleObjectField_def extractFieldValue_def)

text \<open>The map that a path leads to through fields of maps, if it does, and what a value becomes when it is written there.\<close>

fun map_at :: "string list \<Rightarrow> gmap \<Rightarrow> gmap option" where
  "map_at [] m = Some m"
| "map_at (p # ps) m =
     (if p = [] then map_at ps m
      else if isArrayIndexPart p then None
      else (case map_of m p of Some (GMap m') \<Rightarrow> map_at ps m' | _ \<Rightarrow> None))"

fun written :: "gmap option \<Rightarrow> gval \<Rightarrow> gval" where
  "written (Some old) (GMap v) = GMap (mergeMaps old v)"
| "written x v = v"

lemma written_not_map [simp]: "\<not> is_map v \<Longrightarrow> written x v = v"
  by (cases "(x, v)" rule: written.cases) auto

lemma written_None [simp]: "written None v = v"
  by (cases v) auto

text \<open>A path through an index does not merge.\<close>

lemma map_at_wrap: "wrap_parts ps v = Ok r \<Longrightarrow> is_map v \<Longrightarrow> \<not> is_map r \<Longrightarrow> map_at ps m = None"
proof (induction ps arbitrary: r m)
  case (Cons p ps)
  then obtain r' where r': "wrap_parts ps v = Ok r'" "wrap_part p r' = Ok r" by (auto simp: rbind_eq_Ok)
  with Cons show ?case by (auto simp: wrap_part_def split: if_splits option.split gval.split)
qed simp

lemma written_wrap: "wrap_parts ps v = Ok r \<Longrightarrow> \<not> is_map r \<Longrightarrow> written (map_at ps m) v = v"
  using map_at_wrap [of ps v r m] by (cases "is_map v") simp_all

lemma get_merge_parts:
  assumes "wrap_parts ps v = Ok (GMap rm)" and "''$'' \<notin> set ps" and "v \<noteq> GNil"
    and "path_clear ps m" and "wf_gmap m"
  shows "get_parts ps (GMap (mergeMaps m rm)) = Ok (written (map_at ps m) v)"
  using assms
proof (induction ps arbitrary: m rm)
  case Nil
  then show ?case by simp
next
  case (Cons p ps)
  from Cons.prems(1) obtain r where r: "wrap_parts ps v = Ok r" "wrap_part p r = Ok (GMap rm)"
    by (auto simp: rbind_eq_Ok)
  have nn: "r \<noteq> GNil" using r(1) Cons.prems(3) by (rule wrap_parts_not_nil)
  from wrap_part_GMap [OF r(2)] consider (skip) "p = []" "r = GMap rm"
    | (field) "p \<noteq> []" "\<not> isArrayIndexPart p" "rm = [(p, r)]" by blast
  then show ?case
  proof cases
    case skip
    with Cons.IH [of rm m] Cons.prems r(1) show ?thesis by simp
  next
    case field
    let ?mm = "mergeMaps m rm"
    have look: "map_of ?mm k = merge_opt (nonnil (map_of m k)) (nonnil (map_of rm k))" for k
      using Cons.prems(5) field by (intro map_of_mergeMaps) auto
    have dollar: "map_of ?mm ''$'' = None"
      using look [of "''$''"] Cons.prems(2,4) field by (simp add: nonnil_def)
    show ?thesis
    proof (cases "\<exists>am bm. map_of m p = Some (GMap am) \<and> r = GMap bm")
      case True
      then obtain am bm where ab: "map_of m p = Some (GMap am)" "r = GMap bm" by blast
      have "map_of ?mm p = Some (GMap (mergeMaps am bm))"
        using look [of p] field ab by (simp add: nonnil_def)
      moreover have "get_parts ps (GMap (mergeMaps am bm)) = Ok (written (map_at ps am) v)"
        using Cons.IH [of bm am] Cons.prems r(1) ab field wf_fields_lookup [of m p] by auto
      ultimately show ?thesis using get_field_no_dollar [OF field(1,2) dollar] field ab by simp
    next
      case False
      have "map_of ?mm p = merge_opt (nonnil (map_of m p)) (Some r)"
        using look [of p] field nn by (simp add: nonnil_def)
      also have "\<dots> = Some r"
        using False by (cases r) (auto intro: merge_opt_not_map merge_opt_old_not_map simp: nonnil_def)
      finally have "get_parts (p # ps) (GMap ?mm) = get_parts ps r"
        by (rule get_field_no_dollar [OF field(1,2) dollar])
      also have "\<dots> = Ok v" using r(1) Cons.prems(2) by (intro get_wrap_parts) auto
      also have "v = written (map_at (p # ps) m) v"
      proof (cases "\<exists>am. map_of m p = Some (GMap am)")
        case True
        then obtain am where "map_of m p = Some (GMap am)" by blast
        moreover from this False have "\<not> is_map r" by (cases r) auto
        ultimately show ?thesis using written_wrap [OF r(1), of am] field by simp
      next
        case False
        then have "map_at (p # ps) m = None" using field by (auto split: option.split gval.split)
        then show ?thesis by simp
      qed
      finally show ?thesis .
    qed
  qed
qed

fun merged_into :: "gmap \<Rightarrow> gval \<Rightarrow> gval" where
  "merged_into m (GMap rm) = GMap (mergeMaps m rm)"
| "merged_into m r = r"

lemma setValue_map:
  assumes "setValue (GMap m) path v = Ok d" and "path \<noteq> ''$''"
  shows "\<exists>r. HasPrefix path ''$'' \<and> wrap_parts (path_parts path) v = Ok r \<and> d = merged_into m r"
proof (cases "wrap_parts (path_parts path) v")
  case (Ok r)
  with assms show ?thesis by (cases r) (auto simp: setValue_def split: if_splits)
qed (use assms in \<open>auto simp: setValue_def split: if_splits\<close>)

text \<open>C38: Reading after writing. When \<open>setValue\<close> stores a value other than nil into a map at any path it accepts, \<open>getValue\<close> at that path
  returns the value, merged into the map that was there when both are maps (except at \<open>$\<close>, where the value replaces everything); a value that is no map is
  returned exactly. No part of the path may be \<open>$\<close>, and the maps it visits may not have a key \<open>$\<close>, which the reader unwraps.\<close>

theorem getValue_setValue:
  assumes "setValue (GMap m) path v = Ok d" and "v \<noteq> GNil"
    and "wf_gmap m" and "''$'' \<notin> set (path_parts path)" and "path_clear (path_parts path) m"
  shows "getValue d path = Ok (if path = ''$'' then v else written (map_at (path_parts path) m) v) \<and>
    (\<not> is_map v \<longrightarrow> getValue d path = Ok v)"
proof (cases "path = ''$''")
  case True
  with assms(1) show ?thesis by (simp add: setValue_def getValue_def)
next
  case False
  from setValue_map [OF assms(1) False] obtain r
    where pre: "HasPrefix path ''$''" and r: "wrap_parts (path_parts path) v = Ok r"
      and d: "d = merged_into m r" by blast
  have "get_parts (path_parts path) d = Ok (written (map_at (path_parts path) m) v)"
  proof (cases "is_map r")
    case True
    with r d assms(2-5) show ?thesis by (cases r) (simp_all add: get_merge_parts)
  next
    case False
    with r d assms(4) written_wrap [OF r, of m] show ?thesis by (cases r) (simp_all add: get_wrap_parts)
  qed
  with False pre show ?thesis by (simp add: getValue_def)
qed

theorem getValue_setValue_witness:
  "getValue (GMap [(''a'', GMap [(''x'', GBool True), (''b'', GString ''new'')])]) ''$.a.b'' = Ok (GString ''new'') \<and>
   getValue (GMap [(''a'', GMap [(''x'', GBool True), (''b'', GString ''new'')])]) ''$.a'' =
     Ok (GMap [(''x'', GBool True), (''b'', GString ''new'')])"
proof
  let ?m = "[(''a'', GMap [(''x'', GBool True), (''b'', GString ''old'')])]" and ?d = "GMap [(''a'', GMap [(''x'', GBool True), (''b'', GString ''new'')])]"
  have "setValue (GMap ?m) ''$.a.b'' (GString ''new'') = Ok ?d" "''$'' \<notin> set (path_parts ''$.a.b'')" "path_clear (path_parts ''$.a.b'') ?m"
    by code_simp+
  then show "getValue ?d ''$.a.b'' = Ok (GString ''new'')" using getValue_setValue [of ?m "''$.a.b''" "GString ''new''" ?d] by simp
  have "setValue (GMap ?m) ''$.a'' (GMap [(''b'', GString ''new'')]) = Ok ?d" "''$'' \<notin> set (path_parts ''$.a'')" "path_clear (path_parts ''$.a'') ?m"
    "written (map_at (path_parts ''$.a'') ?m) (GMap [(''b'', GString ''new'')]) = GMap [(''x'', GBool True), (''b'', GString ''new'')]"
    by code_simp+
  then show "getValue ?d ''$.a'' = Ok (GMap [(''x'', GBool True), (''b'', GString ''new'')])"
    using getValue_setValue [of ?m "''$.a''" "GMap [(''b'', GString ''new'')]" ?d] by simp
qed

lemma splitPath_loop_nonempty: "[] \<notin> set parts \<Longrightarrow> [] \<notin> set (splitPath_loop s parts cur b)"
  by (induction s parts cur b rule: splitPath_loop.induct) auto

lemma path_parts_nonempty [simp]: "[] \<notin> set (path_parts path)"
  by (simp add: path_parts_def splitPath_def splitPath_loop_nonempty)

text \<open>The frame of a write. \<open>setValue\<close> into a map changes only the first field of the path: every
  other key keeps its value, except that a key bound to nil disappears (\<open>mergeMaps\<close> copies no nil).\<close>

theorem setValue_frame:
  assumes "setValue (GMap m) path v = Ok (GMap d)" and "path \<noteq> ''$''" and "wf_gmap m"
    and "path_parts path = p # ps" and "k \<noteq> p"
  shows "map_of d k = (if map_of m k = Some GNil then None else map_of m k)"
proof -
  have p: "p \<noteq> []" using path_parts_nonempty [of path] assms(4) by auto
  from setValue_map [OF assms(1,2)] assms(4) obtain r where r: "wrap_parts (p # ps) v = Ok r"
    and d: "GMap d = merged_into m r" by auto
  from r obtain r' where r': "wrap_part p r' = Ok r" by (auto simp: rbind_eq_Ok)
  from d obtain rm where rm: "d = mergeMaps m rm" "r = GMap rm \<or> d = rm \<and> r = GMap rm"
    by (cases r) auto
  with r' wrap_part_GMap [of p r' rm] p have "rm = [(p, r')]" by auto
  with rm(1) assms(3,5) map_of_mergeMaps [of m rm k] show ?thesis by (simp add: nonnil_def)
qed

theorem setValue_frame_witness:
  "map_of [(''a'', GBool True), (''b'', GMap [(''c'', GString ''new'')])] ''a'' = Some (GBool True)"
proof -
  have a: "setValue (GMap [(''a'', GBool True), (''n'', GNil)]) ''$.b.c'' (GString ''new'') =
        Ok (GMap [(''a'', GBool True), (''b'', GMap [(''c'', GString ''new'')])])"
    and b: "path_parts ''$.b.c'' = [''b'', ''c'']"
    by code_simp+
  show ?thesis using setValue_frame [OF a _ _ b, of "''a''"] by simp
qed

text \<open>Parsing a printed path. For field names without \<open>.\<close>, \<open>[\<close> and \<open>]\<close>, splitting the printed
  path gives exactly one part per segment, in order.\<close>

theorem splitPath_render:
  assumes "list_all plain_segment segs"
  shows "path_parts (render segs) = map part_of segs"
  using assms unfolding path_parts_def splitPath_TrimPrefix_dot
  by (simp add: render_def TrimPrefix_def HasPrefix_def splitPath_def splitPath_loop_render)

theorem splitPath_render_witness:
  "path_parts ''$.a[12].b'' = [''a'', ''[12]'', ''b'']"
proof -
  have "render [Field ''a'', Index 12, Field ''b''] = ''$.a[12].b''"
    and "map part_of [Field ''a'', Index 12, Field ''b''] = [''a'', ''[12]'', ''b'']"
    and "list_all plain_segment [Field ''a'', Index 12, Field ''b'']"
    by code_simp+
  with splitPath_render [of "[Field ''a'', Index 12, Field ''b'']"] show ?thesis by simp
qed

text \<open>An output path that does not exist wraps the output: whenever \<open>ApplyOutputPath\<close> wraps, the
  wrapped value is found again at the path, so the path always selects the original output.\<close>

theorem ApplyOutputPath_wraps:
  assumes "getValue output p = Err e" and "ApplyOutputPath output (Some p) = Ok r"
    and "p \<noteq> []" and "p \<noteq> ''$''" and "''$'' \<notin> set (path_parts p)"
  shows "getValue r p = Ok output"
proof -
  from assms have "wrapValue p output = Ok r" by (simp add: ApplyOutputPath_def)
  with assms(4,5) show ?thesis
    by (auto simp: wrapValue_def getValue_def split: if_splits intro: get_wrap_parts)
qed

theorem ApplyOutputPath_wraps_witness:
  "getValue (GMap [(''out'', GBool True)]) ''$.out'' = Ok (GBool True)"
proof -
  have "getValue (GBool True) ''$.out'' =
      Err (ErrorNew (''cannot access root-field '' @ [CHR 0x27] @ ''out'' @ [CHR 0x27] @ '' on type bool''))"
    and "ApplyOutputPath (GBool True) (Some ''$.out'') = Ok (GMap [(''out'', GBool True)])"
    and "''$'' \<notin> set (path_parts ''$.out'')"
    by code_simp+
  then show ?thesis by (intro ApplyOutputPath_wraps) simp_all
qed

end
