(* ===== verification/BaseState.thy ===== *)
theory BaseState
  imports Jsonpath
begin

text \<open>
  What all state types share (\<open>internal/states/state.go\<close>): the embedded \<open>BaseState\<close>, the retry and
  catch rules, the \<open>PathProcessor\<close> interface and its default implementation, and the result of
  \<open>State.Execute\<close>.

  The world outside the sources is a record \<open>env\<close> that every handler takes: the task handlers the
  user registered, the context's cancellation, the clock, and the parsers and printers of Go's library
  whose details no theorem depends on. A Go program may ask the same question twice and get two answers
  (a handler that fails and then succeeds, a clock that advances), so each question carries the identifier of
  the event that asks it (\<open>evid\<close>: the step of the run, the branch, the attempt). An \<open>env\<close> is one
  behaviour of the outside world, and a theorem about every \<open>env\<close> covers them all.
\<close>

section \<open>The embedded base state\<close>

record base_state =
  Name :: string
  StateType :: string
  Next :: "string option"
  End :: bool
  InputPath :: "string option"
  ResultPath :: "string option"
  OutputPath :: "string option"
  Comment :: string

record retry_rule =
  rr_ErrorEquals :: "string list"
  rr_IntervalSeconds :: int
  rr_MaxAttempts :: int
  rr_BackoffRate :: f64
  rr_MaxDelaySeconds :: "int option"
  rr_JitterStrategy :: string

record catch_rule =
  cr_ErrorEquals :: "string list"
  cr_ResultPath :: "string option"
  cr_Next :: string

definition new_base :: "string \<Rightarrow> string \<Rightarrow> base_state" where
  "new_base name ty =
    \<lparr>Name = name, StateType = ty, Next = None, End = False, InputPath = None, ResultPath = None,
     OutputPath = None, Comment = []\<rparr>"

definition BaseState_GetName :: "'a base_state_scheme \<Rightarrow> string" where
  "BaseState_GetName s = Name s"

definition BaseState_GetType :: "'a base_state_scheme \<Rightarrow> string" where
  "BaseState_GetType s = StateType s"

definition BaseState_GetNext :: "'a base_state_scheme \<Rightarrow> string option" where
  "BaseState_GetNext s = Next s"

definition BaseState_IsEnd :: "'a base_state_scheme \<Rightarrow> bool" where
  "BaseState_IsEnd s = End s"

definition BaseState_Validate :: "'a base_state_scheme \<Rightarrow> check" where
  "BaseState_Validate s = check_seq
    [fail_if (Name s = []) ''state name cannot be empty'',
     fail_if (StateType s = []) ''state type cannot be empty'',
     fail_if (Next s = None \<and> \<not> End s) ''state must have either Next or End'',
     fail_if (Next s \<noteq> None \<and> End s) ''state cannot have both Next and End'']"

definition BaseState_GetNextStates :: "'a base_state_scheme \<Rightarrow> string list" where
  "BaseState_GetNextStates s = (case Next s of Some n \<Rightarrow> [n] | None \<Rightarrow> [])"

lemma BaseState_Validate_ok:
  "BaseState_Validate s = None \<longleftrightarrow> Name s \<noteq> [] \<and> StateType s \<noteq> [] \<and> (Next s = None \<longleftrightarrow> End s)"
  by (auto simp: BaseState_Validate_def)

text \<open>The quotation of a name in a message: \<open>'%s'\<close>.\<close>

definition quoted :: "string \<Rightarrow> string" where
  "quoted s = [CHR 0x27] @ s @ [CHR 0x27]"

section \<open>The outcome of a handler\<close>

datatype outcome =
    Returned gval "string option" "err option"
  | Panicked string
  | Crashed string

fun outcome_of :: "(gval \<times> string option) res \<Rightarrow> outcome" where
  "outcome_of (Ok (v, n)) = Returned v n None"
| "outcome_of (Err e) = Returned GNil None (Some e)"
| "outcome_of (Panic m) = Panicked m"
| "outcome_of (Crash m) = Crashed m"

definition BaseState_Execute :: "'a base_state_scheme \<Rightarrow> gval \<Rightarrow> outcome" where
  "BaseState_Execute s input = Returned GNil None (Some (ErrorNew ''Execute not implemented for base state''))"

lemma outcome_of_success:
  "outcome_of r = Returned v n None \<longleftrightarrow> r = Ok (v, n)"
  by (cases r rule: outcome_of.cases) auto

lemma outcome_of_error:
  "outcome_of r = Returned v n (Some e) \<longleftrightarrow> r = Err e \<and> v = GNil \<and> n = None"
  by (cases r rule: outcome_of.cases) auto

section \<open>The path processor interface\<close>

record path_ops =
  pp_ApplyInputPath :: "gval \<Rightarrow> string option \<Rightarrow> gval res"
  pp_ApplyResultPath :: "gval \<Rightarrow> gval \<Rightarrow> string option \<Rightarrow> gval res"
  pp_ApplyOutputPath :: "gval \<Rightarrow> string option \<Rightarrow> gval res"

definition BasicPathProcessor :: path_ops where
  "BasicPathProcessor =
    \<lparr>pp_ApplyInputPath = ApplyInputPath, pp_ApplyResultPath = ApplyResultPath,
     pp_ApplyOutputPath = ApplyOutputPath\<rparr>"

text \<open>The tail that most handlers share: result path, then output path, with the handler's own
  wording of the two errors.\<close>

definition finish_paths ::
  "path_ops \<Rightarrow> string \<Rightarrow> string \<Rightarrow> gval \<Rightarrow> gval \<Rightarrow> string option \<Rightarrow> string option \<Rightarrow> gval res" where
  "finish_paths pp rmsg omsg input result rpath opath =
    rbind (wrap_err rmsg (pp_ApplyResultPath pp input result rpath)) (\<lambda>processed.
      wrap_err omsg (pp_ApplyOutputPath pp processed opath))"

definition root_path :: "string option \<Rightarrow> bool" where
  "root_path p \<longleftrightarrow> p = None \<or> p = Some [] \<or> p = Some ''$''"

locale path_processor =
  fixes pp :: path_ops
  assumes input_root: "root_path p \<Longrightarrow> pp_ApplyInputPath pp v p = Ok v"
    and result_root: "root_path p \<Longrightarrow> pp_ApplyResultPath pp v r p = Ok r"
    and output_root: "root_path p \<Longrightarrow> pp_ApplyOutputPath pp v p = Ok v"
begin

lemma finish_root:
  "root_path rp \<Longrightarrow> root_path op \<Longrightarrow> finish_paths pp rmsg omsg input result rp op = Ok result"
  by (simp add: finish_paths_def result_root output_root)

end

interpretation basic: path_processor BasicPathProcessor
  by unfold_locales
    (auto simp: BasicPathProcessor_def root_path_def ApplyInputPath_def ApplyResultPath_def
      ApplyOutputPath_def)

section \<open>The outside world\<close>

type_synonym evid = "nat list"

record env =
  has_handler :: "string \<Rightarrow> bool"
  run_handler :: "evid \<Rightarrow> string \<Rightarrow> gval \<Rightarrow> gval res"
  run_custom :: "string \<Rightarrow> evid \<Rightarrow> string \<Rightarrow> gval \<Rightarrow> gmap option \<Rightarrow> int option \<Rightarrow> gval res"
  timeout_first :: "evid \<Rightarrow> err option"
  ctx_done :: "evid \<Rightarrow> err option"
  now_ns :: "evid \<Rightarrow> int"
  fmt_v :: "gval \<Rightarrow> string"
  parse_float :: "string \<Rightarrow> f64 res"
  time_parse :: "string \<Rightarrow> string \<Rightarrow> int res"
  json_copy :: "gval \<Rightarrow> gval res"
  path_proc :: path_ops
  completion :: "evid \<Rightarrow> nat list"

text \<open>
  \<^item> \<open>has_handler env r\<close>: the context carries an execution context with a handler for resource \<open>r\<close>;
    \<open>run_handler env ev r input\<close> is that handler's reply at event \<open>ev\<close>.
  \<^item> \<open>run_custom env h\<close>: the \<open>ExecuteWithTimeout\<close> of the custom \<open>TaskHandler\<close> \<open>h\<close> of a task state.
  \<^item> \<open>timeout_first env ev\<close>: at \<open>ev\<close> the timeout context ended (with this error) before the reply.
  \<^item> \<open>ctx_done env ev\<close>: at \<open>ev\<close> the context is done, with this error; \<open>now_ns\<close> is the clock.
  \<^item> \<open>fmt_v\<close> is \<open>Sprintf("%v")\<close>, \<open>parse_float\<close> is \<open>strconv.ParseFloat(_, 64)\<close>, \<open>time_parse layout s\<close> is
    \<open>time.Parse\<close>, \<open>json_copy\<close> is \<open>json.Marshal\<close> followed by \<open>json.Unmarshal\<close>.
  \<^item> \<open>path_proc\<close> is the global \<open>DefaultPathProcessor\<close>, which \<open>SetPathProcessor\<close> can replace.
  \<^item> \<open>completion env ev\<close>: the order in which the goroutines started at \<open>ev\<close> store their results.
\<close>

definition GetPathProcessor :: "env \<Rightarrow> path_ops" where
  "GetPathProcessor env = path_proc env"

definition SetPathProcessor :: "env \<Rightarrow> path_ops \<Rightarrow> env" where
  "SetPathProcessor env processor = env\<lparr>path_proc := processor\<rparr>"

text \<open>The layout \<open>time.RFC3339\<close>.\<close>

abbreviation RFC3339 :: string where "RFC3339 \<equiv> ''2006-01-02T15:04:05Z07:00''"

definition unix_seconds :: "int \<Rightarrow> int" where
  "unix_seconds ns = ns div 10 ^ 9"

text \<open>A quiet world, for evaluation: no handler is registered, nothing is cancelled or times out.\<close>

definition quiet_env :: env where
  "quiet_env =
    \<lparr>has_handler = (\<lambda>_. False), run_handler = (\<lambda>_ _ v. Ok v), run_custom = (\<lambda>_ _ _ v _ _. Ok v),
     timeout_first = (\<lambda>_. None), ctx_done = (\<lambda>_. None), now_ns = (\<lambda>_. 0),
     fmt_v = (\<lambda>_. []), parse_float = (\<lambda>_. Err (ErrorNew ''invalid syntax'')),
     time_parse = (\<lambda>_ _. Err (ErrorNew ''cannot parse'')), json_copy = (\<lambda>v. Ok v),
     path_proc = BasicPathProcessor, completion = (\<lambda>_. [])\<rparr>"

end
