(* ===== verification/Choice.thy ===== *)
theory Choice
  imports BaseState
begin

text \<open>
  The Choice state (\<open>internal/states/choice.go\<close>): its rules, their evaluation, and their validation.
  The twenty-two comparison and type-checking operators of a \<open>ChoiceRule\<close> are the record \<open>choice_ops\<close>
  (a nil pointer is \<open>None\<close>); the recursive fields \<open>And\<close>, \<open>Or\<close>, \<open>Not\<close> are in the datatype.
\<close>

section \<open>Rules\<close>

record choice_ops =
  StringEquals :: "string option"
  StringLessThan :: "string option"
  StringGreaterThan :: "string option"
  StringLessThanEquals :: "string option"
  StringGreaterThanEquals :: "string option"
  NumericEquals :: "f64 option"
  NumericLessThan :: "f64 option"
  NumericGreaterThan :: "f64 option"
  NumericLessThanEquals :: "f64 option"
  NumericGreaterThanEquals :: "f64 option"
  BooleanEquals :: "bool option"
  TimestampEquals :: "string option"
  TimestampLessThan :: "string option"
  TimestampGreaterThan :: "string option"
  TimestampLessThanEquals :: "string option"
  TimestampGreaterThanEquals :: "string option"
  IsPresent :: "bool option"
  IsNull :: "bool option"
  IsBoolean :: "bool option"
  IsNumeric :: "bool option"
  IsString :: "bool option"
  IsTimestamp :: "bool option"

definition no_ops :: choice_ops where
  "no_ops =
    \<lparr>StringEquals = None, StringLessThan = None, StringGreaterThan = None, StringLessThanEquals = None,
     StringGreaterThanEquals = None, NumericEquals = None, NumericLessThan = None,
     NumericGreaterThan = None, NumericLessThanEquals = None, NumericGreaterThanEquals = None,
     BooleanEquals = None, TimestampEquals = None, TimestampLessThan = None, TimestampGreaterThan = None,
     TimestampLessThanEquals = None, TimestampGreaterThanEquals = None, IsPresent = None, IsNull = None,
     IsBoolean = None, IsNumeric = None, IsString = None, IsTimestamp = None\<rparr>"

datatype choice_rule = ChoiceRule
  (Variable: string)
  (Ops: choice_ops)
  (And: "choice_rule list")
  (Or: "choice_rule list")
  (Not: "choice_rule option")
  (rule_Next: string)
  (rule_Comment: string)

record choice_state = base_state +
  Choices :: "choice_rule list"
  Default :: "string option"

section \<open>Type-checking operators\<close>

definition evaluateIsPresent :: "gval \<Rightarrow> bool \<Rightarrow> bool" where
  "evaluateIsPresent v expected \<longleftrightarrow> (v \<noteq> GNil) = expected"

definition evaluateIsNull :: "gval \<Rightarrow> bool \<Rightarrow> bool" where
  "evaluateIsNull v expected \<longleftrightarrow> (v = GNil) = expected"

definition evaluateIsBoolean :: "gval \<Rightarrow> bool \<Rightarrow> bool" where
  "evaluateIsBoolean v expected \<longleftrightarrow> (case v of GBool _ \<Rightarrow> True | _ \<Rightarrow> False) = expected"

definition evaluateIsNumeric :: "gval \<Rightarrow> bool \<Rightarrow> bool" where
  "evaluateIsNumeric v expected \<longleftrightarrow>
    (case v of GFloat64 _ \<Rightarrow> True | GFloat32 _ \<Rightarrow> True | GInteger _ _ \<Rightarrow> True | _ \<Rightarrow> False) = expected"

definition evaluateIsString :: "gval \<Rightarrow> bool \<Rightarrow> bool" where
  "evaluateIsString v expected \<longleftrightarrow> (case v of GString _ \<Rightarrow> True | _ \<Rightarrow> False) = expected"

definition evaluateIsTimestamp :: "gval \<Rightarrow> bool \<Rightarrow> bool" where
  "evaluateIsTimestamp v expected \<longleftrightarrow> (case v of GTime _ \<Rightarrow> True | _ \<Rightarrow> False) = expected"

section \<open>Comparison operators\<close>

definition compareString :: "env \<Rightarrow> gval \<Rightarrow> string \<Rightarrow> (string \<Rightarrow> string \<Rightarrow> bool) \<Rightarrow> bool res" where
  "compareString env v expected cmp =
    Ok (cmp (case v of GString s \<Rightarrow> s | _ \<Rightarrow> fmt_v env v) expected)"

text \<open>The integer types of the type switch of \<open>compareNumeric\<close>.\<close>

definition numeric_kind :: "ikind \<Rightarrow> bool" where
  "numeric_kind k \<longleftrightarrow> k \<in> {KInt, KInt32, KInt64, KUint, KUint32, KUint64}"

definition compareNumeric :: "env \<Rightarrow> gval \<Rightarrow> f64 \<Rightarrow> (f64 \<Rightarrow> f64 \<Rightarrow> bool) \<Rightarrow> bool res" where
  "compareNumeric env v expected cmp =
    (let bad = Err (ErrorNew (''cannot compare non-numeric value '' @ fmt_v env v @
                              '' with numeric operator'')) in
     case v of
       GFloat64 f \<Rightarrow> Ok (cmp f expected)
     | GFloat32 f \<Rightarrow> Ok (cmp f expected)
     | GInteger k i \<Rightarrow> if numeric_kind k then Ok (cmp (f64_of_int i) expected) else bad
     | GString s \<Rightarrow>
         rbind (wrap_err (''cannot convert string '' @ quoted s @ '' to number'') (parse_float env s))
           (\<lambda>f. Ok (cmp f expected))
     | _ \<Rightarrow> bad)"

definition ascii_lower :: "char \<Rightarrow> char" where
  "ascii_lower c =
    (if 65 \<le> (of_char c :: nat) \<and> (of_char c :: nat) \<le> 90 then char_of ((of_char c :: nat) + 32) else c)"

definition compareBoolean :: "env \<Rightarrow> gval \<Rightarrow> bool \<Rightarrow> bool res" where
  "compareBoolean env v expected =
    (case v of
       GBool b \<Rightarrow> Ok (b = expected)
     | GString s \<Rightarrow>
         (let lowerStr = map ascii_lower s in
          if lowerStr = ''true'' then Ok (True = expected)
          else if lowerStr = ''false'' then Ok (False = expected)
          else Err (ErrorNew (''cannot convert string '' @ quoted s @ '' to boolean'')))
     | _ \<Rightarrow> Err (ErrorNew (''cannot compare non-boolean value '' @ fmt_v env v @ '' with boolean operator'')))"

definition timestamp_formats :: "string list" where
  "timestamp_formats =
    [''2006-01-02T15:04:05Z'', ''2006-01-02T15:04:05-07:00'', ''2006-01-02 15:04:05'',
     ''Mon, 02 Jan 2006 15:04:05 MST'', ''02 Jan 06 15:04 MST'']"

text \<open>Try the formats in order; if none parses, the last error remains.\<close>

fun try_formats :: "env \<Rightarrow> string list \<Rightarrow> string \<Rightarrow> int res \<Rightarrow> int res" where
  "try_formats env [] s lastErr = lastErr"
| "try_formats env (f # fs) s lastErr =
     (case time_parse env f s of Ok t \<Rightarrow> Ok t | r \<Rightarrow> try_formats env fs s r)"

definition parse_timestamp :: "env \<Rightarrow> string \<Rightarrow> int res" where
  "parse_timestamp env s = try_formats env (RFC3339 # timestamp_formats) s (Ok 0)"

definition compareTimestamp :: "env \<Rightarrow> gval \<Rightarrow> string \<Rightarrow> (int \<Rightarrow> int \<Rightarrow> bool) \<Rightarrow> bool res" where
  "compareTimestamp env v expectedStr cmp =
    rbind (map_err (\<lambda>_. ErrorNew (''invalid timestamp format '' @ quoted expectedStr))
             (parse_timestamp env expectedStr)) (\<lambda>expectedTime.
    rbind (case v of
             GTime t \<Rightarrow> Ok t
           | GString s \<Rightarrow> wrap_err (''cannot convert string '' @ quoted s @ '' to timestamp'')
                            (parse_timestamp env s)
           | GFloat64 f \<Rightarrow> Ok (f64_to_int64 f * 10 ^ 9)
           | GInteger KInt i \<Rightarrow> Ok (i * 10 ^ 9)
           | GInteger KInt64 i \<Rightarrow> Ok (i * 10 ^ 9)
           | _ \<Rightarrow> Err (ErrorNew (''cannot compare non-timestamp value '' @ fmt_v env v @
                                '' with timestamp operator''))) (\<lambda>variableTime.
    Ok (cmp variableTime expectedTime)))"

text \<open>The table of handlers: the first operator that is set decides.\<close>

fun first_set :: "bool res option list \<Rightarrow> bool res option" where
  "first_set [] = None"
| "first_set (h # hs) = (case h of Some r \<Rightarrow> Some r | None \<Rightarrow> first_set hs)"

definition type_handlers :: "choice_ops \<Rightarrow> gval \<Rightarrow> bool res option list" where
  "type_handlers ops v =
    [map_option (\<lambda>b. Ok (evaluateIsPresent v b)) (IsPresent ops),
     map_option (\<lambda>b. Ok (evaluateIsNull v b)) (IsNull ops),
     map_option (\<lambda>b. Ok (evaluateIsBoolean v b)) (IsBoolean ops),
     map_option (\<lambda>b. Ok (evaluateIsNumeric v b)) (IsNumeric ops),
     map_option (\<lambda>b. Ok (evaluateIsString v b)) (IsString ops),
     map_option (\<lambda>b. Ok (evaluateIsTimestamp v b)) (IsTimestamp ops)]"

definition comparison_handlers :: "env \<Rightarrow> choice_ops \<Rightarrow> gval \<Rightarrow> bool res option list" where
  "comparison_handlers env ops v =
    [map_option (\<lambda>x. compareString env v x (=)) (StringEquals ops),
     map_option (\<lambda>x. compareString env v x (<)) (StringLessThan ops),
     map_option (\<lambda>x. compareString env v x (>)) (StringGreaterThan ops),
     map_option (\<lambda>x. compareString env v x (\<le>)) (StringLessThanEquals ops),
     map_option (\<lambda>x. compareString env v x (\<ge>)) (StringGreaterThanEquals ops),
     map_option (\<lambda>x. compareNumeric env v x f64_eq) (NumericEquals ops),
     map_option (\<lambda>x. compareNumeric env v x (<)) (NumericLessThan ops),
     map_option (\<lambda>x. compareNumeric env v x (>)) (NumericGreaterThan ops),
     map_option (\<lambda>x. compareNumeric env v x (\<le>)) (NumericLessThanEquals ops),
     map_option (\<lambda>x. compareNumeric env v x (\<ge>)) (NumericGreaterThanEquals ops),
     map_option (\<lambda>x. compareBoolean env v x) (BooleanEquals ops),
     map_option (\<lambda>x. compareTimestamp env v x (=)) (TimestampEquals ops),
     map_option (\<lambda>x. compareTimestamp env v x (<)) (TimestampLessThan ops),
     map_option (\<lambda>x. compareTimestamp env v x (>)) (TimestampGreaterThan ops),
     map_option (\<lambda>x. compareTimestamp env v x (\<le>)) (TimestampLessThanEquals ops),
     map_option (\<lambda>x. compareTimestamp env v x (\<ge>)) (TimestampGreaterThanEquals ops)]"

definition evaluateComparison :: "env \<Rightarrow> choice_rule \<Rightarrow> gval \<Rightarrow> bool res" where
  "evaluateComparison env rule v =
    (case first_set (type_handlers (Ops rule) v @ comparison_handlers env (Ops rule) v) of
       Some r \<Rightarrow> r
     | None \<Rightarrow> Err (ErrorNew ''no comparison operator specified in choice rule''))"

section \<open>Evaluation\<close>

text \<open>Any error of the path processor means the variable is absent; a panic is not caught here.\<close>

definition getVariableValue :: "env \<Rightarrow> string \<Rightarrow> gval \<Rightarrow> gval res" where
  "getVariableValue env path input =
    (case pp_ApplyInputPath (GetPathProcessor env) input (Some path) of Err _ \<Rightarrow> Ok GNil | r \<Rightarrow> r)"

definition hasTypeCheckingOp :: "choice_ops \<Rightarrow> bool" where
  "hasTypeCheckingOp ops \<longleftrightarrow>
    IsPresent ops \<noteq> None \<or> IsNull ops \<noteq> None \<or> IsBoolean ops \<noteq> None \<or> IsNumeric ops \<noteq> None \<or>
    IsString ops \<noteq> None \<or> IsTimestamp ops \<noteq> None"

text \<open>The context of a rule, or \<open>None\<close> where the function returns false at once.\<close>

definition choiceContext :: "env \<Rightarrow> choice_rule \<Rightarrow> gval \<Rightarrow> gval option res" where
  "choiceContext env rule input =
    (if Variable rule \<noteq> [] then
       rbind (getVariableValue env (Variable rule) input) (\<lambda>c.
         Ok (if c = GNil \<and> \<not> hasTypeCheckingOp (Ops rule) then None else Some c))
     else Ok (Some input))"

fun evaluateChoice :: "env \<Rightarrow> choice_rule \<Rightarrow> gval \<Rightarrow> bool res"
  and evaluateAnd :: "env \<Rightarrow> choice_rule list \<Rightarrow> gval \<Rightarrow> bool res"
  and evaluateOr :: "env \<Rightarrow> choice_rule list \<Rightarrow> gval \<Rightarrow> bool res" where
  "evaluateChoice env (ChoiceRule var ops ands ors nt nx cm) input =
     rbind (choiceContext env (ChoiceRule var ops ands ors nt nx cm) input) (\<lambda>c.
       (case c of
          None \<Rightarrow> Ok False
        | Some ctx \<Rightarrow>
            if ands \<noteq> [] then evaluateAnd env ands ctx
            else if ors \<noteq> [] then evaluateOr env ors ctx
            else (case nt of
                    Some r \<Rightarrow> rbind (evaluateChoice env r ctx) (\<lambda>matched. Ok (\<not> matched))
                  | None \<Rightarrow> evaluateComparison env (ChoiceRule var ops ands ors nt nx cm) ctx)))"
| "evaluateAnd env [] ctx = Ok True"
| "evaluateAnd env (r # rs) ctx =
     rbind (evaluateChoice env r ctx) (\<lambda>matched.
       if \<not> matched then Ok False else evaluateAnd env rs ctx)"
| "evaluateOr env [] ctx = Ok False"
| "evaluateOr env (r # rs) ctx =
     rbind (evaluateChoice env r ctx) (\<lambda>matched.
       if matched then Ok True else evaluateOr env rs ctx)"

declare evaluateChoice.simps [simp del]

text \<open>The loop over the rules: the first that matches, or \<open>None\<close>.\<close>

fun first_match :: "env \<Rightarrow> choice_rule list \<Rightarrow> gval \<Rightarrow> choice_rule option res" where
  "first_match env [] input = Ok None"
| "first_match env (r # rs) input =
     rbind (wrap_err ''failed to evaluate choice'' (evaluateChoice env r input)) (\<lambda>matched.
       if matched then Ok (Some r) else first_match env rs input)"

definition choice_finish :: "env \<Rightarrow> choice_state \<Rightarrow> gval \<Rightarrow> string \<Rightarrow> (gval \<times> string option) res" where
  "choice_finish env s processedInput n =
    rbind (finish_paths (GetPathProcessor env) ''failed to process result path''
             ''failed to process output path'' processedInput processedInput (ResultPath s) (OutputPath s))
      (\<lambda>finalOutput. Ok (finalOutput, Some n))"

definition ChoiceState_Execute :: "env \<Rightarrow> choice_state \<Rightarrow> gval \<Rightarrow> outcome" where
  [state_defs]: "ChoiceState_Execute env s input = outcome_of
    (rbind (wrap_err ''failed to process input path''
              (pp_ApplyInputPath (GetPathProcessor env) input (InputPath s))) (\<lambda>processedInput.
     rbind (first_match env (Choices s) processedInput) (\<lambda>m.
       (case m of
          Some choice \<Rightarrow> choice_finish env s processedInput (rule_Next choice)
        | None \<Rightarrow>
            (case Default s of
               Some d \<Rightarrow> choice_finish env s processedInput d
             | None \<Rightarrow> Err (ErrorNew ''no choice rule matched and no default specified''))))))"

section \<open>Validation\<close>

definition isSome :: "'a option \<Rightarrow> bool" where
  "isSome x \<longleftrightarrow> x \<noteq> None"

definition operators_set :: "choice_ops \<Rightarrow> bool list" where
  "operators_set ops =
    [isSome (StringEquals ops), isSome (StringLessThan ops), isSome (StringGreaterThan ops),
     isSome (StringLessThanEquals ops), isSome (StringGreaterThanEquals ops),
     isSome (NumericEquals ops), isSome (NumericLessThan ops), isSome (NumericGreaterThan ops),
     isSome (NumericLessThanEquals ops), isSome (NumericGreaterThanEquals ops),
     isSome (BooleanEquals ops), isSome (TimestampEquals ops), isSome (TimestampLessThan ops),
     isSome (TimestampGreaterThan ops), isSome (TimestampLessThanEquals ops),
     isSome (TimestampGreaterThanEquals ops), isSome (IsPresent ops), isSome (IsNull ops),
     isSome (IsBoolean ops), isSome (IsNumeric ops), isSome (IsString ops), isSome (IsTimestamp ops)]"

definition countComparisonOperators :: "choice_rule \<Rightarrow> nat" where
  "countComparisonOperators choice = length (filter (\<lambda>b. b) (operators_set (Ops choice)))"

definition countCompoundOperators :: "choice_rule \<Rightarrow> nat" where
  "countCompoundOperators choice =
    (if And choice \<noteq> [] then 1 else 0) + (if Or choice \<noteq> [] then 1 else 0) +
    (if Not choice \<noteq> None then 1 else 0)"

definition validateOperatorRequirements :: "choice_rule \<Rightarrow> nat \<Rightarrow> nat \<Rightarrow> nat \<Rightarrow> check" where
  "validateOperatorRequirements choice index comparisonCount compoundCount = check_seq
    [fail_if (comparisonCount > 0 \<and> Variable choice = [])
       (''choice '' @ show_nat index @ '': Variable is required for comparison operators''),
     fail_if (comparisonCount = 0 \<and> compoundCount = 0)
       (''choice '' @ show_nat index @
        '': must have at least one comparison operator or compound operator'')]"

definition validateNestedChoice :: "choice_rule \<Rightarrow> nat \<Rightarrow> nat \<Rightarrow> string \<Rightarrow> check" where
  "validateNestedChoice choice index parentIndex operatorType =
    map_option
      (Wrapped (''choice '' @ show_nat parentIndex @ ''.'' @ operatorType @ ''['' @ show_nat index @ '']''))
      (validateOperatorRequirements choice index
         (countComparisonOperators choice) (countCompoundOperators choice))"

definition validateNestedChoices :: "choice_rule \<Rightarrow> nat \<Rightarrow> check" where
  "validateNestedChoices choice parentIndex = check_seq
    [check_each (\<lambda>i r. validateNestedChoice r i parentIndex ''And'') 0 (And choice),
     check_each (\<lambda>i r. validateNestedChoice r i parentIndex ''Or'') 0 (Or choice),
     (case Not choice of Some r \<Rightarrow> validateNestedChoice r 0 parentIndex ''Not'' | None \<Rightarrow> None)]"

definition validateChoice :: "choice_rule \<Rightarrow> nat \<Rightarrow> bool \<Rightarrow> check" where
  "validateChoice choice index nextRequired = check_seq
    [validateOperatorRequirements choice index
       (countComparisonOperators choice) (countCompoundOperators choice),
     fail_if (nextRequired \<and> rule_Next choice = [])
       (''choice '' @ show_nat index @ '': Next is required''),
     validateNestedChoices choice index]"

definition ChoiceState_Validate :: "choice_state \<Rightarrow> check" where
  "ChoiceState_Validate s = check_seq
    [fail_if (Name s = []) ''state name cannot be empty'',
     fail_if (StateType s \<noteq> ''Choice'') (''choice state must have Type '' @ quoted ''Choice''),
     fail_if (Next s \<noteq> None) (''choice state '' @ quoted (Name s) @ '' cannot have Next field''),
     fail_if (End s) (''choice state '' @ quoted (Name s) @ '' cannot have End field''),
     fail_if (Choices s = [] \<and> Default s = None)
       (''choice state '' @ quoted (Name s) @ '' must have either Choices or Default''),
     check_each (\<lambda>i c. map_option (Wrapped (''choice '' @ show_nat i)) (validateChoice c i True)) 0
       (Choices s)]"

definition ChoiceState_GetNext :: "choice_state \<Rightarrow> string option" where
  "ChoiceState_GetNext s = None"

definition ChoiceState_IsEnd :: "choice_state \<Rightarrow> bool" where
  "ChoiceState_IsEnd s = False"

definition ChoiceState_GetNextStates :: "choice_state \<Rightarrow> string list" where
  "ChoiceState_GetNextStates s =
    map rule_Next (Choices s) @ (case Default s of Some d \<Rightarrow> [d] | None \<Rightarrow> [])"

section \<open>Lemmas\<close>

text \<open>\<open>r\<close> is the first rule of \<open>rs\<close> that matches, and those before it evaluate to false.\<close>

fun matches_first :: "env \<Rightarrow> choice_rule list \<Rightarrow> gval \<Rightarrow> nat \<Rightarrow> bool" where
  "matches_first env rs input i \<longleftrightarrow>
     i < length rs \<and> evaluateChoice env (rs ! i) input = Ok True \<and>
     (\<forall>j<i. evaluateChoice env (rs ! j) input = Ok False)"

declare matches_first.simps [simp del]

lemma ex_nat_Suc_iff: "(\<exists>i. P i) \<longleftrightarrow> P 0 \<or> (\<exists>k. P (Suc k))"
  by (metis not0_implies_Suc)

lemma matches_first_Cons:
  "matches_first env (r # rs) input i \<longleftrightarrow>
   (case i of 0 \<Rightarrow> evaluateChoice env r input = Ok True
    | Suc k \<Rightarrow> evaluateChoice env r input = Ok False \<and> matches_first env rs input k)"
  by (auto simp: matches_first.simps less_Suc_eq_0_disj split: nat.split)

lemma first_match_Some:
  "first_match env rs input = Ok (Some r) \<longleftrightarrow> (\<exists>i. matches_first env rs input i \<and> r = rs ! i)"
proof (induction rs)
  case Nil
  then show ?case by (simp add: matches_first.simps)
next
  case (Cons q rs)
  have "(\<exists>i. matches_first env (q # rs) input i \<and> r = (q # rs) ! i) \<longleftrightarrow>
      evaluateChoice env q input = Ok True \<and> r = q \<or>
      evaluateChoice env q input = Ok False \<and> (\<exists>i. matches_first env rs input i \<and> r = rs ! i)"
    unfolding ex_nat_Suc_iff [of "\<lambda>i. matches_first env (q # rs) input i \<and> r = (q # rs) ! i"]
    by (simp add: matches_first_Cons)
  then show ?case using Cons.IH by (cases "evaluateChoice env q input") auto
qed

lemma first_match_None:
  "first_match env rs input = Ok None \<longleftrightarrow> (\<forall>r\<in>set rs. evaluateChoice env r input = Ok False)"
  by (induction rs) (auto simp: res_simps)

lemma choice_finish_next: "choice_finish env s i n = Ok (v, n') \<Longrightarrow> n' = Some n"
  by (auto simp: choice_finish_def res_simps)

lemma ChoiceState_outcome:
  assumes "ChoiceState_Execute env s input = Returned v n None"
  shows "\<exists>inp m. pp_ApplyInputPath (GetPathProcessor env) input (InputPath s) = Ok inp \<and>
           first_match env (Choices s) inp = Ok m \<and> n \<noteq> None \<and>
           n = (case m of Some r \<Rightarrow> Some (rule_Next r) | None \<Rightarrow> Default s)"
proof -
  from assms obtain inp m where inp: "pp_ApplyInputPath (GetPathProcessor env) input (InputPath s) = Ok inp"
    and m: "first_match env (Choices s) inp = Ok m"
    and fin: "(case m of
          Some choice \<Rightarrow> choice_finish env s inp (rule_Next choice)
        | None \<Rightarrow>
            (case Default s of
               Some d \<Rightarrow> choice_finish env s inp d
             | None \<Rightarrow> Err (ErrorNew ''no choice rule matched and no default specified''))) = Ok (v, n)"
    by (auto simp: state_defs outcome_of_success rbind_eq_Ok)
  from fin have "n \<noteq> None \<and> n = (case m of Some r \<Rightarrow> Some (rule_Next r) | None \<Rightarrow> Default s)"
    by (auto split: option.splits dest: choice_finish_next)
  with inp m show ?thesis by blast
qed

lemma ChoiceState_next [next_sound]:
  assumes "ChoiceState_Execute env s input = Returned v (Some n) e"
  shows "n \<in> set (ChoiceState_GetNextStates s)"
proof (cases e)
  case None
  with ChoiceState_outcome [of env s input v "Some n"] assms obtain inp m
    where "first_match env (Choices s) inp = Ok m"
      and "Some n = (case m of Some r \<Rightarrow> Some (rule_Next r) | None \<Rightarrow> Default s)" by auto
  then show ?thesis
    by (cases m) (auto simp: ChoiceState_GetNextStates_def first_match_Some matches_first.simps)
next
  case (Some e')
  with assms show ?thesis by (simp add: state_defs outcome_of_error)
qed

lemma evaluateAnd_True:
  "evaluateAnd env rs c = Ok True \<longleftrightarrow> (\<forall>r\<in>set rs. evaluateChoice env r c = Ok True)"
  by (induction rs) (auto simp: res_simps)

lemma evaluateOr_False:
  "evaluateOr env rs c = Ok False \<longleftrightarrow> (\<forall>r\<in>set rs. evaluateChoice env r c = Ok False)"
  by (induction rs) (auto simp: res_simps)

lemma first_set_None: "first_set hs = None \<longleftrightarrow> (\<forall>h\<in>set hs. h = None)"
  by (induction hs) (auto split: option.splits)

lemma first_set_mem: "first_set hs = Some r \<Longrightarrow> Some r \<in> set hs"
  by (induction hs) (auto split: option.splits)

lemma handlers_set:
  "countComparisonOperators rule > 0 \<Longrightarrow>
   first_set (type_handlers (Ops rule) v @ comparison_handlers env (Ops rule) v) \<noteq> None"
  unfolding first_set_None
  by (auto simp: countComparisonOperators_def operators_set_def isSome_def
      type_handlers_def comparison_handlers_def split: if_splits)

abbreviation no_operator :: err where
  "no_operator \<equiv> ErrorNew ''no comparison operator specified in choice rule''"

lemma compare_not_no_operator:
  "compareString env v x f \<noteq> Err no_operator" "compareBoolean env v b \<noteq> Err no_operator"
  "compareNumeric env v y g \<noteq> Err no_operator" "compareTimestamp env v x h \<noteq> Err no_operator"
  by (auto simp: compareString_def compareBoolean_def compareNumeric_def compareTimestamp_def Let_def
      res_simps split: gval.splits if_splits ikind.splits)

lemma Some_eq_map_option: "Some r = map_option f x \<longleftrightarrow> (\<exists>y. x = Some y \<and> r = f y)"
  by (cases x) auto

lemma handler_not_no_operator:
  "Some r \<in> set (type_handlers ops v @ comparison_handlers env ops v) \<Longrightarrow> r \<noteq> Err no_operator"
  by (auto simp: type_handlers_def comparison_handlers_def Some_eq_map_option compare_not_no_operator
      compare_not_no_operator [symmetric])

lemma evaluateComparison_has_operator:
  assumes "countComparisonOperators rule > 0"
  shows "evaluateComparison env rule v \<noteq> Err no_operator"
proof -
  from handlers_set [OF assms, of v env] obtain r
    where "first_set (type_handlers (Ops rule) v @ comparison_handlers env (Ops rule) v) = Some r"
    by auto
  then show ?thesis
    using handler_not_no_operator [OF first_set_mem] by (simp add: evaluateComparison_def)
qed

lemma getVariableValue_not_Err: "getVariableValue env p i \<noteq> Err e"
  by (auto simp: getVariableValue_def split: res.splits)

lemma choiceContext_not_Err: "choiceContext env r i \<noteq> Err e"
  by (auto simp: choiceContext_def res_simps getVariableValue_not_Err)

lemma evaluateAnd_Err: "evaluateAnd env rs c = Err e \<Longrightarrow> \<exists>r\<in>set rs. evaluateChoice env r c = Err e"
  by (induction rs) (auto simp: res_simps split: if_splits)

lemma evaluateOr_Err: "evaluateOr env rs c = Err e \<Longrightarrow> \<exists>r\<in>set rs. evaluateChoice env r c = Err e"
  by (induction rs) (auto simp: res_simps split: if_splits)

text \<open>What a rule does once its context is known.\<close>

definition rule_body :: "env \<Rightarrow> choice_rule \<Rightarrow> gval \<Rightarrow> bool res" where
  "rule_body env r ctx =
    (if And r \<noteq> [] then evaluateAnd env (And r) ctx
     else if Or r \<noteq> [] then evaluateOr env (Or r) ctx
     else (case Not r of
             Some q \<Rightarrow> rbind (evaluateChoice env q ctx) (\<lambda>matched. Ok (\<not> matched))
           | None \<Rightarrow> evaluateComparison env r ctx))"

lemma evaluateChoice_unfold:
  "evaluateChoice env r input = rbind (choiceContext env r input) (\<lambda>c.
     (case c of None \<Rightarrow> Ok False | Some ctx \<Rightarrow> rule_body env r ctx))"
  by (cases r) (auto simp: evaluateChoice.simps(1) rule_body_def intro!: rbind_cong split: option.split)

abbreviation subrules :: "choice_rule \<Rightarrow> choice_rule set" where
  "subrules r \<equiv> set (And r) \<union> set (Or r) \<union> set_option (Not r)"

lemma evaluateChoice_Err:
  assumes "evaluateChoice env r input = Err e"
  obtains (compare) c where "countCompoundOperators r = 0" and "evaluateComparison env r c = Err e"
  | (nested) c q where "q \<in> subrules r" and "evaluateChoice env q c = Err e"
proof -
  from assms choiceContext_not_Err [of env r input e] obtain c where "rule_body env r c = Err e"
    unfolding evaluateChoice_unfold [of env r] rbind_eq_Err by (auto split: option.splits)
  then consider "And r \<noteq> []" "evaluateAnd env (And r) c = Err e"
    | "Or r \<noteq> []" "evaluateOr env (Or r) c = Err e"
    | q where "Not r = Some q" "evaluateChoice env q c = Err e"
    | "countCompoundOperators r = 0" "evaluateComparison env r c = Err e"
    unfolding rule_body_def
    by (auto simp: countCompoundOperators_def rbind_eq_Err split: if_splits option.splits)
  then show thesis
  proof cases
    case 1
    then show thesis using nested evaluateAnd_Err by blast
  next
    case 2
    then show thesis using nested evaluateOr_Err by blast
  next
    case (3 q)
    then show thesis using nested [of q c] by simp
  next
    case 4
    then show thesis by (rule compare)
  qed
qed

text \<open>No rule nested in \<open>r\<close> is itself compound.\<close>

definition nested_once :: "choice_rule \<Rightarrow> bool" where
  "nested_once r \<longleftrightarrow>
    (\<forall>q\<in>subrules r. countCompoundOperators q = 0)"

lemma validateOperatorRequirements_counts:
  "validateOperatorRequirements r i a b = None \<Longrightarrow> a > 0 \<or> b > 0"
  by (auto simp: validateOperatorRequirements_def)

lemma validateNestedChoice_counts:
  "validateNestedChoice q i p t = None \<Longrightarrow> countComparisonOperators q > 0 \<or> countCompoundOperators q > 0"
  by (auto simp: validateNestedChoice_def dest: validateOperatorRequirements_counts)

lemma validateNestedChoices_counts:
  assumes "validateNestedChoices r p = None" and "q \<in> subrules r"
  shows "countComparisonOperators q > 0 \<or> countCompoundOperators q > 0"
proof -
  obtain i t where "validateNestedChoice q i p t = None"
    using assms by (auto simp: validateNestedChoices_def in_set_conv_nth split: option.splits)
  then show ?thesis by (rule validateNestedChoice_counts)
qed

lemma no_operator_simple:
  assumes "countCompoundOperators r = 0" and "countComparisonOperators r > 0"
  shows "evaluateChoice env r input \<noteq> Err no_operator"
proof
  assume "evaluateChoice env r input = Err no_operator"
  then show False
  proof (cases rule: evaluateChoice_Err)
    case (compare c)
    with evaluateComparison_has_operator [OF assms(2)] show False by blast
  next
    case (nested c q)
    with assms(1) show False by (auto simp: countCompoundOperators_def split: if_splits)
  qed
qed

lemma validateChoice_no_operator:
  assumes "validateChoice r i b = None" and "nested_once r"
  shows "evaluateChoice env r input \<noteq> Err no_operator"
proof
  have checks: "validateOperatorRequirements r i (countComparisonOperators r) (countCompoundOperators r) = None"
      "validateNestedChoices r i = None"
    using assms(1) by (auto simp: validateChoice_def)
  assume bad: "evaluateChoice env r input = Err no_operator"
  then show False
  proof (cases rule: evaluateChoice_Err)
    case (compare c)
    then show False
      using validateOperatorRequirements_counts [OF checks(1)] no_operator_simple bad by simp
  next
    case (nested c q)
    then have "countCompoundOperators q = 0" using assms(2) by (simp add: nested_once_def)
    then show False
      using validateNestedChoices_counts [OF checks(2) nested(1)] no_operator_simple nested(2) by simp
  qed
qed

section \<open>Properties\<close>

text \<open>C36: A Choice state takes the first rule that matches. Whenever \<open>Execute\<close> succeeds, the next state is
  the \<open>Next\<close> of a rule that evaluates to true while every rule before it evaluates to false, or, when all
  rules evaluate to false, the \<open>Default\<close>; in particular there always is a next state.\<close>

theorem ChoiceState_first_match:
  assumes "ChoiceState_Execute env s input = Returned v n None"
  shows "\<exists>inp. pp_ApplyInputPath (GetPathProcessor env) input (InputPath s) = Ok inp \<and> n \<noteq> None \<and>
    ((\<exists>i<length (Choices s). n = Some (rule_Next (Choices s ! i)) \<and>
         evaluateChoice env (Choices s ! i) inp = Ok True \<and>
         (\<forall>j<i. evaluateChoice env (Choices s ! j) inp = Ok False)) \<or>
     (n = Default s \<and> (\<forall>r\<in>set (Choices s). evaluateChoice env r inp = Ok False)))"
proof -
  from ChoiceState_outcome [OF assms] obtain inp m
    where inp: "pp_ApplyInputPath (GetPathProcessor env) input (InputPath s) = Ok inp"
      and m: "first_match env (Choices s) inp = Ok m" and n: "n \<noteq> None"
      and n_def: "n = (case m of Some r \<Rightarrow> Some (rule_Next r) | None \<Rightarrow> Default s)" by blast
  show ?thesis
  proof (cases m)
    case None
    with m n_def inp n show ?thesis by (auto simp: first_match_None)
  next
    case (Some r)
    with m obtain i where "matches_first env (Choices s) inp i" "r = Choices s ! i"
      by (auto simp: first_match_Some)
    with Some n_def inp n show ?thesis
      by (intro exI [of _ inp]) (auto simp: matches_first.simps)
  qed
qed

definition is_present_rule :: "string \<Rightarrow> string \<Rightarrow> choice_rule" where
  "is_present_rule var nx = ChoiceRule var (no_ops\<lparr>IsPresent := Some True\<rparr>) [] [] None nx []"

definition sample_choice :: choice_state where
  "sample_choice = base_state.extend (new_base ''C'' ''Choice'')
     (choice_state.fields [is_present_rule ''$.x'' ''A'', is_present_rule ''$.y'' ''B''] (Some ''D''))"

lemma sample_choice_run:
  "ChoiceState_Execute quiet_env sample_choice (GMap [(''y'', GBool True)]) =
   Returned (GMap [(''y'', GBool True)]) (Some ''B'') None"
  by code_simp

theorem ChoiceState_first_match_witness:
  "\<exists>i<length (Choices sample_choice). Some ''B'' = Some (rule_Next (Choices sample_choice ! i))"
  using ChoiceState_first_match [OF sample_choice_run] by (auto simp: sample_choice_def choice_state.defs base_state.defs)

text \<open>If the input path applies, every rule evaluates to false and there is no \<open>Default\<close>, then \<open>Execute\<close> fails
  with exactly the error "no choice rule matched and no default specified", and yields no next state.\<close>

theorem ChoiceState_no_match:
  assumes "pp_ApplyInputPath (GetPathProcessor env) input (InputPath s) = Ok inp"
    and "\<forall>r\<in>set (Choices s). evaluateChoice env r inp = Ok False" and "Default s = None"
  shows "ChoiceState_Execute env s input =
    Returned GNil None (Some (ErrorNew ''no choice rule matched and no default specified''))"
proof -
  have "first_match env (Choices s) inp = Ok None" using assms(2) by (simp add: first_match_None)
  then show ?thesis using assms(1,3) by (simp add: ChoiceState_Execute_def)
qed

theorem ChoiceState_no_match_witness:
  "ChoiceState_Execute quiet_env (sample_choice\<lparr>Default := None\<rparr>) (GMap []) =
   Returned GNil None (Some (ErrorNew ''no choice rule matched and no default specified''))"
  by (rule ChoiceState_no_match [where inp = "GMap []"]) code_simp+

text \<open>Validation of a Choice state rules out the run-time error "no comparison operator specified in choice
  rule", for states whose compound rules are nested at most once (the depth \<open>validateNestedChoice\<close> visits).\<close>

theorem ChoiceState_Validate_operators:
  assumes "ChoiceState_Validate s = None" and "\<forall>r\<in>set (Choices s). nested_once r" and "r \<in> set (Choices s)"
  shows "evaluateChoice env r input \<noteq> Err (ErrorNew ''no comparison operator specified in choice rule'')"
proof -
  from assms(1,3) have "\<exists>i. validateChoice r i True = None"
    by (auto simp: ChoiceState_Validate_def in_set_conv_nth)
  then show ?thesis using validateChoice_no_operator assms(2,3) by blast
qed

theorem ChoiceState_Validate_operators_witness:
  "evaluateChoice quiet_env (is_present_rule ''$.x'' ''A'') (GMap []) \<noteq>
   Err (ErrorNew ''no comparison operator specified in choice rule'')"
  by (rule ChoiceState_Validate_operators [of sample_choice]) code_simp+

text \<open>The nesting bound is needed: validation looks at nested rules one level deep only. A rule \<open>Not (Not r)\<close>
  whose inner \<open>r\<close> has no operator passes \<open>Validate\<close> and fails whenever it is evaluated.\<close>

definition bare_rule :: choice_rule where
  "bare_rule = ChoiceRule [] no_ops [] [] None [] []"

definition deep_rule :: choice_rule where
  "deep_rule = ChoiceRule [] no_ops [] [] (Some (ChoiceRule [] no_ops [] [] (Some bare_rule) [] [])) ''A'' []"

definition deep_choice :: choice_state where
  "deep_choice = base_state.extend (new_base ''C'' ''Choice'') (choice_state.fields [deep_rule] None)"

lemma deep_rule_eval:
  "evaluateChoice env deep_rule v = Err (ErrorNew ''no comparison operator specified in choice rule'')"
  by (simp add: evaluateChoice.simps(1) deep_rule_def bare_rule_def choiceContext_def evaluateComparison_def
      type_handlers_def comparison_handlers_def no_ops_def)

theorem deep_choice_gap:
  "ChoiceState_Validate deep_choice = None \<and>
   evaluateChoice env deep_rule v = Err (ErrorNew ''no comparison operator specified in choice rule'')"
proof
  show "ChoiceState_Validate deep_choice = None" by code_simp
qed (rule deep_rule_eval)

text \<open>Compound operators mean what they say: for a rule without a \<open>Variable\<close>, \<open>And\<close> is true exactly when every
  nested rule is true, \<open>Or\<close> is false exactly when every nested rule is false, and \<open>Not\<close> is the
  negation.\<close>

theorem evaluateChoice_compound:
  "(ands \<noteq> [] \<longrightarrow> (evaluateChoice env (ChoiceRule [] ops ands ors nt nx cm) v = Ok True \<longleftrightarrow>
       (\<forall>r\<in>set ands. evaluateChoice env r v = Ok True))) \<and>
   (ors \<noteq> [] \<longrightarrow> (evaluateChoice env (ChoiceRule [] ops [] ors nt nx cm) v = Ok False \<longleftrightarrow>
       (\<forall>r\<in>set ors. evaluateChoice env r v = Ok False))) \<and>
   (evaluateChoice env (ChoiceRule [] ops [] [] (Some r) nx cm) v = Ok b \<longleftrightarrow> evaluateChoice env r v = Ok (\<not> b))"
  by (auto simp: evaluateChoice.simps(1) choiceContext_def evaluateAnd_True evaluateOr_False rbind_eq_Ok)

theorem evaluateChoice_compound_witness:
  "evaluateChoice quiet_env
     (ChoiceRule [] no_ops [is_present_rule ''$.x'' []] [] None [] []) (GMap [(''x'', GBool True)]) = Ok True"
proof -
  have "\<forall>r\<in>set [is_present_rule ''$.x'' []]. evaluateChoice quiet_env r (GMap [(''x'', GBool True)]) = Ok True"
    by code_simp
  then show ?thesis
    using evaluateChoice_compound [of "[is_present_rule ''$.x'' []]" quiet_env no_ops "[]" None "[]" "[]"] by blast
qed

end
