(* ===== verification/Task.thy ===== *)
theory Task
  imports BaseState
begin

text \<open>
  The Task state (\<open>internal/states/task.go\<close>): the default task handler, validation rules, input
  preparation, the retry loop with its backoff, catch policies and result processing.

  The call of a handler at attempt \<open>k\<close> of event \<open>ev\<close> is the event \<open>ev @ [k]\<close>; the wait after it is
  \<open>ev @ [k, 0]\<close>. With a timeout the handler runs in a goroutine of its own: a panic there crashes the process
  unless the timeout came first (a panic after the timeout is outside the model).
\<close>

section \<open>Policies and the state\<close>

record retry_policy =
  rp_ErrorEquals :: "string list"
  rp_IntervalSeconds :: "int option"
  rp_MaxAttempts :: "int option"
  rp_BackoffRate :: "f64 option"
  rp_MaxDelaySeconds :: "int option"
  rp_JitterStrategy :: string

record catch_policy =
  cp_ErrorEquals :: "string list"
  cp_ResultPath :: "string option"
  cp_Next :: string

record task_state = base_state +
  Resource :: string
  task_Parameters :: "gmap option"
  TimeoutSeconds :: "int option"
  HeartbeatSeconds :: "int option"
  Retry :: "retry_policy list"
  Catch :: "catch_policy list"
  ResultSelector :: "gmap option"
  TaskHandler :: "string option"

section \<open>The default task handler\<close>

definition root_context :: "gval \<Rightarrow> gval" where
  "root_context v = GMap [(''$'', v)]"

definition DefaultTaskHandler_Execute :: "env \<Rightarrow> evid \<Rightarrow> string \<Rightarrow> gval \<Rightarrow> gmap option \<Rightarrow> gval res" where
  "DefaultTaskHandler_Execute env ev resource input parameters =
    (if has_handler env resource then
       rbind (case parameters of
                None \<Rightarrow> Ok input
              | Some p \<Rightarrow> wrap_err ''failed to expand parameters'' (expandValue (GMap p) (root_context input)))
         (\<lambda>taskInput. run_handler env ev resource taskInput)
     else Ok input)"

fun in_goroutine :: "'a res \<Rightarrow> 'a res" where
  "in_goroutine (Panic m) = Crash m"
| "in_goroutine r = r"

definition DefaultTaskHandler_ExecuteWithTimeout ::
  "env \<Rightarrow> evid \<Rightarrow> string \<Rightarrow> gval \<Rightarrow> gmap option \<Rightarrow> int option \<Rightarrow> gval res" where
  "DefaultTaskHandler_ExecuteWithTimeout env ev resource input parameters timeoutSeconds =
    (case timeoutSeconds of
       None \<Rightarrow> DefaultTaskHandler_Execute env ev resource input parameters
     | Some secs \<Rightarrow>
         if secs \<le> 0 then DefaultTaskHandler_Execute env ev resource input parameters
         else (case timeout_first env ev of
                 Some e \<Rightarrow> Err e
               | None \<Rightarrow> in_goroutine (DefaultTaskHandler_Execute env ev resource input parameters)))"

definition DefaultTaskHandler_CanHandle :: "string \<Rightarrow> bool" where
  "DefaultTaskHandler_CanHandle resource = True"

definition TaskState_GetType :: "task_state \<Rightarrow> string" where
  "TaskState_GetType t = ''Task''"

section \<open>Validation\<close>

definition task_msg :: "task_state \<Rightarrow> string \<Rightarrow> string" where
  "task_msg t m = ''task state '' @ quoted (Name t) @ m"

definition resourceRequiredRule :: "task_state \<Rightarrow> check" where
  "resourceRequiredRule t = fail_if (Resource t = []) (task_msg t '' Resource is required'')"

definition timeoutPositiveRule :: "task_state \<Rightarrow> check" where
  "timeoutPositiveRule t =
    fail_if (case TimeoutSeconds t of Some s \<Rightarrow> s \<le> 0 | None \<Rightarrow> False)
      (task_msg t '' TimeoutSeconds must be positive'')"

definition heartbeatPositiveRule :: "task_state \<Rightarrow> check" where
  "heartbeatPositiveRule t =
    fail_if (case HeartbeatSeconds t of Some s \<Rightarrow> s \<le> 0 | None \<Rightarrow> False)
      (task_msg t '' HeartbeatSeconds must be positive'')"

definition heartbeatLessThanTimeoutRule :: "task_state \<Rightarrow> check" where
  "heartbeatLessThanTimeoutRule t =
    fail_if (case (HeartbeatSeconds t, TimeoutSeconds t) of (Some h, Some s) \<Rightarrow> s \<le> h | _ \<Rightarrow> False)
      (task_msg t '' HeartbeatSeconds must be less than TimeoutSeconds'')"

definition policy_msg :: "task_state \<Rightarrow> string \<Rightarrow> nat \<Rightarrow> string \<Rightarrow> string" where
  "policy_msg t kind i m = task_msg t ('' '' @ kind @ '' policy '' @ show_nat i @ '': '' @ m)"

definition retryPolicyRule :: "task_state \<Rightarrow> check" where
  "retryPolicyRule t = check_each (\<lambda>i retry. check_seq
     [fail_if (rp_ErrorEquals retry = []) (policy_msg t ''Retry'' i ''ErrorEquals is required''),
      fail_if (case rp_MaxAttempts retry of Some m \<Rightarrow> m < 0 | None \<Rightarrow> False)
        (policy_msg t ''Retry'' i ''MaxAttempts must be non-negative''),
      fail_if (case rp_BackoffRate retry of Some r \<Rightarrow> r < Fin 1 | None \<Rightarrow> False)
        (policy_msg t ''Retry'' i ''BackoffRate must be >= 1.0'')]) 0 (Retry t)"

definition catchPolicyRule :: "task_state \<Rightarrow> check" where
  "catchPolicyRule t = check_each (\<lambda>i catchPolicy. check_seq
     [fail_if (cp_ErrorEquals catchPolicy = []) (policy_msg t ''Catch'' i ''ErrorEquals is required''),
      fail_if (cp_Next catchPolicy = []) (policy_msg t ''Catch'' i ''Next is required'')]) 0 (Catch t)"

definition TaskStateValidator_rules :: "(task_state \<Rightarrow> check) list" where
  "TaskStateValidator_rules =
    [resourceRequiredRule, timeoutPositiveRule, heartbeatPositiveRule, heartbeatLessThanTimeoutRule,
     retryPolicyRule, catchPolicyRule]"

definition TaskStateValidator_Validate :: "(task_state \<Rightarrow> check) list \<Rightarrow> task_state \<Rightarrow> check" where
  "TaskStateValidator_Validate rules task = check_seq (map (\<lambda>rule. rule task) rules)"

definition TaskState_Validate :: "task_state \<Rightarrow> check" where
  "TaskState_Validate t = TaskStateValidator_Validate TaskStateValidator_rules t"

section \<open>Execution\<close>

definition prepareInput :: "task_state \<Rightarrow> gval \<Rightarrow> (gval \<times> gval) res" where
  "prepareInput t input =
    rbind (wrap_err ''failed to apply input path'' (ApplyInputPath input (InputPath t))) (\<lambda>processedInput.
    rbind (case task_Parameters t of
             None \<Rightarrow> Ok processedInput
           | Some p \<Rightarrow> wrap_err ''failed to expand parameters''
                         (expandValue (GMap p) (root_context processedInput))) (\<lambda>taskInput.
    Ok (taskInput, processedInput)))"

text \<open>\<open>getTaskHandler\<close>, and the call of the handler it returns.\<close>

definition call_handler :: "env \<Rightarrow> evid \<Rightarrow> task_state \<Rightarrow> gval \<Rightarrow> gval res" where
  "call_handler env ev t taskInput =
    (case TaskHandler t of
       Some h \<Rightarrow> run_custom env h ev (Resource t) taskInput (task_Parameters t) (TimeoutSeconds t)
     | None \<Rightarrow> DefaultTaskHandler_ExecuteWithTimeout env ev (Resource t) taskInput (task_Parameters t)
                (TimeoutSeconds t))"

definition errorMatches :: "err \<Rightarrow> string list \<Rightarrow> bool" where
  "errorMatches e errorPatterns = list_ex (\<lambda>pattern. pattern = ''States.ALL'' \<or> pattern = Error e) errorPatterns"

fun maxAttempts_loop :: "retry_policy list \<Rightarrow> int" where
  "maxAttempts_loop [] = 1"
| "maxAttempts_loop (retry # rs) =
     (case rp_MaxAttempts retry of
        Some m \<Rightarrow> if m > 0 then m else maxAttempts_loop rs
      | None \<Rightarrow> maxAttempts_loop rs)"

definition calculateMaxAttempts :: "task_state \<Rightarrow> int" where
  "calculateMaxAttempts t = maxAttempts_loop (Retry t)"

definition shouldRetry :: "task_state \<Rightarrow> err \<Rightarrow> nat \<Rightarrow> int \<Rightarrow> bool" where
  "shouldRetry t taskErr attempt maxAttempts =
    (if int attempt \<ge> maxAttempts then False
     else list_ex (\<lambda>retry. errorMatches taskErr (rp_ErrorEquals retry)) (Retry t))"

definition apply_backoff :: "retry_policy \<Rightarrow> int \<Rightarrow> int" where
  "apply_backoff retry duration =
    (let d = (case rp_BackoffRate retry of
                Some rate \<Rightarrow> if rate > Fin 1 then f64_to_int64 (f64_mul (f64_of_int duration) rate) else duration
              | None \<Rightarrow> duration)
     in case rp_MaxDelaySeconds retry of
          Some secs \<Rightarrow> (let maxDuration = wrap64 (secs * 10 ^ 9) in if d > maxDuration then maxDuration else d)
        | None \<Rightarrow> d)"

definition calculateBackoffDuration :: "task_state \<Rightarrow> err \<Rightarrow> int \<Rightarrow> int" where
  "calculateBackoffDuration t taskErr currentDuration =
    (case find (\<lambda>retry. errorMatches taskErr (rp_ErrorEquals retry)) (Retry t) of
       Some retry \<Rightarrow> apply_backoff retry currentDuration
     | None \<Rightarrow> currentDuration)"

definition waitForRetry :: "env \<Rightarrow> evid \<Rightarrow> int \<Rightarrow> check" where
  "waitForRetry env ev backoffDuration = ctx_done env ev"

function retry_loop :: "env \<Rightarrow> evid \<Rightarrow> task_state \<Rightarrow> gval \<Rightarrow> int \<Rightarrow> nat \<Rightarrow> int \<Rightarrow>
    (gval \<times> bool \<times> err option) res" where
  "retry_loop env ev t taskInput maxAttempts attempt backoffDuration =
    (if int attempt \<le> maxAttempts then
       (case call_handler env (ev @ [attempt]) t taskInput of
          Ok result \<Rightarrow> Ok (result, True, None)
        | Panic m \<Rightarrow> Panic m
        | Crash m \<Rightarrow> Crash m
        | Err taskErr \<Rightarrow>
            if \<not> shouldRetry t taskErr attempt maxAttempts then Ok (GNil, False, Some taskErr)
            else (let backoff = calculateBackoffDuration t taskErr backoffDuration in
                  case waitForRetry env (ev @ [attempt, 0]) backoff of
                    Some e \<Rightarrow> Ok (GNil, False, Some e)
                  | None \<Rightarrow> retry_loop env ev t taskInput maxAttempts (Suc attempt) backoff))
     else Ok (GNil, False, Some (ErrorNew ''max retry attempts exceeded'')))"
  by pat_completeness auto
termination
  by (relation "measure (\<lambda>(_, _, _, _, m, attempt, _). nat (m + 1 - int attempt))") auto

declare retry_loop.simps [simp del]

definition executeWithRetry :: "env \<Rightarrow> evid \<Rightarrow> task_state \<Rightarrow> gval \<Rightarrow> (gval \<times> bool \<times> err option) res" where
  "executeWithRetry env ev t taskInput =
    retry_loop env ev t taskInput (calculateMaxAttempts t) 0 (10 ^ 9)"

definition handleCaughtError :: "gval \<Rightarrow> err \<Rightarrow> catch_policy \<Rightarrow> (gval \<times> string option) res" where
  "handleCaughtError processedInput taskErr catchPolicy =
    (let errorResult = GMap [(''Error'', GString (Error taskErr)), (''Cause'', GString (Error taskErr))] in
     rbind (wrap_err ''failed to apply result path in catch''
              (ApplyResultPath processedInput errorResult (cp_ResultPath catchPolicy)))
       (\<lambda>output. Ok (output, Some (cp_Next catchPolicy))))"

definition handleTaskFailure :: "task_state \<Rightarrow> gval \<Rightarrow> err \<Rightarrow> (gval \<times> string option) res" where
  "handleTaskFailure t processedInput taskErr =
    (case find (\<lambda>catchPolicy. errorMatches taskErr (cp_ErrorEquals catchPolicy)) (Catch t) of
       Some catchPolicy \<Rightarrow> handleCaughtError processedInput taskErr catchPolicy
     | None \<Rightarrow> Err taskErr)"

definition processSuccessfulResult :: "task_state \<Rightarrow> gval \<Rightarrow> gval \<Rightarrow> (gval \<times> string option) res" where
  "processSuccessfulResult t processedInput result =
    rbind (case ResultSelector t of
             None \<Rightarrow> Ok result
           | Some sel \<Rightarrow> wrap_err ''failed to apply result selector'' (expandValue (GMap sel) (root_context result)))
      (\<lambda>output.
    rbind (wrap_err ''failed to apply result path'' (ApplyResultPath processedInput output (ResultPath t)))
      (\<lambda>output2.
    rbind (wrap_err ''failed to apply output path'' (ApplyOutputPath output2 (OutputPath t)))
      (\<lambda>output3. Ok (output3, Next t))))"

definition handleTaskResult :: "task_state \<Rightarrow> gval \<Rightarrow> gval \<Rightarrow> err option \<Rightarrow> (gval \<times> string option) res" where
  "handleTaskResult t processedInput result taskErr =
    (case taskErr of
       Some e \<Rightarrow> handleTaskFailure t processedInput e
     | None \<Rightarrow> processSuccessfulResult t processedInput result)"

definition TaskState_Execute :: "env \<Rightarrow> evid \<Rightarrow> task_state \<Rightarrow> gval \<Rightarrow> outcome" where
  [state_defs]: "TaskState_Execute env ev t input = outcome_of
    (rbind (prepareInput t input) (\<lambda>(taskInput, processedInput).
     rbind (executeWithRetry env ev t taskInput) (\<lambda>(result, retryExhausted, taskErr).
       (case taskErr of
          Some e \<Rightarrow> if retryExhausted then Err e else handleTaskResult t processedInput result taskErr
        | None \<Rightarrow> handleTaskResult t processedInput result taskErr))))"

definition TaskState_GetNextStates :: "task_state \<Rightarrow> string list" where
  "TaskState_GetNextStates t = (case Next t of Some n \<Rightarrow> [n] | None \<Rightarrow> []) @ map cp_Next (Catch t)"

section \<open>Specification of the retry loop\<close>

text \<open>
  Attempt \<open>j\<close> is \<^emph>\<open>retried\<close> when its handler call failed with an error that a retry policy matches and
  the wait after it was not cancelled. \<open>settle\<close> is what the loop returns when it stops at attempt \<open>k\<close>.
\<close>

definition retry_matches :: "task_state \<Rightarrow> err \<Rightarrow> bool" where
  "retry_matches t e = list_ex (\<lambda>retry. errorMatches e (rp_ErrorEquals retry)) (Retry t)"

definition retried :: "env \<Rightarrow> evid \<Rightarrow> task_state \<Rightarrow> gval \<Rightarrow> nat \<Rightarrow> bool" where
  "retried env ev t taskInput j =
    (case call_handler env (ev @ [j]) t taskInput of
       Err e \<Rightarrow> retry_matches t e \<and> ctx_done env (ev @ [j, 0]) = None
     | _ \<Rightarrow> False)"

definition settle :: "env \<Rightarrow> evid \<Rightarrow> task_state \<Rightarrow> gval \<Rightarrow> int \<Rightarrow> nat \<Rightarrow> (gval \<times> bool \<times> err option) res" where
  "settle env ev t taskInput m k =
    (case call_handler env (ev @ [k]) t taskInput of
       Ok v \<Rightarrow> Ok (v, True, None)
     | Err e \<Rightarrow> Ok (GNil, False,
         Some (if int k < m \<and> retry_matches t e then the (ctx_done env (ev @ [k, 0])) else e))
     | Panic p \<Rightarrow> Panic p
     | Crash c \<Rightarrow> Crash c)"

lemma shouldRetry_iff: "shouldRetry t e k m \<longleftrightarrow> int k < m \<and> retry_matches t e"
  by (simp add: shouldRetry_def retry_matches_def)

lemma calculateMaxAttempts_pos: "1 \<le> calculateMaxAttempts t"
proof -
  have "1 \<le> maxAttempts_loop rs" for rs by (induction rs) (auto split: option.splits)
  then show ?thesis by (simp add: calculateMaxAttempts_def)
qed

lemma retry_loop_step:
  assumes "int k \<le> m"
  shows "if int k < m \<and> retried env ev t v k
         then \<exists>d'. retry_loop env ev t v m k d = retry_loop env ev t v m (Suc k) d'
         else retry_loop env ev t v m k d = settle env ev t v m k"
  using assms retry_loop.simps [of env ev t v m k d]
  by (auto simp: retried_def settle_def shouldRetry_iff waitForRetry_def Let_def
      split: res.splits option.splits)

lemma retry_loop_settles:
  "int k \<le> m \<Longrightarrow>
   \<exists>n\<ge>k. int n \<le> m \<and> (\<forall>j. k \<le> j \<and> j < n \<longrightarrow> retried env ev t v j) \<and>
         \<not> (int n < m \<and> retried env ev t v n) \<and> retry_loop env ev t v m k d = settle env ev t v m n"
proof (induction "nat (m - int k)" arbitrary: k d rule: less_induct)
  case less
  show ?case
  proof (cases "int k < m \<and> retried env ev t v k")
    case True
    with retry_loop_step [OF less.prems, of env ev t v d] obtain d'
      where step: "retry_loop env ev t v m k d = retry_loop env ev t v m (Suc k) d'" by auto
    from True less.hyps [of "Suc k" d'] obtain n where n: "n \<ge> Suc k" "int n \<le> m"
        "\<forall>j. Suc k \<le> j \<and> j < n \<longrightarrow> retried env ev t v j" "\<not> (int n < m \<and> retried env ev t v n)"
        "retry_loop env ev t v m (Suc k) d' = settle env ev t v m n" by auto
    have "\<forall>j. k \<le> j \<and> j < n \<longrightarrow> retried env ev t v j"
      using n(3) True by (metis Suc_leI le_neq_implies_less)
    with n step show ?thesis by (intro exI [of _ n]) auto
  next
    case False
    with retry_loop_step [OF less.prems, of env ev t v d] less.prems show ?thesis
      by (intro exI [of _ k]) auto
  qed
qed

lemma executeWithRetry_settles:
  "\<exists>n. int n \<le> calculateMaxAttempts t \<and> (\<forall>j<n. retried env ev t v j) \<and>
       \<not> (int n < calculateMaxAttempts t \<and> retried env ev t v n) \<and>
       executeWithRetry env ev t v = settle env ev t v (calculateMaxAttempts t) n"
proof -
  have "int 0 \<le> calculateMaxAttempts t" using calculateMaxAttempts_pos [of t] by simp
  from retry_loop_settles [OF this, of env ev t v "10 ^ 9"] show ?thesis
    unfolding executeWithRetry_def by auto
qed

text \<open>The attempt at which the loop stops is unique, so the loop has one result.\<close>

lemma settle_unique:
  assumes "int n \<le> m" "\<forall>j<n. retried env ev t v j" "\<not> (int n < m \<and> retried env ev t v n)"
    and "int n' \<le> m" "\<forall>j<n'. retried env ev t v j" "\<not> (int n' < m \<and> retried env ev t v n')"
  shows "n = n'"
proof (rule linorder_cases [of n n'])
  assume "n < n'"
  with assms(1,3-5) show ?thesis by simp
next
  assume "n' < n"
  with assms(1,2,4,6) show ?thesis by simp
qed

lemma executeWithRetry_at:
  assumes "int n \<le> calculateMaxAttempts t" "\<forall>j<n. retried env ev t v j"
    and "\<not> (int n < calculateMaxAttempts t \<and> retried env ev t v n)"
  shows "executeWithRetry env ev t v = settle env ev t v (calculateMaxAttempts t) n"
  using executeWithRetry_settles [of t env ev v] settle_unique [OF assms] by blast

lemma settle_flag: "settle env ev t v m k = Ok (r, b, e) \<Longrightarrow> b = (e = None)"
  by (auto simp: settle_def split: res.splits)

lemma executeWithRetry_flag: "executeWithRetry env ev t v = Ok (r, b, e) \<Longrightarrow> b = (e = None)"
  using executeWithRetry_settles [of t env ev v] settle_flag by metis

text \<open>Hence the early return of \<open>Execute\<close> for an exhausted retry never happens.\<close>

lemma TaskState_Execute_unfold:
  "TaskState_Execute env ev t input = outcome_of
    (rbind (prepareInput t input) (\<lambda>(taskInput, processedInput).
     rbind (executeWithRetry env ev t taskInput) (\<lambda>(result, b, taskErr).
       handleTaskResult t processedInput result taskErr)))"
proof -
  have "rbind (executeWithRetry env ev t x) (\<lambda>(result, retryExhausted, taskErr).
       (case taskErr of
          Some e \<Rightarrow> if retryExhausted then Err e else handleTaskResult t y result taskErr
        | None \<Rightarrow> handleTaskResult t y result taskErr)) =
      rbind (executeWithRetry env ev t x) (\<lambda>(result, b, taskErr). handleTaskResult t y result taskErr)" for x y
    by (rule rbind_cong [OF refl]) (auto dest!: executeWithRetry_flag split: option.splits)
  then show ?thesis by (simp add: TaskState_Execute_def split_beta)
qed

lemma handleTaskResult_next:
  "handleTaskResult t i r e = Ok (v, Some n) \<Longrightarrow> n \<in> set (TaskState_GetNextStates t)"
  by (auto simp: handleTaskResult_def handleTaskFailure_def handleCaughtError_def processSuccessfulResult_def
      TaskState_GetNextStates_def Let_def rbind_eq_Ok find_Some_iff split: option.splits)

lemma TaskState_next [next_sound]:
  "TaskState_Execute env ev t input = Returned v (Some n) e \<Longrightarrow> n \<in> set (TaskState_GetNextStates t)"
  by (cases e) (auto simp: TaskState_Execute_unfold outcome_of_success outcome_of_error rbind_eq_Ok
      dest!: handleTaskResult_next)

lemma apply_backoff_capped:
  "rp_MaxDelaySeconds p = Some s \<Longrightarrow> apply_backoff p d \<le> wrap64 (s * 10 ^ 9)"
  by (simp add: apply_backoff_def Let_def)

lemma apply_backoff_range: "in_int64 d \<Longrightarrow> in_int64 (apply_backoff p d)"
  by (auto simp: apply_backoff_def Let_def split: option.splits)

section \<open>Properties\<close>

text \<open>A task with one retry policy for the error \<open>boom\<close>, and a handler that fails once and then succeeds.\<close>

definition boom_policy :: retry_policy where
  "boom_policy =
    \<lparr>rp_ErrorEquals = [''boom''], rp_IntervalSeconds = None, rp_MaxAttempts = Some 3,
     rp_BackoffRate = Some (Fin 2), rp_MaxDelaySeconds = Some 5, rp_JitterStrategy = []\<rparr>"

definition sample_task :: task_state where
  "sample_task = base_state.extend ((new_base ''T'' ''Task'')\<lparr>Next := Some ''U''\<rparr>)
     (task_state.fields ''res'' None None None [boom_policy]
        [\<lparr>cp_ErrorEquals = [''States.ALL''], cp_ResultPath = Some ''$.err'', cp_Next = ''H''\<rparr>] None None)"

definition flaky_env :: env where
  "flaky_env = quiet_env\<lparr>has_handler := (\<lambda>_. True),
     run_handler := (\<lambda>ev r v. if last ev = 0 then Err (ErrorNew ''boom'') else Ok (GString ''done''))\<rparr>"

definition failing_env :: env where
  "failing_env = quiet_env\<lparr>has_handler := (\<lambda>_. True), run_handler := (\<lambda>ev r v. Err (ErrorNew ''fatal''))\<rparr>"

text \<open>C34: Retry loop. There is an attempt \<open>n\<close>, at most \<open>calculateMaxAttempts\<close>, such that every attempt before \<open>n\<close> failed
  with an error a retry policy matches, attempt \<open>n\<close> is not retried any more, and the loop returns what attempt \<open>n\<close>
  gives: the handler's value, its error, or the cancellation of the wait. So a task makes at most
  \<open>calculateMaxAttempts + 1\<close> handler calls, and the fall-through error "max retry attempts exceeded" is never produced.\<close>

theorem executeWithRetry_spec:
  "\<exists>n. int n \<le> calculateMaxAttempts t \<and> (\<forall>j<n. retried env ev t v j) \<and>
       \<not> (int n < calculateMaxAttempts t \<and> retried env ev t v n) \<and>
       executeWithRetry env ev t v = settle env ev t v (calculateMaxAttempts t) n"
  by (rule executeWithRetry_settles)

theorem executeWithRetry_spec_witness:
  "\<exists>n. n \<le> 3 \<and> executeWithRetry flaky_env [] sample_task GNil = settle flaky_env [] sample_task GNil 3 n"
proof -
  have max: "calculateMaxAttempts sample_task = 3" by code_simp
  show ?thesis using executeWithRetry_spec [of sample_task flaky_env "[]" GNil] unfolding max by auto
qed

text \<open>Success. If the attempts before \<open>n\<close> are retried and attempt \<open>n\<close> (within the bound) succeeds with \<open>r\<close>, then
  \<open>Execute\<close> is the processing of \<open>r\<close>: selector, result path, output path, then the state's \<open>Next\<close>. No later
  attempt and no catch policy has any influence.\<close>

theorem TaskState_success:
  assumes "prepareInput t input = Ok (taskInput, processedInput)"
    and "int n \<le> calculateMaxAttempts t" and "\<forall>j<n. retried env ev t taskInput j"
    and "call_handler env (ev @ [n]) t taskInput = Ok r"
  shows "TaskState_Execute env ev t input = outcome_of (processSuccessfulResult t processedInput r)"
proof -
  have "\<not> retried env ev t taskInput n" using assms(4) by (simp add: retried_def)
  then have "executeWithRetry env ev t taskInput = Ok (r, True, None)"
    using executeWithRetry_at [OF assms(2,3)] assms(4) by (simp add: settle_def)
  then show ?thesis using assms(1) by (simp add: TaskState_Execute_unfold handleTaskResult_def)
qed

theorem TaskState_success_witness:
  "TaskState_Execute flaky_env [] sample_task (GMap []) =
   outcome_of (processSuccessfulResult sample_task (GMap []) (GString ''done''))"
  by (rule TaskState_success [where n = 1 and taskInput = "GMap []"]) code_simp+

text \<open>C37: Catch. If the retry loop gives up with the error \<open>e\<close>, the first catch policy that matches \<open>e\<close> decides: the
  execution continues at its \<open>Next\<close> with the error object placed at its \<open>ResultPath\<close>; without a matching policy
  \<open>Execute\<close> returns \<open>e\<close> itself.\<close>

theorem TaskState_catch:
  assumes "prepareInput t input = Ok (taskInput, processedInput)"
    and "executeWithRetry env ev t taskInput = Ok (r, b, Some e)"
  shows "((\<forall>c\<in>set (Catch t). \<not> errorMatches e (cp_ErrorEquals c)) \<longrightarrow>
            TaskState_Execute env ev t input = Returned GNil None (Some e)) \<and>
         (\<forall>i out. i < length (Catch t) \<and> errorMatches e (cp_ErrorEquals (Catch t ! i)) \<and>
            (\<forall>j<i. \<not> errorMatches e (cp_ErrorEquals (Catch t ! j))) \<and>
            ApplyResultPath processedInput
              (GMap [(''Error'', GString (Error e)), (''Cause'', GString (Error e))])
              (cp_ResultPath (Catch t ! i)) = Ok out \<longrightarrow>
            TaskState_Execute env ev t input = Returned out (Some (cp_Next (Catch t ! i))) None)"
proof (intro conjI allI impI)
  have run: "TaskState_Execute env ev t input = outcome_of (handleTaskFailure t processedInput e)"
    using assms by (simp add: TaskState_Execute_unfold handleTaskResult_def)
  show "TaskState_Execute env ev t input = Returned GNil None (Some e)"
    if "\<forall>c\<in>set (Catch t). \<not> errorMatches e (cp_ErrorEquals c)"
  proof -
    have "find (\<lambda>c. errorMatches e (cp_ErrorEquals c)) (Catch t) = None"
      using that by (auto simp: find_None_iff)
    then show ?thesis by (simp add: run handleTaskFailure_def)
  qed
  fix i out
  assume i: "i < length (Catch t) \<and> errorMatches e (cp_ErrorEquals (Catch t ! i)) \<and>
      (\<forall>j<i. \<not> errorMatches e (cp_ErrorEquals (Catch t ! j))) \<and>
      ApplyResultPath processedInput (GMap [(''Error'', GString (Error e)), (''Cause'', GString (Error e))])
         (cp_ResultPath (Catch t ! i)) = Ok out"
  then have "find (\<lambda>c. errorMatches e (cp_ErrorEquals c)) (Catch t) = Some (Catch t ! i)"
    unfolding find_Some_iff by auto
  then show "TaskState_Execute env ev t input = Returned out (Some (cp_Next (Catch t ! i))) None"
    using i by (simp add: run handleTaskFailure_def handleCaughtError_def)
qed

theorem TaskState_catch_witness:
  "TaskState_Execute failing_env [] sample_task (GMap []) =
   Returned (GMap [(''err'', GMap [(''Error'', GString ''fatal''), (''Cause'', GString ''fatal'')])])
     (Some ''H'') None"
proof -
  have "prepareInput sample_task (GMap []) = Ok (GMap [], GMap [])" by code_simp
  moreover have "executeWithRetry failing_env [] sample_task (GMap []) =
      Ok (GNil, False, Some (ErrorNew ''fatal''))" by code_simp
  ultimately have "TaskState_Execute failing_env [] sample_task (GMap []) =
     Returned (GMap [(''err'', GMap [(''Error'', GString ''fatal''), (''Cause'', GString ''fatal'')])])
       (Some (cp_Next (Catch sample_task ! 0))) None"
    by (rule TaskState_catch [THEN conjunct2, rule_format]) code_simp
  moreover have "cp_Next (Catch sample_task ! 0) = ''H''" by code_simp
  ultimately show ?thesis by simp
qed

text \<open>Backoff cap. With \<open>MaxDelaySeconds = s\<close> (in a range where \<open>s\<close> seconds are a valid duration) on the first policy that
  matches the error, the wait before the next attempt never exceeds \<open>s\<close> seconds, whatever the backoff rate and
  however long the loop has run.\<close>

theorem calculateBackoffDuration_capped:
  assumes "Retry t = pre @ p # post" and "\<forall>q\<in>set pre. \<not> errorMatches e (rp_ErrorEquals q)"
    and "errorMatches e (rp_ErrorEquals p)" and "rp_MaxDelaySeconds p = Some s" and "in_int64 (s * 10 ^ 9)"
  shows "calculateBackoffDuration t e d \<le> s * 10 ^ 9"
proof -
  have "find (\<lambda>q. errorMatches e (rp_ErrorEquals q)) (Retry t) = Some p"
    unfolding find_Some_iff using assms(1-3)
    by (intro exI [of _ "length pre"]) (auto simp: nth_append)
  then show ?thesis
    using apply_backoff_capped [OF assms(4), of d] assms(5) by (simp add: calculateBackoffDuration_def)
qed

theorem calculateBackoffDuration_capped_witness:
  "calculateBackoffDuration sample_task (ErrorNew ''boom'') (4 * 10 ^ 9) \<le> 5 * 10 ^ 9"
  by (rule calculateBackoffDuration_capped [where pre = "[]" and p = boom_policy and post = "[]"]) code_simp+

definition params_task :: task_state where
  "params_task = sample_task\<lparr>task_Parameters := Some [(''name'', GString ''$.user'')], Retry := [], Catch := []\<rparr>"

text \<open>Parameters are expanded twice. A task whose \<open>Parameters\<close> refer to a field of the input prepares its input
  correctly, and then fails when a handler is registered, because the default handler expands the same template a second
  time against the already expanded input.\<close>

theorem Parameters_expanded_twice:
  "prepareInput params_task (GMap [(''user'', GString ''bob'')]) =
     Ok (GMap [(''name'', GString ''bob'')], GMap [(''user'', GString ''bob'')]) \<and>
   TaskState_Execute flaky_env [] params_task (GMap [(''user'', GString ''bob'')]) =
     Returned GNil None (Some (Wrapped ''failed to expand parameters''
       (ErrorNew (''field '' @ quoted ''user'' @ '' not found''))))"
  by (rule conjI; code_simp)

end
