(* ===== verification/SimpleStates.thy ===== *)
theory SimpleStates
  imports BaseState
begin

text \<open>
  The Pass, Succeed and Fail states (\<open>internal/states/pass.go\<close>, \<open>succeed.go\<close>, \<open>fail.go\<close>): their
  structs, \<open>Execute\<close>, \<open>Validate\<close> and the accessors they override. \<open>MarshalJSON\<close> is modelled up to the
  map it hands to \<open>json.Marshal\<close>.
\<close>

section \<open>Pass\<close>

record pass_state = base_state +
  Result :: gval
  Parameters :: "gmap option"

definition NewPassState :: "string \<Rightarrow> pass_state" where
  "NewPassState name = base_state.extend (new_base name ''Pass'') (pass_state.fields GNil None)"

definition PassState_WithResult :: "pass_state \<Rightarrow> gval \<Rightarrow> pass_state" where
  "PassState_WithResult s result = s\<lparr>Result := result\<rparr>"

definition PassState_WithParameters :: "pass_state \<Rightarrow> gmap option \<Rightarrow> pass_state" where
  "PassState_WithParameters s params = s\<lparr>Parameters := params\<rparr>"

definition PassState_WithNext :: "pass_state \<Rightarrow> string \<Rightarrow> pass_state" where
  "PassState_WithNext s next = s\<lparr>Next := Some next\<rparr>"

definition PassState_WithEnd :: "pass_state \<Rightarrow> bool \<Rightarrow> pass_state" where
  "PassState_WithEnd s e = s\<lparr>End := e\<rparr>"

definition PassState_WithResultPath :: "pass_state \<Rightarrow> string \<Rightarrow> pass_state" where
  "PassState_WithResultPath s path = s\<lparr>ResultPath := Some path\<rparr>"

definition PassState_applyParameters :: "env \<Rightarrow> pass_state \<Rightarrow> gval \<Rightarrow> gval res" where
  "PassState_applyParameters env s input =
    (case Parameters s of
       None \<Rightarrow> Ok input
     | Some params \<Rightarrow>
         if \<not> is_map input then Ok (GMap params)
         else map_err (Wrapped ''failed to marshal parameters'') (json_copy env (GMap params)))"

definition PassState_result :: "env \<Rightarrow> pass_state \<Rightarrow> gval \<Rightarrow> gval res" where
  "PassState_result env s processedInput =
    (if Result s \<noteq> GNil then Ok (Result s)
     else if Parameters s \<noteq> None then
       wrap_err ''failed to apply parameters'' (PassState_applyParameters env s processedInput)
     else Ok processedInput)"

definition PassState_Execute :: "env \<Rightarrow> pass_state \<Rightarrow> gval \<Rightarrow> outcome" where
  [state_defs]: "PassState_Execute env s input = outcome_of
    (let processor = GetPathProcessor env in
     rbind (wrap_err ''failed to process input path''
              (pp_ApplyInputPath processor input (InputPath s))) (\<lambda>processedInput.
     rbind (PassState_result env s processedInput) (\<lambda>result.
     rbind (finish_paths processor ''failed to process result path'' ''failed to process output path''
              processedInput result (ResultPath s) (OutputPath s)) (\<lambda>finalOutput.
     Ok (finalOutput, Next s)))))"

definition PassState_Validate :: "pass_state \<Rightarrow> check" where
  "PassState_Validate s = check_seq
    [BaseState_Validate s,
     fail_if (Result s \<noteq> GNil \<and> Parameters s \<noteq> None)
       (''pass state '' @ quoted (Name s) @ '' cannot have both Result and Parameters''),
     (case ResultPath s of
        Some p \<Rightarrow> fail_if (p \<noteq> [] \<and> hd p \<noteq> CHR ''$'') (''ResultPath must start with '' @ quoted ''$'')
      | None \<Rightarrow> None)]"

definition opt_field :: "string \<Rightarrow> string option \<Rightarrow> gmap" where
  "opt_field k p = (case p of Some v \<Rightarrow> [(k, GString v)] | None \<Rightarrow> [])"

definition comment_field :: "string \<Rightarrow> gmap" where
  "comment_field c = (if c \<noteq> [] then [(''Comment'', GString c)] else [])"

definition PassState_MarshalJSON :: "pass_state \<Rightarrow> gmap" where
  "PassState_MarshalJSON s =
    [(''Type'', GString (StateType s))] @ opt_field ''Next'' (Next s) @
    (if End s then [(''End'', GBool (End s))] else []) @
    opt_field ''InputPath'' (InputPath s) @ opt_field ''ResultPath'' (ResultPath s) @
    opt_field ''OutputPath'' (OutputPath s) @ comment_field (Comment s) @
    (if Result s \<noteq> GNil then [(''Result'', Result s)] else []) @
    (case Parameters s of Some p \<Rightarrow> [(''Parameters'', GMap p)] | None \<Rightarrow> [])"

section \<open>Succeed\<close>

type_synonym succeed_state = base_state

definition SucceedState_Execute :: "env \<Rightarrow> succeed_state \<Rightarrow> gval \<Rightarrow> outcome" where
  [state_defs]: "SucceedState_Execute env s input = outcome_of
    (let processor = GetPathProcessor env in
     rbind (wrap_err ''failed to process input path''
              (pp_ApplyInputPath processor input (InputPath s))) (\<lambda>processedInput.
     rbind (wrap_err ''failed to process output path''
              (pp_ApplyOutputPath processor processedInput (OutputPath s))) (\<lambda>finalOutput.
     Ok (finalOutput, None))))"

definition SucceedState_GetNext :: "succeed_state \<Rightarrow> string option" where
  "SucceedState_GetNext s = None"

definition SucceedState_IsEnd :: "succeed_state \<Rightarrow> bool" where
  "SucceedState_IsEnd s = True"

definition SucceedState_Validate :: "succeed_state \<Rightarrow> check" where
  "SucceedState_Validate s = check_seq
    [fail_if (Name s = []) ''state name cannot be empty'',
     fail_if (StateType s \<noteq> ''Succeed'') (''succeed state must have Type '' @ quoted ''Succeed''),
     fail_if (Next s \<noteq> None) (''succeed state '' @ quoted (Name s) @ '' cannot have Next field''),
     fail_if (End s)
       (''succeed state '' @ quoted (Name s) @ '' cannot have End field (it'' @ [CHR 0x27] @ ''s implicit)''),
     fail_if (ResultPath s \<noteq> None) (''succeed state '' @ quoted (Name s) @ '' cannot have ResultPath'')]"

definition SucceedState_MarshalJSON :: "succeed_state \<Rightarrow> gmap" where
  "SucceedState_MarshalJSON s =
    [(''Type'', GString (StateType s))] @ opt_field ''InputPath'' (InputPath s) @
    opt_field ''OutputPath'' (OutputPath s) @ comment_field (Comment s)"

section \<open>Fail\<close>

record fail_state = base_state +
  fs_Error :: string
  fs_Cause :: string
  fs_HasCause :: bool

text \<open>The message is only logged; the handler returns its input, no next state and no error.\<close>

definition FailState_Execute :: "fail_state \<Rightarrow> gval \<Rightarrow> outcome" where
  [state_defs]: "FailState_Execute s input = Returned input None None"

definition FailState_GetNext :: "fail_state \<Rightarrow> string option" where
  "FailState_GetNext s = None"

definition FailState_IsEnd :: "fail_state \<Rightarrow> bool" where
  "FailState_IsEnd s = True"

definition FailState_Validate :: "fail_state \<Rightarrow> check" where
  "FailState_Validate s = check_seq
    [fail_if (Name s = []) ''state name cannot be empty'',
     fail_if (StateType s \<noteq> ''Fail'') (''fail state must have Type '' @ quoted ''Fail''),
     fail_if (fs_Error s = []) (''fail state '' @ quoted (Name s) @ '' must have Error field''),
     fail_if (Next s \<noteq> None) (''fail state '' @ quoted (Name s) @ '' cannot have Next field''),
     fail_if (End s)
       (''fail state '' @ quoted (Name s) @ '' cannot have End field (it'' @ [CHR 0x27] @ ''s implicit)''),
     fail_if (InputPath s \<noteq> None) (''fail state '' @ quoted (Name s) @ '' cannot have InputPath''),
     fail_if (ResultPath s \<noteq> None) (''fail state '' @ quoted (Name s) @ '' cannot have ResultPath''),
     fail_if (OutputPath s \<noteq> None) (''fail state '' @ quoted (Name s) @ '' cannot have OutputPath'')]"

definition FailState_MarshalJSON :: "fail_state \<Rightarrow> gmap" where
  "FailState_MarshalJSON s =
    [(''Type'', GString (StateType s)), (''Error'', GString (fs_Error s))] @
    (if fs_HasCause s \<and> fs_Cause s \<noteq> [] then [(''Cause'', GString (fs_Cause s))] else []) @
    comment_field (Comment s)"

section \<open>Lemmas\<close>

lemma PassState_next [next_sound]:
  "PassState_Execute env s input = Returned v (Some n) e \<Longrightarrow> Next s = Some n"
  by (cases e) (auto simp: state_defs outcome_of_success outcome_of_error Let_def res_simps)

lemma SucceedState_next: "SucceedState_Execute env s input \<noteq> Returned v (Some n) e"
  by (cases e) (auto simp: state_defs outcome_of_success outcome_of_error Let_def res_simps)

lemma FailState_next: "FailState_Execute s input \<noteq> Returned v (Some n) e"
  by (simp add: state_defs)

context path_processor
begin

lemma PassState_passthrough:
  assumes "path_proc env = pp" and "Result s = GNil" and "Parameters s = None"
    and "root_path (InputPath s)" and "root_path (ResultPath s)" and "root_path (OutputPath s)"
  shows "PassState_Execute env s input = Returned input (Next s) None"
  using assms
  by (simp add: PassState_Execute_def PassState_result_def GetPathProcessor_def input_root finish_root)

lemma PassState_constant:
  assumes "path_proc env = pp" and "Result s = r" and "r \<noteq> GNil"
    and "root_path (InputPath s)" and "root_path (ResultPath s)" and "root_path (OutputPath s)"
  shows "PassState_Execute env s input = Returned r (Next s) None"
  using assms
  by (simp add: PassState_Execute_def PassState_result_def GetPathProcessor_def input_root finish_root)

lemma SucceedState_passthrough:
  assumes "path_proc env = pp" and "root_path (InputPath s)" and "root_path (OutputPath s)"
  shows "SucceedState_Execute env s input = Returned input None None"
  using assms
  by (simp add: SucceedState_Execute_def GetPathProcessor_def input_root output_root)

end

end
