(* ===== verification/Wait.thy ===== *)
theory Wait
  imports SimpleStates
begin

text \<open>
  The Wait state (\<open>internal/states/wait.go\<close>). Durations are nanoseconds in an \<open>int64\<close>
  (\<open>time.Duration\<close>), so that \<open>time.Duration(s) * time.Second\<close> wraps; \<open>time.Until\<close> saturates.
  The clock is read at event \<open>ev\<close>, the wait itself is event \<open>ev @ [0]\<close>.
\<close>

record wait_state = base_state +
  Seconds :: "int option"
  SecondsPath :: "string option"
  Timestamp :: "string option"
  TimestampPath :: "string option"

definition WaitState_GetType :: "wait_state \<Rightarrow> string" where
  "WaitState_GetType w = ''Wait''"

definition waitMethodsCount :: "wait_state \<Rightarrow> nat" where
  "waitMethodsCount w =
    (if Seconds w \<noteq> None then 1 else 0) + (if SecondsPath w \<noteq> None then 1 else 0) +
    (if Timestamp w \<noteq> None then 1 else 0) + (if TimestampPath w \<noteq> None then 1 else 0)"

definition WaitState_Validate :: "wait_state \<Rightarrow> check" where
  "WaitState_Validate w = check_seq
    [fail_if (waitMethodsCount w = 0)
       (''wait state '' @ quoted (Name w) @
        '' must specify one of: Seconds, SecondsPath, Timestamp, or TimestampPath''),
     fail_if (waitMethodsCount w > 1)
       (''wait state '' @ quoted (Name w) @
        '' must specify only one of: Seconds, SecondsPath, Timestamp, or TimestampPath''),
     fail_if (case Seconds w of Some s \<Rightarrow> s < 0 | None \<Rightarrow> False)
       (''wait state '' @ quoted (Name w) @ '' Seconds must be non-negative'')]"

definition WaitState_prepareInput :: "wait_state \<Rightarrow> gval \<Rightarrow> gval res" where
  "WaitState_prepareInput w input = wrap_err ''failed to apply input path'' (ApplyInputPath input (InputPath w))"

fun toInt64 :: "gval \<Rightarrow> int res" where
  "toInt64 (GFloat64 v) = Ok (f64_to_int64 v)"
| "toInt64 (GInteger KInt v) = Ok v"
| "toInt64 (GInteger KInt64 v) = Ok v"
| "toInt64 (GNumber s) =
     (case atoi s of Some i \<Rightarrow> Ok i | None \<Rightarrow> Err (ErrorNew (''strconv.ParseInt: parsing '' @ s)))"
| "toInt64 v = Err (ErrorNew (''cannot convert '' @ type_name v @ '' to int64''))"

text \<open>\<open>time.Duration(s) * time.Second\<close>.\<close>

definition seconds_duration :: "int \<Rightarrow> int" where
  "seconds_duration s = wrap64 (s * 10 ^ 9)"

definition calculateSecondsPathWait :: "string \<Rightarrow> gval \<Rightarrow> int res" where
  "calculateSecondsPathWait path processedInput =
    rbind (wrap_err (''failed to extract SecondsPath '' @ quoted path) (Get processedInput path)) (\<lambda>secondsValue.
    rbind (wrap_err ''SecondsPath value is not a valid number'' (toInt64 secondsValue)) (\<lambda>seconds.
    if seconds < 0 then Err (ErrorNew ''SecondsPath value must be non-negative'')
    else Ok (seconds_duration seconds)))"

text \<open>\<open>time.Until\<close>: the difference to the clock, saturating at the bounds of a duration.\<close>

definition time_until :: "int \<Rightarrow> int \<Rightarrow> int" where
  "time_until target now = max (- (2 ^ 63)) (min (2 ^ 63 - 1) (target - now))"

definition calculateTimeUntil :: "env \<Rightarrow> evid \<Rightarrow> int \<Rightarrow> int" where
  "calculateTimeUntil env ev targetTime =
    (let waitDuration = time_until targetTime (now_ns env ev) in if waitDuration < 0 then 0 else waitDuration)"

definition calculateTimestampWait :: "env \<Rightarrow> evid \<Rightarrow> string \<Rightarrow> int res" where
  "calculateTimestampWait env ev timestamp =
    rbind (wrap_err (''failed to parse timestamp '' @ quoted timestamp) (time_parse env RFC3339 timestamp))
      (\<lambda>targetTime. Ok (calculateTimeUntil env ev targetTime))"

definition calculateTimestampPathWait :: "env \<Rightarrow> evid \<Rightarrow> string \<Rightarrow> gval \<Rightarrow> int res" where
  "calculateTimestampPathWait env ev path processedInput =
    rbind (wrap_err (''failed to extract TimestampPath '' @ quoted path) (Get processedInput path)) (\<lambda>timestampValue.
      (case timestampValue of
         GString timestampStr \<Rightarrow> calculateTimestampWait env ev timestampStr
       | _ \<Rightarrow> Err (ErrorNew ''TimestampPath value is not a string'')))"

text \<open>The strategies in the order of the table; the first whose field is set is used.\<close>

definition calculateWaitDuration :: "env \<Rightarrow> evid \<Rightarrow> wait_state \<Rightarrow> gval \<Rightarrow> int res" where
  "calculateWaitDuration env ev w processedInput =
    (case Seconds w of Some s \<Rightarrow> Ok (seconds_duration s)
     | None \<Rightarrow>
    (case SecondsPath w of Some p \<Rightarrow> calculateSecondsPathWait p processedInput
     | None \<Rightarrow>
    (case Timestamp w of Some ts \<Rightarrow> calculateTimestampWait env ev ts
     | None \<Rightarrow>
    (case TimestampPath w of Some p \<Rightarrow> calculateTimestampPathWait env ev p processedInput
     | None \<Rightarrow> Ok 0))))"

definition performWait :: "env \<Rightarrow> evid \<Rightarrow> int \<Rightarrow> check" where
  "performWait env ev waitDuration = (if waitDuration \<le> 0 then None else ctx_done env ev)"

definition prepareOutput :: "wait_state \<Rightarrow> gval \<Rightarrow> (gval \<times> string option) res" where
  "prepareOutput w processedInput =
    rbind (wrap_err ''failed to apply result path'' (ApplyResultPath processedInput processedInput (ResultPath w)))
      (\<lambda>output.
    rbind (wrap_err ''failed to apply output path'' (ApplyOutputPath output (OutputPath w))) (\<lambda>output2.
    Ok (output2, Next w)))"

definition WaitState_Execute :: "env \<Rightarrow> evid \<Rightarrow> wait_state \<Rightarrow> gval \<Rightarrow> outcome" where
  [state_defs]: "WaitState_Execute env ev w input = outcome_of
    (rbind (WaitState_prepareInput w input) (\<lambda>processedInput.
     rbind (calculateWaitDuration env ev w processedInput) (\<lambda>waitDuration.
       (case performWait env (ev @ [0]) waitDuration of
          Some e \<Rightarrow> Err e
        | None \<Rightarrow> prepareOutput w processedInput))))"

definition WaitState_MarshalJSON :: "wait_state \<Rightarrow> gmap" where
  "WaitState_MarshalJSON w =
    [(''Type'', GString ''Wait'')] @ opt_field ''Next'' (Next w) @
    (if End w then [(''End'', GBool (End w))] else []) @
    opt_field ''InputPath'' (InputPath w) @ opt_field ''ResultPath'' (ResultPath w) @
    opt_field ''OutputPath'' (OutputPath w) @ comment_field (Comment w) @
    (case Seconds w of Some s \<Rightarrow> [(''Seconds'', GInteger KInt64 s)] | None \<Rightarrow> []) @
    opt_field ''SecondsPath'' (SecondsPath w) @ opt_field ''Timestamp'' (Timestamp w) @
    opt_field ''TimestampPath'' (TimestampPath w)"

section \<open>Lemmas\<close>

lemma WaitState_next [next_sound]:
  "WaitState_Execute env ev w input = Returned v (Some n) e \<Longrightarrow> Next w = Some n"
  by (cases e) (auto simp: state_defs outcome_of_success outcome_of_error prepareOutput_def res_simps
      split: option.splits)


lemma calculateTimeUntil_nonneg [simp]: "0 \<le> calculateTimeUntil env ev t"
  by (simp add: calculateTimeUntil_def Let_def)

lemma ApplyPath_root [simp]:
  "root_path p \<Longrightarrow> ApplyInputPath v p = Ok v" "root_path p \<Longrightarrow> ApplyResultPath v r p = Ok r"
  "root_path p \<Longrightarrow> ApplyOutputPath v p = Ok v"
  using basic.input_root [of p v] basic.result_root [of p v r] basic.output_root [of p v]
  by (auto simp: BasicPathProcessor_def)





section \<open>Properties\<close>

definition sample_wait :: wait_state where
  "sample_wait = base_state.extend ((new_base ''W'' ''Wait'')\<lparr>Next := Some ''N''\<rparr>)
     (wait_state.fields (Some 3) None None None)"


text \<open>One second more wraps around: a Wait state of 9223372037 seconds passes \<open>Validate\<close>, its duration is negative,
  and \<open>Execute\<close> continues at once, whatever the context does.\<close>

theorem WaitState_overflow:
  "WaitState_Validate (sample_wait\<lparr>Seconds := Some 9223372037\<rparr>) = None \<and>
   seconds_duration 9223372037 < 0 \<and>
   WaitState_Execute env ev (sample_wait\<lparr>Seconds := Some 9223372037\<rparr>) v = Returned v (Some ''N'') None"
proof -
  have ok: "WaitState_Validate (sample_wait\<lparr>Seconds := Some 9223372037\<rparr>) = None" by code_simp
  have neg: "seconds_duration 9223372037 < 0" by code_simp
  have "performWait env (ev @ [0]) (seconds_duration 9223372037) = None"
    using neg by (simp add: performWait_def)
  then show ?thesis using ok neg
    by (simp add: WaitState_Execute_def WaitState_prepareInput_def calculateWaitDuration_def prepareOutput_def
        sample_wait_def base_state.defs wait_state.defs new_base_def root_path_def)
qed

text \<open>Waiting is interruptible and transparent. With root paths and a duration \<open>d\<close>, \<open>Execute\<close> passes its input on to \<open>Next\<close>,
  except when the duration is positive and the context ends first: then it returns the context's error.\<close>

theorem WaitState_transparent:
  assumes "root_path (InputPath w)" and "root_path (ResultPath w)" and "root_path (OutputPath w)"
    and "calculateWaitDuration env ev w input = Ok d"
  shows "WaitState_Execute env ev w input =
    (case ctx_done env (ev @ [0]) of
       Some e \<Rightarrow> if 0 < d then Returned GNil None (Some e) else Returned input (Next w) None
     | None \<Rightarrow> Returned input (Next w) None)"
  using assms
  by (simp add: WaitState_Execute_def WaitState_prepareInput_def prepareOutput_def performWait_def
      split: option.split)

theorem WaitState_transparent_witness:
  "WaitState_Execute (quiet_env\<lparr>ctx_done := (\<lambda>_. Some (ErrorNew ''context canceled''))\<rparr>) [] sample_wait GNil =
   Returned GNil None (Some (ErrorNew ''context canceled''))"
proof -
  let ?env = "quiet_env\<lparr>ctx_done := (\<lambda>_. Some (ErrorNew ''context canceled''))\<rparr>"
  have "calculateWaitDuration ?env [] sample_wait GNil = Ok (3 * 10 ^ 9)" by code_simp
  moreover have "root_path (InputPath sample_wait)" "root_path (ResultPath sample_wait)"
      "root_path (OutputPath sample_wait)" by code_simp+
  ultimately show ?thesis using WaitState_transparent [of sample_wait ?env "[]" GNil] by simp
qed

end
