(* ===== verification/Message.thy ===== *)
theory Message
  imports Wait
begin

text \<open>
  The Message state (\<open>internal/states/message.go\<close>): a state that pauses the execution until an external
  message with its correlation value arrives. One \<open>Execute\<close> covers three phases, told apart by keys of its
  input: the timeout trigger, a received message, or neither (the pre-message phase, which returns the
  correlation data and no next state). The clock is read at event \<open>ev\<close>, and again at \<open>ev @ [1]\<close>.
\<close>

record message_state = base_state +
  CorrelationKey :: string
  CorrelationValuePath :: "string option"
  msg_TimeoutSeconds :: "int option"
  TimeoutPath :: "string option"
  MessagePath :: "string option"
  msg_Retry :: "retry_rule list"
  msg_Catch :: "catch_rule list"

record message_data =
  md_CorrelationKey :: string
  md_CorrelationValue :: gval
  md_Data :: gval

record timeout_schedule_request =
  tsr_ExecutionID :: string
  tsr_StateMachineID :: string
  tsr_StateName :: string
  tsr_CorrelationID :: string
  tsr_TimeoutSeconds :: int
  tsr_ScheduleTime :: int

definition NewMessageState :: "string \<Rightarrow> string \<Rightarrow> message_state" where
  "NewMessageState name correlationKey = base_state.extend (new_base name ''Message'')
     (message_state.fields correlationKey None None None None [] [])"

section \<open>The phase\<close>

definition receivedMessageKey :: "string \<Rightarrow> string" where
  "receivedMessageKey name = ''__received_message__'' @ ''_'' @ name"

definition timeoutTriggerKey :: "string \<Rightarrow> string" where
  "timeoutTriggerKey name = ''__timeout_trigger__'' @ ''_'' @ name"

definition parse_message :: "message_state \<Rightarrow> gmap \<Rightarrow> message_data" where
  "parse_message s msgMap =
    \<lparr>md_CorrelationKey = (case map_of msgMap ''correlation_key'' of Some (GString k) \<Rightarrow> k | _ \<Rightarrow> CorrelationKey s),
     md_CorrelationValue = (case map_of msgMap ''correlation_value'' of Some v \<Rightarrow> v | None \<Rightarrow> GNil),
     md_Data = (case map_of msgMap ''data'' of Some v \<Rightarrow> v | None \<Rightarrow> GNil)\<rparr>"

definition checkForReceivedMessage :: "message_state \<Rightarrow> gval \<Rightarrow> message_data option" where
  "checkForReceivedMessage s input =
    (case input of
       GMap inputMap \<Rightarrow>
         (case map_of inputMap (receivedMessageKey (Name s)) of
            Some (GMap msgMap) \<Rightarrow> Some (parse_message s msgMap)
          | _ \<Rightarrow> None)
     | _ \<Rightarrow> None)"

definition checkForTimeout :: "message_state \<Rightarrow> gval \<Rightarrow> gmap option" where
  "checkForTimeout s input =
    (case input of
       GMap inputMap \<Rightarrow> (if map_of inputMap (timeoutTriggerKey (Name s)) \<noteq> None then Some inputMap else None)
     | _ \<Rightarrow> None)"

section \<open>Execution\<close>

text \<open>The tail the three phases share: \<open>ResultPath\<close> and \<open>OutputPath\<close>, each only when set.\<close>

definition message_paths :: "env \<Rightarrow> message_state \<Rightarrow> gval \<Rightarrow> gval \<Rightarrow> gval res" where
  "message_paths env s originalInput result =
    rbind (case ResultPath s of
             Some p \<Rightarrow> wrap_err ''failed to apply ResultPath''
                        (pp_ApplyResultPath (GetPathProcessor env) originalInput result (Some p))
           | None \<Rightarrow> Ok result) (\<lambda>finalResult.
     (case OutputPath s of
        Some p \<Rightarrow> wrap_err ''failed to apply OutputPath''
                   (pp_ApplyOutputPath (GetPathProcessor env) finalResult (Some p))
      | None \<Rightarrow> Ok finalResult))"

definition message_timeoutAt :: "env \<Rightarrow> evid \<Rightarrow> message_state \<Rightarrow> int option" where
  "message_timeoutAt env ev s =
    (case msg_TimeoutSeconds s of
       Some secs \<Rightarrow> if secs > 0 then Some (wrap64 (unix_seconds (now_ns env ev) + secs)) else None
     | None \<Rightarrow> None)"

definition executePreMessage :: "env \<Rightarrow> evid \<Rightarrow> message_state \<Rightarrow> gval \<Rightarrow> gval \<Rightarrow> (gval \<times> string option) res" where
  "executePreMessage env ev s originalInput effectiveInput =
    rbind (case CorrelationValuePath s of
             Some p \<Rightarrow> wrap_err ''failed to extract correlation value''
                        (pp_ApplyInputPath (GetPathProcessor env) effectiveInput (Some p))
           | None \<Rightarrow> Ok effectiveInput) (\<lambda>correlationValue.
    rbind (message_paths env s originalInput
             (GMessageStateResult ''WAITING'' (CorrelationKey s) correlationValue effectiveInput
                (unix_seconds (now_ns env (ev @ [1]))) (message_timeoutAt env ev s)))
      (\<lambda>finalResult. Ok (finalResult, None)))"

definition executePostMessage ::
  "env \<Rightarrow> message_state \<Rightarrow> gval \<Rightarrow> gval \<Rightarrow> message_data \<Rightarrow> (gval \<times> string option) res" where
  "executePostMessage env s originalInput effectiveInput messageData =
    (let messageResult = (case MessagePath s of
                            Some p \<Rightarrow> if p \<noteq> ''$'' then effectiveInput else md_Data messageData
                          | None \<Rightarrow> md_Data messageData)
     in rbind (message_paths env s originalInput messageResult) (\<lambda>finalResult. Ok (finalResult, Next s)))"

text \<open>Without a \<open>TimeoutPath\<close> the result is returned together with an error.\<close>

definition executeTimeout :: "env \<Rightarrow> message_state \<Rightarrow> gval \<Rightarrow> outcome" where
  "executeTimeout env s originalInput =
    (let timeoutResult = GMap
           [(''status'', GString ''TIMEOUT''),
            (''message'', GString (''Message state '' @ quoted (Name s) @ '' timed out waiting for correlation''))]
     in case message_paths env s originalInput timeoutResult of
          Ok finalResult \<Rightarrow>
            (case TimeoutPath s of
               Some p \<Rightarrow> Returned finalResult (Some p) None
             | None \<Rightarrow> Returned finalResult None
                        (Some (ErrorNew (''message state '' @ quoted (Name s) @ '' timed out''))))
        | Err e \<Rightarrow> Returned GNil None (Some e)
        | Panic m \<Rightarrow> Panicked m
        | Crash m \<Rightarrow> Crashed m)"

definition message_phase :: "env \<Rightarrow> evid \<Rightarrow> message_state \<Rightarrow> gval \<Rightarrow> gval \<Rightarrow> outcome" where
  "message_phase env ev s input effectiveInput =
    (case checkForTimeout s effectiveInput of
       Some _ \<Rightarrow> executeTimeout env s effectiveInput
     | None \<Rightarrow>
         (case checkForReceivedMessage s effectiveInput of
            Some messageData \<Rightarrow> outcome_of (executePostMessage env s input effectiveInput messageData)
          | None \<Rightarrow> outcome_of (executePreMessage env ev s input effectiveInput)))"

definition MessageState_Execute :: "env \<Rightarrow> evid \<Rightarrow> message_state \<Rightarrow> gval \<Rightarrow> outcome" where
  [state_defs]: "MessageState_Execute env ev s input =
    (case (case InputPath s of
             Some p \<Rightarrow> wrap_err ''failed to apply InputPath''
                        (pp_ApplyInputPath (GetPathProcessor env) input (Some p))
           | None \<Rightarrow> Ok input) of
       Ok effectiveInput \<Rightarrow> message_phase env ev s input effectiveInput
     | Err e \<Rightarrow> Returned GNil None (Some e)
     | Panic m \<Rightarrow> Panicked m
     | Crash m \<Rightarrow> Crashed m)"

section \<open>Validation and accessors\<close>

definition MessageState_Validate :: "message_state \<Rightarrow> check" where
  "MessageState_Validate s =
    (let pre = ''message state '' @ quoted (Name s) @ '': '' in check_seq
      [BaseState_Validate s,
       fail_if (CorrelationKey s = []) (pre @ ''CorrelationKey cannot be empty''),
       fail_if (case msg_TimeoutSeconds s of Some t \<Rightarrow> t < 0 | None \<Rightarrow> False)
         (pre @ ''TimeoutSeconds cannot be negative''),
       fail_if (case msg_TimeoutSeconds s of
                  Some t \<Rightarrow> t > 0 \<and> TimeoutPath s = None \<and> msg_Catch s = [] | None \<Rightarrow> False)
         (pre @ ''TimeoutSeconds is set but no TimeoutPath or Catch handlers configured''),
       check_each (\<lambda>i retry. fail_if (rr_ErrorEquals retry = [])
         (pre @ ''Retry['' @ show_nat i @ ''] must have at least one ErrorEquals'')) 0 (msg_Retry s),
       check_each (\<lambda>i catch. check_seq
         [fail_if (cr_ErrorEquals catch = [])
            (pre @ ''Catch['' @ show_nat i @ ''] must have at least one ErrorEquals''),
          fail_if (cr_Next catch = [])
            (pre @ ''Catch['' @ show_nat i @ ''] must have a Next state'')]) 0 (msg_Catch s)])"

definition GetTimeoutPath :: "message_state \<Rightarrow> string option" where
  "GetTimeoutPath s = TimeoutPath s"

definition MessageState_GetNextStates :: "message_state \<Rightarrow> string list" where
  "MessageState_GetNextStates s =
    BaseState_GetNextStates s @
    (case TimeoutPath s of Some p \<Rightarrow> [p] | None \<Rightarrow> []) @
    map cr_Next (msg_Catch s) @
    (case GetTimeoutPath s of Some p \<Rightarrow> [p] | None \<Rightarrow> [])"

definition IsWaitingState :: "message_state \<Rightarrow> bool" where
  "IsWaitingState s = True"

definition CreateTimeoutScheduleRequest ::
  "env \<Rightarrow> evid \<Rightarrow> message_state \<Rightarrow> string \<Rightarrow> string \<Rightarrow> string \<Rightarrow> timeout_schedule_request option" where
  "CreateTimeoutScheduleRequest env ev s executionID stateMachineID correlationID =
    (case msg_TimeoutSeconds s of
       None \<Rightarrow> None
     | Some secs \<Rightarrow>
         if secs \<le> 0 then None
         else Some \<lparr>tsr_ExecutionID = executionID, tsr_StateMachineID = stateMachineID, tsr_StateName = Name s,
                    tsr_CorrelationID = correlationID, tsr_TimeoutSeconds = secs,
                    tsr_ScheduleTime = wrap64 (unix_seconds (now_ns env ev) + secs)\<rparr>)"

section \<open>Lemmas\<close>

lemma message_phase_next:
  "message_phase env ev s input i = Returned v (Some n) e \<Longrightarrow> Next s = Some n \<or> TimeoutPath s = Some n"
  by (cases e)
    (auto simp: message_phase_def executeTimeout_def executePostMessage_def executePreMessage_def Let_def
      outcome_of_success outcome_of_error rbind_eq_Ok split: option.splits res.splits)

lemma MessageState_next [next_sound]:
  assumes "MessageState_Execute env ev s input = Returned v (Some n) e"
  shows "n \<in> set (MessageState_GetNextStates s)"
proof -
  from assms obtain i where "message_phase env ev s input i = Returned v (Some n) e"
    by (auto simp: MessageState_Execute_def split: option.splits res.splits)
  then show ?thesis
    by (auto dest!: message_phase_next simp: MessageState_GetNextStates_def BaseState_GetNextStates_def)
qed

lemma message_paths_plain [simp]:
  "ResultPath s = None \<Longrightarrow> OutputPath s = None \<Longrightarrow> message_paths env s i r = Ok r"
  by (simp add: message_paths_def)

lemma keys_differ [simp]: "receivedMessageKey n \<noteq> timeoutTriggerKey m"
  by (simp add: receivedMessageKey_def timeoutTriggerKey_def)

lemma MessageState_timeout_out:
  assumes "InputPath s = None" "ResultPath s = None" "OutputPath s = None"
    and "map_of m (timeoutTriggerKey (Name s)) = Some t"
  shows "\<exists>r. MessageState_Execute env ev s (GMap m) =
      (case TimeoutPath s of
         Some p \<Rightarrow> Returned (GMap r) (Some p) None
       | None \<Rightarrow> Returned (GMap r) None (Some (ErrorNew (''message state '' @ quoted (Name s) @ '' timed out'')))) \<and>
    map_of r ''status'' = Some (GString ''TIMEOUT'')"
  using assms
  by (auto simp: MessageState_Execute_def message_phase_def checkForTimeout_def executeTimeout_def split: option.split)

section \<open>Properties\<close>

definition sample_message :: message_state where
  "sample_message = (NewMessageState ''M'' ''order'')\<lparr>Next := Some ''N'', msg_TimeoutSeconds := Some 60,
     TimeoutPath := Some ''L''\<rparr>"

text \<open>Pause. For an input (after \<open>InputPath\<close>) that carries neither this state's timeout trigger nor a received message,
  \<open>Execute\<close> yields no next state and no error with the default paths, and its output is the WAITING result with the
  state's correlation key, the correlation value read at \<open>CorrelationValuePath\<close>, the input, and the deadline
  \<open>now + TimeoutSeconds\<close> when a positive timeout is set.\<close>

theorem MessageState_pauses:
  assumes "InputPath s = None" "ResultPath s = None" "OutputPath s = None"
    and "checkForTimeout s input = None" and "checkForReceivedMessage s input = None"
    and "CorrelationValuePath s = Some p" and "pp_ApplyInputPath (GetPathProcessor env) input (Some p) = Ok cv"
  shows "MessageState_Execute env ev s input =
    Returned (GMessageStateResult ''WAITING'' (CorrelationKey s) cv input
        (unix_seconds (now_ns env (ev @ [1])))
        (case msg_TimeoutSeconds s of
           Some t \<Rightarrow> if 0 < t then Some (wrap64 (unix_seconds (now_ns env ev) + t)) else None | None \<Rightarrow> None))
      None None"
  using assms by (simp add: MessageState_Execute_def message_phase_def executePreMessage_def message_timeoutAt_def)

theorem MessageState_pauses_witness:
  "MessageState_Execute quiet_env [] (sample_message\<lparr>CorrelationValuePath := Some ''$.id''\<rparr>)
     (GMap [(''id'', GString ''42'')]) =
   Returned (GMessageStateResult ''WAITING'' ''order'' (GString ''42'') (GMap [(''id'', GString ''42'')]) 0 (Some 60))
     None None"
proof -
  let ?s = "sample_message\<lparr>CorrelationValuePath := Some ''$.id''\<rparr>" and ?i = "GMap [(''id'', GString ''42'')]"
  have "InputPath ?s = None" "ResultPath ?s = None" "OutputPath ?s = None" "checkForTimeout ?s ?i = None"
      "checkForReceivedMessage ?s ?i = None" "CorrelationValuePath ?s = Some ''$.id''"
      "pp_ApplyInputPath (GetPathProcessor quiet_env) ?i (Some ''$.id'') = Ok (GString ''42'')"
    by code_simp+
  from MessageState_pauses [OF this, of "[]"] show ?thesis
    by (simp add: sample_message_def NewMessageState_def base_state.defs message_state.defs quiet_env_def
        unix_seconds_def in_int64_def)
qed

text \<open>Resumption. When the input carries the message received for this state and no timeout trigger, \<open>Execute\<close> continues at
  the state's \<open>Next\<close>; with the default \<open>MessagePath\<close> its output is the message's data.\<close>

theorem MessageState_resumes:
  assumes "InputPath s = None" "ResultPath s = None" "OutputPath s = None"
    and "MessagePath s = None \<or> MessagePath s = Some ''$''"
    and "map_of m (receivedMessageKey (Name s)) = Some (GMap msg)" and "map_of msg ''data'' = Some d"
    and "map_of m (timeoutTriggerKey (Name s)) = None"
  shows "MessageState_Execute env ev s (GMap m) = Returned d (Next s) None"
  using assms
  by (auto simp: MessageState_Execute_def message_phase_def checkForTimeout_def checkForReceivedMessage_def
      executePostMessage_def parse_message_def)

theorem MessageState_resumes_witness:
  "MessageState_Execute quiet_env [] sample_message
     (GMap [(receivedMessageKey ''M'', GMap [(''data'', GString ''paid'')])]) =
   Returned (GString ''paid'') (Some ''N'') None"
proof -
  let ?m = "[(receivedMessageKey ''M'', GMap [(''data'', GString ''paid'')])]"
  have "InputPath sample_message = None" "ResultPath sample_message = None" "OutputPath sample_message = None"
      "MessagePath sample_message = None \<or> MessagePath sample_message = Some ''$''"
      "map_of ?m (receivedMessageKey (Name sample_message)) = Some (GMap [(''data'', GString ''paid'')])"
      "map_of [(''data'', GString ''paid'')] ''data'' = Some (GString ''paid'')"
      "map_of ?m (timeoutTriggerKey (Name sample_message)) = None"
    by code_simp+
  from MessageState_resumes [OF this] show ?thesis
    by (simp add: sample_message_def NewMessageState_def base_state.defs message_state.defs)
qed

text \<open>Timeout wins. As soon as the input carries this state's timeout trigger, \<open>Execute\<close> takes the timeout boundary even if a
  message has been received too: it continues at \<open>TimeoutPath\<close> with the TIMEOUT result, or fails with the timeout
  error when there is no \<open>TimeoutPath\<close>; the state's \<open>Catch\<close> rules play no part.\<close>

theorem MessageState_timeout:
  assumes "InputPath s = None" "ResultPath s = None" "OutputPath s = None"
    and "map_of m (timeoutTriggerKey (Name s)) = Some t"
  shows "\<exists>r. MessageState_Execute env ev s (GMap m) =
      (case TimeoutPath s of
         Some p \<Rightarrow> Returned (GMap r) (Some p) None
       | None \<Rightarrow> Returned (GMap r) None (Some (ErrorNew (''message state '' @ quoted (Name s) @ '' timed out'')))) \<and>
    map_of r ''status'' = Some (GString ''TIMEOUT'')"
  using assms by (rule MessageState_timeout_out)

theorem MessageState_timeout_witness:
  "\<exists>r. MessageState_Execute quiet_env [] sample_message
     (GMap [(timeoutTriggerKey ''M'', GBool True), (receivedMessageKey ''M'', GMap [])]) =
   Returned (GMap r) (Some ''L'') None"
proof -
  let ?m = "[(timeoutTriggerKey ''M'', GBool True), (receivedMessageKey ''M'', GMap [])]"
  have "InputPath sample_message = None" "ResultPath sample_message = None" "OutputPath sample_message = None"
      "map_of ?m (timeoutTriggerKey (Name sample_message)) = Some (GBool True)"
      "TimeoutPath sample_message = Some ''L''"
    by code_simp+
  with MessageState_timeout [of sample_message ?m "GBool True" quiet_env "[]"] show ?thesis by auto
qed

text \<open>A \<open>MessagePath\<close> other than \<open>$\<close> loses the message: the outcome of the resumption is then the same for any two
  messages' data when the enclosing input is taken as given, and with default paths it is the input, unchanged.\<close>

theorem MessagePath_drops_data:
  assumes "MessagePath s = Some p" and "p \<noteq> ''$''"
  shows "executePostMessage env s input effectiveInput (md\<lparr>md_Data := d1\<rparr>) =
    executePostMessage env s input effectiveInput (md\<lparr>md_Data := d2\<rparr>)"
  using assms by (simp add: executePostMessage_def)

theorem MessagePath_drops_data_witness:
  "executePostMessage quiet_env (sample_message\<lparr>MessagePath := Some ''$.msg''\<rparr>) GNil GNil
     (\<lparr>md_CorrelationKey = [], md_CorrelationValue = GNil, md_Data = GNil\<rparr>\<lparr>md_Data := GString ''a''\<rparr>) =
   executePostMessage quiet_env (sample_message\<lparr>MessagePath := Some ''$.msg''\<rparr>) GNil GNil
     (\<lparr>md_CorrelationKey = [], md_CorrelationValue = GNil, md_Data = GNil\<rparr>\<lparr>md_Data := GString ''b''\<rparr>)"
  by (rule MessagePath_drops_data [where p = "''$.msg''"]) simp_all

end
