(* ===== verification/States.thy ===== *)
theory States
  imports Choice Task Message
begin

text \<open>
  The \<open>State\<close> interface (\<open>internal/states/state.go\<close>) over the eight state types, and the Parallel state
  (\<open>internal/states/parallel.go\<close>), which contains whole state machines as branches.

  A branch is a loop that need not end, so \<open>Execute\<close> takes fuel: \<open>None\<close> means that the fuel did not suffice.
  More fuel never changes a result (\<open>Execute_mono\<close>), and machines without cycles always get one
  (\<open>acyclic_returns\<close>). Branch \<open>i\<close> of the Parallel state executed at event \<open>ev\<close> runs its step \<open>k\<close> at
  \<open>ev @ [i, k]\<close>; the goroutines store their results in the order \<open>completion env ev\<close>.
\<close>

section \<open>States\<close>

datatype state =
    PassState pass_state
  | TaskState task_state
  | ChoiceState choice_state
  | WaitState wait_state
  | SucceedState succeed_state
  | FailState fail_state
  | MessageState message_state
  | ParallelState base_state (Branches: "branch list") (par_ResultSelector: "gmap option")
and branch = Branch (StartAt: string) (States: "(string \<times> state) list") (branch_Comment: string)

fun state_base :: "state \<Rightarrow> base_state" where
  "state_base (PassState s) = base_state.truncate s"
| "state_base (TaskState s) = base_state.truncate s"
| "state_base (ChoiceState s) = base_state.truncate s"
| "state_base (WaitState s) = base_state.truncate s"
| "state_base (SucceedState s) = s"
| "state_base (FailState s) = base_state.truncate s"
| "state_base (MessageState s) = base_state.truncate s"
| "state_base (ParallelState b _ _) = b"

definition GetName :: "state \<Rightarrow> string" where
  "GetName s = BaseState_GetName (state_base s)"

fun GetType :: "state \<Rightarrow> string" where
  "GetType (TaskState s) = TaskState_GetType s"
| "GetType (WaitState s) = WaitState_GetType s"
| "GetType (ParallelState _ _ _) = ''Parallel''"
| "GetType s = BaseState_GetType (state_base s)"

fun GetNext :: "state \<Rightarrow> string option" where
  "GetNext (ChoiceState s) = ChoiceState_GetNext s"
| "GetNext (SucceedState s) = SucceedState_GetNext s"
| "GetNext (FailState s) = FailState_GetNext s"
| "GetNext s = BaseState_GetNext (state_base s)"

fun IsEnd :: "state \<Rightarrow> bool" where
  "IsEnd (ChoiceState s) = ChoiceState_IsEnd s"
| "IsEnd (SucceedState s) = SucceedState_IsEnd s"
| "IsEnd (FailState s) = FailState_IsEnd s"
| "IsEnd s = BaseState_IsEnd (state_base s)"

definition ParallelState_GetNextStates :: "base_state \<Rightarrow> string list" where
  "ParallelState_GetNextStates p = (case Next p of Some n \<Rightarrow> [n] | None \<Rightarrow> [])"

fun GetNextStates :: "state \<Rightarrow> string list" where
  "GetNextStates (TaskState s) = TaskState_GetNextStates s"
| "GetNextStates (ChoiceState s) = ChoiceState_GetNextStates s"
| "GetNextStates (MessageState s) = MessageState_GetNextStates s"
| "GetNextStates (ParallelState p _ _) = ParallelState_GetNextStates p"
| "GetNextStates s = BaseState_GetNextStates (state_base s)"

section \<open>Validation\<close>

definition branch_msg :: "base_state \<Rightarrow> nat \<Rightarrow> string \<Rightarrow> string" where
  "branch_msg p i m = ''parallel state '' @ quoted (Name p) @ '' branch '' @ show_nat i @ '': '' @ m"

definition validate_branch :: "base_state \<Rightarrow> nat \<Rightarrow> branch \<Rightarrow> check" where
  "validate_branch p i branch = check_seq
    [fail_if (StartAt branch = []) (branch_msg p i ''StartAt is required''),
     fail_if (States branch = []) (branch_msg p i ''States must not be empty''),
     fail_if (map_of (States branch) (StartAt branch) = None)
       (branch_msg p i (''StartAt state '' @ quoted (StartAt branch) @ '' not found'')),
     check_each (\<lambda>_ (stateName, s). fail_if (\<not> IsEnd s \<and> GetNext s = None)
         (branch_msg p i (''state '' @ quoted stateName @ '' must have either Next or End''))) 0 (States branch)]"

definition ParallelState_Validate :: "base_state \<Rightarrow> branch list \<Rightarrow> check" where
  "ParallelState_Validate p branches = check_seq
    [fail_if (branches = []) (''parallel state '' @ quoted (Name p) @ '' must have at least one branch''),
     check_each (validate_branch p) 0 branches]"

fun Validate :: "state \<Rightarrow> check" where
  "Validate (PassState s) = PassState_Validate s"
| "Validate (TaskState s) = TaskState_Validate s"
| "Validate (ChoiceState s) = ChoiceState_Validate s"
| "Validate (WaitState s) = WaitState_Validate s"
| "Validate (SucceedState s) = SucceedState_Validate s"
| "Validate (FailState s) = FailState_Validate s"
| "Validate (MessageState s) = MessageState_Validate s"
| "Validate (ParallelState p branches _) = ParallelState_Validate p branches"

section \<open>Branches\<close>

type_synonym executor = "evid \<Rightarrow> state \<Rightarrow> gval \<Rightarrow> outcome option"

text \<open>The loop of \<open>executeBranch\<close>, for a given implementation of \<open>State.Execute\<close>.\<close>

fun branch_loop :: "executor \<Rightarrow> nat \<Rightarrow> env \<Rightarrow> evid \<Rightarrow> nat \<Rightarrow> branch \<Rightarrow> string \<Rightarrow> gval \<Rightarrow> gval res option" where
  "branch_loop exec 0 env ev k branch currentStateName currentInput = None"
| "branch_loop exec (Suc fuel) env ev k branch currentStateName currentInput =
     (case ctx_done env (ev @ [k]) of
        Some e \<Rightarrow> Some (Err e)
      | None \<Rightarrow>
     (case map_of (States branch) currentStateName of
        None \<Rightarrow> Some (Err (ErrorNew (''state '' @ quoted currentStateName @ '' not found in branch'')))
      | Some s \<Rightarrow>
     (case exec (ev @ [k]) s currentInput of
        None \<Rightarrow> None
      | Some (Panicked m) \<Rightarrow> Some (Panic m)
      | Some (Crashed m) \<Rightarrow> Some (Crash m)
      | Some (Returned output nextState (Some e)) \<Rightarrow> Some (Err e)
      | Some (Returned output nextState None) \<Rightarrow>
          (if IsEnd s then Some (Ok output)
           else (case nextState of
                   None \<Rightarrow> Some (Ok output)
                 | Some n \<Rightarrow> branch_loop exec fuel env ev (Suc k) branch n output)))))"

definition executeBranch :: "executor \<Rightarrow> nat \<Rightarrow> env \<Rightarrow> evid \<Rightarrow> branch \<Rightarrow> gval \<Rightarrow> gval res option" where
  "executeBranch exec fuel env ev branch input = branch_loop exec fuel env ev 0 branch (StartAt branch) input"

fun execute_branches :: "executor \<Rightarrow> nat \<Rightarrow> env \<Rightarrow> evid \<Rightarrow> nat \<Rightarrow> branch list \<Rightarrow> gval \<Rightarrow> gval res list option" where
  "execute_branches exec fuel env ev i [] input = Some []"
| "execute_branches exec fuel env ev i (b # bs) input =
     (case executeBranch exec fuel env (ev @ [i]) b input of
        None \<Rightarrow> None
      | Some r \<Rightarrow> map_option ((#) r) (execute_branches exec fuel env ev (Suc i) bs input))"

section \<open>Parallel\<close>

text \<open>
  \<open>wg.Wait\<close> returns once every goroutine has stored its result, so an order of completion is a permutation
  of the branches; the stores are guarded by the mutex.
\<close>

definition completion_order :: "env \<Rightarrow> evid \<Rightarrow> nat \<Rightarrow> nat list" where
  "completion_order env ev n = (if sort (completion env ev) = [0..<n] then completion env ev else [0..<n])"

definition value_of :: "gval res \<Rightarrow> gval" where
  "value_of r = (case r of Ok v \<Rightarrow> v | _ \<Rightarrow> GNil)"

definition error_of :: "gval res \<Rightarrow> err option" where
  "error_of r = (case r of Err e \<Rightarrow> Some e | _ \<Rightarrow> None)"

definition crash_of :: "gval res \<Rightarrow> string option" where
  "crash_of r = (case r of Panic m \<Rightarrow> Some m | Crash m \<Rightarrow> Some m | _ \<Rightarrow> None)"

text \<open>The critical section of goroutine \<open>i\<close>, and all of them in the order of completion.\<close>

fun store_result :: "gval res list \<Rightarrow> nat \<Rightarrow> gval list \<times> err option list \<Rightarrow> gval list \<times> err option list" where
  "store_result rs i (results, errors) = (results[i := value_of (rs ! i)], errors[i := error_of (rs ! i)])"

definition store_all :: "gval res list \<Rightarrow> nat list \<Rightarrow> gval list \<times> err option list" where
  "store_all rs order =
    fold (store_result rs) order (replicate (length rs) GNil, replicate (length rs) None)"

fun first_crash :: "gval res list \<Rightarrow> string option" where
  "first_crash [] = None"
| "first_crash (r # rs) = (case crash_of r of Some m \<Rightarrow> Some m | None \<Rightarrow> first_crash rs)"

definition parallel_output :: "base_state \<Rightarrow> gmap option \<Rightarrow> gval \<Rightarrow> gval list \<Rightarrow> (gval \<times> string option) res" where
  "parallel_output p sel processedInput results =
    rbind (case sel of
             None \<Rightarrow> Ok (GSlice results)
           | Some s \<Rightarrow> wrap_err ''failed to apply ResultSelector''
                        (expandValue (GMap s) (root_context (GSlice results)))) (\<lambda>output.
    rbind (wrap_err ''failed to apply result path'' (ApplyResultPath processedInput output (ResultPath p))) (\<lambda>output2.
    rbind (wrap_err ''failed to apply output path'' (ApplyOutputPath output2 (OutputPath p))) (\<lambda>output3.
    Ok (output3, Next p))))"

text \<open>After \<open>wg.Wait\<close>: a panic of a branch has crashed the process; otherwise the first error in the order of the
  branches is returned, or the results are combined.\<close>

definition join_branches ::
  "env \<Rightarrow> evid \<Rightarrow> base_state \<Rightarrow> gmap option \<Rightarrow> gval \<Rightarrow> gval res list \<Rightarrow> outcome" where
  "join_branches env ev p sel processedInput rs =
    (let order = completion_order env ev (length rs) in
     case first_crash (map ((!) rs) order) of
       Some m \<Rightarrow> Crashed m
     | None \<Rightarrow>
         (let (results, errors) = store_all rs order in
          case find (\<lambda>e. e \<noteq> None) errors of
            Some e \<Rightarrow> Returned GNil None e
          | None \<Rightarrow> outcome_of (parallel_output p sel processedInput results)))"

definition ParallelState_Execute ::
  "executor \<Rightarrow> nat \<Rightarrow> env \<Rightarrow> evid \<Rightarrow> base_state \<Rightarrow> branch list \<Rightarrow> gmap option \<Rightarrow> gval \<Rightarrow> outcome option" where
  "ParallelState_Execute exec fuel env ev p branches sel input =
    (case wrap_err ''failed to apply input path'' (ApplyInputPath input (InputPath p)) of
       Ok processedInput \<Rightarrow>
         map_option (join_branches env ev p sel processedInput)
           (execute_branches exec fuel env ev 0 branches processedInput)
     | Err e \<Rightarrow> Some (Returned GNil None (Some e))
     | Panic m \<Rightarrow> Some (Panicked m)
     | Crash m \<Rightarrow> Some (Crashed m))"

section \<open>Execute\<close>

fun Execute :: "nat \<Rightarrow> env \<Rightarrow> executor" where
  "Execute fuel env ev (PassState s) input = Some (PassState_Execute env s input)"
| "Execute fuel env ev (TaskState s) input = Some (TaskState_Execute env ev s input)"
| "Execute fuel env ev (ChoiceState s) input = Some (ChoiceState_Execute env s input)"
| "Execute fuel env ev (WaitState s) input = Some (WaitState_Execute env ev s input)"
| "Execute fuel env ev (SucceedState s) input = Some (SucceedState_Execute env s input)"
| "Execute fuel env ev (FailState s) input = Some (FailState_Execute s input)"
| "Execute fuel env ev (MessageState s) input = Some (MessageState_Execute env ev s input)"
| "Execute 0 env ev (ParallelState p branches sel) input = None"
| "Execute (Suc fuel) env ev (ParallelState p branches sel) input =
     ParallelState_Execute (Execute fuel env) fuel env ev p branches sel input"

section \<open>The order of completion does not matter\<close>

lemma fold_update_length [simp]: "length (fold (\<lambda>i xs. xs[i := f i]) order xs) = length xs"
  by (induction order arbitrary: xs) auto

lemma fold_update_nth:
  "j < length xs \<Longrightarrow> fold (\<lambda>i xs. xs[i := f i]) order xs ! j = (if j \<in> set order then f j else xs ! j)"
  by (induction order arbitrary: xs) (auto simp: nth_list_update)

lemma fold_store_result:
  "fold (store_result rs) order (a, b) =
   (fold (\<lambda>i xs. xs[i := value_of (rs ! i)]) order a, fold (\<lambda>i xs. xs[i := error_of (rs ! i)]) order b)"
  by (induction order arbitrary: a b) auto

lemma set_completion_order [simp]: "set (completion_order env ev n) = {0..<n}"
proof (cases "sort (completion env ev) = [0..<n]")
  case True
  have "set (completion env ev) = set (sort (completion env ev))" by simp
  also have "\<dots> = {0..<n}" unfolding True by simp
  finally show ?thesis using True by (simp add: completion_order_def)
qed (simp add: completion_order_def)

lemma store_all_results:
  assumes "set order = {0..<length rs}"
  shows "store_all rs order = (map value_of rs, map error_of rs)"
proof -
  have *: "fold (\<lambda>i xs. xs[i := f (rs ! i)]) order (replicate (length rs) a) = map f rs" for f :: "gval res \<Rightarrow> 'b" and a
    by (rule nth_equalityI) (auto simp: fold_update_nth assms)
  show ?thesis by (simp add: store_all_def fold_store_result *)
qed

lemma first_crash_None: "first_crash rs = None \<longleftrightarrow> (\<forall>r\<in>set rs. crash_of r = None)"
  by (induction rs) (auto split: option.splits)

lemma first_crash_order:
  assumes "set order = {0..<length rs}"
  shows "first_crash (map ((!) rs) order) = None \<longleftrightarrow> (\<forall>r\<in>set rs. crash_of r = None)"
proof -
  have "set (map ((!) rs) order) = (!) rs ` {0..<length rs}" using assms by simp
  also have "\<dots> = set rs" by (auto simp: set_conv_nth)
  finally have "set (map ((!) rs) order) = set rs" .
  then show ?thesis unfolding first_crash_None by simp
qed

text \<open>What the join computes, without any reference to the order.\<close>

definition join_spec :: "base_state \<Rightarrow> gmap option \<Rightarrow> gval \<Rightarrow> gval res list \<Rightarrow> outcome" where
  "join_spec p sel processedInput rs =
    (case find (\<lambda>e. e \<noteq> None) (map error_of rs) of
       Some e \<Rightarrow> Returned GNil None e
     | None \<Rightarrow> outcome_of (parallel_output p sel processedInput (map value_of rs)))"

lemma join_branches_ok:
  "\<forall>r\<in>set rs. crash_of r = None \<Longrightarrow> join_branches env ev p sel i rs = join_spec p sel i rs"
  by (simp add: join_branches_def join_spec_def first_crash_order [THEN iffD2] store_all_results Let_def)

lemma join_branches_crash:
  assumes "\<exists>r\<in>set rs. crash_of r \<noteq> None"
  shows "\<exists>m. join_branches env ev p sel i rs = Crashed m"
proof -
  let ?c = "first_crash (map ((!) rs) (completion_order env ev (length rs)))"
  have "?c \<noteq> None" using assms first_crash_order [of "completion_order env ev (length rs)" rs] by auto
  then show ?thesis by (auto simp: join_branches_def Let_def)
qed

section \<open>Fuel\<close>

definition exec_le :: "executor \<Rightarrow> executor \<Rightarrow> bool" where
  "exec_le exec exec' \<longleftrightarrow> (\<forall>ev s i r. exec ev s i = Some r \<longrightarrow> exec' ev s i = Some r)"

lemma exec_leD: "exec_le exec exec' \<Longrightarrow> exec ev s i = Some r \<Longrightarrow> exec' ev s i = Some r"
  by (simp add: exec_le_def)

lemma branch_loop_mono:
  assumes "exec_le exec exec'"
  shows "branch_loop exec n env ev k b name i = Some r \<Longrightarrow> n \<le> m \<Longrightarrow>
         branch_loop exec' m env ev k b name i = Some r"
proof (induction n arbitrary: m k name i)
  case (Suc n)
  then obtain m' where m: "m = Suc m'" "n \<le> m'" by (cases m) auto
  show ?case
    using Suc.prems(1) Suc.IH m
    by (auto simp: m(1) split: option.splits outcome.splits if_splits dest!: exec_leD [OF assms])
qed simp

lemma execute_branches_mono:
  assumes "exec_le exec exec'" and "n \<le> m"
  shows "execute_branches exec n env ev k bs i = Some rs \<Longrightarrow> execute_branches exec' m env ev k bs i = Some rs"
proof (induction bs arbitrary: k rs)
  case (Cons b bs)
  then show ?case
    using branch_loop_mono [OF assms(1) _ assms(2)] by (fastforce simp: executeBranch_def split: option.splits)
qed simp

lemma ParallelState_Execute_mono:
  assumes "exec_le exec exec'" and "n \<le> m"
    and "ParallelState_Execute exec n env ev p bs sel i = Some r"
  shows "ParallelState_Execute exec' m env ev p bs sel i = Some r"
  using assms(3) execute_branches_mono [OF assms(1,2)]
  by (auto simp: ParallelState_Execute_def split: res.splits)

lemma Execute_mono: "n \<le> m \<Longrightarrow> exec_le (Execute n env) (Execute m env)"
proof (induction n arbitrary: m)
  case 0
  have "Execute 0 env ev s i = Some r \<Longrightarrow> Execute m env ev s i = Some r" for ev s i r by (cases s) auto
  then show ?case by (simp add: exec_le_def)
next
  case (Suc n)
  then obtain m' where m: "m = Suc m'" "n \<le> m'" by (cases m) auto
  note par = ParallelState_Execute_mono [OF Suc.IH [OF m(2)] m(2)]
  have "Execute (Suc n) env ev s i = Some r \<Longrightarrow> Execute m env ev s i = Some r" for ev s i r
    by (cases s) (auto simp: m(1) dest: par)
  then show ?case by (simp add: exec_le_def)
qed

section \<open>The contract of the State interface\<close>

text \<open>
  What the engine relies on when it runs a state: a next state is one that \<open>GetNextStates\<close> declares, and a state that
  reports an error proposes no next state.
\<close>

locale state_interface =
  fixes exec :: "evid \<Rightarrow> 's \<Rightarrow> gval \<Rightarrow> outcome option" and next_states :: "'s \<Rightarrow> string list"
  assumes next_declared: "exec ev s i = Some (Returned v (Some n) e) \<Longrightarrow> n \<in> set (next_states s)"
    and error_stops: "exec ev s i = Some (Returned v nx (Some err)) \<Longrightarrow> nx = None"
begin

text \<open>A path of successful executions in a machine \<open>sts\<close> is a path of declared transitions.\<close>

inductive steps :: "(string \<Rightarrow> 's option) \<Rightarrow> string \<Rightarrow> string \<Rightarrow> bool" for sts where
  stay: "steps sts x x"
| step: "steps sts x y \<Longrightarrow> sts y = Some s \<Longrightarrow> exec ev s i = Some (Returned v (Some z) e) \<Longrightarrow> steps sts x z"

lemma steps_declared:
  assumes "steps sts x y"
  shows "(\<lambda>a b. \<exists>s. sts a = Some s \<and> b \<in> set (next_states s))\<^sup>*\<^sup>* x y"
  using assms
proof induction
  case (step x y s ev i v z e)
  then show ?case by (auto intro: rtranclp.rtrancl_into_rtrancl next_declared)
qed simp

lemma stops_at_declared_end:
  "next_states s = [] \<Longrightarrow> exec ev s i = Some (Returned v n e) \<Longrightarrow> n = None"
  using next_declared [of ev s i v _ e] by (cases n) auto

end

lemma parallel_output_next: "parallel_output p sel i rs = Ok (v, n) \<Longrightarrow> n = Next p"
  by (auto simp: parallel_output_def rbind_eq_Ok)

lemma join_branches_next:
  assumes "join_branches env ev p sel i rs = Returned v (Some n) e"
  shows "Next p = Some n \<and> e = None"
proof -
  have "join_spec p sel i rs = Returned v (Some n) e"
    using assms join_branches_ok [of rs env ev p sel i] join_branches_crash [of rs env ev p sel i] by fastforce
  then show ?thesis
    by (cases e) (auto simp: join_spec_def outcome_of_success outcome_of_error
        split: option.splits dest!: parallel_output_next)
qed

lemma ParallelState_next [next_sound]:
  "ParallelState_Execute exec n env ev p bs sel i = Some (Returned v (Some x) e) \<Longrightarrow> Next p = Some x \<and> e = None"
  by (auto simp: ParallelState_Execute_def split: res.splits dest: join_branches_next)

lemma base_truncate [simp]: "Next (base_state.truncate s) = Next s" "End (base_state.truncate s) = End s"
    "Name (base_state.truncate s) = Name s" "StateType (base_state.truncate s) = StateType s"
  by (simp_all add: base_state.truncate_def)

lemma outcome_of_error_next: "outcome_of r = Returned v n (Some e) \<Longrightarrow> n = None"
  by (simp add: outcome_of_error)

lemma MessageState_error_next: "MessageState_Execute env ev s i = Returned v n (Some e) \<Longrightarrow> n = None"
  by (auto simp: MessageState_Execute_def message_phase_def executeTimeout_def Let_def
      split: option.splits res.splits dest: outcome_of_error_next)

lemmas handler_error_next = MessageState_error_next outcome_of_error_next

lemma Execute_error_next:
  assumes "Execute f env ev s i = Some (Returned v n (Some e))"
  shows "n = None"
proof (cases s)
  case (ParallelState p bs sel)
  show ?thesis
  proof (cases n)
    case (Some x)
    with ParallelState assms show ?thesis by (cases f) (auto dest: ParallelState_next)
  qed
next
  case (FailState s)
  with assms show ?thesis by (simp add: FailState_Execute_def)
qed (use assms in \<open>auto simp: PassState_Execute_def TaskState_Execute_def ChoiceState_Execute_def WaitState_Execute_def
      SucceedState_Execute_def dest: handler_error_next\<close>)

lemma Execute_next:
  assumes "Execute f env ev s i = Some (Returned v (Some n) e)"
  shows "n \<in> set (GetNextStates s)"
proof (cases s)
  case (ParallelState p bs sel)
  with assms show ?thesis
    by (cases f) (auto simp: ParallelState_GetNextStates_def dest!: ParallelState_next)
qed (use assms in \<open>auto simp: BaseState_GetNextStates_def SucceedState_next FailState_next
      dest!: next_sound\<close>)

interpretation engine: state_interface "Execute f env" GetNextStates for f env
proof unfold_locales
  show "n \<in> set (GetNextStates s)" if "Execute f env ev s i = Some (Returned v (Some n) e)" for ev s i v n e
    using that by (rule Execute_next)
  show "n = None" if "Execute f env ev s i = Some (Returned v n (Some e))" for ev s i v n e
    using that by (rule Execute_error_next)
qed

section \<open>Branches run to completion when their graphs have no cycle\<close>

definition ranked_branch :: "(string \<Rightarrow> nat) \<Rightarrow> branch \<Rightarrow> bool" where
  "ranked_branch rank b \<longleftrightarrow>
    (\<forall>(name, s)\<in>set (States b). \<forall>n\<in>set (GetNextStates s). rank n < rank name)"

inductive acyclic_state :: "state \<Rightarrow> bool" where
  leaf: "(\<And>p bs sel. s \<noteq> ParallelState p bs sel) \<Longrightarrow> acyclic_state s"
| parallel: "(\<And>b. b \<in> set bs \<Longrightarrow> \<exists>rank. ranked_branch rank b) \<Longrightarrow>
     (\<And>b name s. b \<in> set bs \<Longrightarrow> (name, s) \<in> set (States b) \<Longrightarrow> acyclic_state s) \<Longrightarrow>
     acyclic_state (ParallelState p bs sel)"

lemma branch_loop_returns:
  assumes "ranked_branch rank b"
    and "\<And>name s ev i. (name, s) \<in> set (States b) \<Longrightarrow> Execute f env ev s i \<noteq> None"
  shows "rank name < n \<Longrightarrow> branch_loop (Execute f env) n env ev k b name i \<noteq> None"
proof (induction n arbitrary: k name i)
  case (Suc n)
  show ?case
  proof (cases "map_of (States b) name")
    case None
    then show ?thesis by (simp split: option.split)
  next
    case (Some s)
    then have mem: "(name, s) \<in> set (States b)" by (rule map_of_in_set)
    then obtain out where out: "Execute f env (ev @ [k]) s i = Some out"
      using assms(2) by (meson not_None_eq)
    have "branch_loop (Execute f env) n env ev (Suc k) b x v \<noteq> None"
      if "out = Returned v (Some x) e" for x v e
    proof (rule Suc.IH)
      have "x \<in> set (GetNextStates s)" using out that Execute_next by simp
      then have "rank x < rank name" using assms(1) mem by (auto simp: ranked_branch_def)
      with Suc.prems show "rank x < n" by simp
    qed
    then show ?thesis
      by (cases out) (simp_all add: Some out split: option.split)
  qed
qed simp

lemma execute_branches_returns:
  assumes "\<And>b ev. b \<in> set bs \<Longrightarrow> executeBranch exec n env ev b i \<noteq> None"
  shows "execute_branches exec n env ev k bs i \<noteq> None"
  using assms
proof (induction bs arbitrary: k)
  case (Cons b bs)
  then have "execute_branches exec n env ev (Suc k) bs i \<noteq> None" by simp
  with Cons.prems [of b "ev @ [k]"] show ?case by auto
qed simp

lemma acyclic_returns: "acyclic_state s \<Longrightarrow> \<exists>n. \<forall>env ev i. Execute n env ev s i \<noteq> None"
proof (induction rule: acyclic_state.induct)
  case (leaf s)
  then have "\<forall>env ev i. Execute 0 env ev s i \<noteq> None" by (cases s) auto
  then show ?case by blast
next
  case (parallel bs p sel)
  let ?P = "\<lambda>n (s :: state). \<forall>env ev i. Execute n env ev s i \<noteq> None"
  let ?Q = "\<lambda>n b. (\<exists>rank. ranked_branch rank b \<and> rank (StartAt b) < n) \<and> (\<forall>x\<in>set (States b). ?P n (snd x))"
  have P_mono: "?P m s \<Longrightarrow> m \<le> n \<Longrightarrow> ?P n s" for m n s
    using exec_leD [OF Execute_mono] by (metis not_Some_eq)
  have Q_mono: "?Q m b \<Longrightarrow> m \<le> n \<Longrightarrow> ?Q n b" for m n b
    using P_mono less_le_trans by metis
  have "\<exists>n. ?Q n b" if b: "b \<in> set bs" for b
  proof -
    obtain rank where rank: "ranked_branch rank b" using parallel(1) b by blast
    have "\<exists>n. \<forall>x\<in>set (States b). ?P n (snd x)"
    proof (rule uniform_bound)
      show "\<exists>n. ?P n (snd x)" if "x \<in> set (States b)" for x
        using parallel.IH [OF b, of "fst x" "snd x"] that by simp
    qed (rule P_mono)
    then obtain n where "\<forall>x\<in>set (States b). ?P n (snd x)" by blast
    then have "\<forall>x\<in>set (States b). ?P (max n (Suc (rank (StartAt b)))) (snd x)"
      using P_mono by (meson max.cobounded1)
    with rank show ?thesis by (intro exI [of _ "max n (Suc (rank (StartAt b)))"]) auto
  qed
  then have "\<exists>n. \<forall>b\<in>set bs. ?Q n b" using Q_mono by (rule uniform_bound)
  then obtain n where n: "\<forall>b\<in>set bs. ?Q n b" by blast
  have "executeBranch (Execute n env) n env ev b i \<noteq> None" if "b \<in> set bs" for env ev b i
  proof -
    from n that obtain rank where "ranked_branch rank b" "rank (StartAt b) < n"
      and run: "\<And>x env ev i. x \<in> set (States b) \<Longrightarrow> Execute n env ev (snd x) i \<noteq> None" by blast
    moreover have "\<And>name s ev i. (name, s) \<in> set (States b) \<Longrightarrow> Execute n env ev s i \<noteq> None"
      using run by fastforce
    ultimately show ?thesis unfolding executeBranch_def by (intro branch_loop_returns)
  qed
  then have "execute_branches (Execute n env) n env ev k bs i \<noteq> None" for env ev k i
    by (rule execute_branches_returns)
  then have "\<forall>env ev i. Execute (Suc n) env ev (ParallelState p bs sel) i \<noteq> None"
    by (auto simp: ParallelState_Execute_def split: res.split)
  then show ?case by blast
qed

section \<open>Nothing but the join looks at the order of completion\<close>

named_theorems order_free \<open>operations that do not depend on the order of completion\<close>

lemmas deep_cong = if_cong option.case_cong res.case_cong gval.case_cong ikind.case_cong

lemma GetPathProcessor_order [order_free]: "GetPathProcessor (env\<lparr>completion := c\<rparr>) = GetPathProcessor env"
  by (simp add: GetPathProcessor_def)

lemma PassState_order [order_free]: "PassState_Execute (env\<lparr>completion := c\<rparr>) s i = PassState_Execute env s i"
proof -
  have "PassState_applyParameters (env\<lparr>completion := c\<rparr>) s = PassState_applyParameters env s"
    by (rule ext) (simp add: PassState_applyParameters_def split: option.split)
  then show ?thesis by (simp add: PassState_Execute_def PassState_result_def order_free cong: deep_cong)
qed

lemma SucceedState_order [order_free]:
  "SucceedState_Execute (env\<lparr>completion := c\<rparr>) s i = SucceedState_Execute env s i"
  by (simp add: SucceedState_Execute_def order_free)

lemma parse_timestamp_order [order_free]: "parse_timestamp (env\<lparr>completion := c\<rparr>) s = parse_timestamp env s"
proof -
  have "try_formats (env\<lparr>completion := c\<rparr>) fs s r = try_formats env fs s r" for fs r
    by (induction fs arbitrary: r) (auto split: res.split)
  then show ?thesis by (simp only: parse_timestamp_def)
qed

lemma evaluateComparison_order [order_free]:
  "evaluateComparison (env\<lparr>completion := c\<rparr>) r v = evaluateComparison env r v"
proof -
  have "compareString (env\<lparr>completion := c\<rparr>) = compareString env"
      "compareNumeric (env\<lparr>completion := c\<rparr>) = compareNumeric env"
      "compareBoolean (env\<lparr>completion := c\<rparr>) = compareBoolean env"
      "compareTimestamp (env\<lparr>completion := c\<rparr>) = compareTimestamp env"
    by (intro ext; simp add: compareString_def compareNumeric_def compareBoolean_def compareTimestamp_def order_free
        cong: deep_cong)+
  then show ?thesis by (simp add: evaluateComparison_def comparison_handlers_def)
qed

lemma choiceContext_order [order_free]: "choiceContext (env\<lparr>completion := c\<rparr>) r i = choiceContext env r i"
  by (simp add: choiceContext_def getVariableValue_def order_free)

lemma evaluateChoice_order [order_free]:
  "evaluateChoice (env\<lparr>completion := c\<rparr>) r i = evaluateChoice env r i"
  "evaluateAnd (env\<lparr>completion := c\<rparr>) rs i = evaluateAnd env rs i"
  "evaluateOr (env\<lparr>completion := c\<rparr>) rs i = evaluateOr env rs i"
  by (induction env r i and env rs i and env rs i rule: evaluateChoice_evaluateAnd_evaluateOr.induct)
    (auto simp: evaluateChoice.simps(1) order_free intro!: rbind_cong split: option.split)

lemma ChoiceState_order [order_free]: "ChoiceState_Execute (env\<lparr>completion := c\<rparr>) s i = ChoiceState_Execute env s i"
proof -
  have "first_match (env\<lparr>completion := c\<rparr>) rs v = first_match env rs v" for rs v
    by (induction rs) (auto simp: order_free cong: deep_cong)
  moreover have "choice_finish (env\<lparr>completion := c\<rparr>) = choice_finish env"
    by (intro ext) (simp add: choice_finish_def order_free)
  ultimately show ?thesis by (simp add: ChoiceState_Execute_def order_free cong: deep_cong)
qed

lemma TaskState_order [order_free]: "TaskState_Execute (env\<lparr>completion := c\<rparr>) ev t i = TaskState_Execute env ev t i"
proof -
  have call: "call_handler (env\<lparr>completion := c\<rparr>) e t v = call_handler env e t v" for e v
    by (simp add: call_handler_def DefaultTaskHandler_ExecuteWithTimeout_def DefaultTaskHandler_Execute_def
        split: option.split)
  have "executeWithRetry (env\<lparr>completion := c\<rparr>) ev t v = executeWithRetry env ev t v" for v
  proof -
    have "retried (env\<lparr>completion := c\<rparr>) ev t v = retried env ev t v"
        "settle (env\<lparr>completion := c\<rparr>) ev t v = settle env ev t v"
      by (intro ext; simp add: retried_def settle_def call cong: deep_cong)+
    then show ?thesis
      using executeWithRetry_settles [of t env ev v] executeWithRetry_at [of _ t "env\<lparr>completion := c\<rparr>" ev v] by metis
  qed
  then show ?thesis by (simp add: TaskState_Execute_def)
qed

lemma WaitState_order [order_free]: "WaitState_Execute (env\<lparr>completion := c\<rparr>) ev w i = WaitState_Execute env ev w i"
proof -
  have "calculateTimestampWait (env\<lparr>completion := c\<rparr>) = calculateTimestampWait env"
    by (intro ext) (simp add: calculateTimestampWait_def calculateTimeUntil_def)
  then have "calculateWaitDuration (env\<lparr>completion := c\<rparr>) = calculateWaitDuration env"
    by (intro ext) (simp add: calculateWaitDuration_def calculateTimestampPathWait_def cong: deep_cong)
  then show ?thesis by (simp add: WaitState_Execute_def performWait_def cong: deep_cong)
qed

lemma MessageState_order [order_free]:
  "MessageState_Execute (env\<lparr>completion := c\<rparr>) ev s i = MessageState_Execute env ev s i"
proof -
  have "message_paths (env\<lparr>completion := c\<rparr>) = message_paths env"
    by (intro ext) (simp add: message_paths_def order_free cong: deep_cong)
  then have "message_phase (env\<lparr>completion := c\<rparr>) = message_phase env"
    by (intro ext) (simp add: message_phase_def executeTimeout_def executePostMessage_def executePreMessage_def
        message_timeoutAt_def order_free cong: deep_cong)
  then show ?thesis by (simp add: MessageState_Execute_def order_free cong: deep_cong)
qed

text \<open>Two outcomes are the same up to the message of a crash.\<close>

definition same_outcome :: "outcome \<Rightarrow> outcome \<Rightarrow> bool" where
  "same_outcome a b \<longleftrightarrow> a = b \<or> (\<exists>m m'. a = Crashed m \<and> b = Crashed m')"

definition same_res :: "gval res \<Rightarrow> gval res \<Rightarrow> bool" where
  "same_res a b \<longleftrightarrow> a = b \<or> crash_of a \<noteq> None \<and> crash_of b \<noteq> None"

lemma same_outcome_refl [simp]: "same_outcome a a"
  by (simp add: same_outcome_def)

lemma join_branches_same:
  assumes "list_all2 same_res rs rs'"
  shows "same_outcome (join_branches env ev p sel i rs) (join_branches env' ev p sel i rs')"
proof (cases "\<forall>r\<in>set rs. crash_of r = None")
  case True
  with assms have "list_all2 (=) rs rs'"
    by (auto simp: list_all2_conv_all_nth same_res_def)
  then show ?thesis using True by (simp add: list.rel_eq join_branches_ok)
next
  case False
  then obtain j where j: "j < length rs" "crash_of (rs ! j) \<noteq> None" by (auto simp: in_set_conv_nth)
  with assms have "j < length rs'" "crash_of (rs' ! j) \<noteq> None"
    by (auto simp: list_all2_conv_all_nth same_res_def)
  with j have "\<exists>r\<in>set rs. crash_of r \<noteq> None" "\<exists>r\<in>set rs'. crash_of r \<noteq> None" by auto
  then show ?thesis
    using join_branches_crash [of rs env ev p sel i] join_branches_crash [of rs' env' ev p sel i]
    by (auto simp: same_outcome_def)
qed

lemma branch_loop_same:
  assumes "\<And>ev s i. rel_option same_outcome (exec ev s i) (exec' ev s i)"
  shows "rel_option same_res (branch_loop exec n env ev k b name i)
           (branch_loop exec' n (env\<lparr>completion := c\<rparr>) ev k b name i)"
proof (induction n arbitrary: k name i)
  case (Suc n)
  show ?case
  proof (cases "map_of (States b) name")
    case None
    then show ?thesis by (simp add: same_res_def split: option.split)
  next
    case (Some s)
    consider "exec (ev @ [k]) s i = None" "exec' (ev @ [k]) s i = None"
      | m m' where "exec (ev @ [k]) s i = Some (Crashed m)" "exec' (ev @ [k]) s i = Some (Crashed m')"
      | r where "exec (ev @ [k]) s i = Some r" "exec' (ev @ [k]) s i = Some r"
      using assms [of "ev @ [k]" s i] by (auto simp: same_outcome_def elim!: option.rel_cases)
    then show ?thesis
    proof cases
      case (3 r)
      with Suc.IH Some show ?thesis by (auto simp: same_res_def split: option.split outcome.split)
    qed (simp_all add: Some same_res_def crash_of_def split: option.split)
  qed
qed simp

lemma execute_branches_same:
  assumes "\<And>ev s i. rel_option same_outcome (exec ev s i) (exec' ev s i)"
  shows "rel_option (list_all2 same_res) (execute_branches exec n env ev k bs i)
           (execute_branches exec' n (env\<lparr>completion := c\<rparr>) ev k bs i)"
proof (induction bs arbitrary: k)
  case (Cons b bs)
  have "rel_option same_res (executeBranch exec n env (ev @ [k]) b i)
      (executeBranch exec' n (env\<lparr>completion := c\<rparr>) (ev @ [k]) b i)"
    unfolding executeBranch_def by (rule branch_loop_same [OF assms])
  with Cons.IH [of "Suc k"] show ?case by (auto elim!: option.rel_cases)
qed simp

lemma Execute_same: "rel_option same_outcome (Execute n env ev s i) (Execute n (env\<lparr>completion := c\<rparr>) ev s i)"
proof (induction n arbitrary: ev s i)
  case 0
  show ?case by (cases s) (auto simp: order_free)
next
  case (Suc n)
  show ?case
  proof (cases s)
    case (ParallelState p bs sel)
    have "rel_option (\<lambda>x y. same_outcome (join_branches env ev p sel v x)
            (join_branches (env\<lparr>completion := c\<rparr>) ev p sel v y))
        (execute_branches (Execute n env) n env ev 0 bs v)
        (execute_branches (Execute n (env\<lparr>completion := c\<rparr>)) n (env\<lparr>completion := c\<rparr>) ev 0 bs v)" for v
      using execute_branches_same [OF Suc.IH] by (rule option.rel_mono_strong) (rule join_branches_same)
    then have "rel_option same_outcome (ParallelState_Execute (Execute n env) n env ev p bs sel i)
       (ParallelState_Execute (Execute n (env\<lparr>completion := c\<rparr>)) n (env\<lparr>completion := c\<rparr>) ev p bs sel i)"
      by (auto simp: ParallelState_Execute_def option.rel_map split: res.split)
    then show ?thesis by (simp add: ParallelState)
  qed (auto simp: order_free)
qed

section \<open>Properties\<close>

definition pass_to :: "string \<Rightarrow> string \<Rightarrow> gval \<Rightarrow> state" where
  "pass_to name n result = PassState ((NewPassState name)\<lparr>Next := Some n, Result := result\<rparr>)"

definition pass_end :: "string \<Rightarrow> gval \<Rightarrow> state" where
  "pass_end name result = PassState ((NewPassState name)\<lparr>End := True, Result := result\<rparr>)"

definition branch_a :: branch where
  "branch_a = Branch ''A'' [(''A'', pass_to ''A'' ''B'' GNil), (''B'', pass_end ''B'' (GString ''b''))] []"

definition branch_c :: branch where
  "branch_c = Branch ''C'' [(''C'', pass_end ''C'' (GString ''c''))] []"

definition sample_parallel :: state where
  "sample_parallel =
    ParallelState ((new_base ''P'' ''Parallel'')\<lparr>Next := Some ''Z''\<rparr>) [branch_a, branch_c] None"

lemma sample_parallel_run:
  "Execute 3 quiet_env [] sample_parallel GNil =
   Some (Returned (GSlice [GString ''b'', GString ''c'']) (Some ''Z'') None)"
  by code_simp

text \<open>C3: Concurrency does not show. Whatever order the goroutines of a Parallel state (and of every Parallel state nested in its
  branches) finish in, a returned result, next state and error are the same.\<close>

theorem Parallel_order_irrelevant:
  assumes "Execute fuel env ev s input = Some (Returned v n e)"
  shows "Execute fuel (env\<lparr>completion := order\<rparr>) ev s input = Some (Returned v n e)"
  using Execute_same [of fuel env ev s input order] assms
  by (auto simp: same_outcome_def elim: option.rel_cases)

theorem Parallel_order_irrelevant_witness:
  "Execute 3 (quiet_env\<lparr>completion := (\<lambda>_. [1, 0])\<rparr>) [] sample_parallel GNil =
   Some (Returned (GSlice [GString ''b'', GString ''c'']) (Some ''Z'') None)"
  by (rule Parallel_order_irrelevant [OF sample_parallel_run])

text \<open>The join of a Parallel state. When every branch has returned, the state fails with the error of the first branch (in the
  order of the definition) that failed; if none failed, then with default paths its output is the list of the branch
  outputs in the order of the branches, and it continues at \<open>Next\<close>.\<close>

theorem ParallelState_join:
  assumes "execute_branches exec fuel env ev 0 branches input = Some rs" and "root_path (InputPath p)"
  shows "(\<forall>j e. j < length rs \<and> rs ! j = Err e \<and> (\<forall>r\<in>set rs. crash_of r = None) \<and> (\<forall>k<j. error_of (rs ! k) = None) \<longrightarrow>
            ParallelState_Execute exec fuel env ev p branches sel input = Some (Returned GNil None (Some e))) \<and>
         (\<forall>vs. rs = map Ok vs \<and> root_path (ResultPath p) \<and> root_path (OutputPath p) \<and> sel = None \<longrightarrow>
            ParallelState_Execute exec fuel env ev p branches sel input =
              Some (Returned (GSlice vs) (Next p) None))"
proof (intro conjI allI impI)
  have run: "ParallelState_Execute exec fuel env ev p branches sel input = Some (join_branches env ev p sel input rs)"
    using assms by (simp add: ParallelState_Execute_def)
  fix j e
  assume j: "j < length rs \<and> rs ! j = Err e \<and> (\<forall>r\<in>set rs. crash_of r = None) \<and> (\<forall>k<j. error_of (rs ! k) = None)"
  then have "find (\<lambda>e. e \<noteq> None) (map error_of rs) = Some (Some e)"
    unfolding find_Some_iff by (intro exI [of _ j]) (auto simp: error_of_def)
  with j show "ParallelState_Execute exec fuel env ev p branches sel input = Some (Returned GNil None (Some e))"
    by (simp add: run join_branches_ok join_spec_def)
next
  have run: "ParallelState_Execute exec fuel env ev p branches sel input = Some (join_branches env ev p sel input rs)"
    using assms by (simp add: ParallelState_Execute_def)
  fix vs
  assume vs: "rs = map Ok vs \<and> root_path (ResultPath p) \<and> root_path (OutputPath p) \<and> sel = None"
  then have "map value_of rs = vs" "\<forall>r\<in>set rs. crash_of r = None" "find (\<lambda>e. e \<noteq> None) (map error_of rs) = None"
    by (auto simp: value_of_def crash_of_def error_of_def find_None_iff comp_def)
  then have "join_branches env ev p sel input rs = outcome_of (parallel_output p sel input vs)"
    by (simp only: join_branches_ok join_spec_def option.case)
  moreover have "parallel_output p sel input vs = Ok (GSlice vs, Next p)"
    using vs by (simp add: parallel_output_def)
  ultimately show "ParallelState_Execute exec fuel env ev p branches sel input = Some (Returned (GSlice vs) (Next p) None)"
    by (simp only: run outcome_of.simps)
qed

theorem ParallelState_join_witness:
  "ParallelState_Execute (Execute 2 quiet_env) 2 quiet_env [] ((new_base ''P'' ''Parallel'')\<lparr>Next := Some ''Z''\<rparr>)
     [branch_a, branch_c] None GNil =
   Some (Returned (GSlice [GString ''b'', GString ''c'']) (Some ''Z'') None)"
proof -
  have "execute_branches (Execute 2 quiet_env) 2 quiet_env [] 0 [branch_a, branch_c] GNil =
      Some (map Ok [GString ''b'', GString ''c''])" by code_simp
  from ParallelState_join [OF this, of "(new_base ''P'' ''Parallel'')\<lparr>Next := Some ''Z''\<rparr>" None] show ?thesis
    by (simp add: new_base_def root_path_def)
qed

text \<open>C35: The engine only goes where a state says it may go: if the \<open>Execute\<close> of any state, of any type, yields a next state, then it is
  one of the state's \<open>GetNextStates\<close> (which is what the validator's graph is made of), and no error comes with it.\<close>

theorem Execute_next_declared:
  assumes "Execute fuel env ev s input = Some (Returned v (Some n) e)"
  shows "n \<in> set (GetNextStates s) \<and> e = None"
  using engine.next_declared [OF assms] engine.error_stops [of fuel env ev s input v "Some n"] assms by (cases e) auto

theorem Execute_next_declared_witness: "''Z'' \<in> set (GetNextStates sample_parallel)"
  using Execute_next_declared [OF sample_parallel_run] by simp

text \<open>Termination. For a state whose branches (recursively) have acyclic graphs there is an amount of fuel with which \<open>Execute\<close>
  returns in every environment, at every event and for every input, and any larger amount gives the same result.\<close>

theorem Execute_returns:
  assumes "acyclic_state s"
  shows "\<exists>n. \<forall>env ev input. \<exists>r. \<forall>m\<ge>n. Execute m env ev s input = Some r"
proof -
  from acyclic_returns [OF assms] obtain n where n: "\<forall>env ev i. Execute n env ev s i \<noteq> None" by blast
  have "\<exists>r. \<forall>m\<ge>n. Execute m env ev s input = Some r" for env ev input
  proof -
    from n obtain r where "Execute n env ev s input = Some r" by (meson not_None_eq)
    then show ?thesis using exec_leD [OF Execute_mono] by blast
  qed
  then show ?thesis by blast
qed

lemma sample_parallel_acyclic: "acyclic_state sample_parallel"
  unfolding sample_parallel_def
proof (rule acyclic_state.parallel)
  fix b assume b: "b \<in> set [branch_a, branch_c]"
  have "ranked_branch (\<lambda>x. if x = ''A'' then 1 else 0) b"
    using b by (auto simp: ranked_branch_def branch_a_def branch_c_def pass_to_def pass_end_def NewPassState_def
        new_base_def base_state.defs pass_state.defs BaseState_GetNextStates_def)
  then show "\<exists>rank. ranked_branch rank b" by blast
next
  fix b name s assume "b \<in> set [branch_a, branch_c]" "(name, s) \<in> set (States b)"
  then show "acyclic_state s"
    by (auto simp: branch_a_def branch_c_def pass_to_def pass_end_def intro!: acyclic_state.leaf)
qed

theorem Execute_returns_witness:
  "\<exists>n. \<forall>env ev input. \<exists>r. \<forall>m\<ge>n. Execute m env ev sample_parallel input = Some r"
  by (rule Execute_returns [OF sample_parallel_acyclic])

text \<open>No branch of a Parallel state can contain a Choice state: \<open>Validate\<close> rejects every such Parallel state, because a Choice
  has neither \<open>Next\<close> nor \<open>End\<close>.\<close>

theorem Parallel_rejects_Choice:
  assumes "b \<in> set branches" and "(name, ChoiceState c) \<in> set (States b)"
  shows "Validate (ParallelState p branches sel) \<noteq> None"
proof
  assume "Validate (ParallelState p branches sel) = None"
  then have "\<forall>j<length branches. validate_branch p j (branches ! j) = None"
    by (simp add: ParallelState_Validate_def)
  with assms(1) obtain i where "validate_branch p i b = None" by (auto simp: in_set_conv_nth)
  then have "\<forall>j<length (States b). (case States b ! j of (x, s) \<Rightarrow> IsEnd s \<or> GetNext s \<noteq> None)"
    by (auto simp: validate_branch_def split: prod.splits)
  with assms(2) show False
    by (auto simp: in_set_conv_nth ChoiceState_IsEnd_def ChoiceState_GetNext_def split: prod.splits)
qed

theorem Parallel_rejects_Choice_witness:
  "Validate (ParallelState (new_base ''P'' ''Parallel'') [Branch ''C'' [(''C'', ChoiceState sample_choice)] []] None) \<noteq> None"
  by (rule Parallel_rejects_Choice [of "Branch ''C'' [(''C'', ChoiceState sample_choice)] []"]) simp_all

end
