(* ===== verification/Validator.thy ===== *)
theory Validator
  imports States "HOL-Library.Transitive_Closure_Table"
begin

text \<open>
  The validator of state machines (\<open>internal/validator/validator.go\<close>). Its two depth-first searches recurse through
  a graph that may have cycles; they take fuel here, and one more unit than there are states is enough
  (\<open>markReachable_returns\<close>, \<open>canReachAnyEndState_returns\<close>), which is what \<open>validateGraph\<close> gives them. The set of
  marked or visited names is the list of the names in it.

  The central result is that the two searches decide what they are meant to: \<open>validateGraph\<close> accepts exactly the machines
  in which every state is reachable from the start and has a path to an end state.
\<close>

type_synonym states_map = "(string \<times> state) list"

definition getNextStateNames :: "state \<Rightarrow> string list" where
  "getNextStateNames s =
    (if GetType s = ''Choice'' then [] else if GetType s = ''Task'' then [] else [])"

definition getAllNextStateNames :: "state \<Rightarrow> string list" where
  "getAllNextStateNames s =
    (if GetType s = ''Choice'' then GetNextStates s
     else if GetType s = ''Task'' then GetNextStates s
     else if GetType s = ''Message'' then GetNextStates s
     else (case GetNext s of Some n \<Rightarrow> [n] | None \<Rightarrow> []))"

text \<open>The names both searches follow from a state: the non-empty names of \<open>getAllNextStateNames\<close>, then \<open>GetNext\<close>.\<close>

definition followed :: "state \<Rightarrow> string list" where
  "followed s =
    filter (\<lambda>n. n \<noteq> []) (getAllNextStateNames s) @ (case GetNext s of Some n \<Rightarrow> [n] | None \<Rightarrow> [])"

definition mark_next :: "states_map \<Rightarrow> string \<Rightarrow> string list" where
  "mark_next statesMap stateName =
    (case map_of statesMap stateName of
       None \<Rightarrow> []
     | Some s \<Rightarrow> if IsEnd s then [] else followed s)"

fun markReachable :: "nat \<Rightarrow> states_map \<Rightarrow> string \<Rightarrow> string list \<Rightarrow> string list option"
  and mark_all :: "nat \<Rightarrow> states_map \<Rightarrow> string list \<Rightarrow> string list \<Rightarrow> string list option" where
  "markReachable 0 statesMap stateName reachable = None"
| "markReachable (Suc fuel) statesMap stateName reachable =
     (if stateName \<in> set reachable then Some reachable
      else mark_all fuel statesMap (mark_next statesMap stateName) (stateName # reachable))"
| "mark_all fuel statesMap [] reachable = Some reachable"
| "mark_all fuel statesMap (n # ns) reachable =
     Option.bind (markReachable fuel statesMap n reachable) (mark_all fuel statesMap ns)"

fun canReachAnyEndState :: "nat \<Rightarrow> states_map \<Rightarrow> string list \<Rightarrow> string \<Rightarrow> string list \<Rightarrow> bool option"
  and any_reaches :: "nat \<Rightarrow> states_map \<Rightarrow> string list \<Rightarrow> string list \<Rightarrow> string list \<Rightarrow> bool option" where
  "canReachAnyEndState 0 statesMap endStates stateName visited = None"
| "canReachAnyEndState (Suc fuel) statesMap endStates stateName visited =
     (if stateName \<in> set visited then Some False
      else (case map_of statesMap stateName of
              None \<Rightarrow> Some False
            | Some s \<Rightarrow>
                if stateName \<in> set endStates then Some True
                else any_reaches fuel statesMap endStates (remdups (followed s)) (stateName # visited)))"
| "any_reaches fuel statesMap endStates [] visited = Some False"
| "any_reaches fuel statesMap endStates (n # ns) visited =
     Option.bind (canReachAnyEndState fuel statesMap endStates n visited) (\<lambda>found.
       if found then Some True else any_reaches fuel statesMap endStates ns visited)"

definition search_fuel :: "states_map \<Rightarrow> nat" where
  "search_fuel statesMap = length statesMap + 2"

definition validateCyclesHaveExits :: "states_map \<Rightarrow> string list \<Rightarrow> check" where
  "validateCyclesHaveExits statesMap endStates =
    check_each (\<lambda>_ (stateName, s).
      if IsEnd s then None
      else fail_if (canReachAnyEndState (search_fuel statesMap) statesMap endStates stateName [] \<noteq> Some True)
        (''state '' @ quoted stateName @ '' has no path to any end state - creates a dead loop'')) 0 statesMap"

definition end_states :: "states_map \<Rightarrow> string list" where
  "end_states statesMap = map fst (filter (\<lambda>(_, s). IsEnd s) statesMap)"

definition validateGraph :: "string \<Rightarrow> states_map \<Rightarrow> check" where
  "validateGraph startAt statesMap =
    (let reachable = (case markReachable (search_fuel statesMap) statesMap startAt [] of
                        Some r \<Rightarrow> r | None \<Rightarrow> []);
         endStates = end_states statesMap
     in check_seq
       [check_each (\<lambda>_ (stateName, s). fail_if (stateName \<notin> set reachable)
          (''state '' @ quoted stateName @ '' is unreachable from StartAt'')) 0 statesMap,
        fail_if (endStates = []) ''no end state found in state machine'',
        fail_if (\<not> list_ex (\<lambda>e. e \<in> set reachable) endStates)
          ''no path exists from StartAt to any end state - state machine would loop infinitely'',
        validateCyclesHaveExits statesMap endStates])"

definition dangling_msg :: "string \<Rightarrow> string \<Rightarrow> string" where
  "dangling_msg name n = ''state '' @ quoted name @ '' references non-existent next state '' @ quoted n"

definition validate_state :: "states_map \<Rightarrow> string \<times> state \<Rightarrow> check" where
  "validate_state statesMap = (\<lambda>(name, s). check_seq
    [map_option (Wrapped (''state '' @ quoted name)) (Validate s),
     (case GetNext s of
        Some n \<Rightarrow> fail_if (map_of statesMap n = None) (dangling_msg name n)
      | None \<Rightarrow> None),
     check_each (\<lambda>_ n. fail_if (n \<noteq> [] \<and> map_of statesMap n = None) (dangling_msg name n)) 0
       (getNextStateNames s)])"

definition StateMachineValidator_Validate :: "string \<Rightarrow> states_map \<Rightarrow> int option \<Rightarrow> check" where
  "StateMachineValidator_Validate startAt statesMap timeoutSeconds = check_seq
    [fail_if (startAt = []) ''StartAt is required'',
     fail_if (statesMap = []) ''states cannot be empty'',
     fail_if (map_of statesMap startAt = None)
       (''StartAt state '' @ quoted startAt @ '' not found in States''),
     check_each (\<lambda>_. validate_state statesMap) 0 statesMap,
     validateGraph startAt statesMap,
     (case timeoutSeconds of
        Some t \<Rightarrow> check_seq
          [fail_if (t \<le> 0) ''TimeoutSeconds must be positive'',
           fail_if (t > 86400) ''TimeoutSeconds cannot exceed 86400'']
      | None \<Rightarrow> None)]"

definition ValidateJSONPath :: "string \<Rightarrow> check" where
  "ValidateJSONPath path = check_seq
    [fail_if (path = []) ''JSON path cannot be empty'',
     fail_if (path \<noteq> [] \<and> hd path \<noteq> CHR ''$'') (''JSON path must start with '' @ quoted ''$'')]"

section \<open>Depth-first search\<close>

text \<open>A search given by the equations of its two mutually recursive procedures, over a graph with finitely many inner nodes:
  it returns with enough fuel, and from the empty set of marks it marks exactly what is reachable.\<close>

locale depth_first =
  fixes nodes :: "string set" and succs :: "string \<Rightarrow> string list"
    and visit :: "nat \<Rightarrow> string \<Rightarrow> string list \<Rightarrow> string list option"
    and visit_all :: "nat \<Rightarrow> string list \<Rightarrow> string list \<Rightarrow> string list option"
  assumes visit_0: "visit 0 x ms = None"
    and visit_Suc: "visit (Suc f) x ms = (if x \<in> set ms then Some ms else visit_all f (succs x) (x # ms))"
    and visit_all_Nil: "visit_all f [] ms = Some ms"
    and visit_all_Cons: "visit_all f (y # ys) ms = Option.bind (visit f y ms) (visit_all f ys)"
    and finite_nodes: "finite nodes"
    and succs_nodes: "x \<notin> nodes \<Longrightarrow> succs x = []"
begin

abbreviation edge :: "string \<Rightarrow> string \<Rightarrow> bool" where
  "edge x y \<equiv> y \<in> set (succs x)"

definition explored :: "string set \<Rightarrow> string list \<Rightarrow> string list \<Rightarrow> bool" where
  "explored roots ms r \<longleftrightarrow> set ms \<subseteq> set r \<and> roots \<subseteq> set r \<and>
     (\<forall>x\<in>set r - set ms. set (succs x) \<subseteq> set r \<and> (\<exists>y\<in>roots. edge\<^sup>*\<^sup>* y x))"

lemma explored_seq:
  assumes "explored {y} ms r" and "explored (set ys) r r'"
  shows "explored (set (y # ys)) ms r'"
  using assms unfolding explored_def by (auto; blast)

lemma explored_node:
  assumes "explored (set (succs x)) (x # ms) r" and "x \<notin> set ms"
  shows "explored {x} ms r"
  using assms unfolding explored_def by (auto intro: converse_rtranclp_into_rtranclp; blast)

lemma visit_all_explored:
  assumes "\<And>x ms r. visit f x ms = Some r \<Longrightarrow> explored {x} ms r"
  shows "visit_all f ys ms = Some r \<Longrightarrow> explored (set ys) ms r"
proof (induction ys arbitrary: ms)
  case Nil
  then show ?case by (simp add: visit_all_Nil explored_def)
next
  case (Cons y ys)
  then obtain r1 where "visit f y ms = Some r1" "visit_all f ys r1 = Some r"
    by (auto simp: visit_all_Cons bind_eq_Some_conv)
  with Cons.IH assms explored_seq show ?case by blast
qed

lemma visit_explored: "visit f x ms = Some r \<Longrightarrow> explored {x} ms r"
proof (induction f arbitrary: x ms r)
  case 0
  then show ?case by (simp add: visit_0)
next
  case (Suc f)
  show ?case
  proof (cases "x \<in> set ms")
    case True
    with Suc.prems show ?thesis by (simp add: visit_Suc explored_def)
  next
    case False
    with Suc.prems have "visit_all f (succs x) (x # ms) = Some r" by (simp add: visit_Suc)
    from visit_all_explored [OF Suc.IH this] False show ?thesis by (rule explored_node)
  qed
qed

lemma visit_all_returns:
  assumes "\<And>x ms. card (nodes - set ms) < f \<Longrightarrow> visit f x ms \<noteq> None"
  shows "card (nodes - set ms) < f \<Longrightarrow> visit_all f ys ms \<noteq> None"
proof (induction ys arbitrary: ms)
  case Nil
  then show ?case by (simp add: visit_all_Nil)
next
  case (Cons y ys)
  then obtain r where r: "visit f y ms = Some r" using assms by blast
  then have "set ms \<subseteq> set r" using visit_explored [of f y ms r] by (simp add: explored_def)
  then have "card (nodes - set r) \<le> card (nodes - set ms)" using finite_nodes by (intro card_mono) auto
  with Cons have "visit_all f ys r \<noteq> None" by simp
  with r show ?case by (simp add: visit_all_Cons)
qed

lemma visit_returns: "card (nodes - set ms) < f \<Longrightarrow> visit f x ms \<noteq> None"
proof (induction f arbitrary: x ms)
  case (Suc f)
  show ?case
  proof (cases "x \<in> set ms \<or> x \<notin> nodes")
    case True
    then show ?thesis using succs_nodes [of x] by (auto simp: visit_Suc visit_all_Nil)
  next
    case False
    then have "card (nodes - set (x # ms)) < card (nodes - set ms)"
      using finite_nodes by (intro psubset_card_mono) auto
    with Suc.prems have "card (nodes - set (x # ms)) < f" by simp
    from visit_all_returns [OF Suc.IH this] False show ?thesis by (simp add: visit_Suc)
  qed
qed simp

lemma visit_marks:
  assumes "card nodes < f"
  shows "\<exists>r. visit f x [] = Some r \<and> set r = {y. edge\<^sup>*\<^sup>* x y}"
proof -
  from assms visit_returns [of "[]" f x] obtain r where r: "visit f x [] = Some r" by auto
  from visit_explored [OF r] have e: "x \<in> set r" "\<And>z. z \<in> set r \<Longrightarrow> set (succs z) \<subseteq> set r"
      "\<And>z. z \<in> set r \<Longrightarrow> edge\<^sup>*\<^sup>* x z"
    by (auto simp: explored_def)
  have "y \<in> set r" if "edge\<^sup>*\<^sup>* x y" for y
    using that by induction (use e in auto)
  with r e(3) show ?thesis by auto
qed

end

interpretation mark: depth_first "fst ` set m" "mark_next m" "\<lambda>f x ms. markReachable f m x ms"
    "\<lambda>f ys ms. mark_all f m ys ms" for m
proof unfold_locales
  show "mark_next m x = []" if "x \<notin> fst ` set m" for x
  proof -
    from that have "map_of m x = None" by (simp add: map_of_eq_None_iff)
    then show ?thesis by (simp add: mark_next_def)
  qed
qed simp_all

section \<open>Paths to an end state\<close>

abbreviation edge :: "states_map \<Rightarrow> string \<Rightarrow> string \<Rightarrow> bool" where
  "edge m x y \<equiv> y \<in> set (mark_next m x)"

lemma any_reaches_True:
  "any_reaches f m ends ns v = Some True \<Longrightarrow> \<exists>n\<in>set ns. canReachAnyEndState f m ends n v = Some True"
  by (induction ns) (auto simp: bind_eq_Some_conv split: if_splits)

lemma any_reaches_complete:
  "any_reaches f m ends ns v = Some b \<Longrightarrow> n \<in> set ns \<Longrightarrow>
   (\<And>b'. canReachAnyEndState f m ends n v = Some b' \<Longrightarrow> b') \<Longrightarrow> b"
  by (induction ns) (auto simp: bind_eq_Some_conv split: if_splits)

lemma any_reaches_returns:
  "(\<And>n. n \<in> set ns \<Longrightarrow> canReachAnyEndState f m ends n v \<noteq> None) \<Longrightarrow> any_reaches f m ends ns v \<noteq> None"
  by (induction ns) (auto, force)

lemma end_states_iff:
  "distinct_keys m \<Longrightarrow> map_of m x = Some s \<Longrightarrow> x \<in> set (end_states m) \<longleftrightarrow> IsEnd s"
  by (auto simp: end_states_def image_iff intro: map_of_in_set dest!: map_of_in_set dest: eq_key_imp_eq_value)

lemma canReachAnyEndState_returns:
  "card (fst ` set m - set v) < f \<Longrightarrow> canReachAnyEndState f m ends x v \<noteq> None"
proof (induction f arbitrary: x v)
  case (Suc f)
  show ?case
  proof (cases "x \<in> set v \<or> map_of m x = None")
    case False
    then have "x \<in> fst ` set m - set v" by (auto simp: map_of_eq_None_iff)
    then have "card (fst ` set m - set (x # v)) < card (fst ` set m - set v)"
      by (intro psubset_card_mono) auto
    with Suc have "canReachAnyEndState f m ends n (x # v) \<noteq> None" for n by simp
    then have "any_reaches f m ends ns (x # v) \<noteq> None" for ns by (intro any_reaches_returns)
    then show ?thesis by (auto split: option.split)
  qed auto
qed simp

lemma canReachAnyEndState_sound:
  assumes "distinct_keys m"
  shows "canReachAnyEndState f m (end_states m) x v = Some True \<Longrightarrow>
         \<exists>e\<in>set (end_states m). (edge m)\<^sup>*\<^sup>* x e"
proof (induction f arbitrary: x v)
  case (Suc f)
  then obtain s where s: "map_of m x = Some s" by (auto split: if_splits option.splits)
  show ?case
  proof (cases "x \<in> set (end_states m)")
    case False
    with Suc.prems s have "any_reaches f m (end_states m) (remdups (followed s)) (x # v) = Some True"
      by (auto split: if_splits)
    then obtain n where n: "n \<in> set (followed s)" "canReachAnyEndState f m (end_states m) n (x # v) = Some True"
      using any_reaches_True by fastforce
    then have "edge m x n" using False s end_states_iff [OF assms s] by (simp add: mark_next_def)
    with Suc.IH [OF n(2)] show ?thesis by (meson converse_rtranclp_into_rtranclp)
  qed auto
qed simp

lemma canReachAnyEndState_complete:
  assumes "distinct_keys m" and "e \<in> set (end_states m)"
  shows "rtrancl_path (edge m) x xs e \<Longrightarrow> distinct (x # xs) \<Longrightarrow> set (x # xs) \<inter> set v = {} \<Longrightarrow>
         canReachAnyEndState f m (end_states m) x v = Some b \<Longrightarrow> b"
proof (induction xs arbitrary: x v f b)
  case Nil
  then have "x = e" by (auto elim: rtrancl_path.cases)
  moreover obtain s where "map_of m e = Some s"
    using assms(2) by (cases "map_of m e") (force simp: end_states_def map_of_eq_None_iff)+
  ultimately show ?case using Nil.prems assms(2) by (cases f) auto
next
  case (Cons y ys)
  then have xy: "edge m x y" "rtrancl_path (edge m) y ys e" by (auto elim: rtrancl_path.cases)
  then obtain s where s: "map_of m x = Some s" "\<not> IsEnd s" "y \<in> set (followed s)"
    by (cases "map_of m x") (auto simp: mark_next_def split: if_splits)
  then have "x \<notin> set (end_states m)" using end_states_iff [OF assms(1)] by blast
  with Cons.prems s obtain f' where "any_reaches f' m (end_states m) (remdups (followed s)) (x # v) = Some b"
    by (cases f) auto
  then show ?case
  proof (rule any_reaches_complete)
    show "y \<in> set (remdups (followed s))" using s(3) by simp
    show b' if "canReachAnyEndState f' m (end_states m) y (x # v) = Some b'" for b'
      using Cons.prems(2,3) by (intro Cons.IH [OF xy(2) _ _ that]) auto
  qed
qed

lemma canReachAnyEndState_iff:
  assumes "distinct_keys m" and "card (fst ` set m) < f"
  shows "canReachAnyEndState f m (end_states m) x [] = Some True \<longleftrightarrow>
         (\<exists>e\<in>set (end_states m). (edge m)\<^sup>*\<^sup>* x e)"
proof
  assume "\<exists>e\<in>set (end_states m). (edge m)\<^sup>*\<^sup>* x e"
  then obtain e xs where e: "e \<in> set (end_states m)" "rtrancl_path (edge m) x xs e" "distinct (x # xs)"
    by (metis rtranclp_eq_rtrancl_path rtrancl_path_distinct)
  from assms(2) obtain b where b: "canReachAnyEndState f m (end_states m) x [] = Some b"
    using canReachAnyEndState_returns [of m "[]" f "end_states m" x] by auto
  with canReachAnyEndState_complete [OF assms(1) e(1,2,3) _ b] show "canReachAnyEndState f m (end_states m) x [] = Some True"
    by simp
qed (rule canReachAnyEndState_sound [OF assms(1)])

lemma check_each_const: "check_each (\<lambda>_. g) i xs = None \<longleftrightarrow> (\<forall>x\<in>set xs. g x = None)"
  unfolding all_set_conv_all_nth by simp

lemma check_each_keys:
  "check_each (\<lambda>_ (x, s). f x s) 0 m = None \<longleftrightarrow> (\<forall>(x, s)\<in>set m. f x s = None)"
  unfolding check_each_const by auto

lemma card_keys_fuel: "card (fst ` set m) < search_fuel m"
  using card_image_le [of "set m" fst] card_length [of m] by (simp add: search_fuel_def)

lemma end_states_map_of: "distinct_keys m \<Longrightarrow> e \<in> set (end_states m) \<longleftrightarrow> (\<exists>s. map_of m e = Some s \<and> IsEnd s)"
  by (force simp: end_states_def)

definition exits :: "states_map \<Rightarrow> string \<Rightarrow> bool" where
  "exits m x \<longleftrightarrow> (\<exists>e\<in>set (end_states m). (edge m)\<^sup>*\<^sup>* x e)"

lemma exits_iff:
  "distinct_keys m \<Longrightarrow> exits m x \<longleftrightarrow> (\<exists>e s. map_of m e = Some s \<and> IsEnd s \<and> (edge m)\<^sup>*\<^sup>* x e)"
  unfolding exits_def by (meson end_states_map_of)

lemma validateCyclesHaveExits_iff:
  assumes "distinct_keys m"
  shows "validateCyclesHaveExits m (end_states m) = None \<longleftrightarrow> (\<forall>x\<in>fst ` set m. exits m x)"
proof -
  have "x \<in> set (end_states m)" if "(x, s) \<in> set m" "IsEnd s" for x s
    using that assms by (simp add: end_states_map_of)
  then have "(if IsEnd s then None else fail_if (canReachAnyEndState (search_fuel m) m (end_states m) x [] \<noteq> Some True) w) = None
      \<longleftrightarrow> exits m x" if "(x, s) \<in> set m" for x s w
    using that canReachAnyEndState_iff [OF assms card_keys_fuel, of x] by (auto simp: exits_def)
  then show ?thesis unfolding validateCyclesHaveExits_def check_each_keys by fastforce
qed

lemma markReachable_iff:
  "\<exists>r. markReachable (search_fuel m) m x [] = Some r \<and> set r = {y. (edge m)\<^sup>*\<^sup>* x y}"
  by (rule mark.visit_marks [OF card_keys_fuel])

lemma validateGraph_decides:
  assumes "distinct_keys m" and "map_of m startAt \<noteq> None"
  shows "validateGraph startAt m = None \<longleftrightarrow>
    (\<forall>x\<in>fst ` set m. (edge m)\<^sup>*\<^sup>* startAt x) \<and> (\<forall>x\<in>fst ` set m. exits m x)"
proof -
  obtain r where r: "markReachable (search_fuel m) m startAt [] = Some r" "set r = {y. (edge m)\<^sup>*\<^sup>* startAt y}"
    using markReachable_iff by blast
  have start: "startAt \<in> fst ` set m" using assms(2) by (simp add: map_of_eq_None_iff)
  have ends: "e \<in> fst ` set m" if "e \<in> set (end_states m)" for e
    using that by (auto simp: end_states_def)
  have "validateGraph startAt m = None \<longleftrightarrow>
      (\<forall>(x, s)\<in>set m. x \<in> set r) \<and> end_states m \<noteq> [] \<and> (\<exists>e\<in>set (end_states m). e \<in> set r) \<and>
      validateCyclesHaveExits m (end_states m) = None"
    by (simp add: validateGraph_def r(1) Let_def check_each_keys list_ex_iff del: check_each_None)
  also have "\<dots> \<longleftrightarrow> (\<forall>x\<in>fst ` set m. x \<in> set r) \<and> (\<forall>x\<in>fst ` set m. exits m x)"
  proof -
    have "end_states m \<noteq> [] \<and> (\<exists>e\<in>set (end_states m). e \<in> set r)"
      if all: "\<forall>x\<in>fst ` set m. x \<in> set r" and ex: "\<forall>x\<in>fst ` set m. exits m x"
    proof -
      from ex start obtain e where "e \<in> set (end_states m)" by (auto simp: exits_def)
      then show ?thesis using ends all by (cases "end_states m") auto
    qed
    then show ?thesis unfolding validateCyclesHaveExits_iff [OF assms(1)] by (auto simp del: image_iff)
  qed
  finally show ?thesis by (simp add: r(2))
qed

section \<open>Properties\<close>

definition pass_machine :: states_map where
  "pass_machine = [(''A'', pass_to ''A'' ''B'' GNil), (''B'', pass_end ''B'' (GString ''b''))]"

text \<open>C2: The graph check is exact. For a machine whose start state exists, \<open>validateGraph\<close> accepts if and only if every state is
  reachable from \<open>StartAt\<close> along the transitions of non-end states, and from every state some end state is reachable: both
  depth-first searches are correct, in the presence of cycles too, and always return.\<close>

theorem validateGraph_iff:
  assumes "distinct_keys m" and "map_of m startAt \<noteq> None"
  shows "validateGraph startAt m = None \<longleftrightarrow>
    (\<forall>x\<in>fst ` set m. (\<lambda>a b. b \<in> set (mark_next m a))\<^sup>*\<^sup>* startAt x) \<and>
    (\<forall>x\<in>fst ` set m. \<exists>e s. map_of m e = Some s \<and> IsEnd s \<and> (\<lambda>a b. b \<in> set (mark_next m a))\<^sup>*\<^sup>* x e)"
  using validateGraph_decides [OF assms] unfolding exits_iff [OF assms(1)] .

theorem validateGraph_iff_witness:
  "(\<lambda>a b. b \<in> set (mark_next pass_machine a))\<^sup>*\<^sup>* ''A'' ''B''"
proof -
  have "validateGraph ''A'' pass_machine = None" "distinct_keys pass_machine" "map_of pass_machine ''A'' \<noteq> None"
      "''B'' \<in> fst ` set pass_machine" by code_simp+
  with validateGraph_iff [of pass_machine "''A''"] show ?thesis by blast
qed

text \<open>What validation guarantees. In an accepted machine the start state exists, every state passed its own validation, every
  \<open>Next\<close> names a state of the machine, no state is dead (each can reach an end state), and the timeout, if any, is between
  one second and a day.\<close>

theorem Validate_accepted:
  assumes "distinct_keys m" and "StateMachineValidator_Validate startAt m timeoutSeconds = None"
  shows "map_of m startAt \<noteq> None \<and>
    (\<forall>(x, s)\<in>set m. Validate s = None \<and> (\<forall>n. GetNext s = Some n \<longrightarrow> n \<in> fst ` set m) \<and>
       (\<exists>e s'. map_of m e = Some s' \<and> IsEnd s' \<and> (\<lambda>a b. b \<in> set (mark_next m a))\<^sup>*\<^sup>* x e)) \<and>
    (\<forall>t. timeoutSeconds = Some t \<longrightarrow> 0 < t \<and> t \<le> 86400)"
proof -
  have parts: "map_of m startAt \<noteq> None" "check_each (\<lambda>_. validate_state m) 0 m = None"
      "validateGraph startAt m = None"
    using assms(2) by (simp_all add: StateMachineValidator_Validate_def del: check_each_None)
  have time: "\<forall>t. timeoutSeconds = Some t \<longrightarrow> 0 < t \<and> t \<le> 86400"
    using assms(2) by (cases timeoutSeconds) (auto simp: StateMachineValidator_Validate_def)
  have each: "Validate s = None \<and> (\<forall>n. GetNext s = Some n \<longrightarrow> n \<in> fst ` set m)" if "(x, s) \<in> set m" for x s
  proof -
    have "validate_state m (x, s) = None" using parts(2) that by (auto simp: in_set_conv_nth)
    then show ?thesis by (auto simp: validate_state_def map_of_eq_None_iff)
  qed
  have "exits m x" if "(x, s) \<in> set m" for x s
    using validateGraph_decides [OF assms(1) parts(1)] parts(3) that by force
  then show ?thesis using parts(1) time each unfolding exits_iff [OF assms(1)] by blast
qed

theorem Validate_accepted_witness:
  "StateMachineValidator_Validate ''A'' pass_machine (Some 60) = None \<and> Validate (pass_to ''A'' ''B'' GNil) = None"
proof
  show ok: "StateMachineValidator_Validate ''A'' pass_machine (Some 60) = None" by code_simp
  have "distinct_keys pass_machine" by code_simp
  from Validate_accepted [OF this ok] show "Validate (pass_to ''A'' ''B'' GNil) = None"
    by (simp add: pass_machine_def)
qed

text \<open>Destinations of Choice rules are not checked. The machine below, whose only rule leads to a state that does not exist, is
  accepted.\<close>

definition dangling_choice :: state where
  "dangling_choice = ChoiceState (base_state.extend (new_base ''C'' ''Choice'')
     (choice_state.fields [is_present_rule ''$.x'' ''Missing''] (Some ''E'')))"

definition dangling_machine :: states_map where
  "dangling_machine = [(''C'', dangling_choice), (''E'', SucceedState (new_base ''E'' ''Succeed''))]"

theorem Validate_accepts_dangling:
  "StateMachineValidator_Validate ''C'' dangling_machine None = None \<and>
   ''Missing'' \<in> set (GetNextStates dangling_choice) \<and> map_of dangling_machine ''Missing'' = None"
  by (intro conjI; code_simp)

end
