(* ===== verification/Factory.thy ===== *)
theory Factory
  imports States
begin

text \<open>
  Creation of states from their JSON definitions: \<open>pkg/factory/factory.go\<close> for the states of a machine, and the
  \<open>stateUnmarshaler\<close> of \<open>internal/states/parallel.go\<close> for the states of a branch.

  \<open>json.Unmarshal\<close> itself is a parameter, the record \<open>decoder\<close> over an unspecified type of raw messages:
  \<open>dec_Type\<close> reads the \<open>Type\<close> field into a string (empty when it is missing), \<open>dec_Map\<close> decodes into a map,
  \<open>dec_Into raw s\<close> decodes into the fresh state \<open>s\<close>.
  Decoding into a struct keeps the struct's type (\<open>keeps_type\<close>), the only law used.
\<close>

record 'j decoder =
  dec_Type :: "'j \<Rightarrow> string res"
  dec_Map :: "'j \<Rightarrow> gmap res"
  dec_Into :: "'j \<Rightarrow> state \<Rightarrow> state res"

fun same_type :: "state \<Rightarrow> state \<Rightarrow> bool" where
  "same_type (PassState _) (PassState _) = True"
| "same_type (TaskState _) (TaskState _) = True"
| "same_type (ChoiceState _) (ChoiceState _) = True"
| "same_type (WaitState _) (WaitState _) = True"
| "same_type (SucceedState _) (SucceedState _) = True"
| "same_type (FailState _) (FailState _) = True"
| "same_type (MessageState _) (MessageState _) = True"
| "same_type (ParallelState _ _ _) (ParallelState _ _ _) = True"
| "same_type _ _ = False"

definition keeps_type :: "'j decoder \<Rightarrow> bool" where
  "keeps_type dec \<longleftrightarrow> (\<forall>raw s s'. dec_Into dec raw s = Ok s' \<longrightarrow> same_type s s')"

section \<open>Fresh states\<close>

text \<open>The zero value of a struct: its \<open>Type\<close> is filled in by the decoder.\<close>

definition zero_base :: base_state where
  "zero_base = new_base [] []"

definition zero_pass :: state where
  "zero_pass = PassState (base_state.extend zero_base (pass_state.fields GNil None))"

definition zero_fail :: state where
  "zero_fail = FailState (base_state.extend zero_base (fail_state.fields [] [] False))"

definition zero_wait :: state where
  "zero_wait = WaitState (base_state.extend zero_base (wait_state.fields None None None None))"

definition zero_choice :: state where
  "zero_choice = ChoiceState (base_state.extend zero_base (choice_state.fields [] None))"

definition zero_task :: state where
  "zero_task = TaskState (base_state.extend zero_base (task_state.fields [] None None None [] [] None None))"

definition zero_message :: state where
  "zero_message = MessageState (base_state.extend zero_base (message_state.fields [] None None None None [] []))"

definition stateConstructors :: "(string \<times> state) list" where
  "stateConstructors =
    [(''Pass'', zero_pass), (''Fail'', zero_fail), (''Succeed'', SucceedState zero_base), (''Wait'', zero_wait),
     (''Choice'', zero_choice), (''Parallel'', ParallelState zero_base [] None), (''Task'', zero_task),
     (''Message'', zero_message)]"

definition getStateConstructor :: "string \<Rightarrow> state res" where
  "getStateConstructor stateType =
    (case map_of stateConstructors stateType of
       Some s \<Rightarrow> Ok s
     | None \<Rightarrow> Err (ErrorNew (''unknown state type: '' @ stateType)))"

fun setStateName :: "state \<Rightarrow> string \<Rightarrow> state" where
  "setStateName (PassState s) name = PassState (s\<lparr>Name := name\<rparr>)"
| "setStateName (FailState s) name = FailState (s\<lparr>Name := name\<rparr>)"
| "setStateName (SucceedState s) name = SucceedState (s\<lparr>Name := name\<rparr>)"
| "setStateName (WaitState s) name = WaitState (s\<lparr>Name := name\<rparr>)"
| "setStateName (ChoiceState s) name = ChoiceState (s\<lparr>Name := name\<rparr>)"
| "setStateName (ParallelState p bs sel) name = ParallelState (p\<lparr>Name := name\<rparr>) bs sel"
| "setStateName (TaskState s) name = TaskState (s\<lparr>Name := name\<rparr>)"
| "setStateName (MessageState s) name = MessageState (s\<lparr>Name := name\<rparr>)"

section \<open>The factory\<close>

definition extractStateType :: "'j decoder \<Rightarrow> 'j \<Rightarrow> string res" where
  "extractStateType dec rawJSON =
    rbind (wrap_err ''failed to unmarshal state'' (dec_Type dec rawJSON)) (\<lambda>ty.
      if ty = [] then Err (ErrorNew ''state missing or invalid Type field'') else Ok ty)"

definition createStateInstance :: "'j decoder \<Rightarrow> string \<Rightarrow> 'j \<Rightarrow> state res" where
  "createStateInstance dec stateType rawJSON =
    rbind (getStateConstructor stateType) (\<lambda>s.
      wrap_err (''failed to unmarshal '' @ stateType @ '' state'') (dec_Into dec rawJSON s))"

definition CreateState :: "'j decoder \<Rightarrow> string \<Rightarrow> 'j \<Rightarrow> state res" where
  "CreateState dec name rawJSON =
    rbind (extractStateType dec rawJSON) (\<lambda>stateType.
    rbind (createStateInstance dec stateType rawJSON) (\<lambda>s.
      (case Validate (setStateName s name) of
         Some e \<Rightarrow> Err (Wrapped (''state '' @ quoted name @ '' validation failed'') e)
       | None \<Rightarrow> Ok (setStateName s name))))"

section \<open>The unmarshaler of branches\<close>

definition stateCreators :: "(string \<times> state) list" where
  "stateCreators =
    [(''Pass'', zero_pass), (''Fail'', zero_fail), (''Succeed'', SucceedState zero_base), (''Wait'', zero_wait),
     (''Choice'', zero_choice), (''Parallel'', ParallelState zero_base [] None), (''Task'', zero_task)]"

definition createAndUnmarshalState :: "'j decoder \<Rightarrow> string \<Rightarrow> 'j \<Rightarrow> state res" where
  "createAndUnmarshalState dec stateType rawJSON =
    (case map_of stateCreators stateType of
       None \<Rightarrow> Err (ErrorNew (''unknown state type: '' @ stateType))
     | Some s \<Rightarrow> wrap_err (''failed to unmarshal '' @ stateType @ '' state'') (dec_Into dec rawJSON s))"

definition branch_extractStateType :: "'j decoder \<Rightarrow> 'j \<Rightarrow> string res" where
  "branch_extractStateType dec rawJSON =
    rbind (wrap_err ''failed to unmarshal state'' (dec_Map dec rawJSON)) (\<lambda>typeMap.
      (case map_of typeMap ''Type'' of
         Some (GString ty) \<Rightarrow> Ok ty
       | _ \<Rightarrow> Err (ErrorNew ''state missing or invalid Type field'')))"

text \<open>\<open>unmarshalState\<close>: the name is set by reflection, the state is not validated here.\<close>

definition unmarshalState :: "'j decoder \<Rightarrow> string \<Rightarrow> 'j \<Rightarrow> state res" where
  "unmarshalState dec name rawJSON =
    rbind (branch_extractStateType dec rawJSON) (\<lambda>stateType.
    rbind (createAndUnmarshalState dec stateType rawJSON) (\<lambda>s. Ok (setStateName s name)))"

section \<open>Lemmas\<close>

lemma GetName_setStateName [simp]: "GetName (setStateName s name) = name"
  by (cases s) (simp_all add: GetName_def BaseState_GetName_def)

lemma same_type_setStateName [simp]: "same_type s (setStateName s' name) = same_type s s'"
  by (cases s; cases s') simp_all

lemma CreateState_Ok:
  assumes "CreateState dec name raw = Ok s"
  shows "\<exists>ty s0 s1. dec_Type dec raw = Ok ty \<and> map_of stateConstructors ty = Some s0 \<and> dec_Into dec raw s0 = Ok s1 \<and>
    s = setStateName s1 name \<and> Validate s = None"
  using assms
  by (auto simp: CreateState_def extractStateType_def createStateInstance_def getStateConstructor_def rbind_eq_Ok
      split: option.splits if_splits)

section \<open>Properties\<close>

definition sample_decoder :: "string decoder" where
  "sample_decoder = \<lparr>dec_Type = (\<lambda>raw. Ok raw), dec_Map = (\<lambda>raw. Ok [(''Type'', GString raw)]),
     dec_Into = (\<lambda>raw s. Ok (case s of SucceedState b \<Rightarrow> SucceedState (b\<lparr>StateType := raw\<rparr>) | _ \<Rightarrow> s))\<rparr>"

text \<open>C40: A state made by the factory carries the name under which the definition lists it, is of the Go type that belongs to its
  \<open>Type\<close> field, and has passed its own validation; a type outside the eight known ones is always refused. The decoder is a
  parameter; the law used is that decoding into a struct keeps its type.\<close>

theorem CreateState_sound:
  assumes "keeps_type dec" and "CreateState dec name raw = Ok s"
  shows "GetName s = name \<and> Validate s = None \<and>
    (\<exists>ty s0. dec_Type dec raw = Ok ty \<and> (ty, s0) \<in> set stateConstructors \<and> same_type s0 s)"
proof -
  from CreateState_Ok [OF assms(2)] obtain ty s0 s1 where s: "dec_Type dec raw = Ok ty"
      "map_of stateConstructors ty = Some s0" "dec_Into dec raw s0 = Ok s1" "s = setStateName s1 name"
      "Validate s = None" by blast
  from assms(1) s(3) have "same_type s0 s1" by (simp add: keeps_type_def)
  with s map_of_in_set [OF s(2)] show ?thesis by auto
qed

theorem CreateState_sound_witness:
  "\<exists>s. CreateState sample_decoder ''S'' ''Succeed'' = Ok s \<and> GetName s = ''S''"
proof -
  have keeps: "keeps_type sample_decoder"
    unfolding keeps_type_def
  proof (intro allI impI)
    show "same_type s s'" if "dec_Into sample_decoder raw s = Ok s'" for raw s s'
      using that by (cases s) (auto simp: sample_decoder_def)
  qed
  have run: "CreateState sample_decoder ''S'' ''Succeed'' =
      Ok (SucceedState (new_base ''S'' ''Succeed''))"
    by (simp add: CreateState_def extractStateType_def createStateInstance_def getStateConstructor_def
        stateConstructors_def sample_decoder_def SucceedState_Validate_def zero_base_def new_base_def
        check_seq_None [THEN iffD2])
  from CreateState_sound [OF keeps run] run show ?thesis by auto
qed

text \<open>Message states work at the top level only. The factory knows the type \<open>Message\<close>, but the unmarshaler of branches does not: a
  Parallel state with a Message state in a branch cannot be loaded.\<close>

theorem branch_refuses_Message:
  "map_of stateConstructors ''Message'' \<noteq> None \<and>
   (dec_Map dec raw = Ok m \<and> map_of m ''Type'' = Some (GString ''Message'') \<longrightarrow>
     unmarshalState dec name raw = Err (ErrorNew ''unknown state type: Message''))"
  by (simp add: stateConstructors_def stateCreators_def unmarshalState_def branch_extractStateType_def
      createAndUnmarshalState_def)

theorem branch_refuses_Message_witness:
  "unmarshalState sample_decoder ''M'' ''Message'' = Err (ErrorNew ''unknown state type: Message'')"
  using branch_refuses_Message [of sample_decoder "''Message''" "[(''Type'', GString ''Message'')]" "''M''"]
  by (simp add: sample_decoder_def)

end
