(* ===== verification/Execution.thy ===== *)
theory Execution
  imports GoValue
begin

text \<open>
  An execution and its history (\<open>pkg/execution/execution.go\<close>), with the metadata that crash recovery keeps. Operations on
  \<open>*Execution\<close> return the updated record; the current time and the generated identifier are arguments. The zero
  \<open>time.Time\<close> of \<open>EndTime\<close> is \<open>None\<close>.
\<close>

record recovery_metadata =
  LastSuccessfulState :: string
  LastSuccessfulStateOutput :: gval
  RecoveryAttemptCount :: int
  LastRecoveryAttemptAt :: "int option"
  MaxRecoveryAttempts :: int
  RecoveryStrategy :: string
  CrashDetectedAt :: "int option"

record state_history =
  sh_StateName :: string
  sh_StateType :: string
  sh_Status :: string
  sh_Input :: gval
  sh_Output :: gval
  sh_Timestamp :: int
  sh_StartTime :: "int option"
  sh_EndTime :: "int option"
  sh_RetryCount :: int
  sh_SequenceNumber :: int
  sh_Error :: "err option"

record execution =
  StateMachineID :: string
  ID :: string
  ExecName :: string
  Status :: string
  StartTime :: int
  EndTime :: "int option"
  Input :: gval
  Output :: gval
  ExecError :: "err option"
  CurrentState :: string
  History :: "state_history list"
  HistorySequenceNumber :: int
  Metadata :: "gmap option"
  RecoveryMetadata :: "recovery_metadata option"

section \<open>Construction\<close>

definition NewContext :: "string \<Rightarrow> int \<Rightarrow> string \<Rightarrow> string \<Rightarrow> gval \<Rightarrow> execution" where
  "NewContext newID now name startAt input =
    \<lparr>StateMachineID = [], ID = newID, ExecName = name, Status = ''RUNNING'', StartTime = now, EndTime = None,
     Input = input, Output = GNil, ExecError = None, CurrentState = startAt, History = [],
     HistorySequenceNumber = 0, Metadata = None, RecoveryMetadata = None\<rparr>"

definition NewExecution :: "string \<Rightarrow> int \<Rightarrow> string \<Rightarrow> string \<Rightarrow> gval \<Rightarrow> execution" where
  "NewExecution newID now i name input =
    (NewContext (if i = [] then newID else i) now name [] input)"

definition MarkFailed :: "execution \<Rightarrow> err \<Rightarrow> execution" where
  "MarkFailed e err = e\<lparr>Status := ''FAILED'', ExecError := Some err\<rparr>"

section \<open>History\<close>

text \<open>The literal of \<open>AddStateHistory\<close>; the fields it does not set have their zero values.\<close>

definition new_history :: "int \<Rightarrow> string \<Rightarrow> gval \<Rightarrow> gval \<Rightarrow> string \<Rightarrow> int \<Rightarrow> state_history" where
  "new_history now stateName input output status seq =
    \<lparr>sh_StateName = stateName, sh_StateType = [], sh_Status = status, sh_Input = input, sh_Output = output,
     sh_Timestamp = now, sh_StartTime = None, sh_EndTime = None, sh_RetryCount = 0, sh_SequenceNumber = seq,
     sh_Error = None\<rparr>"

definition AddStateHistory :: "int \<Rightarrow> execution \<Rightarrow> string \<Rightarrow> gval \<Rightarrow> gval \<Rightarrow> string \<Rightarrow> execution" where
  "AddStateHistory now e stateName input output status =
    e\<lparr>History := History e @
       [new_history now stateName input output status (int (length (History e)))]\<rparr>"

definition GetLastState :: "execution \<Rightarrow> state_history res" where
  "GetLastState e =
    (if History e = [] then Err (ErrorNew ''no history available'') else Ok (last (History e)))"

definition GetStateHistory :: "execution \<Rightarrow> string \<Rightarrow> state_history list" where
  "GetStateHistory e stateName = filter (\<lambda>h. sh_StateName h = stateName) (History e)"

text \<open>The loop from the last entry to the first.\<close>

definition GetStateOutput :: "execution \<Rightarrow> string \<Rightarrow> gval res" where
  "GetStateOutput e stateName =
    (case find (\<lambda>h. sh_StateName h = stateName) (rev (History e)) of
       Some h \<Rightarrow> Ok (sh_Output h)
     | None \<Rightarrow> Err (ErrorNew (''state '' @ [CHR 0x27] @ stateName @ [CHR 0x27] @
                            '' not found in execution history'')))"

definition IsComplete :: "execution \<Rightarrow> bool" where
  "IsComplete e \<longleftrightarrow>
    Status e = ''SUCCEEDED'' \<or> Status e = ''FAILED'' \<or> Status e = ''TIMED_OUT'' \<or> Status e = ''ABORTED''"

definition GetFinalOutput :: "execution \<Rightarrow> gval res" where
  "GetFinalOutput e =
    (if \<not> IsComplete e then Err (ErrorNew (''execution is not complete (status: '' @ Status e @ '')''))
     else Ok (Output e))"

text \<open>\<open>Time.Sub\<close> saturates at the bounds of a duration.\<close>

definition time_sub :: "int \<Rightarrow> int \<Rightarrow> int" where
  "time_sub t u = max (- (2 ^ 63)) (min (2 ^ 63 - 1) (t - u))"

definition GetDuration :: "int \<Rightarrow> execution \<Rightarrow> int" where
  "GetDuration now e = time_sub (case EndTime e of None \<Rightarrow> now | Some t \<Rightarrow> t) (StartTime e)"

section \<open>Recovery metadata\<close>

definition empty_metadata :: recovery_metadata where
  "empty_metadata =
    \<lparr>LastSuccessfulState = [], LastSuccessfulStateOutput = GNil, RecoveryAttemptCount = 0,
     LastRecoveryAttemptAt = None, MaxRecoveryAttempts = 0, RecoveryStrategy = [], CrashDetectedAt = None\<rparr>"

definition metadata_or :: "recovery_metadata \<Rightarrow> execution \<Rightarrow> recovery_metadata" where
  "metadata_or d e = (case RecoveryMetadata e of Some m \<Rightarrow> m | None \<Rightarrow> d)"

definition UpdateRecoveryMetadata :: "execution \<Rightarrow> string \<Rightarrow> gval \<Rightarrow> execution" where
  "UpdateRecoveryMetadata e stateName output =
    e\<lparr>RecoveryMetadata := Some ((metadata_or empty_metadata e)
        \<lparr>LastSuccessfulState := stateName, LastSuccessfulStateOutput := output\<rparr>)\<rparr>"

definition MarkRecoveryAttempt :: "int \<Rightarrow> execution \<Rightarrow> execution" where
  "MarkRecoveryAttempt now e =
    (let m = metadata_or (empty_metadata\<lparr>MaxRecoveryAttempts := 3, RecoveryStrategy := ''RETRY''\<rparr>) e
     in e\<lparr>RecoveryMetadata := Some (m
            \<lparr>RecoveryAttemptCount := wrap64 (RecoveryAttemptCount m + 1), LastRecoveryAttemptAt := Some now\<rparr>)\<rparr>)"

definition CanRecover :: "execution \<Rightarrow> bool" where
  "CanRecover e =
    (case RecoveryMetadata e of
       None \<Rightarrow> True
     | Some m \<Rightarrow>
         (let maxAttempts = (if MaxRecoveryAttempts m \<le> 0 then 3 else MaxRecoveryAttempts m)
          in RecoveryAttemptCount m < maxAttempts))"

definition GetRecoveryInput :: "execution \<Rightarrow> gval" where
  "GetRecoveryInput e =
    (case RecoveryMetadata e of
       Some m \<Rightarrow> if LastSuccessfulStateOutput m \<noteq> GNil then LastSuccessfulStateOutput m else Input e
     | None \<Rightarrow> Input e)"

definition PrepareForRecovery :: "execution \<Rightarrow> int \<Rightarrow> string \<Rightarrow> execution" where
  "PrepareForRecovery e maxAttempts strategy =
    e\<lparr>RecoveryMetadata := Some
       (case RecoveryMetadata e of
          None \<Rightarrow> empty_metadata\<lparr>MaxRecoveryAttempts := maxAttempts, RecoveryStrategy := strategy\<rparr>
        | Some m \<Rightarrow>
            (let m1 = (if maxAttempts > 0 then m\<lparr>MaxRecoveryAttempts := maxAttempts\<rparr> else m)
             in if strategy \<noteq> [] then m1\<lparr>RecoveryStrategy := strategy\<rparr> else m1))\<rparr>"

definition MarkCrashDetected :: "int \<Rightarrow> execution \<Rightarrow> execution" where
  "MarkCrashDetected now e =
    e\<lparr>RecoveryMetadata := Some ((metadata_or empty_metadata e)\<lparr>CrashDetectedAt := Some now\<rparr>)\<rparr>"

section \<open>Lemmas\<close>

lemma new_history_simps [simp]:
  "sh_StateName (new_history t n i out st q) = n" "sh_Status (new_history t n i out st q) = st"
  "sh_Input (new_history t n i out st q) = i" "sh_Output (new_history t n i out st q) = out"
  "sh_SequenceNumber (new_history t n i out st q) = q"
  by (simp_all add: new_history_def)

text \<open>The history is well numbered: entry \<open>i\<close> carries the sequence number \<open>i\<close>.\<close>

definition numbered :: "execution \<Rightarrow> bool" where
  "numbered e \<longleftrightarrow> map sh_SequenceNumber (History e) = map int [0..<length (History e)]"

lemma numbered_NewContext [simp]: "numbered (NewContext i t n s v)"
  by (simp add: numbered_def NewContext_def)

lemma numbered_AddStateHistory: "numbered e \<Longrightarrow> numbered (AddStateHistory now e n i out st)"
  by (simp add: numbered_def AddStateHistory_def)

lemma numbered_cong: "History e = History e' \<Longrightarrow> numbered e = numbered e'"
  by (simp add: numbered_def)

lemma History_AddStateHistory [simp]:
  "History (AddStateHistory now e n i out st) = History e @ [new_history now n i out st (length (History e))]"
  by (simp add: AddStateHistory_def)

lemma Input_AddStateHistory [simp]: "Input (AddStateHistory now e n i out st) = Input e"
  by (simp add: AddStateHistory_def)

lemma MarkRecoveryAttempt_Some:
  "RecoveryMetadata x = Some m \<Longrightarrow> RecoveryMetadata (MarkRecoveryAttempt now x) =
   Some (m\<lparr>RecoveryAttemptCount := wrap64 (RecoveryAttemptCount m + 1), LastRecoveryAttemptAt := Some now\<rparr>)"
  by (simp add: MarkRecoveryAttempt_def metadata_or_def Let_def)

lemma MarkRecoveryAttempt_count:
  "0 \<le> RecoveryAttemptCount m \<Longrightarrow> RecoveryAttemptCount m + int k < 2 ^ 63 \<Longrightarrow> RecoveryMetadata x = Some m \<Longrightarrow>
   \<exists>m'. RecoveryMetadata ((MarkRecoveryAttempt now ^^ k) x) = Some m' \<and>
     RecoveryAttemptCount m' = RecoveryAttemptCount m + int k \<and> MaxRecoveryAttempts m' = MaxRecoveryAttempts m"
proof (induction k)
  case (Suc k)
  then obtain m' where m': "RecoveryMetadata ((MarkRecoveryAttempt now ^^ k) x) = Some m'"
      "RecoveryAttemptCount m' = RecoveryAttemptCount m + int k" "MaxRecoveryAttempts m' = MaxRecoveryAttempts m" by auto
  have "in_int64 (RecoveryAttemptCount m' + 1)" using Suc.prems(1,2) m'(2) by (simp add: in_int64_def)
  with m' show ?case by (simp add: MarkRecoveryAttempt_Some)
qed simp

section \<open>Properties\<close>

text \<open>History lookup. After a state's run is recorded, \<open>GetStateOutput\<close> returns the output just recorded for that state
  (also when the state ran before), the other states' outputs are unaffected, and \<open>GetLastState\<close> is the new entry.\<close>

theorem GetStateOutput_AddStateHistory:
  "GetStateOutput (AddStateHistory now e stateName i out st) stateName = Ok out \<and>
   (\<forall>other. other \<noteq> stateName \<longrightarrow>
      GetStateOutput (AddStateHistory now e stateName i out st) other = GetStateOutput e other) \<and>
   (\<exists>h. GetLastState (AddStateHistory now e stateName i out st) = Ok h \<and>
      sh_StateName h = stateName \<and> sh_Output h = out \<and> sh_SequenceNumber h = int (length (History e)))"
  by (simp add: GetStateOutput_def GetLastState_def)

theorem GetStateOutput_AddStateHistory_witness:
  "GetStateOutput (AddStateHistory 1 (AddStateHistory 0 (NewContext [] 0 [] [] GNil) ''A'' GNil (GBool True) []) ''B'' GNil GNil [])
     ''A'' = Ok (GBool True)"
  using GetStateOutput_AddStateHistory [of 1 "AddStateHistory 0 (NewContext [] 0 [] [] GNil) ''A'' GNil (GBool True) []"
      "''B''" GNil GNil "[]"]
    GetStateOutput_AddStateHistory [of 0 "NewContext [] 0 [] [] GNil" "''A''" GNil "GBool True" "[]"]
  by simp

text \<open>The number of recovery attempts is bounded. Starting from an execution that recovery has not touched, \<open>CanRecover\<close> allows an
  attempt exactly as long as fewer than three have been made; with prepared metadata, as long as fewer than the configured
  maximum have been made.\<close>

theorem CanRecover_bounded:
  assumes "n < 2 ^ 63" and "RecoveryMetadata e = None" and "0 < maxAttempts"
  shows "(CanRecover ((MarkRecoveryAttempt now ^^ n) e) \<longleftrightarrow> n < 3) \<and>
    (CanRecover ((MarkRecoveryAttempt now ^^ n) (PrepareForRecovery e maxAttempts strategy)) \<longleftrightarrow> int n < maxAttempts)"
proof -
  have 1: "CanRecover ((MarkRecoveryAttempt now ^^ n) e) \<longleftrightarrow> n < 3"
  proof (cases n)
    case 0
    then show ?thesis using assms(2) by (simp add: CanRecover_def)
  next
    case (Suc k)
    let ?x = "MarkRecoveryAttempt now e"
    have "RecoveryMetadata ?x = Some (empty_metadata\<lparr>MaxRecoveryAttempts := 3, RecoveryStrategy := ''RETRY'',
        RecoveryAttemptCount := 1, LastRecoveryAttemptAt := Some now\<rparr>)"
      using assms(2) by (simp add: MarkRecoveryAttempt_def metadata_or_def empty_metadata_def Let_def in_int64_def)
    from MarkRecoveryAttempt_count [OF _ _ this, of k now] Suc assms(1) show ?thesis
      by (auto simp: CanRecover_def funpow_swap1)
  qed
  have "RecoveryMetadata (PrepareForRecovery e maxAttempts strategy) =
      Some (empty_metadata\<lparr>MaxRecoveryAttempts := maxAttempts, RecoveryStrategy := strategy\<rparr>)"
    using assms(2) by (simp add: PrepareForRecovery_def)
  from MarkRecoveryAttempt_count [OF _ _ this, of n now] assms(1,3) have
    "CanRecover ((MarkRecoveryAttempt now ^^ n) (PrepareForRecovery e maxAttempts strategy)) \<longleftrightarrow> int n < maxAttempts"
    by (auto simp: CanRecover_def empty_metadata_def)
  with 1 show ?thesis by blast
qed

theorem CanRecover_bounded_witness:
  "\<not> CanRecover ((MarkRecoveryAttempt 0 ^^ 3) (NewContext [] 0 [] [] GNil))"
  using CanRecover_bounded [of 3 "NewContext [] 0 [] [] GNil" 1 0 "[]"] by (simp add: NewContext_def)

end
