(* ===== verification/Errors.thy ===== *)
theory Errors
  imports Prelude
begin

text \<open>
  The error type of the engine (\<open>pkg/errors/errors.go\<close>): constructors, and the predicates that look for a
  \<open>StateMachineError\<close> in a chain of wrapped errors. \<open>errors.As\<close> follows \<open>Unwrap\<close>, which only
  \<open>fmt.Errorf\<close> with \<open>%w\<close> provides: a \<open>StateMachineError\<close> does not unwrap to its \<open>Cause\<close>.
\<close>

fun as_smerr :: "err \<Rightarrow> (string \<times> string \<times> err option) option" where
  "as_smerr (ErrorNew m) = None"
| "as_smerr (Wrapped p e) = as_smerr e"
| "as_smerr (StateMachineError t m c) = Some (t, m, c)"

definition GetErrorType :: "err \<Rightarrow> string" where
  "GetErrorType e = ErrorType e"

definition NewStateMachineError :: "string \<Rightarrow> string \<Rightarrow> err option \<Rightarrow> err" where
  "NewStateMachineError errorType message cause = StateMachineError errorType message cause"

definition IsErrorType :: "err option \<Rightarrow> string \<Rightarrow> bool" where
  "IsErrorType e errorType =
    (case Option.bind e as_smerr of Some (t, _, _) \<Rightarrow> t = errorType | None \<Rightarrow> False)"

definition IsTimeoutError :: "err option \<Rightarrow> bool" where
  "IsTimeoutError e =
    (case Option.bind e as_smerr of Some (t, _, _) \<Rightarrow> t = ''States.Timeout'' | None \<Rightarrow> False)"

definition IsTaskFailedError :: "err option \<Rightarrow> bool" where
  "IsTaskFailedError e =
    (case Option.bind e as_smerr of Some (t, _, _) \<Rightarrow> t = ''States.TaskFailed'' | None \<Rightarrow> False)"

definition NewTimeoutError :: "string \<Rightarrow> err option \<Rightarrow> err" where
  "NewTimeoutError message cause = NewStateMachineError ''States.Timeout'' message cause"

definition NewTaskFailedError :: "string \<Rightarrow> err option \<Rightarrow> err" where
  "NewTaskFailedError message cause = NewStateMachineError ''States.TaskFailed'' message cause"

definition NewParameterPathFailureError :: "string \<Rightarrow> err option \<Rightarrow> err" where
  "NewParameterPathFailureError message cause = NewStateMachineError ''States.ParameterPathFailure'' message cause"

definition NewResultPathMatchFailureError :: "string \<Rightarrow> err option \<Rightarrow> err" where
  "NewResultPathMatchFailureError message cause = NewStateMachineError ''States.ResultPathMatchFailure'' message cause"

definition NewBranchFailedError :: "string \<Rightarrow> err option \<Rightarrow> err" where
  "NewBranchFailedError message cause = NewStateMachineError ''States.BranchFailed'' message cause"

definition NewNoChoiceMatchedError :: "string \<Rightarrow> err option \<Rightarrow> err" where
  "NewNoChoiceMatchedError message cause = NewStateMachineError ''States.NoChoiceMatched'' message cause"

definition NewIntrinsicFailureError :: "string \<Rightarrow> err option \<Rightarrow> err" where
  "NewIntrinsicFailureError message cause = NewStateMachineError ''States.IntrinsicFailure'' message cause"

definition NewPermissionsError :: "string \<Rightarrow> err option \<Rightarrow> err" where
  "NewPermissionsError message cause = NewStateMachineError ''States.Permissions'' message cause"

definition WrapError :: "string \<Rightarrow> err option \<Rightarrow> err option" where
  "WrapError errorType e =
    (case e of
       None \<Rightarrow> None
     | Some x \<Rightarrow>
         (case as_smerr x of
            Some (t, m, c) \<Rightarrow> Some (StateMachineError t m c)
          | None \<Rightarrow> Some (NewStateMachineError errorType (Error x) (Some x))))"

text \<open>The error type \<open>""\<close> stands for an error that is no \<open>StateMachineError\<close>.\<close>

definition error_type_of :: "err option \<Rightarrow> string" where
  "error_type_of e = (case Option.bind e as_smerr of Some (t, _, _) \<Rightarrow> t | None \<Rightarrow> [])"

definition IsRetryableError :: "err option \<Rightarrow> string list \<Rightarrow> bool" where
  "IsRetryableError e errorEquals =
    list_ex (\<lambda>eq. eq = error_type_of e \<or> eq = ''States.ALL'') errorEquals"

section \<open>Lemmas\<close>

lemma IsErrorType_iff: "IsErrorType e t \<longleftrightarrow> (\<exists>m c. Option.bind e as_smerr = Some (t, m, c))"
  by (auto simp: IsErrorType_def split: option.splits)

lemma WrapError_is_smerr: "WrapError t (Some e) = Some w \<Longrightarrow> as_smerr w \<noteq> None"
  by (auto simp: WrapError_def NewStateMachineError_def split: option.splits)

text \<open>\<open>WrapError\<close> always yields a typed error, keeps the type of an error that already has one however deeply it
  is wrapped, gives the requested type otherwise, and wrapping twice changes nothing.\<close>

theorem WrapError_typed:
  "(\<forall>t'. IsErrorType (WrapError t (Some e)) t' \<longleftrightarrow>
      (if as_smerr e = None then t' = t else IsErrorType (Some e) t')) \<and>
   WrapError t2 (WrapError t (Some e)) = WrapError t (Some e)"
  by (auto simp: WrapError_def NewStateMachineError_def IsErrorType_def split: option.splits)

end
