(* ===== verification/StateMachine.thy ===== *)
theory StateMachine
  imports Validator Factory Execution Errors
begin

text \<open>
  The in-memory engine (\<open>pkg/statemachine/statemachine.go\<close>): loading and validating a machine, and \<open>RunExecution\<close>, the loop
  that executes its states. One iteration is \<open>run_once\<close>; the loop takes fuel, since a machine may run forever, and more fuel
  never changes a result. Step \<open>k\<close> of the run is event \<open>[k]\<close>; the loop itself reads the clock at \<open>[k, 2]\<close> (timeout),
  \<open>[k, 3]\<close> (end time) and \<open>[k, 4]\<close> (history).

  The value that a recovered panic carries is printed with \<open>%v\<close> into the error and stored in the output as
  \<open>GRuntimeError\<close>. Logging is not modelled.
\<close>

record state_machine =
  sm_Name :: string
  sm_Comment :: string
  sm_StartAt :: string
  sm_States :: states_map
  sm_TimeoutSeconds :: "int option"
  sm_Version :: string
  sm_ID :: string
  sm_createdAt :: int

record 'j raw_state_machine =
  raw_Name :: string
  raw_Comment :: string
  raw_StartAt :: string
  raw_States :: "(string \<times> 'j) list"
  raw_TimeoutSeconds :: "int option"
  raw_Version :: string

section \<open>Loading\<close>

definition StateMachine_Validate :: "state_machine \<Rightarrow> check" where
  "StateMachine_Validate sm =
    StateMachineValidator_Validate (sm_StartAt sm) (sm_States sm) (sm_TimeoutSeconds sm)"

fun create_states :: "'j decoder \<Rightarrow> (string \<times> 'j) list \<Rightarrow> states_map res" where
  "create_states dec [] = Ok []"
| "create_states dec ((stateName, rawState) # rest) =
     rbind (wrap_err (''failed to create state '' @ quoted stateName) (CreateState dec stateName rawState)) (\<lambda>s.
     rbind (create_states dec rest) (\<lambda>m. Ok ((stateName, s) # m)))"

text \<open>\<open>New\<close>, from the definition once it is decoded into a \<open>rawStateMachine\<close>; the new identifier and the time are arguments.\<close>

definition New :: "'j decoder \<Rightarrow> string \<Rightarrow> int \<Rightarrow> 'j raw_state_machine \<Rightarrow> state_machine res" where
  "New dec newID now rawSM =
    (if raw_States rawSM = [] then
       Err (ErrorNew ''failed to unmarshal state machine definition: States is required and cannot be empty'')
     else
       rbind (create_states dec (raw_States rawSM)) (\<lambda>m.
         (let sm = \<lparr>sm_Name = raw_Name rawSM, sm_Comment = raw_Comment rawSM, sm_StartAt = raw_StartAt rawSM,
                    sm_States = m, sm_TimeoutSeconds = raw_TimeoutSeconds rawSM,
                    sm_Version = (if raw_Version rawSM = [] then ''1.0'' else raw_Version rawSM),
                    sm_ID = newID, sm_createdAt = now\<rparr>
          in case StateMachine_Validate sm of
               Some e \<Rightarrow> Err (Wrapped ''state machine validation failed'' e)
             | None \<Rightarrow> Ok sm)))"

definition GetState :: "state_machine \<Rightarrow> string \<Rightarrow> state res" where
  "GetState sm name =
    (case map_of (sm_States sm) name of
       Some s \<Rightarrow> Ok s
     | None \<Rightarrow> Err (ErrorNew (''state '' @ quoted name @ '' not found'')))"

section \<open>Timeouts\<close>

text \<open>\<open>Duration.Seconds\<close>: whole seconds plus the remaining nanoseconds, in floating point.\<close>

definition duration_Seconds :: "int \<Rightarrow> f64" where
  "duration_Seconds d =
    (let sec = sgn d * (\<bar>d\<bar> div 10 ^ 9); nsec = d - sec * 10 ^ 9
     in f64_add (f64_of_int sec) (round_f64 (of_int nsec / 10 ^ 9)))"

definition IsTimeout :: "int \<Rightarrow> state_machine \<Rightarrow> int \<Rightarrow> bool" where
  "IsTimeout now sm startTime =
    (case sm_TimeoutSeconds sm of
       None \<Rightarrow> False
     | Some t \<Rightarrow> duration_Seconds (time_sub now startTime) > f64_of_int t)"

section \<open>Executing one state\<close>

definition MergeInputs :: "gval \<Rightarrow> gval \<Rightarrow> gval res" where
  "MergeInputs processedInput result =
    (if processedInput = GNil then Ok result
     else if result = GNil then Ok processedInput
     else ApplyResultPath processedInput result (Some ''$.''))"

definition exec_failure_input :: "state \<Rightarrow> string \<Rightarrow> gval" where
  "exec_failure_input s r =
    GMap [(''__exec_failure__'' @ ''_'' @ GetName s, GMap [(''error'', GRuntimeError r)])]"

definition executeStateWithRecovery ::
  "nat \<Rightarrow> env \<Rightarrow> evid \<Rightarrow> state \<Rightarrow> gval \<Rightarrow> string \<Rightarrow> (gval \<times> string option \<times> err option) res option" where
  "executeStateWithRecovery fuel env ev s input stateName =
    (case Execute fuel env ev s input of
       None \<Rightarrow> None
     | Some (Returned output nextState e) \<Rightarrow>
         Some (Ok ((if e \<noteq> None \<and> output = GNil then input else output), nextState, e))
     | Some (Panicked r) \<Rightarrow>
         (let e = ErrorNew (''state execution panic in '' @ stateName @ '': '' @ r) in
          case MergeInputs input (exec_failure_input s r) of
            Ok mergedOutput \<Rightarrow> Some (Ok (mergedOutput, None, Some e))
          | Err _ \<Rightarrow> Some (Ok (input, None, Some e))
          | Panic r2 \<Rightarrow> Some (Panic r2)
          | Crash r2 \<Rightarrow> Some (Crash r2))
     | Some (Crashed r) \<Rightarrow> Some (Crash r))"

section \<open>The run\<close>

record config =
  cf_step :: nat
  cf_StateName :: string
  cf_Input :: gval
  cf_Exec :: execution

type_synonym run_result = "(execution \<times> err option) res"

definition timeout_error :: "int \<Rightarrow> err" where
  "timeout_error t = NewTimeoutError (''State machine timed out after '' @ itoa t @ '' seconds'') None"

definition finish_with :: "string \<Rightarrow> int \<Rightarrow> err option \<Rightarrow> execution \<Rightarrow> execution" where
  "finish_with status now e x = x\<lparr>Status := status, EndTime := Some now, ExecError := e\<rparr>"

text \<open>One iteration of the loop of \<open>RunExecution\<close>: \<open>Inl\<close> is the configuration of the next iteration, \<open>Inr\<close> the result. The
  state is given the execution's \<open>Input\<close>; \<open>cf_Input\<close> (\<open>currentInput\<close>) only goes into the history.\<close>

definition run_once :: "nat \<Rightarrow> env \<Rightarrow> state_machine \<Rightarrow> config \<Rightarrow> (config + run_result) option" where
  "run_once fuel env sm c =
    (let k = cf_step c; x = cf_Exec c; name = cf_StateName c; endNow = now_ns env [k, 3]; histNow = now_ns env [k, 4] in
     if IsTimeout (now_ns env [k, 2]) sm (StartTime x) then
       (let e = timeout_error (the (sm_TimeoutSeconds sm))
        in Some (Inr (Ok (finish_with ''TIMED_OUT'' endNow (Some e) x, Some e))))
     else (case GetState sm name of
       Err e \<Rightarrow> Some (Inr (Ok (finish_with ''FAILED'' endNow (Some e) x, Some e)))
     | Panic r \<Rightarrow> Some (Inr (Panic r))
     | Crash r \<Rightarrow> Some (Inr (Crash r))
     | Ok s \<Rightarrow>
         (let x1 = x\<lparr>CurrentState := name\<rparr> in
          case executeStateWithRecovery fuel env [k] s (Input x1) name of
            None \<Rightarrow> None
          | Some (Panic r) \<Rightarrow> Some (Inr (Panic r))
          | Some (Crash r) \<Rightarrow> Some (Inr (Crash r))
          | Some (Err e) \<Rightarrow> Some (Inr (Err e))
          | Some (Ok (output, nextState, Some e)) \<Rightarrow>
              Some (Inr (Ok ((finish_with ''FAILED'' endNow (Some e)
                (AddStateHistory histNow x1 name (cf_Input c) output ''FAILED''))\<lparr>Output := output\<rparr>, Some e)))
          | Some (Ok (output, nextState, None)) \<Rightarrow>
              (let x2 = AddStateHistory histNow x1 name (cf_Input c) output ''SUCCEEDED'';
                   done = Some (Inr (Ok (x2\<lparr>Status := ''SUCCEEDED'', EndTime := Some endNow, Output := output\<rparr>, None)))
               in if IsEnd s then done
                  else (case nextState of
                          None \<Rightarrow> done
                        | Some n \<Rightarrow> Some (Inl \<lparr>cf_step = Suc k, cf_StateName = n, cf_Input = output, cf_Exec = x2\<rparr>))))))"

fun run_loop :: "nat \<Rightarrow> env \<Rightarrow> state_machine \<Rightarrow> config \<Rightarrow> run_result option" where
  "run_loop 0 env sm c = None"
| "run_loop (Suc fuel) env sm c =
     (case run_once fuel env sm c of
        None \<Rightarrow> None
      | Some (Inr r) \<Rightarrow> Some r
      | Some (Inl c') \<Rightarrow> run_loop fuel env sm c')"

definition start_config :: "state_machine \<Rightarrow> execution \<Rightarrow> config" where
  "start_config sm x = \<lparr>cf_step = 0, cf_StateName = sm_StartAt sm, cf_Input = Input x, cf_Exec = x\<rparr>"

definition RunExecution :: "nat \<Rightarrow> env \<Rightarrow> state_machine \<Rightarrow> execution \<Rightarrow> run_result option" where
  "RunExecution fuel env sm execCtx = run_loop fuel env sm (start_config sm execCtx)"

definition ResumeExecution :: "nat \<Rightarrow> env \<Rightarrow> state_machine \<Rightarrow> execution \<Rightarrow> run_result option" where
  "ResumeExecution fuel env sm execCtx = RunExecution fuel env sm execCtx"

record execution_config =
  ec_Name :: string
  ec_SourceExecutionID :: string
  ec_SourceStateName :: string
  ec_InputTransformerName :: string
  ec_InputTransformer :: "(gval \<Rightarrow> gval res) option"
  ec_ApplyUnique :: bool

definition empty_config :: execution_config where
  "empty_config = \<lparr>ec_Name = [], ec_SourceExecutionID = [], ec_SourceStateName = [], ec_InputTransformerName = [],
     ec_InputTransformer = None, ec_ApplyUnique = False\<rparr>"

definition WithExecutionName :: "string \<Rightarrow> execution_config \<Rightarrow> execution_config" where
  "WithExecutionName name c = c\<lparr>ec_Name := name\<rparr>"

definition WithSourceExecution :: "string \<Rightarrow> string list \<Rightarrow> execution_config \<Rightarrow> execution_config" where
  "WithSourceExecution executionID stateName c =
    (let c1 = c\<lparr>ec_SourceExecutionID := executionID\<rparr>
     in case stateName of n # _ \<Rightarrow> if n \<noteq> [] then c1\<lparr>ec_SourceStateName := n\<rparr> else c1 | [] \<Rightarrow> c1)"

definition WithInputTransformer :: "(gval \<Rightarrow> gval res) option \<Rightarrow> execution_config \<Rightarrow> execution_config" where
  "WithInputTransformer transformer c = c\<lparr>ec_InputTransformer := transformer\<rparr>"

definition WithInputTransformerName :: "string \<Rightarrow> execution_config \<Rightarrow> execution_config" where
  "WithInputTransformerName transformerName c = c\<lparr>ec_InputTransformerName := transformerName\<rparr>"

definition WithUniqueness :: "bool \<Rightarrow> execution_config \<Rightarrow> execution_config" where
  "WithUniqueness applyUnique c = c\<lparr>ec_ApplyUnique := applyUnique\<rparr>"

text \<open>\<open>Execute\<close> of the machine: the options are applied in order, a name given by one of them replaces the default one.\<close>

definition StateMachine_Execute ::
  "nat \<Rightarrow> env \<Rightarrow> string \<Rightarrow> state_machine \<Rightarrow> gval \<Rightarrow> (execution_config \<Rightarrow> execution_config) list \<Rightarrow> run_result option" where
  "StateMachine_Execute fuel env newID sm input opts =
    (let config = fold (\<lambda>opt c. opt c) opts empty_config;
         execName = (if opts \<noteq> [] \<and> ec_Name config \<noteq> [] then ec_Name config
                     else ''execution-'' @ itoa (unix_seconds (now_ns env [])))
     in RunExecution fuel env sm (NewContext newID (now_ns env [0, 5]) execName (sm_StartAt sm) input))"

section \<open>Executing one state: lemmas\<close>

lemma path_parts_root_dot [simp]: "path_parts ''$.'' = []"
  by (simp add: path_parts_def TrimPrefix_def HasPrefix_def splitPath_def)

text \<open>Merging at \<open>$.\<close> never fails: two maps are merged, otherwise the result replaces the input.\<close>

lemma MergeInputs_Ok: "\<exists>v. MergeInputs a b = Ok v"
  by (simp add: MergeInputs_def ApplyResultPath_def setValue_def HasPrefix_def split: gval.split)

lemma executeStateWithRecovery_cases:
  assumes "executeStateWithRecovery f env ev s i name = Some r"
  obtains out nx e where "r = Ok (out, nx, e)" "e \<noteq> None \<Longrightarrow> nx = None"
  | m where "r = Crash m" "Execute f env ev s i = Some (Crashed m)"
proof (cases "the (Execute f env ev s i)")
  case (Returned v nx e)
  with assms have "Execute f env ev s i = Some (Returned v nx e)"
    by (auto simp: executeStateWithRecovery_def split: option.splits)
  with assms that(1) show thesis
    by (auto simp: executeStateWithRecovery_def dest: Execute_error_next)
next
  case (Panicked m)
  with assms have "Execute f env ev s i = Some (Panicked m)"
    by (auto simp: executeStateWithRecovery_def split: option.splits)
  with assms that(1) MergeInputs_Ok [of i "exec_failure_input s m"] show thesis
    by (auto simp: executeStateWithRecovery_def Let_def)
next
  case (Crashed m)
  with assms have "Execute f env ev s i = Some (Crashed m)"
    by (auto simp: executeStateWithRecovery_def split: option.splits)
  with assms that(2) show thesis by (auto simp: executeStateWithRecovery_def)
qed

lemma executeStateWithRecovery_next:
  "executeStateWithRecovery f env ev s i name = Some (Ok (out, Some n, None)) \<Longrightarrow> n \<in> set (GetNextStates s)"
  by (auto simp: executeStateWithRecovery_def Let_def split: option.splits outcome.splits res.splits if_splits
      dest: Execute_next)

lemma executeStateWithRecovery_mono:
  assumes "f \<le> g" and "executeStateWithRecovery f env ev s i name = Some r"
  shows "executeStateWithRecovery g env ev s i name = Some r"
proof -
  obtain out where out: "Execute f env ev s i = Some out"
    using assms(2) by (auto simp: executeStateWithRecovery_def split: option.splits)
  with exec_leD [OF Execute_mono [OF assms(1)] out] assms(2) show ?thesis
    by (simp add: executeStateWithRecovery_def)
qed

section \<open>Steps of a run\<close>

inductive run_step :: "env \<Rightarrow> state_machine \<Rightarrow> config \<Rightarrow> config \<Rightarrow> bool" for env sm where
  advance: "run_once f env sm c = Some (Inl c') \<Longrightarrow> run_step env sm c c'"

inductive_cases run_stepE: "run_step env sm c c'"

lemma run_once_Inl:
  assumes "run_once f env sm c = Some (Inl c')"
  obtains s out n where "map_of (sm_States sm) (cf_StateName c) = Some s" "\<not> IsEnd s"
    "executeStateWithRecovery f env [cf_step c] s (Input (cf_Exec c)) (cf_StateName c) = Some (Ok (out, Some n, None))"
    "n \<in> set (GetNextStates s)"
    "c' = \<lparr>cf_step = Suc (cf_step c), cf_StateName = n, cf_Input = out,
       cf_Exec = AddStateHistory (now_ns env [cf_step c, 4]) ((cf_Exec c)\<lparr>CurrentState := cf_StateName c\<rparr>)
         (cf_StateName c) (cf_Input c) out ''SUCCEEDED''\<rparr>"
  using assms
  by (auto simp: run_once_def GetState_def Let_def split: if_splits option.splits res.splits)
    (meson executeStateWithRecovery_next)

text \<open>How a run can end: by the timeout, at a missing state, or with the record of the last state.\<close>

lemma run_once_Inr:
  assumes "run_once f env sm c = Some (Inr (Ok (x, e)))"
  obtains (timed_out) "\<exists>t. x = finish_with ''TIMED_OUT'' t e (cf_Exec c)" "e \<noteq> None"
  | (missing) "map_of (sm_States sm) (cf_StateName c) = None" "\<exists>t. x = finish_with ''FAILED'' t e (cf_Exec c)"
      "e = Some (ErrorNew (''state '' @ quoted (cf_StateName c) @ '' not found''))"
  | (failed) s out t t' where "map_of (sm_States sm) (cf_StateName c) = Some s" "e \<noteq> None"
      "x = (finish_with ''FAILED'' t e (AddStateHistory t' ((cf_Exec c)\<lparr>CurrentState := cf_StateName c\<rparr>)
             (cf_StateName c) (cf_Input c) out ''FAILED''))\<lparr>Output := out\<rparr>"
  | (succeeded) s out nx t t' where "map_of (sm_States sm) (cf_StateName c) = Some s" "e = None" "IsEnd s \<or> nx = None"
      "executeStateWithRecovery f env [cf_step c] s (Input (cf_Exec c)) (cf_StateName c) = Some (Ok (out, nx, None))"
      "x = (AddStateHistory t' ((cf_Exec c)\<lparr>CurrentState := cf_StateName c\<rparr>)
             (cf_StateName c) (cf_Input c) out ''SUCCEEDED'')\<lparr>Status := ''SUCCEEDED'', EndTime := Some t, Output := out\<rparr>"
proof -
  consider (t) "IsTimeout (now_ns env [cf_step c, 2]) sm (StartTime (cf_Exec c))"
    | (m) "\<not> IsTimeout (now_ns env [cf_step c, 2]) sm (StartTime (cf_Exec c))" "map_of (sm_States sm) (cf_StateName c) = None"
    | (s) s where "\<not> IsTimeout (now_ns env [cf_step c, 2]) sm (StartTime (cf_Exec c))"
        "map_of (sm_States sm) (cf_StateName c) = Some s" by (cases "map_of (sm_States sm) (cf_StateName c)") auto
  then show thesis
  proof cases
    case t
    with assms show thesis by (intro timed_out) (auto simp: run_once_def Let_def)
  next
    case m
    with assms show thesis by (intro missing) (auto simp: run_once_def GetState_def Let_def)
  next
    case (s s)
    with assms obtain out nx e' where run:
      "executeStateWithRecovery f env [cf_step c] s (Input (cf_Exec c)) (cf_StateName c) = Some (Ok (out, nx, e'))"
      by (auto simp: run_once_def GetState_def Let_def split: option.splits res.splits)
    show thesis
    proof (cases e')
      case (Some err)
      with assms s run show thesis by (intro failed) (auto simp: run_once_def GetState_def Let_def)
    next
      case None
      with assms s run show thesis
        by (intro succeeded [of s nx out]) (auto simp: run_once_def GetState_def Let_def split: if_splits option.splits)
    qed
  qed
qed

lemma run_once_mono:
  assumes "f \<le> g" and "run_once f env sm c = Some r"
  shows "run_once g env sm c = Some r"
proof (cases "IsTimeout (now_ns env [cf_step c, 2]) sm (StartTime (cf_Exec c)) \<or> map_of (sm_States sm) (cf_StateName c) = None")
  case True
  then show ?thesis using assms(2) by (auto simp: run_once_def GetState_def Let_def)
next
  case False
  then obtain s where s: "map_of (sm_States sm) (cf_StateName c) = Some s" by auto
  with False assms(2) obtain q where q:
    "executeStateWithRecovery f env [cf_step c] s (Input (cf_Exec c)) (cf_StateName c) = Some q"
    by (auto simp: run_once_def GetState_def Let_def split: option.splits)
  from executeStateWithRecovery_mono [OF assms(1) q] assms(2) False s q show ?thesis
    by (simp add: run_once_def GetState_def Let_def)
qed

interpretation run: fuelled_loop "\<lambda>f. run_once f env sm" "\<lambda>f. run_loop f env sm" for env sm
  by unfold_locales (auto intro: run_once_mono)

lemma run_step_iff: "run_step env sm c c' \<longleftrightarrow> (\<exists>f. run_once f env sm c = Some (Inl c'))"
  by (auto intro: run_step.advance elim: run_stepE)

lemma run_loop_trace:
  "run_loop f env sm c = Some r \<Longrightarrow> \<exists>c' g. (run_step env sm)\<^sup>*\<^sup>* c c' \<and> run_once g env sm c' = Some (Inr r)"
  unfolding run_step_iff by (rule run.loop_trace)

section \<open>The history of a run\<close>

text \<open>
  A history follows the machine: it starts at \<open>StartAt\<close> with the execution's input, entry \<open>i\<close> has sequence number \<open>i\<close> and
  names a state of the machine, and the entry after it is for a declared successor of that state, with the previous output as
  its input.
\<close>

definition follows :: "state_machine \<Rightarrow> gval \<Rightarrow> state_history list \<Rightarrow> bool" where
  "follows sm input h \<longleftrightarrow>
    (h \<noteq> [] \<longrightarrow> sh_StateName (h ! 0) = sm_StartAt sm \<and> sh_Input (h ! 0) = input) \<and>
    (\<forall>i<length h. sh_SequenceNumber (h ! i) = int i \<and> map_of (sm_States sm) (sh_StateName (h ! i)) \<noteq> None) \<and>
    (\<forall>i. Suc i < length h \<longrightarrow> sh_Status (h ! i) = ''SUCCEEDED'' \<and> sh_Input (h ! Suc i) = sh_Output (h ! i) \<and>
       (\<exists>s. map_of (sm_States sm) (sh_StateName (h ! i)) = Some s \<and> \<not> IsEnd s \<and>
            sh_StateName (h ! Suc i) \<in> set (GetNextStates s)))"

text \<open>The state that comes next, and its input, continue the history.\<close>

definition continues :: "state_machine \<Rightarrow> gval \<Rightarrow> state_history list \<Rightarrow> string \<Rightarrow> gval \<Rightarrow> bool" where
  "continues sm input h name i \<longleftrightarrow>
    (if h = [] then name = sm_StartAt sm \<and> i = input
     else sh_Status (last h) = ''SUCCEEDED'' \<and> i = sh_Output (last h) \<and>
       (\<exists>s. map_of (sm_States sm) (sh_StateName (last h)) = Some s \<and> \<not> IsEnd s \<and> name \<in> set (GetNextStates s)))"

lemma follows_Nil [simp]: "follows sm input []"
  by (simp add: follows_def)

lemma follows_snoc:
  assumes "follows sm input h" and "continues sm input h name i" and "map_of (sm_States sm) name \<noteq> None"
  shows "follows sm input (h @ [new_history t name i out st (length h)])"
proof (cases "h = []")
  case True
  with assms show ?thesis by (simp add: follows_def continues_def)
next
  case False
  then have last: "last h = h ! (length h - 1)" "length h - 1 < length h" by (auto simp: last_conv_nth)
  have cont: "sh_Status (last h) = ''SUCCEEDED''" "i = sh_Output (last h)"
      "\<exists>s. map_of (sm_States sm) (sh_StateName (last h)) = Some s \<and> \<not> IsEnd s \<and> name \<in> set (GetNextStates s)"
    using assms(2) False by (simp_all add: continues_def)
  have step: "sh_Status (h ! j) = ''SUCCEEDED'' \<and> i = sh_Output (h ! j) \<and>
       (\<exists>s. map_of (sm_States sm) (sh_StateName (h ! j)) = Some s \<and> \<not> IsEnd s \<and> name \<in> set (GetNextStates s))"
    if "Suc j = length h" for j
  proof -
    have "j = length h - 1" using that by simp
    then show ?thesis using cont last(1) by simp
  qed
  show ?thesis using assms(1,3) False step
    unfolding follows_def by (auto simp: nth_append less_Suc_eq)
qed

definition run_inv :: "state_machine \<Rightarrow> execution \<Rightarrow> config \<Rightarrow> bool" where
  "run_inv sm x0 c \<longleftrightarrow>
    (let x = cf_Exec c in
     Input x = Input x0 \<and> ExecError x = ExecError x0 \<and> StartTime x = StartTime x0 \<and> cf_step c = length (History x) \<and>
     follows sm (Input x0) (History x) \<and> continues sm (Input x0) (History x) (cf_StateName c) (cf_Input c))"

lemma run_inv_start: "History x = [] \<Longrightarrow> run_inv sm x (start_config sm x)"
  by (simp add: run_inv_def start_config_def continues_def)

lemma run_inv_step:
  assumes "run_inv sm x0 c" and "run_step env sm c c'"
  shows "run_inv sm x0 c'"
  using assms(2)
proof (rule run_stepE)
  fix f assume "run_once f env sm c = Some (Inl c')"
  then show ?thesis
  proof (rule run_once_Inl)
    fix s out n
    assume s: "map_of (sm_States sm) (cf_StateName c) = Some s" "\<not> IsEnd s" "n \<in> set (GetNextStates s)"
      and c': "c' = \<lparr>cf_step = Suc (cf_step c), cf_StateName = n, cf_Input = out,
        cf_Exec = AddStateHistory (now_ns env [cf_step c, 4]) ((cf_Exec c)\<lparr>CurrentState := cf_StateName c\<rparr>)
         (cf_StateName c) (cf_Input c) out ''SUCCEEDED''\<rparr>"
    from assms(1) have inv: "follows sm (Input x0) (History (cf_Exec c))"
        "continues sm (Input x0) (History (cf_Exec c)) (cf_StateName c) (cf_Input c)" by (simp_all add: run_inv_def Let_def)
    from follows_snoc [OF inv] s assms(1) show ?thesis
      by (simp add: run_inv_def c' continues_def AddStateHistory_def Let_def)
  qed
qed

lemma run_inv_steps: "(run_step env sm)\<^sup>*\<^sup>* c c' \<Longrightarrow> run_inv sm x0 c \<Longrightarrow> run_inv sm x0 c'"
  by (induction rule: rtranclp_induct) (auto intro: run_inv_step)

lemma RunExecution_ends:
  assumes "RunExecution f env sm x0 = Some r" and "History x0 = []"
  obtains c g where "(run_step env sm)\<^sup>*\<^sup>* (start_config sm x0) c" "run_inv sm x0 c" "run_once g env sm c = Some (Inr r)"
  using run_loop_trace [of f env sm "start_config sm x0" r] assms run_inv_steps run_inv_start
  unfolding RunExecution_def by blast

lemma follows_final:
  assumes "run_inv sm x0 c" and "run_once f env sm c = Some (Inr (Ok (x, e)))"
  shows "follows sm (Input x0) (History x)"
proof -
  from assms(1) have inv: "follows sm (Input x0) (History (cf_Exec c))"
        "continues sm (Input x0) (History (cf_Exec c)) (cf_StateName c) (cf_Input c)" by (simp_all add: run_inv_def Let_def)
  from assms(2) show ?thesis
    by (cases rule: run_once_Inr) (use inv follows_snoc [OF inv] in \<open>auto simp: finish_with_def AddStateHistory_def\<close>)
qed

lemma RunExecution_follows:
  assumes "RunExecution fuel env sm x0 = Some (Ok (x, e))" and "History x0 = []"
  shows "follows sm (Input x0) (History x)"
  using RunExecution_ends [OF assms] follows_final by metis

lemma RunExecution_final:
  assumes "RunExecution fuel env sm x0 = Some (Ok (x, e))" and "History x0 = []" and "ExecError x0 = None"
  shows "IsComplete x \<and> ExecError x = e \<and> (e = None \<longleftrightarrow> Status x = ''SUCCEEDED'') \<and>
    (e = None \<longrightarrow> (\<exists>h. GetLastState x = Ok h \<and> sh_Status h = ''SUCCEEDED'' \<and> GetFinalOutput x = Ok (sh_Output h)))"
proof -
  obtain c g where inv: "run_inv sm x0 c" and r: "run_once g env sm c = Some (Inr (Ok (x, e)))"
    using RunExecution_ends [OF assms(1,2)] by blast
  have "ExecError (cf_Exec c) = None" using inv assms(3) by (simp add: run_inv_def Let_def)
  with r show ?thesis
    by (cases rule: run_once_Inr)
      (auto simp: finish_with_def IsComplete_def AddStateHistory_def GetLastState_def GetFinalOutput_def)
qed

lemma history_states:
  assumes "RunExecution fuel env sm x0 = Some (Ok (x, e))" and "History x0 = []" and "h \<in> set (History x)"
  shows "map_of (sm_States sm) (sh_StateName h) \<noteq> None"
  using RunExecution_follows [OF assms(1,2)] assms(3) by (auto simp: follows_def in_set_conv_nth)

lemma StateMachine_Execute_start:
  "\<exists>x0. (\<forall>m. StateMachine_Execute m env execID sm input opts = RunExecution m env sm x0) \<and>
     History x0 = [] \<and> ExecError x0 = None"
  by (rule exI [of _ "NewContext execID (now_ns env [0, 5])
        (if opts \<noteq> [] \<and> ec_Name (fold (\<lambda>opt c. opt c) opts empty_config) \<noteq> []
         then ec_Name (fold (\<lambda>opt c. opt c) opts empty_config) else ''execution-'' @ itoa (unix_seconds (now_ns env [])))
        (sm_StartAt sm) input"]) (simp_all add: StateMachine_Execute_def NewContext_def)

section \<open>Runs of machines without cycles end\<close>

definition ranked_machine :: "(string \<Rightarrow> nat) \<Rightarrow> state_machine \<Rightarrow> bool" where
  "ranked_machine rank sm \<longleftrightarrow>
    (\<forall>(name, s)\<in>set (sm_States sm). acyclic_state s \<and> (\<forall>n\<in>set (GetNextStates s). rank n < rank name))"

lemma executeStateWithRecovery_returns:
  assumes "Execute f env ev s i \<noteq> None"
  shows "executeStateWithRecovery f env ev s i name \<noteq> None"
proof -
  from assms obtain out where "Execute f env ev s i = Some out" by blast
  then show ?thesis by (cases out) (auto simp: executeStateWithRecovery_def Let_def split: res.split)
qed

lemma run_once_returns:
  assumes "\<And>name s ev i. (name, s) \<in> set (sm_States sm) \<Longrightarrow> Execute f env ev s i \<noteq> None"
  shows "run_once f env sm c \<noteq> None"
proof (cases "map_of (sm_States sm) (cf_StateName c)")
  case None
  then show ?thesis by (simp add: run_once_def GetState_def Let_def)
next
  case (Some s)
  have "executeStateWithRecovery f env [cf_step c] s (Input (cf_Exec c)) (cf_StateName c) \<noteq> None"
    using assms [OF map_of_in_set [OF Some]] by (rule executeStateWithRecovery_returns)
  with Some show ?thesis
    by (auto simp: run_once_def GetState_def Let_def split: option.split res.split)
qed

lemma run_loop_returns:
  assumes "ranked_machine rank sm"
    and "\<And>g name s ev i. f \<le> g \<Longrightarrow> (name, s) \<in> set (sm_States sm) \<Longrightarrow> Execute g env ev s i \<noteq> None"
  shows "f + rank (cf_StateName c) < n \<Longrightarrow> run_loop n env sm c \<noteq> None"
proof (rule run.loop_returns [where f = f and rank = "\<lambda>c. rank (cf_StateName c)"])
  show "rank (cf_StateName c2) < rank (cf_StateName c1)" if "run_once m env sm c1 = Some (Inl c2)" for m c1 c2
    using that assms(1) by (fastforce simp: ranked_machine_def dest!: map_of_in_set elim!: run_once_Inl)
  show "run_once g env sm c1 \<noteq> None" if "f \<le> g" for g c1
    using that by (intro run_once_returns assms(2)) auto
qed

text \<open>One amount of fuel is enough for every state of the machine.\<close>

lemma ranked_states_return:
  assumes "ranked_machine rank sm"
  obtains f where "\<And>g env name s ev i. f \<le> g \<Longrightarrow> (name, s) \<in> set (sm_States sm) \<Longrightarrow> Execute g env ev s i \<noteq> None"
proof -
  let ?P = "\<lambda>n (p :: string \<times> state). \<forall>env ev i. Execute n env ev (snd p) i \<noteq> None"
  have mono: "?P m p \<Longrightarrow> m \<le> n \<Longrightarrow> ?P n p" for m n p
    using exec_leD [OF Execute_mono] by (metis not_Some_eq)
  have "\<exists>n. \<forall>p\<in>set (sm_States sm). ?P n p"
  proof (rule uniform_bound)
    show "\<exists>n. ?P n p" if "p \<in> set (sm_States sm)" for p
      using assms that acyclic_returns [of "snd p"] by (auto simp: ranked_machine_def)
  qed (rule mono)
  then obtain f where f: "\<forall>p\<in>set (sm_States sm). ?P f p" by blast
  have "Execute g env ev s i \<noteq> None" if "f \<le> g" "(name, s) \<in> set (sm_States sm)" for g env ev i name s
    using mono [of f "(name, s)" g] f that by auto
  with that show thesis by blast
qed

lemma ranked_machine_returns:
  assumes "ranked_machine rank sm"
  shows "\<exists>n. \<forall>env x. RunExecution n env sm x \<noteq> None"
proof -
  from ranked_states_return [OF assms] obtain f where
    run: "\<And>g env name s ev i. f \<le> g \<Longrightarrow> (name, s) \<in> set (sm_States sm) \<Longrightarrow> Execute g env ev s i \<noteq> None" by blast
  have "RunExecution (Suc (f + rank (sm_StartAt sm))) env sm x \<noteq> None" for env x
    unfolding RunExecution_def by (rule run_loop_returns [OF assms run]) (auto simp: start_config_def)
  then show ?thesis by blast
qed

lemma ranked_machine_bound:
  assumes "ranked_machine rank sm"
  shows "\<exists>n. \<forall>env x. \<exists>r. \<forall>m\<ge>n. RunExecution m env sm x = Some r"
proof -
  from ranked_machine_returns [OF assms] obtain n where n: "\<forall>env x. RunExecution n env sm x \<noteq> None" by blast
  have "\<exists>r. \<forall>m\<ge>n. RunExecution m env sm x = Some r" for env x
  proof -
    from n obtain r where "RunExecution n env sm x = Some r" by blast
    then show ?thesis using run.loop_mono unfolding RunExecution_def by blast
  qed
  then show ?thesis by blast
qed

section \<open>Loading: lemmas\<close>

lemma create_states_Ok:
  "create_states dec raws = Ok m \<Longrightarrow> map fst m = map fst raws \<and>
   (\<forall>(name, s)\<in>set m. GetName s = name \<and> Validate s = None)"
proof (induction raws arbitrary: m)
  case (Cons r raws)
  obtain name raw where r: "r = (name, raw)" by fastforce
  with Cons.prems obtain s m' where "CreateState dec name raw = Ok s" "create_states dec raws = Ok m'" "m = (name, s) # m'"
    by (auto simp: rbind_eq_Ok)
  with Cons.IH [of m'] r show ?case by (auto dest!: CreateState_Ok)
qed simp

lemma New_Ok:
  assumes "New dec newID now raw = Ok sm"
  shows "StateMachine_Validate sm = None \<and> map fst (sm_States sm) = map fst (raw_States raw) \<and>
    (\<forall>(name, s)\<in>set (sm_States sm). GetName s = name \<and> Validate s = None)"
proof -
  from assms obtain m where "create_states dec (raw_States raw) = Ok m" "sm_States sm = m" "StateMachine_Validate sm = None"
    by (auto simp: New_def rbind_eq_Ok Let_def split: if_splits option.splits)
  then show ?thesis using create_states_Ok by blast
qed

section \<open>Properties\<close>

definition machine :: "string \<Rightarrow> states_map \<Rightarrow> state_machine" where
  "machine startAt m = \<lparr>sm_Name = ''m'', sm_Comment = [], sm_StartAt = startAt, sm_States = m, sm_TimeoutSeconds = None,
     sm_Version = ''1.0'', sm_ID = ''id'', sm_createdAt = 0\<rparr>"

definition fresh :: "gval \<Rightarrow> execution" where
  "fresh input = NewContext ''exec-1'' 0 ''run'' [] input"

lemma fresh_simps [simp]: "History (fresh v) = []" "Input (fresh v) = v" "ExecError (fresh v) = None"
  by (simp_all add: fresh_def NewContext_def)

text \<open>What can be seen of a result that is an execution.\<close>

definition observe :: "(execution \<Rightarrow> err option \<Rightarrow> 'a) \<Rightarrow> run_result option \<Rightarrow> 'a option" where
  "observe g r = (case r of Some (Ok (x, e)) \<Rightarrow> Some (g x e) | _ \<Rightarrow> None)"

lemma observe_Some: "observe g r = Some y \<longleftrightarrow> (\<exists>x e. r = Some (Ok (x, e)) \<and> g x e = y)"
  by (auto simp: observe_def split: option.splits res.splits)

lemma sample_run:
  "observe (\<lambda>x e. (Status x, map sh_StateName (History x), e))
     (RunExecution 5 quiet_env (machine ''A'' pass_machine) (fresh GNil)) = Some (''SUCCEEDED'', [''A'', ''B''], None)"
  by code_simp

lemma sample_run_Ok:
  obtains x where "RunExecution 5 quiet_env (machine ''A'' pass_machine) (fresh GNil) = Some (Ok (x, None))"
    "Status x = ''SUCCEEDED''" "map sh_StateName (History x) = [''A'', ''B'']"
  using sample_run unfolding observe_Some by auto

text \<open>C1: The history of every run follows the machine. It starts at \<open>StartAt\<close> with the execution's input; entry \<open>i\<close> has sequence
  number \<open>i\<close> and names a state of the machine; each further entry is for a successor that the previous state declares in
  \<open>GetNextStates\<close>, the previous state was not an end state and succeeded, and its output is the recorded input of the next.\<close>

theorem RunExecution_history:
  assumes "RunExecution fuel env sm x0 = Some (Ok (x, e))" and "History x0 = []"
  shows "(History x \<noteq> [] \<longrightarrow> sh_StateName (History x ! 0) = sm_StartAt sm \<and> sh_Input (History x ! 0) = Input x0) \<and>
    (\<forall>i<length (History x). sh_SequenceNumber (History x ! i) = int i \<and>
       map_of (sm_States sm) (sh_StateName (History x ! i)) \<noteq> None) \<and>
    (\<forall>i. Suc i < length (History x) \<longrightarrow> sh_Status (History x ! i) = ''SUCCEEDED'' \<and>
       sh_Input (History x ! Suc i) = sh_Output (History x ! i) \<and>
       (\<exists>s. map_of (sm_States sm) (sh_StateName (History x ! i)) = Some s \<and> \<not> IsEnd s \<and>
            sh_StateName (History x ! Suc i) \<in> set (GetNextStates s)))"
  using RunExecution_follows [OF assms] unfolding follows_def .

theorem RunExecution_history_witness:
  "\<exists>x. RunExecution 5 quiet_env (machine ''A'' pass_machine) (fresh GNil) = Some (Ok (x, None)) \<and>
       sh_Input (History x ! 1) = sh_Output (History x ! 0) \<and> sh_StateName (History x ! 0) = ''A''"
proof -
  obtain x where x: "RunExecution 5 quiet_env (machine ''A'' pass_machine) (fresh GNil) = Some (Ok (x, None))"
      "map sh_StateName (History x) = [''A'', ''B'']" by (rule sample_run_Ok)
  from x(2) have "length (map sh_StateName (History x)) = 2" by simp
  then have "length (History x) = 2" by simp
  with RunExecution_history [OF x(1)] have "sh_Input (History x ! Suc 0) = sh_Output (History x ! 0)"
      "sh_StateName (History x ! 0) = sm_StartAt (machine ''A'' pass_machine)" by auto
  with x(1) show ?thesis by (intro exI [of _ x]) (simp add: machine_def)
qed

text \<open>C5: A run that returns is complete. Whenever \<open>RunExecution\<close> returns, for whatever environment, the execution is in a final
  status, its \<open>Error\<close> field is the returned error, and there is no error exactly when the status is SUCCEEDED; in that case
  \<open>GetFinalOutput\<close> is the output of the last state in the history.\<close>

theorem RunExecution_complete:
  assumes "RunExecution fuel env sm x0 = Some (Ok (x, e))" and "History x0 = []" and "ExecError x0 = None"
  shows "IsComplete x \<and> ExecError x = e \<and> (e = None \<longleftrightarrow> Status x = ''SUCCEEDED'') \<and>
    (e = None \<longrightarrow> (\<exists>h. GetLastState x = Ok h \<and> sh_Status h = ''SUCCEEDED'' \<and> GetFinalOutput x = Ok (sh_Output h)))"
  by (rule RunExecution_final [OF assms])

theorem RunExecution_complete_witness:
  "\<exists>x. RunExecution 5 quiet_env (machine ''A'' pass_machine) (fresh GNil) = Some (Ok (x, None)) \<and> IsComplete x"
proof -
  obtain x where x: "RunExecution 5 quiet_env (machine ''A'' pass_machine) (fresh GNil) = Some (Ok (x, None))"
    by (rule sample_run_Ok)
  from RunExecution_complete [OF x] x show ?thesis by simp
qed

text \<open>Machines without cycles terminate. If the transitions decrease some rank (and likewise in the branches of the Parallel
  states), there is a bound on the steps within which \<open>RunExecution\<close> returns for every environment and every execution, and the
  result does not depend on the fuel beyond it.\<close>

theorem RunExecution_terminates:
  assumes "ranked_machine rank sm"
  shows "\<exists>n. \<forall>env x. \<exists>r. \<forall>m\<ge>n. RunExecution m env sm x = Some r"
  by (rule ranked_machine_bound [OF assms])

lemma pass_machine_ranked: "ranked_machine (\<lambda>x. if x = ''A'' then 1 else 0) (machine ''A'' pass_machine)"
  by (auto simp: ranked_machine_def machine_def pass_machine_def pass_to_def pass_end_def NewPassState_def new_base_def
      base_state.defs pass_state.defs BaseState_GetNextStates_def intro!: acyclic_state.leaf)

theorem RunExecution_terminates_witness:
  "\<exists>n. \<forall>env x. \<exists>r. \<forall>m\<ge>n. RunExecution m env (machine ''A'' pass_machine) x = Some r"
  by (rule RunExecution_terminates [OF pass_machine_ranked])

text \<open>In a closed machine only states fail. If \<open>StartAt\<close> and every declared successor of a non-end state name states of the
  machine, then a run never fails for lack of a state: whenever it ends FAILED, the last entry of its history is a FAILED entry for
  the current state.\<close>

theorem RunExecution_closed:
  assumes "RunExecution fuel env sm x0 = Some (Ok (x, e))" and "History x0 = []" and "Status x = ''FAILED''"
    and "map_of (sm_States sm) (sm_StartAt sm) \<noteq> None"
    and "\<forall>(name, s)\<in>set (sm_States sm). IsEnd s \<or> set (GetNextStates s) \<subseteq> fst ` set (sm_States sm)"
  shows "\<exists>h. GetLastState x = Ok h \<and> sh_Status h = ''FAILED'' \<and> sh_StateName h = CurrentState x"
proof -
  obtain c g where inv: "run_inv sm x0 c" and r: "run_once g env sm c = Some (Inr (Ok (x, e)))"
    using RunExecution_ends [OF assms(1,2)] by blast
  from inv have cont: "continues sm (Input x0) (History (cf_Exec c)) (cf_StateName c) (cf_Input c)"
    by (simp add: run_inv_def Let_def)
  have "map_of (sm_States sm) (cf_StateName c) \<noteq> None"
  proof (cases "History (cf_Exec c) = []")
    case True
    with cont assms(4) show ?thesis by (simp add: continues_def)
  next
    case False
    with cont obtain s where "(sh_StateName (last (History (cf_Exec c))), s) \<in> set (sm_States sm)" "\<not> IsEnd s"
        "cf_StateName c \<in> set (GetNextStates s)" by (auto simp: continues_def dest!: map_of_in_set)
    with assms(5) show ?thesis unfolding map_of_eq_None_iff by blast
  qed
  with r assms(3) show ?thesis
    by (cases rule: run_once_Inr) (auto simp: finish_with_def AddStateHistory_def GetLastState_def)
qed

definition failing_machine :: state_machine where
  "failing_machine = machine ''T'' [(''T'', TaskState (sample_task\<lparr>Next := None, End := True, Catch := []\<rparr>))]"

lemma failing_run:
  "observe (\<lambda>x e. Status x) (RunExecution 5 failing_env failing_machine (fresh GNil)) =
   Some ''FAILED''"
  by code_simp

theorem RunExecution_closed_witness:
  "\<exists>x e h. RunExecution 5 failing_env failing_machine (fresh GNil) = Some (Ok (x, e)) \<and> GetLastState x = Ok h \<and>
     sh_Status h = ''FAILED''"
proof -
  obtain x e where x: "RunExecution 5 failing_env failing_machine (fresh GNil) = Some (Ok (x, e))" "Status x = ''FAILED''"
    using failing_run unfolding observe_Some by blast
  have "map_of (sm_States failing_machine) (sm_StartAt failing_machine) \<noteq> None" by code_simp
  moreover have "\<forall>(name, s)\<in>set (sm_States failing_machine). IsEnd s \<or> set (GetNextStates s) \<subseteq> fst ` set (sm_States failing_machine)"
    by code_simp
  ultimately show ?thesis using RunExecution_closed [OF x(1) _ x(2)] x(1) by auto
qed

text \<open>Loading is safe. A machine that \<open>New\<close> returns has passed the validator, and its states are exactly those of the definition, each
  under its own name and each valid by itself.\<close>

theorem New_sound:
  assumes "New dec newID now raw = Ok sm"
  shows "StateMachine_Validate sm = None \<and> map fst (sm_States sm) = map fst (raw_States raw) \<and>
    (\<forall>(name, s)\<in>set (sm_States sm). GetName s = name \<and> Validate s = None)"
  by (rule New_Ok [OF assms])

definition sample_raw :: "string raw_state_machine" where
  "sample_raw = \<lparr>raw_Name = ''m'', raw_Comment = [], raw_StartAt = ''S'', raw_States = [(''S'', ''Succeed'')],
     raw_TimeoutSeconds = None, raw_Version = []\<rparr>"

theorem New_sound_witness:
  "\<exists>sm. New sample_decoder ''id'' 0 sample_raw = Ok sm \<and> map fst (sm_States sm) = [''S'']"
proof -
  have "map_err (\<lambda>e. e) (rbind (New sample_decoder ''id'' 0 sample_raw) (\<lambda>sm. Ok (sm_StartAt sm))) = Ok ''S''" by code_simp
  then obtain sm where sm: "New sample_decoder ''id'' 0 sample_raw = Ok sm" by (auto simp: rbind_eq_Ok)
  from New_sound [OF this] sm show ?thesis by (simp add: sample_raw_def)
qed

text \<open>Panics of a handler are contained. If the execution of a state panics (in the goroutine of the run), the engine turns it into a
  failure: no next state, an error that names the state, and an output that keeps the other keys of the input map and holds
  the panic under \<open>__exec_failure___<name>\<close>.\<close>

theorem executeStateWithRecovery_panic:
  assumes "Execute fuel env ev s (GMap m) = Some (Panicked r)" and "wf_gmap m"
  shows "\<exists>out. executeStateWithRecovery fuel env ev s (GMap m) name =
      Some (Ok (GMap out, None, Some (ErrorNew (''state execution panic in '' @ name @ '': '' @ r)))) \<and>
    (\<exists>f. map_of out (''__exec_failure___'' @ GetName s) = Some (GMap f) \<and> map_of f ''error'' = Some (GRuntimeError r)) \<and>
    (\<forall>k v. k \<noteq> ''__exec_failure___'' @ GetName s \<and> map_of m k = Some v \<and> v \<noteq> GNil \<longrightarrow> map_of out k = Some v)"
proof -
  define key where "key = ''__exec_failure___'' @ GetName s"
  define f where "f = [(''error'', GRuntimeError r)]"
  let ?out = "mergeMaps m [(key, GMap f)]"
  have merged: "map_of ?out k = merge_opt (nonnil (map_of m k)) (nonnil (map_of [(key, GMap f)] k))" for k
    using assms(2) by (intro map_of_mergeMaps) auto
  have "\<exists>g. map_of ?out key = Some (GMap g) \<and> map_of g ''error'' = Some (GRuntimeError r)"
  proof (cases "\<exists>a. map_of m key = Some (GMap a)")
    case True
    then obtain a where a: "map_of m key = Some (GMap a)" by blast
    then have "distinct_keys a" using assms(2) wf_fields_lookup [of m key "GMap a"] by simp
    then have "map_of (mergeMaps a f) ''error'' = Some (GRuntimeError r)"
      by (subst map_of_mergeMaps) (simp_all add: f_def nonnil_def merge_opt_not_map)
    with a show ?thesis by (simp add: merged nonnil_def)
  next
    case False
    then have "merge_opt (nonnil (map_of m key)) (Some (GMap f)) = Some (GMap f)"
      by (intro merge_opt_old_not_map) (auto simp: nonnil_def split: if_splits)
    then have "map_of ?out key = Some (GMap f)" unfolding merged by (simp add: nonnil_def)
    then show ?thesis by (simp add: f_def)
  qed
  moreover have "map_of ?out k = Some v" if "k \<noteq> key" "map_of m k = Some v" "v \<noteq> GNil" for k v
    using that by (simp add: merged nonnil_def)
  moreover have "executeStateWithRecovery fuel env ev s (GMap m) name =
      Some (Ok (GMap ?out, None, Some (ErrorNew (''state execution panic in '' @ name @ '': '' @ r))))"
    using assms(1) by (simp add: executeStateWithRecovery_def MergeInputs_def ApplyResultPath_def setValue_def HasPrefix_def
        exec_failure_input_def key_def f_def)
  ultimately show ?thesis unfolding key_def by blast
qed

definition panic_env :: env where
  "panic_env = quiet_env\<lparr>has_handler := (\<lambda>_. True), run_handler := (\<lambda>ev r v. Panic ''boom'')\<rparr>"

theorem executeStateWithRecovery_panic_witness:
  "\<exists>out. executeStateWithRecovery 1 panic_env [] (TaskState sample_task) (GMap [(''id'', GBool True)]) ''T'' =
     Some (Ok (GMap out, None, Some (ErrorNew ''state execution panic in T: boom''))) \<and> map_of out ''id'' = Some (GBool True)"
proof -
  have "Execute 1 panic_env [] (TaskState sample_task) (GMap [(''id'', GBool True)]) = Some (Panicked ''boom'')"
    by code_simp
  from executeStateWithRecovery_panic [OF this, of "''T''"] show ?thesis by (force simp: GetName_def BaseState_GetName_def)
qed

definition relay_machine :: state_machine where
  "relay_machine = machine ''A'' [(''A'', pass_to ''A'' ''B'' (GString ''from A'')), (''B'', pass_end ''B'' GNil)]"

text \<open>The engine gives every state the original input. In a machine \<open>A \<rightarrow> B\<close> where \<open>A\<close> produces a constant and \<open>B\<close> passes its input on,
  the history records that \<open>B\<close> ran on the output of \<open>A\<close>, but the output of \<open>B\<close> (and of the execution) is the input of the
  execution.\<close>

theorem RunExecution_original_input:
  "observe (\<lambda>x e. (sh_Output (History x ! 0), sh_Input (History x ! 1), sh_Output (History x ! 1), Output x))
     (RunExecution 5 quiet_env relay_machine (fresh (GString ''original''))) =
   Some (GString ''from A'', GString ''from A'', GString ''original'', GString ''original'')"
  by code_simp

definition fail_machine :: state_machine where
  "fail_machine = machine ''F'' [(''F'', FailState (base_state.extend (new_base ''F'' ''Fail'')
     (fail_state.fields ''Custom.Error'' ''reason'' True)))]"

text \<open>A Fail state does not fail. The execution of a machine that consists of one Fail state, which the validator accepts, ends
  SUCCEEDED with its input as output and without an error.\<close>

theorem Fail_state_succeeds:
  "StateMachine_Validate fail_machine = None \<and>
   observe (\<lambda>x e. (Status x, Output x, e)) (RunExecution 5 quiet_env fail_machine (fresh (GString ''in''))) =
   Some (''SUCCEEDED'', GString ''in'', None)"
  by (rule conjI; code_simp)

definition end_catch_task :: task_state where
  "end_catch_task = sample_task\<lparr>Next := None, End := True\<rparr>"

text \<open>The catch policy of an end state is not followed. A Task that is an end state and catches the error of its handler selects
  the handler state \<open>H\<close>, but the run stops there and the execution ends SUCCEEDED without running \<open>H\<close>.\<close>

theorem End_ignores_Catch:
  "TaskState_Execute failing_env [0] end_catch_task (GMap []) =
     Returned (GMap [(''err'', GMap [(''Error'', GString ''fatal''), (''Cause'', GString ''fatal'')])]) (Some ''H'') None \<and>
   observe (\<lambda>x e. (Status x, map sh_StateName (History x), e))
     (RunExecution 5 failing_env (machine ''T'' [(''T'', TaskState end_catch_task), (''H'', pass_end ''H'' GNil)]) (fresh (GMap []))) =
   Some (''SUCCEEDED'', [''T''], None)"
  by (rule conjI; code_simp)

text \<open>A dangling Choice destination fails at run time only. The machine that the validator accepted fails, when the rule matches, with
  "state 'Missing' not found".\<close>

theorem dangling_run_fails:
  "StateMachine_Validate (machine ''C'' dangling_machine) = None \<and>
   observe (\<lambda>x e. (Status x, e))
     (RunExecution 5 quiet_env (machine ''C'' dangling_machine) (fresh (GMap [(''x'', GBool True)]))) =
   Some (''FAILED'', Some (ErrorNew (''state '' @ quoted ''Missing'' @ '' not found'')))"
  by (rule conjI; code_simp)

end
