(* ===== verification/Repository.thy ===== *)
theory Repository
  imports Execution
begin

text \<open>
  The persistence interface (\<open>pkg/repository/repository.go\<close>, \<open>repository_messages.go\<close>, the interfaces of \<open>types.go\<close>): the
  records that are stored, and the manager, which converts executions and history entries into records and
  forwards to a backend. A backend is a record \<open>repository\<close> of operations over its state \<open>'s\<close>; an operation returns its
  result and the new state, and may fail at any time. Pointers are options; the zero \<open>time.Time\<close> behind a pointer is
  \<open>zero_time\<close>.
\<close>

section \<open>Records\<close>

record repo_recovery_metadata =
  rr_LastSuccessfulState :: string
  rr_LastSuccessfulStateOutput :: gval
  rr_RecoveryAttemptCount :: int
  rr_LastRecoveryAttemptAt :: "int option"
  rr_MaxRecoveryAttempts :: int
  rr_RecoveryStrategy :: string
  rr_CrashDetectedAt :: "int option"

record execution_record =
  er_ExecutionID :: string
  er_StateMachineID :: string
  er_Name :: string
  er_Input :: gval
  er_Output :: gval
  er_Status :: string
  er_StartTime :: "int option"
  er_EndTime :: "int option"
  er_CurrentState :: string
  er_Error :: string
  er_Metadata :: "gmap option"
  er_HistorySequenceNumber :: int
  er_RecoveryMetadata :: "repo_recovery_metadata option"
  er_CreatedAt :: "int option"
  er_UpdatedAt :: "int option"

record state_history_record =
  hr_ID :: string
  hr_ExecutionID :: string
  hr_ExecutionStartTime :: "int option"
  hr_StateName :: string
  hr_StateType :: string
  hr_Input :: gval
  hr_Output :: gval
  hr_Status :: string
  hr_StartTime :: "int option"
  hr_EndTime :: "int option"
  hr_Error :: string
  hr_RetryCount :: int
  hr_SequenceNumber :: int
  hr_Metadata :: "gmap option"

record state_machine_record =
  mr_ID :: string
  mr_Name :: string
  mr_Description :: string
  mr_Definition :: string
  mr_Type :: string
  mr_Version :: string
  mr_CreatedAt :: "int option"
  mr_UpdatedAt :: "int option"
  mr_Metadata :: "gmap option"

record linked_execution_record =
  le_ID :: string
  le_SourceStateMachineID :: string
  le_SourceExecutionID :: string
  le_SourceStateName :: string
  le_InputTransformerName :: string
  le_TargetStateMachineName :: string
  le_TargetExecutionID :: string
  le_CreatedAt :: int

record message_correlation_record =
  mc_ID :: string
  mc_ExecutionID :: string
  mc_ExecutionStartTime :: "int option"
  mc_StateMachineID :: string
  mc_StateName :: string
  mc_CorrelationKey :: string
  mc_CorrelationValue :: gval
  mc_CreatedAt :: int
  mc_TimeoutAt :: "int option"
  mc_Status :: string

record message_correlation_filter =
  mf_CorrelationKey :: string
  mf_CorrelationValue :: gval
  mf_Status :: string
  mf_StateMachineID :: string
  mf_Limit :: int
  mf_Offset :: int

text \<open>A zero time in a filter is \<open>None\<close>.\<close>

record execution_filter =
  ef_Status :: string
  ef_StateMachineID :: string
  ef_Name :: string
  ef_CurrentState :: string
  ef_StartAfter :: "int option"
  ef_StartBefore :: "int option"
  ef_Limit :: int
  ef_Offset :: int

record linked_execution_filter =
  lf_SourceStateMachineID :: string
  lf_SourceExecutionID :: string
  lf_SourceStateName :: string
  lf_SourceExecutionStatus :: string
  lf_InputTransformerName :: string
  lf_TargetStateMachineName :: string
  lf_TargetExecutionID :: string
  lf_CreatedAfter :: "int option"
  lf_CreatedBefore :: "int option"
  lf_Limit :: int
  lf_Offset :: int

section \<open>Backends\<close>

text \<open>\<open>rp_messages\<close> tells whether the backend implements \<open>MessageRepository\<close> too.\<close>

record 's repository =
  rp_SaveExecution :: "execution_record \<Rightarrow> ('s, unit) op"
  rp_GetExecution :: "string \<Rightarrow> ('s, execution_record) op"
  rp_GetExecutionByName :: "string \<Rightarrow> string \<Rightarrow> ('s, execution_record) op"
  rp_SaveStateHistory :: "state_history_record \<Rightarrow> ('s, unit) op"
  rp_GetStateHistory :: "string \<Rightarrow> ('s, state_history_record list) op"
  rp_GetExecutionOutput :: "string \<Rightarrow> string \<Rightarrow> ('s, gval) op"
  rp_SaveLinkedExecution :: "linked_execution_record \<Rightarrow> ('s, unit) op"
  rp_SaveStateMachine :: "state_machine_record \<Rightarrow> ('s, unit) op"
  rp_GetStateMachine :: "string \<Rightarrow> ('s, state_machine_record) op"
  rp_ListExecutionIDs :: "execution_filter option \<Rightarrow> ('s, string list) op"
  rp_ListNonLinkedExecutions :: "execution_filter option \<Rightarrow> linked_execution_filter option \<Rightarrow> ('s, execution_record list) op"
  rp_FindOrphanedExecutions :: "string \<Rightarrow> int \<Rightarrow> ('s, execution_record list) op"
  rp_messages :: bool
  rp_SaveMessageCorrelation :: "message_correlation_record \<Rightarrow> ('s, unit) op"
  rp_GetMessageCorrelation :: "string \<Rightarrow> ('s, message_correlation_record) op"
  rp_FindWaitingCorrelations :: "message_correlation_filter \<Rightarrow> ('s, message_correlation_record list) op"
  rp_UpdateCorrelationStatus :: "string \<Rightarrow> string \<Rightarrow> ('s, unit) op"
  rp_DeleteMessageCorrelation :: "string \<Rightarrow> ('s, unit) op"
  rp_ListTimedOutCorrelations :: "int \<Rightarrow> ('s, message_correlation_record list) op"

section \<open>Conversion\<close>

definition zero_time :: int where
  "zero_time = - 62135596800 * 10 ^ 9"

definition metadata_record :: "recovery_metadata \<Rightarrow> repo_recovery_metadata" where
  "metadata_record m =
    \<lparr>rr_LastSuccessfulState = LastSuccessfulState m, rr_LastSuccessfulStateOutput = LastSuccessfulStateOutput m,
     rr_RecoveryAttemptCount = RecoveryAttemptCount m, rr_LastRecoveryAttemptAt = LastRecoveryAttemptAt m,
     rr_MaxRecoveryAttempts = MaxRecoveryAttempts m, rr_RecoveryStrategy = RecoveryStrategy m,
     rr_CrashDetectedAt = CrashDetectedAt m\<rparr>"

definition record_metadata :: "repo_recovery_metadata \<Rightarrow> recovery_metadata" where
  "record_metadata m =
    \<lparr>LastSuccessfulState = rr_LastSuccessfulState m, LastSuccessfulStateOutput = rr_LastSuccessfulStateOutput m,
     RecoveryAttemptCount = rr_RecoveryAttemptCount m, LastRecoveryAttemptAt = rr_LastRecoveryAttemptAt m,
     MaxRecoveryAttempts = rr_MaxRecoveryAttempts m, RecoveryStrategy = rr_RecoveryStrategy m,
     CrashDetectedAt = rr_CrashDetectedAt m\<rparr>"

definition execution_to_record :: "execution \<Rightarrow> execution_record" where
  "execution_to_record e =
    \<lparr>er_ExecutionID = ID e, er_StateMachineID = StateMachineID e, er_Name = ExecName e, er_Input = Input e,
     er_Output = Output e, er_Status = Status e, er_StartTime = Some (StartTime e), er_EndTime = EndTime e,
     er_CurrentState = CurrentState e, er_Error = (case ExecError e of Some err \<Rightarrow> Error err | None \<Rightarrow> []),
     er_Metadata = None, er_HistorySequenceNumber = HistorySequenceNumber e,
     er_RecoveryMetadata = map_option metadata_record (RecoveryMetadata e), er_CreatedAt = None, er_UpdatedAt = None\<rparr>"

definition generateHistoryID :: "string \<Rightarrow> string \<Rightarrow> int \<Rightarrow> string" where
  "generateHistoryID executionID stateName timestamp = executionID @ ''-'' @ stateName @ ''-'' @ itoa timestamp"

definition history_to_record :: "int \<Rightarrow> execution \<Rightarrow> state_history \<Rightarrow> state_history_record" where
  "history_to_record now e h =
    \<lparr>hr_ID = generateHistoryID (ID e) (sh_StateName h) now, hr_ExecutionID = ID e,
     hr_ExecutionStartTime = Some (StartTime e), hr_StateName = sh_StateName h, hr_StateType = sh_StateType h,
     hr_Input = sh_Input h, hr_Output = sh_Output h, hr_Status = sh_Status h,
     hr_StartTime = Some (case sh_StartTime h of Some t \<Rightarrow> t | None \<Rightarrow> zero_time), hr_EndTime = sh_EndTime h,
     hr_Error = (case sh_Error h of Some err \<Rightarrow> Error err | None \<Rightarrow> []), hr_RetryCount = sh_RetryCount h,
     hr_SequenceNumber = sh_SequenceNumber h, hr_Metadata = None\<rparr>"

section \<open>The manager\<close>

definition Manager_SaveExecution :: "'s repository \<Rightarrow> execution \<Rightarrow> ('s, unit) op" where
  "Manager_SaveExecution rp e = rp_SaveExecution rp (execution_to_record e)"

definition Manager_SaveStateMachine :: "'s repository \<Rightarrow> int \<Rightarrow> int \<Rightarrow> state_machine_record \<Rightarrow> ('s, unit) op" where
  "Manager_SaveStateMachine rp now1 now2 sm =
    (let sm1 = (if mr_CreatedAt sm = None then sm\<lparr>mr_CreatedAt := Some now1\<rparr> else sm);
         sm2 = (if mr_UpdatedAt sm1 = None then sm1\<lparr>mr_UpdatedAt := Some now2\<rparr> else sm1)
     in rp_SaveStateMachine rp sm2)"

definition Manager_SaveStateHistory :: "'s repository \<Rightarrow> int \<Rightarrow> execution \<Rightarrow> state_history \<Rightarrow> ('s, unit) op" where
  "Manager_SaveStateHistory rp now e h = rp_SaveStateHistory rp (history_to_record now e h)"

definition unsupported :: err where
  "unsupported = ErrorNew ''repository does not support message correlation''"

definition Manager_SaveMessageCorrelation :: "'s repository \<Rightarrow> message_correlation_record \<Rightarrow> ('s, unit) op" where
  "Manager_SaveMessageCorrelation rp r =
    (if rp_messages rp then rp_SaveMessageCorrelation rp r else op_return (Err unsupported))"

text \<open>The executions of the correlations found, in their order; one that cannot be read is skipped.\<close>

fun fetch_executions ::
  "'s repository \<Rightarrow> message_correlation_record list \<Rightarrow> 's \<Rightarrow> execution_record list res \<times> 's" where
  "fetch_executions rp [] s = (Ok [], s)"
| "fetch_executions rp (corr # corrs) s =
     (case rp_GetExecution rp (mc_ExecutionID corr) s of
        (Ok e, s1) \<Rightarrow> (case fetch_executions rp corrs s1 of (r, s2) \<Rightarrow> (rbind r (\<lambda>es. Ok (e # es)), s2))
      | (Err _, s1) \<Rightarrow> fetch_executions rp corrs s1
      | (Panic m, s1) \<Rightarrow> (Panic m, s1)
      | (Crash m, s1) \<Rightarrow> (Crash m, s1))"

definition Manager_FindWaitingExecutionsByCorrelation ::
  "'s repository \<Rightarrow> string \<Rightarrow> gval \<Rightarrow> ('s, execution_record list) op" where
  "Manager_FindWaitingExecutionsByCorrelation rp key val =
    (if rp_messages rp then
       op_bind (op_wrap ''failed to find correlations'' (rp_FindWaitingCorrelations rp
           \<lparr>mf_CorrelationKey = key, mf_CorrelationValue = val, mf_Status = ''WAITING'', mf_StateMachineID = [],
            mf_Limit = 0, mf_Offset = 0\<rparr>))
         (fetch_executions rp)
     else op_return (Err unsupported))"

definition Manager_UpdateCorrelationStatus :: "'s repository \<Rightarrow> string \<Rightarrow> string \<Rightarrow> ('s, unit) op" where
  "Manager_UpdateCorrelationStatus rp i status =
    (if rp_messages rp then rp_UpdateCorrelationStatus rp i status else op_return (Err unsupported))"

definition Manager_ProcessTimedOutMessages :: "'s repository \<Rightarrow> int \<Rightarrow> ('s, message_correlation_record list) op" where
  "Manager_ProcessTimedOutMessages rp now =
    (if rp_messages rp then rp_ListTimedOutCorrelations rp now else op_return (Err unsupported))"

definition Manager_GetMessageCorrelation :: "'s repository \<Rightarrow> string \<Rightarrow> ('s, message_correlation_record) op" where
  "Manager_GetMessageCorrelation rp i =
    (if rp_messages rp then rp_GetMessageCorrelation rp i else op_return (Err unsupported))"

definition Manager_DeleteMessageCorrelation :: "'s repository \<Rightarrow> string \<Rightarrow> ('s, unit) op" where
  "Manager_DeleteMessageCorrelation rp i =
    (if rp_messages rp then rp_DeleteMessageCorrelation rp i else op_return (Err unsupported))"

section \<open>Lemmas\<close>

lemma record_metadata_inverse [simp]: "record_metadata (metadata_record m) = m"
  by (simp add: record_metadata_def metadata_record_def)

lemma execution_to_record_simps [simp]:
  "er_ExecutionID (execution_to_record e) = ID e" "er_Status (execution_to_record e) = Status e"
  "er_Output (execution_to_record e) = Output e" "er_Input (execution_to_record e) = Input e"
  "er_StateMachineID (execution_to_record e) = StateMachineID e" "er_Name (execution_to_record e) = ExecName e"
  "er_StartTime (execution_to_record e) = Some (StartTime e)" "er_EndTime (execution_to_record e) = EndTime e"
  "er_CurrentState (execution_to_record e) = CurrentState e" "er_Metadata (execution_to_record e) = None"
  "er_HistorySequenceNumber (execution_to_record e) = HistorySequenceNumber e"
  "er_RecoveryMetadata (execution_to_record e) = map_option metadata_record (RecoveryMetadata e)"
  by (simp_all add: execution_to_record_def)

section \<open>The contract of message correlations\<close>

text \<open>
  What the engine relies on of a backend that stores correlations: \<open>status_of\<close> gives the status stored for an identifier. A correlation that is saved has a status. A call that fails may
  or may not have taken effect; the calls for executions and history leave the correlations alone.
\<close>

locale correlation_store =
  fixes rp :: "'s repository" and status_of :: "'s \<Rightarrow> string \<Rightarrow> string option"
  assumes get_status: "rp_GetMessageCorrelation rp i s = (r, s1) \<Longrightarrow>
      status_of s1 = status_of s \<and> (\<forall>c. r = Ok c \<longrightarrow> status_of s i = Some (mc_Status c))"
    and update_status: "rp_UpdateCorrelationStatus rp i st s = (q, s1) \<Longrightarrow>
      (status_of s1 = status_of s \<or> status_of s1 = (status_of s)(i := map_option (\<lambda>_. st) (status_of s i))) \<and>
      (\<forall>u. q = Ok u \<longrightarrow> status_of s1 i = Some st)"
    and save_status: "mc_Status c \<noteq> [] \<Longrightarrow> rp_SaveMessageCorrelation rp c s = (q, s1) \<Longrightarrow>
      (status_of s1 = status_of s \<or> status_of s1 = (status_of s)(mc_ID c \<mapsto> mc_Status c)) \<and>
      (\<forall>u. q = Ok u \<longrightarrow> status_of s1 (mc_ID c) = Some (mc_Status c))"
    and save_execution_frame: "status_of (snd (rp_SaveExecution rp x s)) = status_of s"
    and save_history_frame: "status_of (snd (rp_SaveStateHistory rp h s)) = status_of s"
begin

lemma log_save_execution [simp]: "status_of (op_log (Manager_SaveExecution rp x) s) = status_of s"
  by (simp add: op_log_def Manager_SaveExecution_def save_execution_frame)

lemma log_save_history [simp]: "status_of (op_log (Manager_SaveStateHistory rp now x h) s) = status_of s"
  by (simp add: op_log_def Manager_SaveStateHistory_def save_history_frame)

lemma log_save_correlation:
  assumes "mc_Status c \<noteq> []"
  shows "status_of (op_log (Manager_SaveMessageCorrelation rp c) s) i = status_of s i \<or>
   i = mc_ID c \<and> status_of (op_log (Manager_SaveMessageCorrelation rp c) s) i = Some (mc_Status c)"
  using assms save_status [of c s "fst (rp_SaveMessageCorrelation rp c s)" "snd (rp_SaveMessageCorrelation rp c s)"]
  by (auto simp: op_log_def Manager_SaveMessageCorrelation_def split: if_splits)

lemma update_decides:
  assumes "Manager_UpdateCorrelationStatus rp i st s = (Ok u, s1)"
  shows "status_of s1 i = Some st"
  using assms update_status by (auto simp: Manager_UpdateCorrelationStatus_def split: if_splits)

lemma read_decides:
  assumes "Manager_GetMessageCorrelation rp i s = (Ok c, s1)"
  shows "status_of s i = Some (mc_Status c)"
  using assms get_status by (fastforce simp: Manager_GetMessageCorrelation_def split: if_splits)

end

end
