(* ===== verification/Postgres.thy ===== *)
theory Postgres
  imports Repository
begin

text \<open>
  The PostgreSQL backend (\<open>pkg/repository/postgres.go\<close>, \<open>postgres_message_repository.go\<close>). The state is the contents of the tables that
  \<open>Initialize\<close> creates; an operation is the SQL statements it sends, read as what they do to the tables: upserts by
  primary key, the \<open>CHECK\<close>, \<open>NOT NULL\<close>, length and foreign key constraints of the schema, cascading deletes, filters and
  orders. Rows that an \<open>ORDER BY\<close> leaves open are in table order.

  What is not in the repository is a parameter \<open>'j postgres\<close>: JSON encoding, together with the server's conversion to
  \<open>jsonb\<close> values of type \<open>'j\<close>; the rounding of timestamps; the strings that a column accepts; \<open>ILIKE\<close>; the order of strings; the clock;
  the texts of rejections; and the faults of the connection. A fault at statement number \<open>n\<close> is an error, which says whether the
  statement took effect before it.
\<close>

record 'j postgres =
  pg_marshal :: "gval \<Rightarrow> 'j res"
  pg_unmarshal :: "'j \<Rightarrow> gval res"
  pg_null :: "'j \<Rightarrow> bool"
  pg_object :: 'j
  pg_accepts :: "nat option \<Rightarrow> string \<Rightarrow> bool"
  pg_timestamp :: "int \<Rightarrow> int"
  pg_ilike :: "string \<Rightarrow> string \<Rightarrow> bool"
  pg_collate :: "string \<Rightarrow> string"
  pg_now :: "nat \<Rightarrow> int"
  pg_reject :: "string \<Rightarrow> err"
  pg_fault :: "nat \<Rightarrow> (err \<times> bool) option"
  pg_recovery_column :: "'j option option"
  pg_unmarshal_recovery :: "'j \<Rightarrow> repo_recovery_metadata res"

text \<open>\<open>pg_recovery_column\<close> is the column \<open>recovery_metadata\<close>, which \<open>Initialize\<close> does not create: \<open>None\<close> with its schema; after the
  migration of the README, which adds the column with the default \<open>'{}'\<close>, the value that every row holds (\<open>Some None\<close> is
  \<open>NULL\<close>, without a default), as no statement of the backend sets it. \<open>pg_unmarshal_recovery\<close> decodes it to the Go struct.\<close>

section \<open>Tables\<close>

record 'j execution_row =
  xr_execution_id :: string
  xr_state_machine_id :: string
  xr_name :: string
  xr_input :: 'j
  xr_output :: 'j
  xr_status :: string
  xr_start_time :: int
  xr_end_time :: "int option"
  xr_current_state :: string
  xr_error :: string
  xr_metadata :: 'j
  xr_history_sequence_number :: int
  xr_created_at :: int
  xr_updated_at :: int

record 'j history_row =
  yr_id :: string
  yr_execution_id :: string
  yr_execution_start_time :: int
  yr_state_name :: string
  yr_state_type :: string
  yr_input :: 'j
  yr_output :: 'j
  yr_status :: string
  yr_start_time :: int
  yr_end_time :: "int option"
  yr_error :: string
  yr_retry_count :: int
  yr_sequence_number :: int
  yr_metadata :: 'j

record 'j machine_row =
  zr_id :: string
  zr_name :: string
  zr_description :: string
  zr_definition :: string
  zr_type :: string
  zr_version :: string
  zr_metadata :: 'j
  zr_created_at :: int
  zr_updated_at :: int

record 'j correlation_row =
  cr_id :: string
  cr_execution_id :: string
  cr_execution_start_time :: int
  cr_state_machine_id :: string
  cr_state_name :: string
  cr_correlation_key :: string
  cr_correlation_value :: 'j
  cr_created_at :: int
  cr_timeout_at :: "int option"
  cr_status :: string

record 'j db =
  db_tick :: nat
  db_executions :: "'j execution_row list"
  db_history :: "'j history_row list"
  db_machines :: "'j machine_row list"
  db_linked :: "linked_execution_record list"
  db_correlations :: "'j correlation_row list"
  db_executions_archive :: "'j execution_row list"
  db_history_archive :: "'j history_row list"

definition empty_db :: "'j db" where
  "empty_db = \<lparr>db_tick = 0, db_executions = [], db_history = [], db_machines = [], db_linked = [], db_correlations = [],
     db_executions_archive = [], db_history_archive = []\<rparr>"

definition execution_key :: "'j execution_row \<Rightarrow> string \<times> int" where
  "execution_key r = (xr_execution_id r, xr_start_time r)"

definition history_key :: "'j history_row \<Rightarrow> string \<times> int" where
  "history_key r = (yr_id r, yr_start_time r)"

section \<open>Statements\<close>

text \<open>One statement: its result and its effect, unless it is rejected or the connection fails.\<close>

definition sql :: "'j postgres \<Rightarrow> ('j db \<Rightarrow> ('a \<times> 'j db) res) \<Rightarrow> ('j db, 'a) op" where
  "sql pg stmt d =
    (let tick = Suc (db_tick d) in
     case pg_fault pg (db_tick d) of
       Some (e, applied) \<Rightarrow>
         (Err e, (case stmt d of Ok (_, d1) \<Rightarrow> if applied then d1 else d | _ \<Rightarrow> d)\<lparr>db_tick := tick\<rparr>)
     | None \<Rightarrow>
         (case stmt d of
            Ok (a, d1) \<Rightarrow> (Ok a, d1\<lparr>db_tick := tick\<rparr>)
          | Err e \<Rightarrow> (Err e, d\<lparr>db_tick := tick\<rparr>)
          | Panic m \<Rightarrow> (Panic m, d\<lparr>db_tick := tick\<rparr>)
          | Crash m \<Rightarrow> (Crash m, d\<lparr>db_tick := tick\<rparr>)))"

text \<open>\<open>INSERT \<dots> ON CONFLICT (key) DO UPDATE SET\<close>: \<open>set old new\<close> is the row that replaces \<open>old\<close>.\<close>

definition upsert :: "('r \<Rightarrow> 'k) \<Rightarrow> ('r \<Rightarrow> 'r \<Rightarrow> 'r) \<Rightarrow> 'r \<Rightarrow> 'r list \<Rightarrow> 'r list" where
  "upsert key set_row r rows =
    (if key r \<in> key ` set rows then map (\<lambda>x. if key x = key r then set_row x r else x) rows else rows @ [r])"

text \<open>\<open>ORDER BY f DESC LIMIT 1\<close>.\<close>

definition newest :: "('r \<Rightarrow> int) \<Rightarrow> 'r list \<Rightarrow> 'r option" where
  "newest f rows = (case sort_key (\<lambda>r. - f r) rows of [] \<Rightarrow> None | r # _ \<Rightarrow> Some r)"

definition integer_ok :: "int \<Rightarrow> bool" where
  "integer_ok n \<longleftrightarrow> 0 \<le> n \<and> n < 2 ^ 31"

definition varchar :: "'j postgres \<Rightarrow> nat \<Rightarrow> string \<Rightarrow> bool" where
  "varchar pg n s = pg_accepts pg (Some n) s"

definition execution_statuses :: "string list" where
  "execution_statuses = [''RUNNING'', ''SUCCEEDED'', ''FAILED'', ''CANCELLED'', ''TIMED_OUT'', ''ABORTED'', ''PAUSED'']"

definition history_statuses :: "string list" where
  "history_statuses = [''SUCCEEDED'', ''FAILED'', ''RUNNING'', ''CANCELLED'', ''TIMED_OUT'', ''RETRYING'', ''WAITING'']"

section \<open>JSON columns\<close>

fun as_map :: "gval \<Rightarrow> gmap res" where
  "as_map (GMap m) = Ok m"
| "as_map _ = Err (ErrorNew ''json: cannot unmarshal into Go value of type map[string]interface {}'')"

definition marshal_metadata :: "'j postgres \<Rightarrow> gmap option \<Rightarrow> 'j res" where
  "marshal_metadata pg m =
    (case m of None \<Rightarrow> Ok (pg_object pg) | Some kv \<Rightarrow> wrap_err ''failed to marshal metadata'' (pg_marshal pg (GMap kv)))"

definition unmarshal_value :: "'j postgres \<Rightarrow> string \<Rightarrow> 'j \<Rightarrow> gval res" where
  "unmarshal_value pg what j = (if pg_null pg j then Ok GNil else wrap_err what (pg_unmarshal pg j))"

definition unmarshal_metadata :: "'j postgres \<Rightarrow> string \<Rightarrow> 'j \<Rightarrow> gmap option res" where
  "unmarshal_metadata pg what j =
    (if pg_null pg j \<or> j = pg_object pg then Ok None
     else wrap_err what (rbind (pg_unmarshal pg j) (\<lambda>v. rbind (as_map v) (\<lambda>m. Ok (Some m)))))"

fun all_rows :: "('r \<Rightarrow> 'a res) \<Rightarrow> 'r list \<Rightarrow> 'a list res" where
  "all_rows f [] = Ok []"
| "all_rows f (r # rs) = rbind (f r) (\<lambda>a. rbind (all_rows f rs) (\<lambda>as. Ok (a # as)))"

section \<open>State machines\<close>

definition machine_row_of :: "'j postgres \<Rightarrow> state_machine_record \<Rightarrow> 'j \<Rightarrow> 'j machine_row" where
  "machine_row_of pg r metadata =
    \<lparr>zr_id = mr_ID r, zr_name = mr_Name r, zr_description = mr_Description r, zr_definition = mr_Definition r,
     zr_type = mr_Type r, zr_version = mr_Version r, zr_metadata = metadata,
     zr_created_at = pg_timestamp pg (case mr_CreatedAt r of Some t \<Rightarrow> t | None \<Rightarrow> zero_time),
     zr_updated_at = pg_timestamp pg (case mr_UpdatedAt r of Some t \<Rightarrow> t | None \<Rightarrow> zero_time)\<rparr>"

definition Postgres_SaveStateMachine :: "'j postgres \<Rightarrow> state_machine_record \<Rightarrow> ('j db, unit) op" where
  "Postgres_SaveStateMachine pg r =
    (if mr_ID r = [] then op_return (Err (ErrorNew ''state machine id is required''))
     else op_bind (op_return (wrap_err ''failed to marshal metadata''
              (pg_marshal pg (case mr_Metadata r of Some m \<Rightarrow> GMap m | None \<Rightarrow> GNil)))) (\<lambda>metadata.
       op_wrap ''failed to save state machine'' (sql pg (\<lambda>d.
         if varchar pg 255 (mr_ID r) \<and> varchar pg 255 (mr_Name r) \<and> pg_accepts pg None (mr_Description r) \<and>
            pg_accepts pg None (mr_Definition r) \<and> varchar pg 50 (mr_Type r) \<and> varchar pg 50 (mr_Version r)
         then Ok ((), d\<lparr>db_machines := upsert zr_id
                (\<lambda>old new. new\<lparr>zr_id := zr_id old, zr_created_at := zr_created_at old, zr_updated_at := pg_now pg (db_tick d)\<rparr>)
                (machine_row_of pg r metadata) (db_machines d)\<rparr>)
         else Err (pg_reject pg ''state_machines'')))))"

definition value_time :: "int \<Rightarrow> int option" where
  "value_time t = (if t = zero_time then None else Some t)"

definition Postgres_GetStateMachine :: "'j postgres \<Rightarrow> string \<Rightarrow> ('j db, state_machine_record) op" where
  "Postgres_GetStateMachine pg stateMachineID =
    op_bind (op_wrap ''failed to get state machine'' (sql pg (\<lambda>d. Ok (find (\<lambda>r. zr_id r = stateMachineID) (db_machines d), d))))
      (\<lambda>found. op_return (case found of
         None \<Rightarrow> Err (ErrorNew (''state machine '' @ [CHR 0x27] @ stateMachineID @ [CHR 0x27] @ '' not found''))
       | Some row \<Rightarrow>
           rbind (wrap_err ''failed to unmarshal metadata'' (pg_unmarshal pg (zr_metadata row))) (\<lambda>v.
           rbind (case v of GNil \<Rightarrow> Ok None | _ \<Rightarrow> rbind (wrap_err ''failed to unmarshal metadata'' (as_map v)) (\<lambda>m. Ok (Some m))) (\<lambda>m.
             Ok \<lparr>mr_ID = zr_id row, mr_Name = zr_name row, mr_Description = zr_description row, mr_Definition = zr_definition row,
                 mr_Type = zr_type row, mr_Version = zr_version row, mr_CreatedAt = value_time (zr_created_at row),
                 mr_UpdatedAt = value_time (zr_updated_at row), mr_Metadata = m\<rparr>))))"

section \<open>Executions\<close>

definition marshalExecutionRecord :: "'j postgres \<Rightarrow> execution_record \<Rightarrow> ('j \<times> 'j \<times> 'j) res" where
  "marshalExecutionRecord pg r =
    rbind (wrap_err ''failed to marshal input'' (pg_marshal pg (er_Input r))) (\<lambda>input.
    rbind (wrap_err ''failed to marshal output'' (pg_marshal pg (er_Output r))) (\<lambda>output.
    rbind (marshal_metadata pg (er_Metadata r)) (\<lambda>metadata. Ok (input, output, metadata))))"

definition execution_row_of ::
  "'j postgres \<Rightarrow> nat \<Rightarrow> execution_record \<Rightarrow> int \<Rightarrow> 'j \<times> 'j \<times> 'j \<Rightarrow> 'j execution_row" where
  "execution_row_of pg tick r start =
    (\<lambda>(input, output, metadata).
      \<lparr>xr_execution_id = er_ExecutionID r, xr_state_machine_id = er_StateMachineID r, xr_name = er_Name r,
       xr_input = input, xr_output = output, xr_status = er_Status r, xr_start_time = pg_timestamp pg start,
       xr_end_time = map_option (pg_timestamp pg) (er_EndTime r), xr_current_state = er_CurrentState r,
       xr_error = er_Error r, xr_metadata = metadata, xr_history_sequence_number = er_HistorySequenceNumber r,
       xr_created_at = pg_now pg tick, xr_updated_at = pg_now pg tick\<rparr>)"

definition execution_row_ok :: "'j postgres \<Rightarrow> 'j execution_row \<Rightarrow> bool" where
  "execution_row_ok pg r \<longleftrightarrow>
    varchar pg 255 (xr_execution_id r) \<and> varchar pg 255 (xr_state_machine_id r) \<and> varchar pg 255 (xr_name r) \<and>
    xr_status r \<in> set execution_statuses \<and> varchar pg 255 (xr_current_state r) \<and> pg_accepts pg None (xr_error r) \<and>
    integer_ok (xr_history_sequence_number r)"

text \<open>The columns that the upsert sets; \<open>input\<close>, \<open>name\<close> and \<open>state_machine_id\<close> keep their first values.\<close>

definition update_execution_row :: "'j execution_row \<Rightarrow> 'j execution_row \<Rightarrow> 'j execution_row" where
  "update_execution_row old new =
    old\<lparr>xr_output := xr_output new, xr_status := xr_status new, xr_end_time := xr_end_time new,
        xr_current_state := xr_current_state new, xr_error := xr_error new, xr_metadata := xr_metadata new,
        xr_history_sequence_number := xr_history_sequence_number new, xr_updated_at := xr_updated_at new\<rparr>"

definition insert_execution :: "'j postgres \<Rightarrow> execution_record \<Rightarrow> 'j \<times> 'j \<times> 'j \<Rightarrow> 'j db \<Rightarrow> (unit \<times> 'j db) res" where
  "insert_execution pg r json d =
    (case er_StartTime r of
       None \<Rightarrow> Err (pg_reject pg ''executions.start_time'')
     | Some start \<Rightarrow>
         (let row = execution_row_of pg (db_tick d) r start json in
          if execution_row_ok pg row
          then Ok ((), d\<lparr>db_executions := upsert execution_key update_execution_row row (db_executions d)\<rparr>)
          else Err (pg_reject pg ''executions'')))"

definition Postgres_SaveExecution :: "'j postgres \<Rightarrow> execution_record \<Rightarrow> ('j db, unit) op" where
  "Postgres_SaveExecution pg r =
    (if er_ExecutionID r = [] then op_return (Err (ErrorNew ''execution_id is required''))
     else op_bind (op_return (wrap_err ''failed to marhshal the execution record'' (marshalExecutionRecord pg r))) (\<lambda>json.
       op_wrap ''failed to save execution'' (sql pg (insert_execution pg r json))))"

definition processJson :: "'j postgres \<Rightarrow> 'j execution_row \<Rightarrow> execution_record res" where
  "processJson pg row =
    rbind (unmarshal_value pg ''failed to unmarshal input'' (xr_input row)) (\<lambda>input.
    rbind (unmarshal_value pg ''failed to unmarshal output'' (xr_output row)) (\<lambda>output.
    rbind (unmarshal_metadata pg ''failed to unmarshal metadata'' (xr_metadata row)) (\<lambda>metadata.
      Ok \<lparr>er_ExecutionID = xr_execution_id row, er_StateMachineID = xr_state_machine_id row, er_Name = xr_name row,
          er_Input = input, er_Output = output, er_Status = xr_status row, er_StartTime = Some (xr_start_time row),
          er_EndTime = xr_end_time row, er_CurrentState = xr_current_state row, er_Error = xr_error row,
          er_Metadata = metadata, er_HistorySequenceNumber = 0, er_RecoveryMetadata = None, er_CreatedAt = None,
          er_UpdatedAt = None\<rparr>)))"

definition Postgres_GetExecution :: "'j postgres \<Rightarrow> string \<Rightarrow> ('j db, execution_record) op" where
  "Postgres_GetExecution pg executionID =
    (if executionID = [] then op_return (Err (ErrorNew ''execution_id is required''))
     else op_bind (op_wrap ''failed to get execution'' (sql pg (\<lambda>d.
              Ok (newest xr_start_time (filter (\<lambda>r. xr_execution_id r = executionID) (db_executions d)), d))))
       (\<lambda>found. op_return (case found of
          None \<Rightarrow> Err (ErrorNew (''execution not found: '' @ executionID))
        | Some row \<Rightarrow> processJson pg row)))"

definition Postgres_GetExecutionByName :: "'j postgres \<Rightarrow> string \<Rightarrow> string \<Rightarrow> ('j db, execution_record) op" where
  "Postgres_GetExecutionByName pg stateMachineID name =
    (if stateMachineID = [] then op_return (Err (ErrorNew ''state_machine_id is required''))
     else if name = [] then op_return (Err (ErrorNew ''name is required''))
     else op_bind (op_wrap ''failed to get execution by name'' (sql pg (\<lambda>d.
              Ok (newest xr_start_time (filter (\<lambda>r. xr_state_machine_id r = stateMachineID \<and> xr_name r = name)
                    (db_executions d)), d))))
       (\<lambda>found. op_return (case found of
          None \<Rightarrow> Err (ErrorNew (''execution not found: name='' @ name @ '', state_machine_id='' @ stateMachineID))
        | Some row \<Rightarrow> processJson pg row)))"

text \<open>Rows removed by the cascade of the foreign keys, with the executions they refer to.\<close>

definition delete_executions :: "('j execution_row \<Rightarrow> bool) \<Rightarrow> 'j db \<Rightarrow> 'j db" where
  "delete_executions P d =
    (let gone = execution_key ` set (filter P (db_executions d)) in
     d\<lparr>db_executions := filter (\<lambda>r. \<not> P r) (db_executions d),
       db_history := filter (\<lambda>r. (yr_execution_id r, yr_execution_start_time r) \<notin> gone) (db_history d),
       db_correlations := filter (\<lambda>r. (cr_execution_id r, cr_execution_start_time r) \<notin> gone) (db_correlations d)\<rparr>)"

definition Postgres_DeleteExecution :: "'j postgres \<Rightarrow> string \<Rightarrow> ('j db, unit) op" where
  "Postgres_DeleteExecution pg executionID =
    (if executionID = [] then op_return (Err (ErrorNew ''execution_id is required''))
     else op_bind (op_wrap ''failed to delete execution'' (sql pg (\<lambda>d.
              Ok (length (filter (\<lambda>r. xr_execution_id r = executionID) (db_executions d)),
                  delete_executions (\<lambda>r. xr_execution_id r = executionID) d))))
       (\<lambda>n. op_return (if n = 0 then Err (ErrorNew (''execution not found: '' @ executionID)) else Ok ())))"

section \<open>State history\<close>

definition history_row_ok :: "'j postgres \<Rightarrow> 'j history_row \<Rightarrow> bool" where
  "history_row_ok pg r \<longleftrightarrow>
    varchar pg 255 (yr_id r) \<and> varchar pg 255 (yr_execution_id r) \<and> varchar pg 255 (yr_state_name r) \<and>
    varchar pg 50 (yr_state_type r) \<and> yr_status r \<in> set history_statuses \<and> pg_accepts pg None (yr_error r) \<and>
    integer_ok (yr_retry_count r) \<and> integer_ok (yr_sequence_number r)"

definition update_history_row :: "'j history_row \<Rightarrow> 'j history_row \<Rightarrow> 'j history_row" where
  "update_history_row old new =
    old\<lparr>yr_output := yr_output new, yr_status := yr_status new, yr_end_time := yr_end_time new, yr_error := yr_error new,
        yr_retry_count := yr_retry_count new\<rparr>"

definition history_row_of :: "'j postgres \<Rightarrow> state_history_record \<Rightarrow> int \<Rightarrow> int \<Rightarrow> 'j \<Rightarrow> 'j \<Rightarrow> 'j \<Rightarrow> 'j history_row" where
  "history_row_of pg r execStart start input output metadata =
    \<lparr>yr_id = hr_ID r, yr_execution_id = hr_ExecutionID r, yr_execution_start_time = pg_timestamp pg execStart,
     yr_state_name = hr_StateName r, yr_state_type = hr_StateType r, yr_input = input, yr_output = output,
     yr_status = hr_Status r, yr_start_time = pg_timestamp pg start,
     yr_end_time = map_option (pg_timestamp pg) (hr_EndTime r), yr_error = hr_Error r,
     yr_retry_count = hr_RetryCount r, yr_sequence_number = hr_SequenceNumber r, yr_metadata = metadata\<rparr>"

text \<open>A new row must refer to an execution; the update of an existing one does not touch the reference.\<close>

definition insert_history :: "'j postgres \<Rightarrow> state_history_record \<Rightarrow> 'j \<Rightarrow> 'j \<Rightarrow> 'j \<Rightarrow> 'j db \<Rightarrow> (unit \<times> 'j db) res" where
  "insert_history pg r input output metadata d =
    (case (hr_ExecutionStartTime r, hr_StartTime r) of
       (Some execStart, Some start) \<Rightarrow>
         (let row = history_row_of pg r execStart start input output metadata in
          if \<not> history_row_ok pg row then Err (pg_reject pg ''state_history'')
          else if history_key row \<notin> history_key ` set (db_history d) \<and>
                  (yr_execution_id row, yr_execution_start_time row) \<notin> execution_key ` set (db_executions d)
          then Err (pg_reject pg ''fk_execution'')
          else Ok ((), d\<lparr>db_history := upsert history_key update_history_row row (db_history d)\<rparr>))
     | _ \<Rightarrow> Err (pg_reject pg ''state_history.start_time''))"

definition Postgres_SaveStateHistory :: "'j postgres \<Rightarrow> state_history_record \<Rightarrow> ('j db, unit) op" where
  "Postgres_SaveStateHistory pg r =
    (if hr_ExecutionID r = [] then op_return (Err (ErrorNew ''execution_id is required''))
     else if hr_ID r = [] then op_return (Err (ErrorNew ''history id is required''))
     else op_bind (op_return (wrap_err ''failed to marshal input'' (pg_marshal pg (hr_Input r)))) (\<lambda>input.
          op_bind (op_return (wrap_err ''failed to marshal output'' (pg_marshal pg (hr_Output r)))) (\<lambda>output.
          op_bind (op_return (marshal_metadata pg (hr_Metadata r))) (\<lambda>metadata.
            op_wrap ''failed to save state history'' (sql pg (insert_history pg r input output metadata))))))"

definition unmarshalFields :: "'j postgres \<Rightarrow> 'j history_row \<Rightarrow> state_history_record res" where
  "unmarshalFields pg row =
    rbind (unmarshal_value pg ''failed to unmarshal input'' (yr_input row)) (\<lambda>input.
    rbind (unmarshal_value pg ''failed to unmarshal output'' (yr_output row)) (\<lambda>output.
    rbind (unmarshal_metadata pg ''failed to unmarshal metadata'' (yr_metadata row)) (\<lambda>metadata.
      Ok \<lparr>hr_ID = yr_id row, hr_ExecutionID = yr_execution_id row, hr_ExecutionStartTime = None,
          hr_StateName = yr_state_name row, hr_StateType = yr_state_type row, hr_Input = input, hr_Output = output,
          hr_Status = yr_status row, hr_StartTime = Some (yr_start_time row), hr_EndTime = yr_end_time row,
          hr_Error = yr_error row, hr_RetryCount = yr_retry_count row, hr_SequenceNumber = yr_sequence_number row,
          hr_Metadata = metadata\<rparr>)))"

definition Postgres_GetStateHistory :: "'j postgres \<Rightarrow> string \<Rightarrow> ('j db, state_history_record list) op" where
  "Postgres_GetStateHistory pg executionID =
    (if executionID = [] then op_return (Err (ErrorNew ''execution_id is required''))
     else op_bind (op_wrap ''failed to query state history'' (sql pg (\<lambda>d.
              Ok (sort_key yr_sequence_number (sort_key yr_start_time
                    (filter (\<lambda>r. yr_execution_id r = executionID) (db_history d))), d))))
       (\<lambda>rows. op_return (all_rows (unmarshalFields pg) rows)))"

definition Postgres_GetExecutionOutput :: "'j postgres \<Rightarrow> string \<Rightarrow> string \<Rightarrow> ('j db, gval) op" where
  "Postgres_GetExecutionOutput pg executionID stateName =
    (if stateName = [] then
       op_bind (op_wrap ''failed to get execution output'' (sql pg (\<lambda>d.
           Ok (find (\<lambda>r. xr_execution_id r = executionID) (db_executions d), d))))
         (\<lambda>found. op_return (case found of
            None \<Rightarrow> Err (ErrorNew (''execution '' @ [CHR 0x27] @ executionID @ [CHR 0x27] @ '' not found''))
          | Some row \<Rightarrow> unmarshal_value pg ''failed to unmarshal execution output'' (xr_output row)))
     else
       op_bind (op_wrap ''failed to get state output'' (sql pg (\<lambda>d.
           Ok (newest yr_sequence_number
                 (filter (\<lambda>r. yr_execution_id r = executionID \<and> yr_state_name r = stateName) (db_history d)), d))))
         (\<lambda>found. op_return (case found of
            None \<Rightarrow> Err (ErrorNew (''state '' @ [CHR 0x27] @ stateName @ [CHR 0x27] @ '' not found in execution '' @
                      [CHR 0x27] @ executionID @ [CHR 0x27]))
          | Some row \<Rightarrow> unmarshal_value pg ''failed to unmarshal state output'' (yr_output row))))"

section \<open>Linked executions\<close>

text \<open>The insertion does not name \<open>created_at\<close>: the column gets its default, the time of the statement.\<close>

definition Postgres_SaveLinkedExecution :: "'j postgres \<Rightarrow> linked_execution_record \<Rightarrow> ('j db, unit) op" where
  "Postgres_SaveLinkedExecution pg r =
    (if le_ID r = [] then op_return (Err (ErrorNew ''linked execution id is required''))
     else if le_SourceExecutionID r = [] then op_return (Err (ErrorNew ''source execution id is required''))
     else if le_TargetExecutionID r = [] then op_return (Err (ErrorNew ''target execution id is required''))
     else op_wrap ''failed to save linked execution'' (sql pg (\<lambda>d.
       if varchar pg 255 (le_ID r) \<and> varchar pg 255 (le_SourceStateMachineID r) \<and> varchar pg 255 (le_SourceExecutionID r) \<and>
          varchar pg 255 (le_SourceStateName r) \<and> varchar pg 255 (le_InputTransformerName r) \<and>
          varchar pg 255 (le_TargetStateMachineName r) \<and> varchar pg 255 (le_TargetExecutionID r)
       then Ok ((), d\<lparr>db_linked := upsert le_ID (\<lambda>old new. old) (r\<lparr>le_CreatedAt := pg_now pg (db_tick d)\<rparr>) (db_linked d)\<rparr>)
       else Err (pg_reject pg ''linked_executions''))))"

section \<open>Filters\<close>

text \<open>A condition \<open>column op $n\<close> of a \<open>WHERE\<close> clause, and the arguments of a query.\<close>

datatype condition = Condition (cond_column: string) (cond_op: string) (cond_arg: nat)

datatype sql_arg = AString string | ATime int

definition add_condition ::
  "bool \<Rightarrow> string \<Rightarrow> string \<Rightarrow> sql_arg \<Rightarrow> nat \<times> condition list \<times> sql_arg list \<Rightarrow> nat \<times> condition list \<times> sql_arg list" where
  "add_condition given column operator arg =
    (\<lambda>(argCount, conditions, args).
      if given then (Suc argCount, conditions @ [Condition column operator argCount], args @ [arg])
      else (argCount, conditions, args))"

definition field_filters :: "execution_filter \<Rightarrow> nat \<times> condition list \<times> sql_arg list" where
  "field_filters f =
    add_condition (ef_Name f \<noteq> []) ''name'' ''ILIKE'' (AString (''%'' @ ef_Name f @ ''%''))
      (add_condition (ef_StateMachineID f \<noteq> []) ''state_machine_id'' ''='' (AString (ef_StateMachineID f))
        (add_condition (ef_CurrentState f \<noteq> []) ''current_state'' ''='' (AString (ef_CurrentState f))
          (add_condition (ef_Status f \<noteq> []) ''status'' ''='' (AString (ef_Status f)) (1, [], []))))"

text \<open>After \<open>StartAfter\<close> the source does not increment \<open>argCount\<close>, and \<open>StartBefore\<close> names the column \<open>start_before\<close>.\<close>

definition buildExecutionFilters :: "execution_filter \<Rightarrow> condition list \<times> sql_arg list" where
  "buildExecutionFilters f =
    (let q4 = field_filters f; argCount = fst q4;
         q5 = snd (case ef_StartAfter f of
                Some t \<Rightarrow> add_condition True ''start_time'' ''>='' (ATime t) q4 | None \<Rightarrow> q4)
     in snd (case ef_StartBefore f of
          Some t \<Rightarrow> add_condition True ''start_before'' ''<='' (ATime t) (argCount, q5) | None \<Rightarrow> (argCount, q5)))"

text \<open>
  The server refuses a query with an unknown column or with placeholders that are not exactly those of the arguments; otherwise the
  conditions hold of a row or they do not.
\<close>

definition execution_columns :: "string list" where
  "execution_columns = [''execution_id'', ''state_machine_id'', ''name'', ''input'', ''output'', ''status'', ''start_time'', ''end_time'',
     ''current_state'', ''error'', ''metadata'', ''history_sequence_number'', ''created_at'', ''updated_at'']"

definition query_ok :: "condition list \<times> sql_arg list \<Rightarrow> bool" where
  "query_ok q \<longleftrightarrow> (\<forall>c\<in>set (fst q). cond_column c \<in> set execution_columns) \<and> set (map cond_arg (fst q)) = set [1..<Suc (length (snd q))]"

definition holds :: "'j postgres \<Rightarrow> sql_arg list \<Rightarrow> 'j execution_row \<Rightarrow> condition \<Rightarrow> bool" where
  "holds pg args r c =
    (case args ! (cond_arg c - 1) of
       AString v \<Rightarrow>
         (let text = (if cond_column c = ''status'' then xr_status r
                      else if cond_column c = ''current_state'' then xr_current_state r
                      else if cond_column c = ''state_machine_id'' then xr_state_machine_id r
                      else xr_name r)
          in if cond_op c = ''ILIKE'' then pg_ilike pg text v else text = v)
     | ATime t \<Rightarrow> if cond_op c = ''>='' then pg_timestamp pg t \<le> xr_start_time r else xr_start_time r \<le> pg_timestamp pg t)"

definition where_clause ::
  "'j postgres \<Rightarrow> execution_filter option \<Rightarrow> 'j execution_row list \<Rightarrow> 'j execution_row list res" where
  "where_clause pg f rows =
    (case f of
       None \<Rightarrow> Ok rows
     | Some ef \<Rightarrow>
         (let q = buildExecutionFilters ef in
          if query_ok q then Ok (filter (\<lambda>r. \<forall>c\<in>set (fst q). holds pg (snd q) r c) rows)
          else Err (pg_reject pg ''query'')))"

definition paginate :: "int \<Rightarrow> int \<Rightarrow> 'a list \<Rightarrow> 'a list" where
  "paginate limit offset rows =
    (let rows1 = (if 0 < offset then drop (nat offset) rows else rows)
     in if 0 < limit then take (nat limit) rows1 else rows1)"

definition Postgres_CountExecutions :: "'j postgres \<Rightarrow> execution_filter option \<Rightarrow> ('j db, int) op" where
  "Postgres_CountExecutions pg f =
    op_wrap ''failed to scan count'' (sql pg (\<lambda>d.
      rbind (where_clause pg f (db_executions d)) (\<lambda>rows. Ok (int (length rows), d))))"

text \<open>\<open>SELECT DISTINCT ON (execution_id) \<dots> ORDER BY execution_id, start_time DESC\<close>: the latest row of each execution.\<close>

definition latest_rows :: "'j postgres \<Rightarrow> 'j execution_row list \<Rightarrow> 'j execution_row list" where
  "latest_rows pg rows =
    (let ids = sort_key (pg_collate pg) (remdups (map xr_execution_id rows))
     in map (\<lambda>i. the (newest xr_start_time (filter (\<lambda>r. xr_execution_id r = i) rows))) ids)"

definition filter_page :: "execution_filter option \<Rightarrow> 'a list \<Rightarrow> 'a list" where
  "filter_page f = (case f of None \<Rightarrow> (\<lambda>rows. rows) | Some ef \<Rightarrow> paginate (ef_Limit ef) (ef_Offset ef))"

definition scanExecutionRow :: "'j postgres \<Rightarrow> 'j execution_row \<Rightarrow> execution_record res" where
  "scanExecutionRow pg row =
    (let field = (\<lambda>what j. if pg_null pg j \<or> j = pg_object pg then Ok GNil else wrap_err what (pg_unmarshal pg j)) in
     rbind (field ''unmarshal input'' (xr_input row)) (\<lambda>input.
     rbind (field ''unmarshal output'' (xr_output row)) (\<lambda>output.
     rbind (unmarshal_metadata pg ''unmarshal metadata'' (xr_metadata row)) (\<lambda>metadata.
       Ok \<lparr>er_ExecutionID = xr_execution_id row, er_StateMachineID = xr_state_machine_id row, er_Name = xr_name row,
           er_Input = input, er_Output = output, er_Status = xr_status row, er_StartTime = Some (xr_start_time row),
           er_EndTime = xr_end_time row, er_CurrentState = xr_current_state row, er_Error = xr_error row,
           er_Metadata = metadata, er_HistorySequenceNumber = 0, er_RecoveryMetadata = None, er_CreatedAt = None,
           er_UpdatedAt = None\<rparr>))))"

definition Postgres_ListExecutions :: "'j postgres \<Rightarrow> execution_filter option \<Rightarrow> ('j db, execution_record list) op" where
  "Postgres_ListExecutions pg f =
    op_bind (op_wrap ''failed to query executions'' (sql pg (\<lambda>d.
        rbind (where_clause pg f (db_executions d)) (\<lambda>rows. Ok (filter_page f (latest_rows pg rows), d)))))
      (\<lambda>rows. op_return (all_rows (scanExecutionRow pg) rows))"

definition Postgres_ListExecutionIDs :: "'j postgres \<Rightarrow> execution_filter option \<Rightarrow> ('j db, string list) op" where
  "Postgres_ListExecutionIDs pg f =
    op_wrap ''failed to query execution IDs'' (sql pg (\<lambda>d.
      rbind (where_clause pg f (db_executions d)) (\<lambda>rows.
        Ok (filter_page f (sort_key (pg_collate pg) (remdups (map xr_execution_id rows))), d))))"

section \<open>Orphaned executions\<close>

text \<open>The query selects 12 columns, and \<open>scanSingleExecution\<close> passes 15 destinations to \<open>Scan\<close>, which refuses any row.\<close>

definition scanExecutionRows :: "'r list \<Rightarrow> execution_record list res" where
  "scanExecutionRows rows =
    (if rows = [] then Ok []
     else Err (Wrapped ''failed to scan execution'' (ErrorNew ''sql: expected 12 destination arguments in Scan, not 15'')))"

definition Postgres_FindOrphanedExecutions :: "'j postgres \<Rightarrow> string \<Rightarrow> int \<Rightarrow> ('j db, execution_record list) op" where
  "Postgres_FindOrphanedExecutions pg stateMachineID threshold =
    op_bind (op_wrap ''failed to query orphaned executions'' (sql pg (\<lambda>d.
        if pg_recovery_column pg = None then Err (pg_reject pg ''recovery_metadata'')
        else Ok (sort_key xr_start_time (filter (\<lambda>r. xr_status r = ''RUNNING'' \<and>
                   xr_start_time r < pg_timestamp pg (pg_now pg (db_tick d) - threshold) \<and>
                   (stateMachineID \<noteq> [] \<longrightarrow> xr_state_machine_id r = stateMachineID)) (db_executions d)), d))))
      (\<lambda>rows. op_return (wrap_err ''failed to scan execution rows'' (scanExecutionRows rows)))"

section \<open>Archiving\<close>

definition move_executions :: "'j postgres \<Rightarrow> int \<Rightarrow> 'j db \<Rightarrow> (nat \<times> 'j db) res" where
  "move_executions pg olderThan d =
    (let old = (\<lambda>r. xr_start_time r < pg_timestamp pg olderThan); moved = filter old (db_executions d) in
     if execution_key ` set moved \<inter> execution_key ` set (db_executions_archive d) \<noteq> {} then Err (pg_reject pg ''executions_archive'')
     else Ok (length moved, (delete_executions old d)\<lparr>db_executions_archive := db_executions_archive d @ moved\<rparr>))"

definition move_history :: "'j postgres \<Rightarrow> int \<Rightarrow> 'j db \<Rightarrow> (nat \<times> 'j db) res" where
  "move_history pg olderThan d =
    (let old = (\<lambda>r. yr_start_time r < pg_timestamp pg olderThan); moved = filter old (db_history d) in
     if history_key ` set moved \<inter> history_key ` set (db_history_archive d) \<noteq> {} then Err (pg_reject pg ''state_history_archive'')
     else Ok (length moved, d\<lparr>db_history := filter (\<lambda>r. \<not> old r) (db_history d),
                              db_history_archive := db_history_archive d @ moved\<rparr>))"

text \<open>A transaction: its statements work on a copy, which the commit installs.\<close>

definition transaction :: "'j postgres \<Rightarrow> ('j db, 'a) op \<Rightarrow> ('j db, 'a) op" where
  "transaction pg body d =
    (case body d of
       (Ok a, d1) \<Rightarrow>
         (case op_wrap ''failed to commit archive transaction'' (sql pg (\<lambda>x. Ok ((), d1))) (d\<lparr>db_tick := db_tick d1\<rparr>) of
            (Ok _, d2) \<Rightarrow> (Ok a, d2)
          | (Err e, d2) \<Rightarrow> (Err e, d2)
          | (Panic m, d2) \<Rightarrow> (Panic m, d2)
          | (Crash m, d2) \<Rightarrow> (Crash m, d2))
     | (Err e, d1) \<Rightarrow> (Err e, d\<lparr>db_tick := db_tick d1\<rparr>)
     | (Panic m, d1) \<Rightarrow> (Panic m, d\<lparr>db_tick := db_tick d1\<rparr>)
     | (Crash m, d1) \<Rightarrow> (Crash m, d\<lparr>db_tick := db_tick d1\<rparr>))"

definition Postgres_ArchiveOldExecutions :: "'j postgres \<Rightarrow> int \<Rightarrow> ('j db, int) op" where
  "Postgres_ArchiveOldExecutions pg olderThan =
    op_bind (op_wrap ''failed to create archive tables'' (sql pg (\<lambda>d. Ok ((), d)))) (\<lambda>_.
    op_bind (op_wrap ''failed to begin transaction'' (sql pg (\<lambda>d. Ok ((), d)))) (\<lambda>_.
    transaction pg (
      op_bind (op_wrap ''failed to archive executions'' (sql pg (move_executions pg olderThan))) (\<lambda>n.
      op_bind (op_wrap ''failed to archive state history'' (sql pg (move_history pg olderThan))) (\<lambda>_.
        op_return (Ok (int n)))))))"

section \<open>Message correlations\<close>

definition correlation_row_of :: "'j postgres \<Rightarrow> message_correlation_record \<Rightarrow> int \<Rightarrow> 'j \<Rightarrow> 'j correlation_row" where
  "correlation_row_of pg r start val =
    \<lparr>cr_id = mc_ID r, cr_execution_id = mc_ExecutionID r, cr_execution_start_time = pg_timestamp pg start,
     cr_state_machine_id = mc_StateMachineID r, cr_state_name = mc_StateName r, cr_correlation_key = mc_CorrelationKey r,
     cr_correlation_value = val, cr_created_at = mc_CreatedAt r, cr_timeout_at = mc_TimeoutAt r, cr_status = mc_Status r\<rparr>"

definition correlation_row_ok :: "'j postgres \<Rightarrow> 'j correlation_row \<Rightarrow> bool" where
  "correlation_row_ok pg r \<longleftrightarrow>
    varchar pg 255 (cr_id r) \<and> varchar pg 255 (cr_execution_id r) \<and> varchar pg 255 (cr_state_machine_id r) \<and>
    varchar pg 255 (cr_state_name r) \<and> varchar pg 255 (cr_correlation_key r) \<and> varchar pg 50 (cr_status r)"

definition insert_correlation :: "'j postgres \<Rightarrow> message_correlation_record \<Rightarrow> 'j \<Rightarrow> 'j db \<Rightarrow> (unit \<times> 'j db) res" where
  "insert_correlation pg r val d =
    (case mc_ExecutionStartTime r of
       None \<Rightarrow> Err (pg_reject pg ''message_correlations.execution_start_time'')
     | Some start \<Rightarrow>
         (let row = correlation_row_of pg r start val in
          if \<not> correlation_row_ok pg row then Err (pg_reject pg ''message_correlations'')
          else if cr_id row \<notin> cr_id ` set (db_correlations d) \<and>
                  (cr_execution_id row, cr_execution_start_time row) \<notin> execution_key ` set (db_executions d)
          then Err (pg_reject pg ''fk_execution_message'')
          else Ok ((), d\<lparr>db_correlations := upsert cr_id
                 (\<lambda>old new. old\<lparr>cr_status := cr_status new, cr_timeout_at := cr_timeout_at new\<rparr>) row (db_correlations d)\<rparr>)))"

definition Postgres_SaveMessageCorrelation :: "'j postgres \<Rightarrow> message_correlation_record \<Rightarrow> ('j db, unit) op" where
  "Postgres_SaveMessageCorrelation pg r =
    op_bind (op_return (wrap_err ''failed to marshal correlation value'' (pg_marshal pg (mc_CorrelationValue r)))) (\<lambda>val.
      op_wrap ''failed to save message correlation'' (sql pg (insert_correlation pg r val)))"

definition scan_correlation :: "'j postgres \<Rightarrow> 'j correlation_row \<Rightarrow> message_correlation_record res" where
  "scan_correlation pg row =
    rbind (wrap_err ''failed to unmarshal correlation value'' (pg_unmarshal pg (cr_correlation_value row))) (\<lambda>val.
      Ok \<lparr>mc_ID = cr_id row, mc_ExecutionID = cr_execution_id row, mc_ExecutionStartTime = Some (cr_execution_start_time row),
          mc_StateMachineID = cr_state_machine_id row, mc_StateName = cr_state_name row,
          mc_CorrelationKey = cr_correlation_key row, mc_CorrelationValue = val, mc_CreatedAt = cr_created_at row,
          mc_TimeoutAt = cr_timeout_at row, mc_Status = cr_status row\<rparr>)"

definition Postgres_GetMessageCorrelation :: "'j postgres \<Rightarrow> string \<Rightarrow> ('j db, message_correlation_record) op" where
  "Postgres_GetMessageCorrelation pg i =
    op_bind (op_wrap ''failed to get correlation record'' (sql pg (\<lambda>d. Ok (find (\<lambda>r. cr_id r = i) (db_correlations d), d))))
      (\<lambda>found. op_return (case found of
         None \<Rightarrow> Err (ErrorNew (''correlation record not found: '' @ i))
       | Some row \<Rightarrow> scan_correlation pg row))"

text \<open>The conditions of the query are those of the fields of the filter that are set.\<close>

definition correlation_matches :: "message_correlation_filter \<Rightarrow> 'j option \<Rightarrow> 'j correlation_row \<Rightarrow> bool" where
  "correlation_matches f val r \<longleftrightarrow>
    (mf_CorrelationKey f \<noteq> [] \<longrightarrow> cr_correlation_key r = mf_CorrelationKey f) \<and>
    (case val of Some v \<Rightarrow> cr_correlation_value r = v | None \<Rightarrow> True) \<and>
    (mf_Status f \<noteq> [] \<longrightarrow> cr_status r = mf_Status f) \<and>
    (mf_StateMachineID f \<noteq> [] \<longrightarrow> cr_state_machine_id r = mf_StateMachineID f)"

definition Postgres_FindWaitingCorrelations ::
  "'j postgres \<Rightarrow> message_correlation_filter \<Rightarrow> ('j db, message_correlation_record list) op" where
  "Postgres_FindWaitingCorrelations pg f =
    op_bind (op_return (if mf_CorrelationValue f = GNil then Ok None
        else wrap_err ''failed to marshal correlation value'' (rbind (pg_marshal pg (mf_CorrelationValue f)) (\<lambda>v. Ok (Some v))))) (\<lambda>val.
    op_bind (op_wrap ''failed to query correlations'' (sql pg (\<lambda>d.
        Ok (paginate (mf_Limit f) (mf_Offset f)
              (sort_key cr_created_at (filter (correlation_matches f val) (db_correlations d))), d))))
      (\<lambda>rows. op_return (all_rows (scan_correlation pg) rows)))"

definition set_status :: "string \<Rightarrow> string \<Rightarrow> 'j correlation_row list \<Rightarrow> 'j correlation_row list" where
  "set_status i status rows = map (\<lambda>r. if cr_id r = i then r\<lparr>cr_status := status\<rparr> else r) rows"

definition Postgres_UpdateCorrelationStatus :: "'j postgres \<Rightarrow> string \<Rightarrow> string \<Rightarrow> ('j db, unit) op" where
  "Postgres_UpdateCorrelationStatus pg i status =
    op_bind (op_wrap ''failed to update correlation status'' (sql pg (\<lambda>d.
        if varchar pg 50 status
        then Ok (i \<in> cr_id ` set (db_correlations d), d\<lparr>db_correlations := set_status i status (db_correlations d)\<rparr>)
        else Err (pg_reject pg ''message_correlations''))))
      (\<lambda>found. op_return (if found then Ok () else Err (ErrorNew (''correlation record not found: '' @ i))))"

definition Postgres_DeleteMessageCorrelation :: "'j postgres \<Rightarrow> string \<Rightarrow> ('j db, unit) op" where
  "Postgres_DeleteMessageCorrelation pg i =
    op_bind (op_wrap ''failed to delete correlation'' (sql pg (\<lambda>d.
        Ok (i \<in> cr_id ` set (db_correlations d), d\<lparr>db_correlations := filter (\<lambda>r. cr_id r \<noteq> i) (db_correlations d)\<rparr>))))
      (\<lambda>found. op_return (if found then Ok () else Err (ErrorNew (''correlation record not found: '' @ i))))"

definition Postgres_ListTimedOutCorrelations :: "'j postgres \<Rightarrow> int \<Rightarrow> ('j db, message_correlation_record list) op" where
  "Postgres_ListTimedOutCorrelations pg now =
    op_bind (op_wrap ''failed to query timed out correlations'' (sql pg (\<lambda>d.
        Ok (filter (\<lambda>r. cr_status r = ''WAITING'' \<and> (case cr_timeout_at r of Some t \<Rightarrow> t \<le> now | None \<Rightarrow> False))
              (db_correlations d), d))))
      (\<lambda>rows. op_return (all_rows (scan_correlation pg) rows))"

section \<open>The backend\<close>

text \<open>The method is a stub.\<close>

definition Postgres_ListNonLinkedExecutions ::
  "execution_filter option \<Rightarrow> linked_execution_filter option \<Rightarrow> ('j db, execution_record list) op" where
  "Postgres_ListNonLinkedExecutions executionFilter linkedExecutionFilter = op_return (Panic ''implement me'')"

definition Postgres_repository :: "'j postgres \<Rightarrow> 'j db repository" where
  "Postgres_repository pg =
    \<lparr>rp_SaveExecution = Postgres_SaveExecution pg, rp_GetExecution = Postgres_GetExecution pg,
     rp_GetExecutionByName = Postgres_GetExecutionByName pg, rp_SaveStateHistory = Postgres_SaveStateHistory pg,
     rp_GetStateHistory = Postgres_GetStateHistory pg, rp_GetExecutionOutput = Postgres_GetExecutionOutput pg,
     rp_SaveLinkedExecution = Postgres_SaveLinkedExecution pg, rp_SaveStateMachine = Postgres_SaveStateMachine pg,
     rp_GetStateMachine = Postgres_GetStateMachine pg, rp_ListExecutionIDs = Postgres_ListExecutionIDs pg,
     rp_ListNonLinkedExecutions = Postgres_ListNonLinkedExecutions, rp_FindOrphanedExecutions = Postgres_FindOrphanedExecutions pg,
     rp_messages = True, rp_SaveMessageCorrelation = Postgres_SaveMessageCorrelation pg,
     rp_GetMessageCorrelation = Postgres_GetMessageCorrelation pg,
     rp_FindWaitingCorrelations = Postgres_FindWaitingCorrelations pg,
     rp_UpdateCorrelationStatus = Postgres_UpdateCorrelationStatus pg,
     rp_DeleteMessageCorrelation = Postgres_DeleteMessageCorrelation pg,
     rp_ListTimedOutCorrelations = Postgres_ListTimedOutCorrelations pg\<rparr>"

section \<open>Statements: lemmas\<close>

text \<open>A statement takes effect or it does not; only the counter always advances.\<close>

lemma sql_effect:
  "snd (sql pg stmt d) = d\<lparr>db_tick := Suc (db_tick d)\<rparr> \<or>
   (\<exists>a d1. stmt d = Ok (a, d1) \<and> snd (sql pg stmt d) = d1\<lparr>db_tick := Suc (db_tick d)\<rparr>)"
  by (auto simp: sql_def Let_def split: option.split res.split)

lemma sql_Ok:
  "sql pg stmt d = (Ok a, d2) \<longleftrightarrow> pg_fault pg (db_tick d) = None \<and> (\<exists>d1. stmt d = Ok (a, d1) \<and> d2 = d1\<lparr>db_tick := Suc (db_tick d)\<rparr>)"
  by (auto simp: sql_def Let_def split: option.split res.split)

text \<open>A statement that only reads leaves the tables as they are.\<close>

lemma sql_read: "snd (sql pg (\<lambda>d. Ok (f d, d)) d) = d\<lparr>db_tick := Suc (db_tick d)\<rparr>"
  using sql_effect [of pg "\<lambda>d. Ok (f d, d)" d] by auto

section \<open>Integrity of the tables\<close>

definition db_ok :: "'j db \<Rightarrow> bool" where
  "db_ok d \<longleftrightarrow>
    distinct (map execution_key (db_executions d)) \<and> distinct (map history_key (db_history d)) \<and>
    distinct (map zr_id (db_machines d)) \<and> distinct (map le_ID (db_linked d)) \<and> distinct (map cr_id (db_correlations d)) \<and>
    (\<forall>r\<in>set (db_history d). (yr_execution_id r, yr_execution_start_time r) \<in> execution_key ` set (db_executions d)) \<and>
    (\<forall>r\<in>set (db_correlations d). (cr_execution_id r, cr_execution_start_time r) \<in> execution_key ` set (db_executions d)) \<and>
    (\<forall>r\<in>set (db_executions d). xr_status r \<in> set execution_statuses \<and> integer_ok (xr_history_sequence_number r)) \<and>
    (\<forall>r\<in>set (db_history d). yr_status r \<in> set history_statuses \<and> integer_ok (yr_sequence_number r))"

lemma db_ok_tick [simp]: "db_ok (d\<lparr>db_tick := n\<rparr>) = db_ok d"
  by (simp add: db_ok_def)

lemma db_ok_sql:
  assumes "db_ok d" and "\<And>a d1. stmt d = Ok (a, d1) \<Longrightarrow> db_ok d1"
  shows "db_ok (snd (sql pg stmt d))"
  using sql_effect [of pg stmt d] assms by auto

lemma map_key_upsert:
  assumes "\<And>old new. key (set_row old new) = key old"
  shows "map key (upsert key set_row r rows) = (if key r \<in> key ` set rows then map key rows else map key rows @ [key r])"
proof -
  have "map key (map (\<lambda>x. if key x = key r then set_row x r else x) rows) = map key rows"
    unfolding map_map using assms by (intro map_cong) auto
  then show ?thesis by (simp add: upsert_def)
qed

lemma distinct_upsert:
  assumes "\<And>old new. key (set_row old new) = key old" and "distinct (map key rows)"
  shows "distinct (map key (upsert key set_row r rows))"
  using assms(2) by (simp add: map_key_upsert [of key set_row, OF assms(1)])

lemma keys_upsert:
  assumes "\<And>old new. key (set_row old new) = key old"
  shows "key ` set (upsert key set_row r rows) = insert (key r) (key ` set rows)"
  using arg_cong [OF map_key_upsert [of key set_row r rows, OF assms], of set] by auto

lemma set_upsert: "x \<in> set (upsert key set_row r rows) \<Longrightarrow> x = r \<or> x \<in> set rows \<or> (\<exists>y\<in>set rows. key y = key r \<and> x = set_row y r)"
  by (auto simp: upsert_def split: if_splits)

lemma execution_row_update [simp]:
  "execution_key (update_execution_row old new) = execution_key old"
  "xr_status (update_execution_row old new) = xr_status new"
  "xr_history_sequence_number (update_execution_row old new) = xr_history_sequence_number new"
  by (simp_all add: update_execution_row_def execution_key_def)

lemma history_row_update [simp]:
  "history_key (update_history_row old new) = history_key old"
  "yr_status (update_history_row old new) = yr_status new"
  "yr_sequence_number (update_history_row old new) = yr_sequence_number old"
  "yr_execution_id (update_history_row old new) = yr_execution_id old"
  "yr_execution_start_time (update_history_row old new) = yr_execution_start_time old"
  by (simp_all add: update_history_row_def history_key_def)

lemma insert_execution_ok:
  assumes "db_ok d" and "insert_execution pg r json d = Ok (u, d1)"
  shows "db_ok d1"
proof -
  from assms(2) obtain row where row: "execution_row_ok pg row"
      "d1 = d\<lparr>db_executions := upsert execution_key update_execution_row row (db_executions d)\<rparr>"
    by (auto simp: insert_execution_def Let_def split: option.splits if_splits)
  have keys: "execution_key ` set (db_executions d1) = insert (execution_key row) (execution_key ` set (db_executions d))"
      "distinct (map execution_key (db_executions d1))"
    using assms(1) by (simp_all add: row(2) db_ok_def keys_upsert distinct_upsert)
  have "xr_status x \<in> set execution_statuses \<and> integer_ok (xr_history_sequence_number x)" if "x \<in> set (db_executions d1)" for x
    using that assms(1) row by (auto simp: db_ok_def execution_row_ok_def dest!: set_upsert)
  then show ?thesis using assms(1) keys by (simp add: db_ok_def row(2))
qed

lemma insert_history_ok:
  assumes "db_ok d" and "insert_history pg r i out m d = Ok (u, d1)"
  shows "db_ok d1"
proof -
  from assms(2) obtain row where row: "history_row_ok pg row"
      "history_key row \<in> history_key ` set (db_history d) \<or> (yr_execution_id row, yr_execution_start_time row) \<in> execution_key ` set (db_executions d)"
      "d1 = d\<lparr>db_history := upsert history_key update_history_row row (db_history d)\<rparr>"
    by (auto simp: insert_history_def Let_def split: option.splits if_splits)
  have keys: "distinct (map history_key (db_history d1))"
    using assms(1) by (simp add: row(3) db_ok_def distinct_upsert)
  have "(yr_execution_id x, yr_execution_start_time x) \<in> execution_key ` set (db_executions d) \<and>
      yr_status x \<in> set history_statuses \<and> integer_ok (yr_sequence_number x)" if "x \<in> set (db_history d1)" for x
    using that assms(1) row by (auto simp: db_ok_def history_row_ok_def upsert_def split: if_splits)
  then show ?thesis using assms(1) keys by (simp add: db_ok_def row(3))
qed

lemma insert_correlation_ok:
  assumes "db_ok d" and "insert_correlation pg r v d = Ok (u, d1)"
  shows "db_ok d1"
proof -
  let ?set = "\<lambda>old new. old\<lparr>cr_status := cr_status new, cr_timeout_at := cr_timeout_at new\<rparr>"
  from assms(2) obtain row where row:
      "cr_id row \<in> cr_id ` set (db_correlations d) \<or> (cr_execution_id row, cr_execution_start_time row) \<in> execution_key ` set (db_executions d)"
      "d1 = d\<lparr>db_correlations := upsert cr_id ?set row (db_correlations d)\<rparr>"
    by (auto simp: insert_correlation_def Let_def split: option.splits if_splits)
  have keys: "distinct (map cr_id (db_correlations d1))"
    using assms(1) by (simp add: row(2) db_ok_def distinct_upsert)
  have "(cr_execution_id x, cr_execution_start_time x) \<in> execution_key ` set (db_executions d)" if "x \<in> set (db_correlations d1)" for x
    using that assms(1) row by (auto simp: db_ok_def upsert_def split: if_splits)
  then show ?thesis using assms(1) keys by (simp add: db_ok_def row(2))
qed

lemma keys_kept:
  assumes "k \<in> key ` set rows" and "k \<notin> key ` set (filter P rows)"
  shows "k \<in> key ` set (filter (\<lambda>r. \<not> P r) rows)"
  using assms by auto

lemma delete_executions_ok:
  assumes "db_ok d"
  shows "db_ok (delete_executions P d)"
proof -
  let ?gone = "execution_key ` set (filter P (db_executions d))"
  have refs: "(yr_execution_id r, yr_execution_start_time r) \<in> execution_key ` set (filter (\<lambda>r. \<not> P r) (db_executions d))"
    if "r \<in> set (db_history d)" "(yr_execution_id r, yr_execution_start_time r) \<notin> ?gone" for r
    using keys_kept [OF _ that(2)] that(1) assms by (simp add: db_ok_def)
  have crefs: "(cr_execution_id r, cr_execution_start_time r) \<in> execution_key ` set (filter (\<lambda>r. \<not> P r) (db_executions d))"
    if "r \<in> set (db_correlations d)" "(cr_execution_id r, cr_execution_start_time r) \<notin> ?gone" for r
    using keys_kept [OF _ that(2)] that(1) assms by (simp add: db_ok_def)
  show ?thesis using assms refs crefs
    unfolding db_ok_def delete_executions_def Let_def by (simp add: distinct_map_filter)
qed

text \<open>Every call that can change the tables, in any order and with any faults of the connection.\<close>

inductive db_step :: "'j postgres \<Rightarrow> 'j db \<Rightarrow> 'j db \<Rightarrow> bool" for pg d where
  save_machine: "db_step pg d (snd (Postgres_SaveStateMachine pg m d))"
| save_execution: "db_step pg d (snd (Postgres_SaveExecution pg r d))"
| delete_execution: "db_step pg d (snd (Postgres_DeleteExecution pg i d))"
| save_history: "db_step pg d (snd (Postgres_SaveStateHistory pg h d))"
| save_linked: "db_step pg d (snd (Postgres_SaveLinkedExecution pg l d))"
| archive: "db_step pg d (snd (Postgres_ArchiveOldExecutions pg t d))"
| save_correlation: "db_step pg d (snd (Postgres_SaveMessageCorrelation pg c d))"
| update_correlation: "db_step pg d (snd (Postgres_UpdateCorrelationStatus pg i st d))"
| delete_correlation: "db_step pg d (snd (Postgres_DeleteMessageCorrelation pg i d))"

lemma move_executions_ok: "db_ok d \<Longrightarrow> move_executions pg t d = Ok (n, d1) \<Longrightarrow> db_ok d1"
  using delete_executions_ok [of d "\<lambda>r. xr_start_time r < pg_timestamp pg t"]
  by (auto simp: move_executions_def Let_def db_ok_def split: if_splits)

lemma move_history_ok: "db_ok d \<Longrightarrow> move_history pg t d = Ok (n, d1) \<Longrightarrow> db_ok d1"
  by (auto simp: move_history_def Let_def db_ok_def distinct_map_filter split: if_splits)

lemma transaction_ok:
  assumes "db_ok d" and "db_ok (snd (body d))"
  shows "db_ok (snd (transaction pg body d))"
proof -
  obtain r d1 where body: "body d = (r, d1)" by fastforce
  obtain q d2 where commit: "sql pg (\<lambda>x. Ok ((), d1)) (d\<lparr>db_tick := db_tick d1\<rparr>) = (q, d2)" by fastforce
  have "db_ok (snd (sql pg (\<lambda>x. Ok ((), d1)) (d\<lparr>db_tick := db_tick d1\<rparr>)))"
    using assms body by (intro db_ok_sql) auto
  then show ?thesis using assms(1) by (cases r; cases q) (simp_all add: transaction_def op_wrap_def body commit)
qed

lemma archive_body_ok:
  assumes "db_ok d"
  shows "db_ok (snd (op_bind (op_wrap m1 (sql pg (move_executions pg t))) (\<lambda>n.
      op_bind (op_wrap m2 (sql pg (move_history pg t))) (\<lambda>_. op_return (Ok (int n)))) d))"
  by (rule snd_op_bind [where P = db_ok]) (auto intro!: db_ok_sql assms intro: move_executions_ok move_history_ok [rotated])

lemma archive_ok:
  assumes "db_ok d"
  shows "db_ok (snd (Postgres_ArchiveOldExecutions pg t d))"
  unfolding Postgres_ArchiveOldExecutions_def
  by (intro snd_op_bind [where P = db_ok] transaction_ok archive_body_ok) (simp_all add: sql_read assms)

lemma set_status_keys [simp]: "map cr_id (set_status i st rows) = map cr_id rows"
  by (induction rows) (auto simp: set_status_def)

lemma set_set_status: "r \<in> set (set_status i st rows) \<Longrightarrow> \<exists>q\<in>set rows. r = q \<or> r = q\<lparr>cr_status := st\<rparr>"
  by (auto simp: set_status_def)

lemma db_step_ok: "db_step pg d d' \<Longrightarrow> db_ok d \<Longrightarrow> db_ok d'"
proof (induction rule: db_step.induct)
  case (save_machine m)
  then show ?case
    by (auto simp: Postgres_SaveStateMachine_def db_ok_def distinct_upsert machine_row_of_def split: res.split if_splits intro!: db_ok_sql [unfolded db_ok_def])
next
  case (save_execution r)
  then show ?case by (auto simp: Postgres_SaveExecution_def split: res.split intro!: db_ok_sql intro: insert_execution_ok)
next
  case (delete_execution i)
  then show ?case by (auto simp: Postgres_DeleteExecution_def intro!: db_ok_sql intro: delete_executions_ok)
next
  case (save_history h)
  then show ?case by (auto simp: Postgres_SaveStateHistory_def split: res.split intro!: db_ok_sql intro: insert_history_ok)
next
  case (save_linked l)
  then show ?case
    by (auto simp: Postgres_SaveLinkedExecution_def intro!: db_ok_sql) (auto simp: db_ok_def distinct_upsert split: if_splits)
next
  case (archive t)
  then show ?case by (rule archive_ok)
next
  case (save_correlation c)
  then show ?case by (auto simp: Postgres_SaveMessageCorrelation_def split: res.split intro!: db_ok_sql intro: insert_correlation_ok)
next
  case (update_correlation i st)
  then show ?case
    by (auto simp: Postgres_UpdateCorrelationStatus_def intro!: db_ok_sql) (auto simp: db_ok_def split: if_splits dest!: set_set_status)
next
  case (delete_correlation i)
  then show ?case
    by (auto simp: Postgres_DeleteMessageCorrelation_def intro!: db_ok_sql) (auto simp: db_ok_def distinct_map_filter)
qed

section \<open>Reading what was saved\<close>

lemma newest_Nil [simp]: "newest f [] = None"
  by (simp add: newest_def)

lemma newest_singleton [simp]: "newest f [r] = Some r"
  by (simp add: newest_def)

lemma newest_Some:
  assumes "rows \<noteq> []"
  obtains r where "newest f rows = Some r" "r \<in> set rows" "\<forall>x\<in>set rows. f x \<le> f r"
proof -
  from assms obtain r rs where s: "sort_key (\<lambda>r. - f r) rows = r # rs"
    by (cases "sort_key (\<lambda>r. - f r) rows") (auto dest: arg_cong [where f = set])
  have "sorted (map (\<lambda>r. - f r) (r # rs))" using sorted_sort_key [of "\<lambda>r. - f r" rows] s by simp
  moreover have "set (r # rs) = set rows" using arg_cong [OF s, of set] by simp
  ultimately have "r \<in> set rows" "\<forall>x\<in>set rows. f x \<le> f r" by auto
  with that s show thesis by (simp add: newest_def)
qed

text \<open>The statement of a save with the row it writes.\<close>

lemma SaveExecution_Ok:
  assumes "Postgres_SaveExecution pg r d = (Ok u, d1)"
  obtains start input out metadata row where "er_ExecutionID r \<noteq> []" "er_StartTime r = Some start"
    "pg_marshal pg (er_Input r) = Ok input" "pg_marshal pg (er_Output r) = Ok out" "marshal_metadata pg (er_Metadata r) = Ok metadata"
    "row = execution_row_of pg (db_tick d) r start (input, out, metadata)" "execution_row_ok pg row"
    "d1 = d\<lparr>db_executions := upsert execution_key update_execution_row row (db_executions d), db_tick := Suc (db_tick d)\<rparr>"
  using assms
  by (auto simp: Postgres_SaveExecution_def op_wrap_Ok sql_Ok insert_execution_def Let_def marshalExecutionRecord_def rbind_eq_Ok
      split: res.splits if_splits option.splits intro: that)

lemma filter_key_singleton: "distinct (map key rows) \<Longrightarrow> x \<in> set rows \<Longrightarrow> filter (\<lambda>y. key y = key x) rows = [x]"
proof (induction rows)
  case (Cons a rows)
  then show ?case by (cases "x = a") (auto simp: filter_empty_conv rev_image_eqI intro: ccontr)
qed simp

text \<open>The rows of an execution that was saved, when the table has no other run under the same identifier.\<close>

lemma saved_rows:
  assumes "distinct (map execution_key rows)" and "xr_execution_id row = i"
    and "\<forall>x\<in>set rows. xr_execution_id x = i \<longrightarrow> xr_start_time x = xr_start_time row"
  obtains old where "old = row \<or> old \<in> set rows \<and> xr_execution_id old = i" "\<forall>x\<in>set rows. xr_execution_id x = i \<longrightarrow> x = old"
    "filter (\<lambda>x. xr_execution_id x = i) (upsert execution_key update_execution_row row rows) = [update_execution_row old row]"
proof (cases "\<exists>x\<in>set rows. xr_execution_id x = i")
  case True
  then obtain x where x: "x \<in> set rows" "xr_execution_id x = i" by blast
  have key: "xr_execution_id y = i \<longleftrightarrow> execution_key y = execution_key row" if "y \<in> set rows" for y
    using that assms(2,3) by (auto simp: execution_key_def)
  have xkey: "execution_key x = execution_key row" using key x by blast
  have rows: "filter (\<lambda>y. execution_key y = execution_key row) rows = [x]"
    using filter_key_singleton [OF assms(1) x(1)] by (simp add: xkey)
  have upd: "upsert execution_key update_execution_row row rows = map (\<lambda>y. if execution_key y = execution_key row then update_execution_row y row else y) rows"
    using x(1) xkey by (auto simp: upsert_def rev_image_eqI)
  have "filter (\<lambda>y. xr_execution_id y = i) (upsert execution_key update_execution_row row rows) =
      map (\<lambda>y. if execution_key y = execution_key row then update_execution_row y row else y) (filter (\<lambda>y. execution_key y = execution_key row) rows)"
    unfolding upd filter_map using key by (intro arg_cong [where f = "map _"] filter_cong) (auto simp: update_execution_row_def)
  then have flt: "filter (\<lambda>y. xr_execution_id y = i) (upsert execution_key update_execution_row row rows) = [update_execution_row x row]"
    by (simp add: rows xkey)
  have "y = x" if "y \<in> set rows" "xr_execution_id y = i" for y
  proof -
    have "y \<in> set (filter (\<lambda>y. execution_key y = execution_key row) rows)" using that key by simp
    then show ?thesis by (simp add: rows)
  qed
  with that [of x] x flt show thesis by blast
next
  case False
  then have "execution_key row \<notin> execution_key ` set rows" "filter (\<lambda>y. xr_execution_id y = i) rows = []"
    using assms(2) by (auto simp: execution_key_def filter_empty_conv)
  moreover have "update_execution_row row row = row" by (simp add: update_execution_row_def)
  ultimately show thesis using that [of row] False assms(2) by (simp add: upsert_def)
qed

lemma unmarshal_value_Ok: "unmarshal_value pg w j = Ok v \<longleftrightarrow> (if pg_null pg j then v = GNil else pg_unmarshal pg j = Ok v)"
  by (auto simp: unmarshal_value_def)

lemma GetExecution_row:
  assumes "i \<noteq> []" and "pg_fault pg (db_tick d) = None"
    and "newest xr_start_time (filter (\<lambda>r. xr_execution_id r = i) (db_executions d)) = Some row"
  shows "fst (Postgres_GetExecution pg i d) = processJson pg row"
  using assms by (simp add: Postgres_GetExecution_def op_bind_def op_wrap_def sql_def)

definition row_record :: "'j execution_row \<Rightarrow> gval \<Rightarrow> gval \<Rightarrow> gmap option \<Rightarrow> execution_record" where
  "row_record row input out meta =
    \<lparr>er_ExecutionID = xr_execution_id row, er_StateMachineID = xr_state_machine_id row, er_Name = xr_name row,
     er_Input = input, er_Output = out, er_Status = xr_status row, er_StartTime = Some (xr_start_time row),
     er_EndTime = xr_end_time row, er_CurrentState = xr_current_state row, er_Error = xr_error row,
     er_Metadata = meta, er_HistorySequenceNumber = 0, er_RecoveryMetadata = None, er_CreatedAt = None, er_UpdatedAt = None\<rparr>"

lemma unmarshal_metadata_Ok:
  "unmarshal_metadata pg w j = Ok m \<longleftrightarrow> (if pg_null pg j \<or> j = pg_object pg then m = None else \<exists>k. pg_unmarshal pg j = Ok (GMap k) \<and> m = Some k)"
proof -
  have "as_map v = Ok k \<longleftrightarrow> v = GMap k" for v k by (cases v) auto
  then show ?thesis by (auto simp: unmarshal_metadata_def rbind_eq_Ok)
qed

lemma processJson_record:
  assumes "unmarshal_value pg [] (xr_input row) = Ok i" and "unmarshal_value pg [] (xr_output row) = Ok v"
    and "unmarshal_metadata pg [] (xr_metadata row) = Ok m"
  shows "processJson pg row = Ok (row_record row i v m)"
proof -
  have "unmarshal_value pg w (xr_input row) = Ok i" "unmarshal_value pg w (xr_output row) = Ok v" "unmarshal_metadata pg w (xr_metadata row) = Ok m" for w
    using assms by (simp_all only: unmarshal_value_Ok unmarshal_metadata_Ok)
  then show ?thesis by (simp add: processJson_def row_record_def)
qed

text \<open>C21: What the engine saves is what a later read gives, field by field: after a successful \<open>SaveExecution\<close> of an execution whose identifier has no other
  run in the table, \<open>GetExecution\<close> returns its identifier, status, state, output, error, metadata and times, the times to the precision of the
  column. \<open>Input\<close>, \<open>Name\<close> and \<open>StateMachineID\<close> are those of the first save: an update leaves them as they were. Four things are never read
  back: the history sequence number is 0, and the recovery metadata, \<open>CreatedAt\<close> and \<open>UpdatedAt\<close> are empty. The JSON of input, output and metadata reads back
  (an empty map of metadata does not: it reads as nil), and so does the input stored before.\<close>

theorem SaveExecution_GetExecution:
  assumes "Postgres_SaveExecution pg r d = (Ok (), d1)" and "er_StartTime r = Some start" and "db_ok d"
    and "\<forall>x\<in>set (db_executions d). xr_execution_id x = er_ExecutionID r \<longrightarrow>
      xr_start_time x = pg_timestamp pg start \<and> (\<exists>v. unmarshal_value pg [] (xr_input x) = Ok v)"
    and "pg_fault pg (db_tick d1) = None"
    and "pg_marshal pg (er_Input r) = Ok ji" and "unmarshal_value pg [] ji = Ok (er_Input r)"
    and "pg_marshal pg (er_Output r) = Ok j" and "unmarshal_value pg [] j = Ok (er_Output r)"
    and "marshal_metadata pg (er_Metadata r) = Ok jm" and "unmarshal_metadata pg [] jm = Ok (er_Metadata r)"
  shows "\<exists>q. fst (Postgres_GetExecution pg (er_ExecutionID r) d1) = Ok q \<and> er_ExecutionID q = er_ExecutionID r \<and> er_Status q = er_Status r \<and>
    er_CurrentState q = er_CurrentState r \<and> er_Output q = er_Output r \<and> er_Error q = er_Error r \<and> er_Metadata q = er_Metadata r \<and>
    er_StartTime q = Some (pg_timestamp pg start) \<and> er_EndTime q = map_option (pg_timestamp pg) (er_EndTime r) \<and>
    er_HistorySequenceNumber q = 0 \<and> er_RecoveryMetadata q = None \<and> er_CreatedAt q = None \<and> er_UpdatedAt q = None \<and>
    (if er_ExecutionID r \<notin> xr_execution_id ` set (db_executions d)
     then er_Input q = er_Input r \<and> er_Name q = er_Name r \<and> er_StateMachineID q = er_StateMachineID r
     else \<forall>x\<in>set (db_executions d). xr_execution_id x = er_ExecutionID r \<longrightarrow>
       unmarshal_value pg [] (xr_input x) = Ok (er_Input q) \<and> er_Name q = xr_name x \<and> er_StateMachineID q = xr_state_machine_id x)"
proof -
  from assms(1,2) obtain row where save: "er_ExecutionID r \<noteq> []" "row = execution_row_of pg (db_tick d) r start (ji, j, jm)"
      "d1 = d\<lparr>db_executions := upsert execution_key update_execution_row row (db_executions d), db_tick := Suc (db_tick d)\<rparr>"
    using assms(6,8,10) by (auto elim!: SaveExecution_Ok)
  have row: "xr_execution_id row = er_ExecutionID r" "xr_start_time row = pg_timestamp pg start" "xr_metadata row = jm" "xr_input row = ji"
      "xr_name row = er_Name r" "xr_state_machine_id row = er_StateMachineID r"
    by (simp_all add: save(2) execution_row_of_def)
  obtain old where old: "old = row \<or> old \<in> set (db_executions d) \<and> xr_execution_id old = er_ExecutionID r"
      "\<forall>x\<in>set (db_executions d). xr_execution_id x = er_ExecutionID r \<longrightarrow> x = old"
      "filter (\<lambda>x. xr_execution_id x = er_ExecutionID r) (db_executions d1) = [update_execution_row old row]"
    using saved_rows [of "db_executions d" row "er_ExecutionID r"] assms(3,4) row unfolding save(3) db_ok_def by auto
  have start: "xr_start_time old = pg_timestamp pg start" "xr_execution_id old = er_ExecutionID r" using old(1) assms(4) row by auto
  let ?new = "update_execution_row old row"
  have get: "fst (Postgres_GetExecution pg (er_ExecutionID r) d1) = processJson pg ?new"
    using save(1) assms(5) old(3) by (intro GetExecution_row) simp_all
  have fields: "xr_output ?new = j" "xr_status ?new = er_Status r" "xr_current_state ?new = er_CurrentState r" "xr_error ?new = er_Error r"
      "xr_metadata ?new = jm" "xr_end_time ?new = map_option (pg_timestamp pg) (er_EndTime r)"
      "xr_input ?new = xr_input old" "xr_start_time ?new = pg_timestamp pg start" "xr_execution_id ?new = er_ExecutionID r" "xr_name ?new = xr_name old"
      "xr_state_machine_id ?new = xr_state_machine_id old"
    by (simp_all add: update_execution_row_def start) (simp_all add: save(2) execution_row_of_def)
  obtain v where v: "unmarshal_value pg [] (xr_input old) = Ok v" using old(1) assms(4,7) row(4) by auto
  have q: "processJson pg ?new = Ok (row_record ?new v (er_Output r) (er_Metadata r))"
    using v assms(9,11) by (intro processJson_record) (simp_all add: fields)
  have first: "old = row" if "er_ExecutionID r \<notin> xr_execution_id ` set (db_executions d)" using old(1) that by (metis image_eqI)
  have kept: "if er_ExecutionID r \<notin> xr_execution_id ` set (db_executions d)
     then v = er_Input r \<and> xr_name old = er_Name r \<and> xr_state_machine_id old = er_StateMachineID r
     else \<forall>x\<in>set (db_executions d). xr_execution_id x = er_ExecutionID r \<longrightarrow>
       unmarshal_value pg [] (xr_input x) = Ok v \<and> xr_name old = xr_name x \<and> xr_state_machine_id old = xr_state_machine_id x"
  proof (cases "er_ExecutionID r \<in> xr_execution_id ` set (db_executions d)")
    case True
    then show ?thesis using v old(2) by (simp only: if_False not_True_eq_False) blast
  next
    case False
    then show ?thesis using v first [OF False] assms(7) row by simp
  qed
  show ?thesis unfolding get q
    by (rule exI [of _ "row_record ?new v (er_Output r) (er_Metadata r)"], use kept in \<open>simp only: row_record_def fields execution_record.simps simp_thms\<close>)
qed

text \<open>A server for examples: it keeps JSON values as they are, accepts every string and never fails.\<close>

definition empty_recovery :: repo_recovery_metadata where
  "empty_recovery = \<lparr>rr_LastSuccessfulState = [], rr_LastSuccessfulStateOutput = GNil, rr_RecoveryAttemptCount = 0, rr_LastRecoveryAttemptAt = None,
     rr_MaxRecoveryAttempts = 0, rr_RecoveryStrategy = [], rr_CrashDetectedAt = None\<rparr>"

definition plain_pg :: "gval postgres" where
  "plain_pg = \<lparr>pg_marshal = Ok, pg_unmarshal = Ok, pg_null = (\<lambda>v. v = GNil), pg_object = GMap [], pg_accepts = (\<lambda>_ _. True),
     pg_timestamp = (\<lambda>t. 1000 * (t div 1000)), pg_ilike = (\<lambda>text pattern. text = pattern), pg_collate = (\<lambda>s. s), pg_now = int, pg_reject = ErrorNew,
     pg_fault = (\<lambda>_. None), pg_recovery_column = Some (Some (GMap [])), pg_unmarshal_recovery = (\<lambda>_. Ok empty_recovery)\<rparr>"

definition sample_record :: "string \<Rightarrow> gval \<Rightarrow> execution_record" where
  "sample_record status v =
    \<lparr>er_ExecutionID = ''e1'', er_StateMachineID = ''m1'', er_Name = ''run'', er_Input = v, er_Output = v, er_Status = status,
     er_StartTime = Some 5000, er_EndTime = None, er_CurrentState = ''A'', er_Error = [], er_Metadata = None,
     er_HistorySequenceNumber = 3, er_RecoveryMetadata = None, er_CreatedAt = None, er_UpdatedAt = None\<rparr>"

definition sample_db :: "gval db" where
  "sample_db = snd (Postgres_SaveExecution plain_pg (sample_record ''RUNNING'' (GBool True)) empty_db)"

lemma sample_save: "fst (Postgres_SaveExecution plain_pg (sample_record ''PAUSED'' (GBool False)) sample_db) = Ok ()"
  by code_simp

lemma sample_rows: "map (\<lambda>x. (xr_execution_id x, xr_start_time x)) (db_executions sample_db) = [(''e1'', 5000)]"
  by code_simp

lemma plain_pg_simps [simp]: "pg_fault plain_pg n = None" "pg_unmarshal plain_pg v = Ok v" "pg_marshal plain_pg v = Ok v"
  "pg_null plain_pg v = (v = GNil)" "pg_timestamp plain_pg t = 1000 * (t div 1000)"
  by (simp_all add: plain_pg_def)

lemma empty_db_ok: "db_ok empty_db"
  by (simp add: db_ok_def empty_db_def)

lemma sample_db_ok: "db_ok sample_db"
  unfolding sample_db_def by (rule db_step_ok [OF save_execution empty_db_ok])

theorem SaveExecution_GetExecution_witness:
  "\<exists>q. fst (Postgres_GetExecution plain_pg ''e1''
      (snd (Postgres_SaveExecution plain_pg (sample_record ''PAUSED'' (GBool False)) sample_db))) = Ok q \<and>
    er_Status q = ''PAUSED'' \<and> er_Output q = GBool False \<and> er_Input q = GBool True"
proof -
  obtain d1 where save: "Postgres_SaveExecution plain_pg (sample_record ''PAUSED'' (GBool False)) sample_db = (Ok (), d1)"
    using sample_save by (metis prod.collapse)
  have "map (\<lambda>x. (xr_execution_id x, xr_start_time x, xr_input x)) (db_executions sample_db) = [(''e1'', 5000, GBool True)]" by code_simp
  then obtain x where "db_executions sample_db = [x]" "xr_execution_id x = ''e1''" "xr_start_time x = 5000" "xr_input x = GBool True" by auto
  with SaveExecution_GetExecution [OF save _ sample_db_ok, of 5000 "GBool False" "GBool False" "GMap []"] save show ?thesis
    by (auto simp: sample_record_def unmarshal_value_def marshal_metadata_def unmarshal_metadata_def plain_pg_def)
qed

text \<open>The tables keep their integrity through every sequence of calls, whatever statements the connection loses.\<close>

lemma db_ok_reachable: "(db_step pg)\<^sup>*\<^sup>* empty_db d \<Longrightarrow> db_ok d"
  by (induction rule: rtranclp_induct) (auto intro: empty_db_ok db_step_ok)

section \<open>Executions are kept apart\<close>

text \<open>What is stored about an execution, and the calls that change tables.\<close>

definition execution_view :: "string \<Rightarrow> 'j db \<Rightarrow> 'j execution_row list \<times> 'j history_row list \<times> 'j correlation_row list" where
  "execution_view i d =
    (filter (\<lambda>r. xr_execution_id r = i) (db_executions d), filter (\<lambda>r. yr_execution_id r = i) (db_history d),
     filter (\<lambda>r. cr_execution_id r = i) (db_correlations d))"

datatype db_call = CallSaveMachine state_machine_record | CallSaveExecution execution_record | CallDeleteExecution string
  | CallSaveHistory state_history_record | CallSaveLinked linked_execution_record | CallArchive int
  | CallSaveCorrelation message_correlation_record | CallUpdateCorrelation string string | CallDeleteCorrelation string

fun call_db :: "'j postgres \<Rightarrow> db_call \<Rightarrow> 'j db \<Rightarrow> 'j db" where
  "call_db pg (CallSaveMachine m) d = snd (Postgres_SaveStateMachine pg m d)"
| "call_db pg (CallSaveExecution r) d = snd (Postgres_SaveExecution pg r d)"
| "call_db pg (CallDeleteExecution i) d = snd (Postgres_DeleteExecution pg i d)"
| "call_db pg (CallSaveHistory h) d = snd (Postgres_SaveStateHistory pg h d)"
| "call_db pg (CallSaveLinked l) d = snd (Postgres_SaveLinkedExecution pg l d)"
| "call_db pg (CallArchive t) d = snd (Postgres_ArchiveOldExecutions pg t d)"
| "call_db pg (CallSaveCorrelation c) d = snd (Postgres_SaveMessageCorrelation pg c d)"
| "call_db pg (CallUpdateCorrelation k st) d = snd (Postgres_UpdateCorrelationStatus pg k st d)"
| "call_db pg (CallDeleteCorrelation k) d = snd (Postgres_DeleteMessageCorrelation pg k d)"

text \<open>The calls that are about an execution: by its identifier, by the identifier of one of its entries, or by the age of its rows.\<close>

fun concerns :: "'j postgres \<Rightarrow> string \<Rightarrow> 'j db \<Rightarrow> db_call \<Rightarrow> bool" where
  "concerns pg i d (CallSaveExecution r) = (er_ExecutionID r = i)"
| "concerns pg i d (CallDeleteExecution k) = (k = i)"
| "concerns pg i d (CallSaveHistory h) = (hr_ExecutionID h = i \<or> (\<exists>r\<in>set (db_history d). yr_execution_id r = i \<and> yr_id r = hr_ID h))"
| "concerns pg i d (CallArchive t) = ((\<exists>r\<in>set (db_executions d). xr_execution_id r = i \<and> xr_start_time r < pg_timestamp pg t) \<or>
     (\<exists>r\<in>set (db_history d). yr_execution_id r = i \<and> yr_start_time r < pg_timestamp pg t))"
| "concerns pg i d (CallSaveCorrelation c) = (mc_ExecutionID c = i \<or> (\<exists>r\<in>set (db_correlations d). cr_execution_id r = i \<and> cr_id r = mc_ID c))"
| "concerns pg i d (CallUpdateCorrelation k st) = (\<exists>r\<in>set (db_correlations d). cr_execution_id r = i \<and> cr_id r = k)"
| "concerns pg i d (CallDeleteCorrelation k) = (\<exists>r\<in>set (db_correlations d). cr_execution_id r = i \<and> cr_id r = k)"
| "concerns pg i d _ = False"

lemma view_tick [simp]: "execution_view i (d\<lparr>db_tick := n\<rparr>) = execution_view i d"
  by (simp add: execution_view_def)

lemma view_sql:
  assumes "\<And>a d1. stmt d = Ok (a, d1) \<Longrightarrow> execution_view i d1 = execution_view i d"
  shows "execution_view i (snd (sql pg stmt d)) = execution_view i d"
  using sql_effect [of pg stmt d] assms by auto

lemma filter_upsert:
  assumes "\<And>old. P (set_row old r) = P old" and "\<not> P r" and "\<forall>x\<in>set rows. key x = key r \<longrightarrow> \<not> P x"
  shows "filter P (upsert key set_row r rows) = filter P rows"
proof -
  have "filter P (map (\<lambda>x. if key x = key r then set_row x r else x) xs) = filter P xs" if "\<forall>x\<in>set xs. key x = key r \<longrightarrow> \<not> P x" for xs
    using that assms(1) by (induction xs) auto
  with assms(2,3) show ?thesis by (simp add: upsert_def)
qed

lemma execution_key_id: "execution_key x = execution_key y \<Longrightarrow> xr_execution_id x = xr_execution_id y"
  by (simp add: execution_key_def)

lemma insert_execution_view:
  assumes "insert_execution pg r json d = Ok (u, d1)" and "er_ExecutionID r \<noteq> i"
  shows "execution_view i d1 = execution_view i d"
proof -
  from assms(1) obtain start row where row: "row = execution_row_of pg (db_tick d) r start json"
      "d1 = d\<lparr>db_executions := upsert execution_key update_execution_row row (db_executions d)\<rparr>"
    by (auto simp: insert_execution_def Let_def split: option.splits if_splits)
  have "xr_execution_id row = er_ExecutionID r" by (cases json) (simp add: row(1) execution_row_of_def)
  with assms(2) have "filter (\<lambda>x. xr_execution_id x = i) (upsert execution_key update_execution_row row (db_executions d)) =
      filter (\<lambda>x. xr_execution_id x = i) (db_executions d)"
    by (intro filter_upsert) (auto simp: update_execution_row_def dest: execution_key_id)
  then show ?thesis by (simp add: execution_view_def row(2))
qed

lemma insert_history_view:
  assumes "insert_history pg h inp out m d = Ok (u, d1)" and "\<not> concerns pg i d (CallSaveHistory h)"
  shows "execution_view i d1 = execution_view i d"
proof -
  from assms(1) obtain es st row where row: "row = history_row_of pg h es st inp out m"
      "d1 = d\<lparr>db_history := upsert history_key update_history_row row (db_history d)\<rparr>"
    by (auto simp: insert_history_def Let_def split: option.splits if_splits)
  have "yr_execution_id row = hr_ExecutionID h" "yr_id row = hr_ID h" by (simp_all add: row(1) history_row_of_def)
  with assms(2) have "filter (\<lambda>x. yr_execution_id x = i) (upsert history_key update_history_row row (db_history d)) =
      filter (\<lambda>x. yr_execution_id x = i) (db_history d)"
    by (intro filter_upsert) (auto simp: history_key_def)
  then show ?thesis by (simp add: execution_view_def row(2))
qed

lemma insert_correlation_view:
  assumes "insert_correlation pg c v d = Ok (u, d1)" and "\<not> concerns pg i d (CallSaveCorrelation c)"
  shows "execution_view i d1 = execution_view i d"
proof -
  let ?set = "\<lambda>old new. old\<lparr>cr_status := cr_status new, cr_timeout_at := cr_timeout_at new\<rparr>"
  from assms(1) obtain st row where row: "row = correlation_row_of pg c st v"
      "d1 = d\<lparr>db_correlations := upsert cr_id ?set row (db_correlations d)\<rparr>"
    by (auto simp: insert_correlation_def Let_def split: option.splits if_splits)
  have "cr_execution_id row = mc_ExecutionID c" "cr_id row = mc_ID c" by (simp_all add: row(1) correlation_row_of_def)
  with assms(2) have "filter (\<lambda>x. cr_execution_id x = i) (upsert cr_id ?set row (db_correlations d)) =
      filter (\<lambda>x. cr_execution_id x = i) (db_correlations d)"
    by (intro filter_upsert) auto
  then show ?thesis by (simp add: execution_view_def row(2))
qed

lemma delete_executions_view:
  assumes "\<forall>r\<in>set (db_executions d). xr_execution_id r = i \<longrightarrow> \<not> P r"
  shows "execution_view i (delete_executions P d) = execution_view i d"
proof -
  have "(i, t) \<notin> execution_key ` set (filter P (db_executions d))" for t using assms by (auto simp: execution_key_def)
  then show ?thesis using assms
    by (auto simp: execution_view_def delete_executions_def Let_def filter_filter intro!: filter_cong)
qed

lemma move_executions_view:
  assumes "move_executions pg t d = Ok (n, d1)" and "\<not> concerns pg i d (CallArchive t)"
  shows "execution_view i d1 = execution_view i d"
proof -
  have "execution_view i (delete_executions (\<lambda>r. xr_start_time r < pg_timestamp pg t) d) = execution_view i d"
    using assms(2) by (intro delete_executions_view) auto
  with assms(1) show ?thesis by (auto simp: move_executions_def Let_def execution_view_def split: if_splits)
qed

lemma move_history_view:
  assumes "move_history pg t d = Ok (n, d1)" and "\<not> (\<exists>r\<in>set (db_history d). yr_execution_id r = i \<and> yr_start_time r < pg_timestamp pg t)"
  shows "execution_view i d1 = execution_view i d"
proof -
  have "filter (\<lambda>r. \<not> yr_start_time r < pg_timestamp pg t \<and> yr_execution_id r = i) (db_history d) = filter (\<lambda>r. yr_execution_id r = i) (db_history d)"
    using assms(2) by (intro filter_cong) auto
  with assms(1) show ?thesis by (auto simp: move_history_def Let_def execution_view_def filter_filter conj_commute split: if_splits)
qed

lemma archive_concerns:
  "concerns pg i d (CallArchive t) \<longleftrightarrow> (\<exists>r\<in>set (fst (execution_view i d)). xr_start_time r < pg_timestamp pg t) \<or>
    (\<exists>r\<in>set (fst (snd (execution_view i d))). yr_start_time r < pg_timestamp pg t)"
  by (auto simp: execution_view_def)

lemma transaction_view:
  assumes "execution_view i (snd (body d)) = execution_view i d"
  shows "execution_view i (snd (transaction pg body d)) = execution_view i d"
proof -
  obtain r d1 where body: "body d = (r, d1)" by fastforce
  obtain q d2 where commit: "sql pg (\<lambda>x. Ok ((), d1)) (d\<lparr>db_tick := db_tick d1\<rparr>) = (q, d2)" by fastforce
  have "execution_view i (snd (sql pg (\<lambda>x. Ok ((), d1)) (d\<lparr>db_tick := db_tick d1\<rparr>))) = execution_view i (d\<lparr>db_tick := db_tick d1\<rparr>)"
    using assms body by (intro view_sql) auto
  then show ?thesis by (cases r; cases q) (simp_all add: transaction_def op_wrap_def body commit)
qed

lemma archive_view:
  assumes "\<not> concerns pg i d (CallArchive t)"
  shows "execution_view i (snd (Postgres_ArchiveOldExecutions pg t d)) = execution_view i d"
proof -
  define P where "P d' \<longleftrightarrow> execution_view i d' = execution_view i d" for d'
  have concerns: "\<not> concerns pg i d' (CallArchive t)" if "P d'" for d'
    using that assms unfolding P_def archive_concerns by metis
  have executions: "P (snd (sql pg (move_executions pg t) d'))" if "P d'" for d'
    using view_sql [of "move_executions pg t" d' i pg] move_executions_view [OF _ concerns [OF that]] that by (simp add: P_def)
  have history: "P (snd (sql pg (move_history pg t) d'))" if "P d'" for d'
    using view_sql [of "move_history pg t" d' i pg] move_history_view [of pg t d' _ _ i] concerns [OF that] that by (simp add: P_def)
  let ?body = "op_bind (op_wrap ''failed to archive executions'' (sql pg (move_executions pg t))) (\<lambda>n.
      op_bind (op_wrap ''failed to archive state history'' (sql pg (move_history pg t))) (\<lambda>_. op_return (Ok (int n))))"
  have body: "P (snd (?body d'))" if "P d'" for d'
    by (rule snd_op_bind [where P = P]) (auto intro!: snd_op_bind [where P = P] executions history that)
  have tr: "P (snd (transaction pg ?body d'))" if "P d'" for d'
    using transaction_view [of i ?body d' pg] body [OF that] that by (simp add: P_def)
  have "P d" by (simp add: P_def)
  then have "P (snd (Postgres_ArchiveOldExecutions pg t d))"
    unfolding Postgres_ArchiveOldExecutions_def
    by (intro snd_op_bind [where P = P] tr) (simp_all add: sql_read, simp_all add: P_def)
  then show ?thesis by (simp add: P_def)
qed

lemma set_status_view: "\<not> (\<exists>r\<in>set rows. cr_execution_id r = i \<and> cr_id r = k) \<Longrightarrow>
    filter (\<lambda>r. cr_execution_id r = i) (set_status k st rows) = filter (\<lambda>r. cr_execution_id r = i) rows"
  by (induction rows) (auto simp: set_status_def)

lemma call_view: "\<not> concerns pg i d call \<Longrightarrow> execution_view i (call_db pg call d) = execution_view i d"
proof (cases call)
  case (CallSaveMachine m)
  then show ?thesis
    by (auto simp: Postgres_SaveStateMachine_def split: res.split intro!: view_sql) (auto simp: execution_view_def split: if_splits)
next
  case (CallSaveExecution r)
  moreover assume "\<not> concerns pg i d call"
  ultimately show ?thesis by (auto simp: Postgres_SaveExecution_def split: res.split intro!: view_sql intro: insert_execution_view)
next
  case (CallDeleteExecution k)
  moreover assume "\<not> concerns pg i d call"
  ultimately show ?thesis by (auto simp: Postgres_DeleteExecution_def intro!: view_sql delete_executions_view)
next
  case (CallSaveHistory h)
  moreover assume "\<not> concerns pg i d call"
  ultimately show ?thesis
    by (auto simp: Postgres_SaveStateHistory_def split: res.split intro!: view_sql elim!: insert_history_view)
next
  case (CallSaveLinked l)
  then show ?thesis
    by (auto simp: Postgres_SaveLinkedExecution_def intro!: view_sql) (auto simp: execution_view_def split: if_splits)
next
  case (CallArchive t)
  moreover assume "\<not> concerns pg i d call"
  ultimately show ?thesis by (simp add: archive_view)
next
  case (CallSaveCorrelation c)
  moreover assume "\<not> concerns pg i d call"
  ultimately show ?thesis
    by (auto simp: Postgres_SaveMessageCorrelation_def split: res.split intro!: view_sql elim!: insert_correlation_view)
next
  case (CallUpdateCorrelation k st)
  moreover assume "\<not> concerns pg i d call"
  ultimately show ?thesis
    by (auto simp: Postgres_UpdateCorrelationStatus_def intro!: view_sql) (auto simp: execution_view_def set_status_view split: if_splits)
next
  case (CallDeleteCorrelation k)
  moreover assume "\<not> concerns pg i d call"
  ultimately show ?thesis
    by (auto simp: Postgres_DeleteMessageCorrelation_def intro!: view_sql)
      (auto simp: execution_view_def filter_filter intro!: filter_cong)
qed

lemma deleted_view:
  assumes "db_ok d" and "Postgres_DeleteExecution pg i d = (Ok (), d1)"
  shows "execution_view i d1 = ([], [], [])"
proof -
  have key: "(i, t) \<in> execution_key ` set (filter (\<lambda>r. xr_execution_id r = i) (db_executions d))"
    if "(i, t) \<in> execution_key ` set (db_executions d)" for t
    using that by (auto simp: execution_key_def)
  have "execution_view i (delete_executions (\<lambda>r. xr_execution_id r = i) d) = ([], [], [])"
    using assms(1) key by (auto simp: execution_view_def delete_executions_def Let_def db_ok_def filter_empty_conv)
  with assms(2) show ?thesis
    by (auto simp: Postgres_DeleteExecution_def op_bind_eq op_wrap_Ok sql_Ok split: if_splits)
qed

text \<open>C20: Executions are kept apart. In every state of the tables that calls can reach, with any faults of the connection: a call that is not about an execution
  leaves everything stored about it as it was, its rows, its history and its message correlations. A call is about an execution that it names,
  or when it names (saves, updates or deletes) an entry of its history or a correlation stored for it, or archives rows as old as one of its. And a successful
  \<open>DeleteExecution\<close> removes all of this about its execution, by the cascades of the schema.\<close>

theorem execution_isolation:
  assumes "(db_step pg)\<^sup>*\<^sup>* empty_db d"
  shows "(\<not> concerns pg i d call \<longrightarrow> execution_view i (call_db pg call d) = execution_view i d) \<and>
    (Postgres_DeleteExecution pg i d = (Ok (), d1) \<longrightarrow> execution_view i d1 = ([], [], []))"
  using call_view [of pg i d call] deleted_view [OF db_ok_reachable [OF assms], of pg i d1] by blast

theorem execution_isolation_witness:
  "fst (execution_view ''e1'' (call_db plain_pg (CallSaveExecution (sample_record ''FAILED'' GNil\<lparr>er_ExecutionID := ''e2''\<rparr>)) sample_db)) \<noteq> [] \<and>
   execution_view ''e1'' (call_db plain_pg (CallDeleteExecution ''e1'') sample_db) = ([], [], [])"
proof -
  have reach: "(db_step plain_pg)\<^sup>*\<^sup>* empty_db sample_db" unfolding sample_db_def by (blast intro: save_execution)
  have rows: "fst (execution_view ''e1'' sample_db) \<noteq> []" using sample_rows by (auto simp: execution_view_def)
  have "\<not> concerns plain_pg ''e1'' sample_db (CallSaveExecution (sample_record ''FAILED'' GNil\<lparr>er_ExecutionID := ''e2''\<rparr>))" by simp
  moreover have "fst (Postgres_DeleteExecution plain_pg ''e1'' sample_db) = Ok ()" by code_simp
  then have "Postgres_DeleteExecution plain_pg ''e1'' sample_db = (Ok (), call_db plain_pg (CallDeleteExecution ''e1'') sample_db)" by (simp add: prod_eq_iff)
  ultimately show ?thesis
    using execution_isolation [OF reach, of "''e1''" "CallSaveExecution (sample_record ''FAILED'' GNil\<lparr>er_ExecutionID := ''e2''\<rparr>)"]
      execution_isolation [OF reach, of "''e1''"] rows by metis
qed

section \<open>Archiving loses history\<close>

lemma archive_Ok:
  assumes "Postgres_ArchiveOldExecutions pg t d = (Ok n, d1)"
  obtains e k h m where "move_executions pg t (d\<lparr>db_tick := e\<rparr>) = Ok (k, h)" "n = int k"
    "\<exists>h2. move_history pg t (h\<lparr>db_tick := m\<rparr>) = Ok h2 \<and> (\<exists>f. d1 = (snd h2)\<lparr>db_tick := f\<rparr>)"
proof -
  from assms obtain d2 where tr: "transaction pg (
      op_bind (op_wrap ''failed to archive executions'' (sql pg (move_executions pg t))) (\<lambda>n.
      op_bind (op_wrap ''failed to archive state history'' (sql pg (move_history pg t))) (\<lambda>_.
        op_return (Ok (int n))))) d2 = (Ok n, d1)" "\<exists>e. d2 = d\<lparr>db_tick := e\<rparr>"
    by (auto simp: Postgres_ArchiveOldExecutions_def op_bind_eq op_wrap_Ok sql_Ok)
  then show thesis
    by (fastforce simp: transaction_def op_wrap_Ok sql_Ok op_bind_eq split: prod.splits res.splits intro: that)
qed

text \<open>\<open>ArchiveOldExecutions\<close> moves the old executions to the archive and loses their histories. The foreign key deletes the history of an
  execution with it, so the second statement finds none of these entries: after a successful call they are neither in the table
  nor, unless they had been there before, in the archive.\<close>

theorem ArchiveOldExecutions_loses_history:
  assumes "Postgres_ArchiveOldExecutions pg t d = (Ok n, d1)"
  shows "db_executions_archive d1 = db_executions_archive d @ filter (\<lambda>r. xr_start_time r < pg_timestamp pg t) (db_executions d) \<and>
    db_executions d1 = filter (\<lambda>r. \<not> xr_start_time r < pg_timestamp pg t) (db_executions d) \<and>
    (\<forall>h\<in>set (db_history d). (\<exists>x\<in>set (db_executions d). xr_start_time x < pg_timestamp pg t \<and>
        yr_execution_id h = xr_execution_id x \<and> yr_execution_start_time h = xr_start_time x) \<longrightarrow>
      h \<notin> set (db_history d1) \<and> (h \<in> set (db_history_archive d1) \<longrightarrow> h \<in> set (db_history_archive d)))"
  using assms
  by (rule archive_Ok) (auto simp: move_executions_def move_history_def delete_executions_def Let_def execution_key_def split: if_splits)

definition sample_history :: state_history_record where
  "sample_history = \<lparr>hr_ID = ''h1'', hr_ExecutionID = ''e1'', hr_ExecutionStartTime = Some 5000, hr_StateName = ''A'', hr_StateType = ''Pass'',
     hr_Input = GNil, hr_Output = GNil, hr_Status = ''SUCCEEDED'', hr_StartTime = Some 6000, hr_EndTime = None, hr_Error = [],
     hr_RetryCount = 0, hr_SequenceNumber = 1, hr_Metadata = None\<rparr>"

definition sample_run_db :: "gval db" where
  "sample_run_db = snd (Postgres_SaveStateHistory plain_pg sample_history sample_db)"

theorem ArchiveOldExecutions_loses_history_witness:
  "\<exists>d1 h. Postgres_ArchiveOldExecutions plain_pg 10000 sample_run_db = (Ok 1, d1) \<and> db_history sample_run_db = [h] \<and>
     h \<notin> set (db_history d1) \<and> h \<notin> set (db_history_archive d1)"
proof -
  have "fst (Postgres_ArchiveOldExecutions plain_pg 10000 sample_run_db) = Ok 1" by code_simp
  then obtain d1 where run: "Postgres_ArchiveOldExecutions plain_pg 10000 sample_run_db = (Ok 1, d1)" by (metis prod.collapse)
  have x: "map (\<lambda>x. (xr_execution_id x, xr_start_time x)) (db_executions sample_run_db) = [(''e1'', 5000)]" by code_simp
  have h: "map (\<lambda>h. (yr_execution_id h, yr_execution_start_time h)) (db_history sample_run_db) = [(''e1'', 5000)]" by code_simp
  have a: "length (db_history_archive sample_run_db) = 0" by code_simp
  from x h obtain y z where "db_executions sample_run_db = [y]" "xr_execution_id y = ''e1''" "xr_start_time y = 5000"
      "db_history sample_run_db = [z]" "yr_execution_id z = ''e1''" "yr_execution_start_time z = 5000" by auto
  with ArchiveOldExecutions_loses_history [OF run] a run show ?thesis by simp
qed

section \<open>Filters: lemmas\<close>

definition numbered_query :: "nat \<times> condition list \<times> sql_arg list \<Rightarrow> bool" where
  "numbered_query q \<longleftrightarrow>
    fst q = Suc (length (snd (snd q))) \<and> map cond_arg (fst (snd q)) = [1..<fst q] \<and>
    (\<forall>c\<in>set (fst (snd q)). cond_column c \<in> set execution_columns)"

abbreviation satisfies :: "'j postgres \<Rightarrow> condition list \<times> sql_arg list \<Rightarrow> 'j execution_row \<Rightarrow> bool" where
  "satisfies pg q r \<equiv> \<forall>c\<in>set (fst q). holds pg (snd q) r c"

lemma numbered_add: "numbered_query q \<Longrightarrow> column \<in> set execution_columns \<Longrightarrow> numbered_query (add_condition g column operator a q)"
  by (cases q) (auto simp: numbered_query_def add_condition_def)

lemma numbered_ok: "numbered_query q \<Longrightarrow> query_ok (snd q)"
  by (cases q) (auto simp: numbered_query_def query_ok_def simp flip: set_map)

lemma holds_add:
  assumes "numbered_query q"
  shows "satisfies pg (snd (add_condition g column operator a q)) r \<longleftrightarrow>
    satisfies pg (snd q) r \<and> (g \<longrightarrow> holds pg [a] r (Condition column operator 1))"
proof -
  obtain n cs as where q: "q = (n, cs, as)" by (cases q) auto
  have arg: "cond_arg c - 1 < length as" if "c \<in> set cs" for c
  proof -
    have "cond_arg c \<in> set (map cond_arg cs)" using that by simp
    also have "set (map cond_arg cs) = set [1..<Suc (length as)]" using assms by (simp only: numbered_query_def q fst_conv snd_conv)
    finally show ?thesis by auto
  qed
  have "holds pg (as @ [a]) r c = holds pg as r c" if "c \<in> set cs" for c
    using arg [OF that] by (simp add: holds_def nth_append)
  moreover have "holds pg (as @ [a]) r (Condition column operator n) = holds pg [a] r (Condition column operator 1)"
    using assms by (cases a) (simp_all add: holds_def q numbered_query_def Let_def)
  ultimately show ?thesis by (auto simp: q add_condition_def)
qed

text \<open>What the fields of a filter ask of a row.\<close>

definition filter_matches :: "'j postgres \<Rightarrow> execution_filter \<Rightarrow> 'j execution_row \<Rightarrow> bool" where
  "filter_matches pg f r \<longleftrightarrow>
    (ef_Status f \<noteq> [] \<longrightarrow> xr_status r = ef_Status f) \<and> (ef_CurrentState f \<noteq> [] \<longrightarrow> xr_current_state r = ef_CurrentState f) \<and>
    (ef_StateMachineID f \<noteq> [] \<longrightarrow> xr_state_machine_id r = ef_StateMachineID f) \<and>
    (ef_Name f \<noteq> [] \<longrightarrow> pg_ilike pg (xr_name r) (''%'' @ ef_Name f @ ''%'')) \<and>
    (case ef_StartAfter f of Some t \<Rightarrow> pg_timestamp pg t \<le> xr_start_time r | None \<Rightarrow> True)"

lemma field_filters_numbered: "numbered_query (field_filters f)"
proof -
  have n0: "numbered_query (1, [], [])" by (simp add: numbered_query_def)
  show ?thesis unfolding field_filters_def by (intro numbered_add n0; simp add: execution_columns_def)
qed

lemma holds_fields:
  "holds pg [AString v] r (Condition ''status'' ''='' 1) \<longleftrightarrow> xr_status r = v"
  "holds pg [AString v] r (Condition ''current_state'' ''='' 1) \<longleftrightarrow> xr_current_state r = v"
  "holds pg [AString v] r (Condition ''state_machine_id'' ''='' 1) \<longleftrightarrow> xr_state_machine_id r = v"
  "holds pg [AString v] r (Condition ''name'' ''ILIKE'' 1) \<longleftrightarrow> pg_ilike pg (xr_name r) v"
  "holds pg [ATime t] r (Condition ''start_time'' ''>='' 1) \<longleftrightarrow> pg_timestamp pg t \<le> xr_start_time r"
  by (simp_all add: holds_def)

lemma field_filters_satisfied: "satisfies pg (snd (field_filters f)) r \<longleftrightarrow> filter_matches pg (f\<lparr>ef_StartAfter := None\<rparr>) r"
proof -
  define q0 :: "nat \<times> condition list \<times> sql_arg list" where "q0 = (1, [], [])"
  define q1 where "q1 = add_condition (ef_Status f \<noteq> []) ''status'' ''='' (AString (ef_Status f)) q0"
  define q2 where "q2 = add_condition (ef_CurrentState f \<noteq> []) ''current_state'' ''='' (AString (ef_CurrentState f)) q1"
  define q3 where "q3 = add_condition (ef_StateMachineID f \<noteq> []) ''state_machine_id'' ''='' (AString (ef_StateMachineID f)) q2"
  have n0: "numbered_query q0" by (simp add: numbered_query_def q0_def)
  have n1: "numbered_query q1" unfolding q1_def by (rule numbered_add [OF n0]) (simp add: execution_columns_def)
  have n2: "numbered_query q2" unfolding q2_def by (rule numbered_add [OF n1]) (simp add: execution_columns_def)
  have n3: "numbered_query q3" unfolding q3_def by (rule numbered_add [OF n2]) (simp add: execution_columns_def)
  have f: "field_filters f = add_condition (ef_Name f \<noteq> []) ''name'' ''ILIKE'' (AString (''%'' @ ef_Name f @ ''%'')) q3"
    unfolding field_filters_def q3_def q2_def q1_def q0_def ..
  have s: "satisfies pg (snd q0) r" by (simp add: q0_def)
  have "satisfies pg (snd (field_filters f)) r \<longleftrightarrow> satisfies pg (snd q3) r \<and> (ef_Name f \<noteq> [] \<longrightarrow> pg_ilike pg (xr_name r) (''%'' @ ef_Name f @ ''%''))"
    unfolding f holds_add [OF n3] holds_fields ..
  also have "satisfies pg (snd q3) r \<longleftrightarrow> satisfies pg (snd q2) r \<and> (ef_StateMachineID f \<noteq> [] \<longrightarrow> xr_state_machine_id r = ef_StateMachineID f)"
    unfolding q3_def holds_add [OF n2] holds_fields ..
  also have "satisfies pg (snd q2) r \<longleftrightarrow> satisfies pg (snd q1) r \<and> (ef_CurrentState f \<noteq> [] \<longrightarrow> xr_current_state r = ef_CurrentState f)"
    unfolding q2_def holds_add [OF n1] holds_fields ..
  also have "satisfies pg (snd q1) r \<longleftrightarrow> (ef_Status f \<noteq> [] \<longrightarrow> xr_status r = ef_Status f)"
    unfolding q1_def holds_add [OF n0] holds_fields using s by blast
  finally show ?thesis by (auto simp: filter_matches_def)
qed

lemma where_clause_matches:
  assumes "ef_StartBefore f = None"
  shows "where_clause pg (Some f) rows = Ok (filter (filter_matches pg f) rows)"
proof -
  let ?q4 = "field_filters f"
  define q5 where "q5 = (case ef_StartAfter f of Some t \<Rightarrow> add_condition True ''start_time'' ''>='' (ATime t) ?q4 | None \<Rightarrow> ?q4)"
  have n4: "numbered_query ?q4" by (rule field_filters_numbered)
  have n5: "numbered_query q5"
    using n4 numbered_add [OF n4, of "''start_time''"] by (simp add: q5_def execution_columns_def split: option.split)
  have build: "buildExecutionFilters f = snd q5"
    by (simp add: buildExecutionFilters_def assms Let_def q5_def)
  have "satisfies pg (snd q5) r \<longleftrightarrow> filter_matches pg f r" for r
    by (cases "ef_StartAfter f") (simp_all only: q5_def holds_add [OF n4] field_filters_satisfied holds_fields option.case, simp_all add: filter_matches_def)
  then show ?thesis using numbered_ok [OF n5] by (simp add: where_clause_def build)
qed

lemma where_clause_start_before:
  assumes "ef_StartBefore f = Some t"
  shows "where_clause pg (Some f) rows = Err (pg_reject pg ''query'')"
proof -
  have "Condition ''start_before'' ''<='' (fst (field_filters f)) \<in> set (fst (buildExecutionFilters f))"
    by (simp add: buildExecutionFilters_def Let_def assms add_condition_def split: prod.split)
  then have "\<not> query_ok (buildExecutionFilters f)" by (force simp: query_ok_def execution_columns_def)
  then show ?thesis by (simp add: where_clause_def)
qed

text \<open>Listing gives exactly the executions that the filter asks for: without \<open>StartBefore\<close>, the identifiers of the rows that match every
  field that is set, once each, in order, and cut to the page. With \<open>StartBefore\<close> the query names a column that does not exist, and
  every call fails.\<close>

theorem ListExecutionIDs_filter:
  assumes "pg_fault pg (db_tick d) = None"
  shows "fst (Postgres_ListExecutionIDs pg (Some f) d) =
    (if ef_StartBefore f = None
     then Ok (paginate (ef_Limit f) (ef_Offset f)
       (sort_key (pg_collate pg) (remdups (map xr_execution_id (filter (filter_matches pg f) (db_executions d))))))
     else Err (Wrapped ''failed to query execution IDs'' (pg_reject pg ''query'')))"
  using assms
  by (cases "ef_StartBefore f")
    (auto simp: Postgres_ListExecutionIDs_def op_wrap_def sql_def where_clause_matches where_clause_start_before filter_page_def)

definition sample_filter :: "string \<Rightarrow> int option \<Rightarrow> execution_filter" where
  "sample_filter status before = \<lparr>ef_Status = status, ef_StateMachineID = ''m1'', ef_Name = [], ef_CurrentState = [],
     ef_StartAfter = Some 1000, ef_StartBefore = before, ef_Limit = 0, ef_Offset = 0\<rparr>"

theorem ListExecutionIDs_filter_witness:
  "fst (Postgres_ListExecutionIDs plain_pg (Some (sample_filter ''RUNNING'' None)) sample_db) = Ok [''e1''] \<and>
   fst (Postgres_ListExecutionIDs plain_pg (Some (sample_filter ''RUNNING'' (Some 9000))) sample_db) \<noteq> Ok [''e1'']"
proof
  show "fst (Postgres_ListExecutionIDs plain_pg (Some (sample_filter ''RUNNING'' None)) sample_db) = Ok [''e1'']" by code_simp
  show "fst (Postgres_ListExecutionIDs plain_pg (Some (sample_filter ''RUNNING'' (Some 9000))) sample_db) \<noteq> Ok [''e1'']"
    using ListExecutionIDs_filter [of plain_pg sample_db "sample_filter ''RUNNING'' (Some 9000)"] by (simp add: sample_filter_def)
qed

section \<open>Orphaned executions cannot be found\<close>

text \<open>\<open>FindOrphanedExecutions\<close> of this backend never returns an orphaned execution: without the column \<open>recovery_metadata\<close> the query is
  refused, and with it every row fails to be scanned, so that the only successful answer is the empty list.\<close>

theorem FindOrphanedExecutions_never_finds:
  "fst (Postgres_FindOrphanedExecutions pg i threshold d) \<noteq> Ok (r # rs)"
  by (auto simp: Postgres_FindOrphanedExecutions_def op_bind_def op_wrap_def scanExecutionRows_def op_return_def split: res.splits prod.splits)

section \<open>The contract of message correlations\<close>

definition correlation_status :: "'j db \<Rightarrow> string \<Rightarrow> string option" where
  "correlation_status d i = map_option cr_status (find (\<lambda>r. cr_id r = i) (db_correlations d))"

lemma correlation_status_tick [simp]: "correlation_status (d\<lparr>db_tick := n\<rparr>) = correlation_status d"
  by (rule ext) (simp add: correlation_status_def)

lemma find_upsert:
  assumes "\<And>old new. key (set_row old new) = key old"
  shows "find (\<lambda>x. key x = k) (upsert key set_row r rows) =
    (if k = key r then Some (case find (\<lambda>x. key x = k) rows of Some old \<Rightarrow> set_row old r | None \<Rightarrow> r)
     else find (\<lambda>x. key x = k) rows)"
proof -
  have upd: "find (\<lambda>x. key x = k) (map (\<lambda>x. if key x = key r then set_row x r else x) xs) =
      map_option (\<lambda>x. if key x = key r then set_row x r else x) (find (\<lambda>x. key x = k) xs)" for xs
    using assms by (induction xs) auto
  have none: "find (\<lambda>x. key x = k) xs = None \<longleftrightarrow> k \<notin> key ` set xs" for xs by (induction xs) auto
  have key: "find (\<lambda>x. key x = k) xs = Some x \<Longrightarrow> key x = k" for xs x by (auto simp: find_Some_iff)
  have app: "find (\<lambda>x. key x = k) (xs @ [r]) = (case find (\<lambda>x. key x = k) xs of Some x \<Rightarrow> Some x | None \<Rightarrow> if key r = k then Some r else None)" for xs
    by (induction xs) auto
  show ?thesis
  proof (cases "find (\<lambda>x. key x = k) rows")
    case None
    then have "k \<notin> key ` set rows" by (simp only: none not_False_eq_True)
    with None show ?thesis using app [of rows] upd [of rows] by (cases "k = key r") (auto simp: upsert_def)
  next
    case (Some x)
    have "k \<in> key ` set rows" using none [of rows] Some by auto
    with Some key [OF Some] show ?thesis using app [of rows] upd [of rows] by (cases "k = key r") (auto simp: upsert_def)
  qed
qed

lemma find_set_status:
  "find (\<lambda>r. cr_id r = k) (set_status i st rows) =
    map_option (\<lambda>r. if k = i then r\<lparr>cr_status := st\<rparr> else r) (find (\<lambda>r. cr_id r = k) rows)"
  by (induction rows) (auto simp: set_status_def)

lemma correlation_status_sql:
  assumes "snd (sql pg stmt d) = d1"
  shows "correlation_status d1 = correlation_status d \<or> (\<exists>a d2. stmt d = Ok (a, d2) \<and> correlation_status d1 = correlation_status d2)"
  using sql_effect [of pg stmt d] assms by auto

lemma insert_execution_status: "insert_execution pg r json d = Ok (u, d1) \<Longrightarrow> correlation_status d1 = correlation_status d"
  by (auto simp: insert_execution_def Let_def correlation_status_def fun_eq_iff split: option.splits if_splits)

lemma insert_history_status: "insert_history pg r i out m d = Ok (u, d1) \<Longrightarrow> correlation_status d1 = correlation_status d"
  by (auto simp: insert_history_def Let_def correlation_status_def fun_eq_iff split: option.splits if_splits)

lemma insert_correlation_status:
  "insert_correlation pg c v d = Ok (u, d1) \<Longrightarrow> correlation_status d1 = (correlation_status d)(mc_ID c \<mapsto> mc_Status c)"
  by (auto simp: insert_correlation_def Let_def correlation_status_def fun_eq_iff find_upsert correlation_row_of_def
      split: option.splits if_splits)

lemma GetMessageCorrelation_state: "snd (Postgres_GetMessageCorrelation pg i d) = d\<lparr>db_tick := Suc (db_tick d)\<rparr>"
  by (simp add: Postgres_GetMessageCorrelation_def sql_read)

lemma GetMessageCorrelation_status:
  assumes "Postgres_GetMessageCorrelation pg i d = (Ok c, d1)"
  shows "correlation_status d i = Some (mc_Status c)"
proof -
  from assms obtain row where "find (\<lambda>r. cr_id r = i) (db_correlations d) = Some row" "scan_correlation pg row = Ok c"
    by (auto simp: Postgres_GetMessageCorrelation_def op_bind_eq op_wrap_Ok sql_Ok split: option.splits)
  then show ?thesis by (auto simp: correlation_status_def scan_correlation_def rbind_eq_Ok)
qed

lemma UpdateCorrelationStatus_status:
  assumes "Postgres_UpdateCorrelationStatus pg i st d = (r, d1)"
  shows "correlation_status d1 = correlation_status d \<or>
      correlation_status d1 = (correlation_status d)(i := map_option (\<lambda>_. st) (correlation_status d i))"
    and "r = Ok u \<Longrightarrow> correlation_status d1 i = Some st"
proof -
  let ?upd = "d\<lparr>db_correlations := set_status i st (db_correlations d)\<rparr>"
  have upd: "correlation_status ?upd = (correlation_status d)(i := map_option (\<lambda>_. st) (correlation_status d i))"
    by (auto simp: correlation_status_def fun_eq_iff find_set_status option.map_comp comp_def intro: option.map_cong)
  let ?stmt = "\<lambda>d. if varchar pg 50 st
        then Ok (i \<in> cr_id ` set (db_correlations d), d\<lparr>db_correlations := set_status i st (db_correlations d)\<rparr>)
        else Err (pg_reject pg ''message_correlations'')"
  have "d1 = snd (sql pg ?stmt d)"
    using arg_cong [OF assms, of snd] by (simp add: Postgres_UpdateCorrelationStatus_def)
  then show "correlation_status d1 = correlation_status d \<or>
      correlation_status d1 = (correlation_status d)(i := map_option (\<lambda>_. st) (correlation_status d i))"
    using correlation_status_sql [of pg ?stmt d d1] upd by (auto split: if_splits)
  have find: "i \<in> cr_id ` set rows \<Longrightarrow> find (\<lambda>r. cr_id r = i) rows \<noteq> None" for rows :: "'a correlation_row list"
    by (induction rows) auto
  show "correlation_status d1 i = Some st" if "r = Ok u"
    using assms that find [of "db_correlations d"]
    by (auto simp: Postgres_UpdateCorrelationStatus_def op_bind_eq op_wrap_Ok sql_Ok correlation_status_def find_set_status split: if_splits)
qed

lemma SaveMessageCorrelation_status:
  assumes "Postgres_SaveMessageCorrelation pg c d = (r, d1)"
  shows "correlation_status d1 = correlation_status d \<or> correlation_status d1 = (correlation_status d)(mc_ID c \<mapsto> mc_Status c)"
    and "r = Ok u \<Longrightarrow> correlation_status d1 (mc_ID c) = Some (mc_Status c)"
proof -
  have "d1 = d \<or> (\<exists>v. d1 = snd (sql pg (insert_correlation pg c v) d))"
    using arg_cong [OF assms, of snd] by (auto simp: Postgres_SaveMessageCorrelation_def split: res.splits)
  then show "correlation_status d1 = correlation_status d \<or> correlation_status d1 = (correlation_status d)(mc_ID c \<mapsto> mc_Status c)"
    using correlation_status_sql [of pg "insert_correlation pg c _" d d1] insert_correlation_status by metis
  show "correlation_status d1 (mc_ID c) = Some (mc_Status c)" if "r = Ok u"
    using assms that
    by (auto simp: Postgres_SaveMessageCorrelation_def op_wrap_Ok sql_Ok insert_correlation_status split: res.splits)
qed

lemma correlation_frame:
  assumes "\<And>a d2. stmt d = Ok (a, d2) \<Longrightarrow> correlation_status d2 = correlation_status d"
  shows "correlation_status (snd (sql pg stmt d)) = correlation_status d"
  using correlation_status_sql [OF refl, of pg stmt d] assms by auto

lemma SaveExecution_status: "correlation_status (snd (Postgres_SaveExecution pg x d)) = correlation_status d"
  by (auto simp: Postgres_SaveExecution_def split: res.split intro!: correlation_frame intro: insert_execution_status)

lemma SaveStateHistory_status: "correlation_status (snd (Postgres_SaveStateHistory pg h d)) = correlation_status d"
  by (auto simp: Postgres_SaveStateHistory_def split: res.split intro!: correlation_frame intro: insert_history_status)

lemma Postgres_repository_simps [simp]:
  "rp_messages (Postgres_repository pg)" "rp_SaveExecution (Postgres_repository pg) = Postgres_SaveExecution pg"
  "rp_GetExecution (Postgres_repository pg) = Postgres_GetExecution pg" "rp_SaveStateHistory (Postgres_repository pg) = Postgres_SaveStateHistory pg"
  "rp_SaveMessageCorrelation (Postgres_repository pg) = Postgres_SaveMessageCorrelation pg"
  "rp_GetMessageCorrelation (Postgres_repository pg) = Postgres_GetMessageCorrelation pg"
  "rp_UpdateCorrelationStatus (Postgres_repository pg) = Postgres_UpdateCorrelationStatus pg"
  by (simp_all add: Postgres_repository_def)

interpretation pgc: correlation_store "Postgres_repository pg" correlation_status for pg
proof (unfold_locales, goal_cases)
  case (1 i s r s1)
  then show ?case using GetMessageCorrelation_state [of pg i s] GetMessageCorrelation_status [of pg i s] by auto
next
  case (2 i st s q s1)
  then show ?case using UpdateCorrelationStatus_status [of pg i st s q s1] by auto
next
  case (3 c s q s1)
  then show ?case using SaveMessageCorrelation_status [of pg c s q s1] by auto
qed (simp_all add: SaveExecution_status SaveStateHistory_status)

end
