(* ===== verification/Queue.thy ===== *)
theory Queue
  imports GoValue
begin

text \<open>
  The task queue (\<open>pkg/queue\<close>): payloads and tasks (\<open>task.go\<close>), configuration (\<open>config.go\<close>), the client (\<open>client.go\<close>), the
  aggregator of groups (\<open>aggregator.go\<close>) and the dispatch of the worker (\<open>worker.go\<close>). Asynq and the JSON codec of the
  payloads are parameters. Starting and stopping the Asynq server is left out.
\<close>

section \<open>Payloads and tasks\<close>

record execution_task_payload =
  ep_StateMachineID :: string
  ep_ExecutionID :: string
  ep_SourceExecutionID :: string
  ep_SourceStateName :: string
  ep_InputTransformerName :: string
  ep_ApplyUnique :: bool
  ep_ExecutionName :: string
  ep_ExecutionIndex :: int
  ep_Input :: gval
  ep_Options :: "gmap option"
  ep_IsTimeout :: bool
  ep_CorrelationID :: string
  ep_GroupID :: string
  ep_GroupConcurrency :: int

record timeout_task_payload =
  tp_ExecutionID :: string
  tp_StateMachineID :: string
  tp_StateName :: string
  tp_CorrelationID :: string
  tp_TimeoutSeconds :: int
  tp_ScheduledAt :: int

record batch_task_payload =
  bp_GroupID :: string
  bp_StateMachineID :: string
  bp_SourceStateName :: string
  bp_InputTransformerName :: string
  bp_GroupConcurrency :: int
  bp_TaskCount :: int
  bp_OriginalType :: string
  bp_Tasks :: "string list"

text \<open>\<open>json.Marshal\<close> and \<open>json.Unmarshal\<close> at the three payload types.\<close>

record payload_codec =
  enc_execution :: "execution_task_payload \<Rightarrow> string res"
  dec_execution :: "string \<Rightarrow> execution_task_payload res"
  enc_timeout :: "timeout_task_payload \<Rightarrow> string res"
  dec_timeout :: "string \<Rightarrow> timeout_task_payload res"
  enc_batch :: "batch_task_payload \<Rightarrow> string res"
  dec_batch :: "string \<Rightarrow> batch_task_payload res"

datatype asynq_option =
    MaxRetry int
  | Timeout int
  | Queue string
  | Unique int
  | ProcessIn int
  | TaskID string
  | Retention int
  | Group string

record asynq_task =
  at_Type :: string
  at_Payload :: string
  at_Options :: "asynq_option list"

record task_info =
  ti_ID :: string
  ti_Queue :: string

abbreviation TypeExecutionTask :: string where "TypeExecutionTask \<equiv> ''statemachine:execution''"
abbreviation TypeBatchTask :: string where "TypeBatchTask \<equiv> ''statemachine:batch''"
abbreviation TypeTimeoutTask :: string where "TypeTimeoutTask \<equiv> ''statemachine:timeout''"

definition NewExecutionTask :: "payload_codec \<Rightarrow> execution_task_payload \<Rightarrow> asynq_task res" where
  "NewExecutionTask cd payload =
    rbind (enc_execution cd payload) (\<lambda>data.
      Ok \<lparr>at_Type = TypeExecutionTask, at_Payload = data,
          at_Options = [TaskID (ep_ExecutionName payload)] @
            (if ep_GroupID payload \<noteq> [] then [Group (ep_GroupID payload)] else [])\<rparr>)"

definition NewTimeoutTask :: "payload_codec \<Rightarrow> timeout_task_payload \<Rightarrow> asynq_task res" where
  "NewTimeoutTask cd payload =
    rbind (enc_timeout cd payload) (\<lambda>data. Ok \<lparr>at_Type = TypeTimeoutTask, at_Payload = data, at_Options = []\<rparr>)"

definition ParseExecutionTaskPayload :: "payload_codec \<Rightarrow> asynq_task \<Rightarrow> execution_task_payload res" where
  "ParseExecutionTaskPayload cd task = dec_execution cd (at_Payload task)"

definition ParseTimeoutTaskPayload :: "payload_codec \<Rightarrow> asynq_task \<Rightarrow> timeout_task_payload res" where
  "ParseTimeoutTaskPayload cd task = dec_timeout cd (at_Payload task)"

definition ParseBatchTaskPayload :: "payload_codec \<Rightarrow> asynq_task \<Rightarrow> batch_task_payload res" where
  "ParseBatchTaskPayload cd task = dec_batch cd (at_Payload task)"

section \<open>Configuration\<close>

record queue_retry_policy =
  qp_MaxRetry :: int
  qp_Timeout :: int

record group_aggregation_config =
  ga_Enabled :: bool
  ga_GroupMaxSize :: int
  ga_GroupMaxDelay :: int
  ga_GroupGracePeriod :: int

text \<open>Of \<open>RedisClientOpt\<close> only the address is looked at.\<close>

record queue_config =
  cfg_Addr :: string
  cfg_Concurrency :: int
  cfg_Queues :: "(string \<times> int) list"
  cfg_RetryPolicy :: "queue_retry_policy option"
  cfg_GroupAggregation :: "group_aggregation_config option"

definition DefaultConfig :: queue_config where
  "DefaultConfig =
    \<lparr>cfg_Addr = ''localhost:6379'', cfg_Concurrency = 10,
     cfg_Queues = [(''critical'', 6), (''timeout'', 5), (''default'', 3), (''low'', 1)],
     cfg_RetryPolicy = Some \<lparr>qp_MaxRetry = 3, qp_Timeout = 600 * 10 ^ 9\<rparr>, cfg_GroupAggregation = None\<rparr>"

text \<open>\<open>Validate\<close> also adds the timeout queue.\<close>

definition Config_Validate :: "queue_config \<Rightarrow> queue_config res" where
  "Config_Validate c =
    (if cfg_Addr c = [] then Err (ErrorNew ''redis address is required'')
     else if cfg_Concurrency c \<le> 0 then Err (ErrorNew ''concurrency must be greater than 0'')
     else if cfg_Queues c = [] then Err (ErrorNew ''at least one queue must be configured'')
     else if map_of (cfg_Queues c) ''timeout'' = None then Ok (c\<lparr>cfg_Queues := (''timeout'', 5) # cfg_Queues c\<rparr>)
     else Ok c)"

record server_config =
  srv_Concurrency :: int
  srv_Queues :: "(string \<times> int) list"
  srv_Group :: "(int \<times> int \<times> int) option"

definition GetServerConfig :: "queue_config \<Rightarrow> server_config" where
  "GetServerConfig c =
    \<lparr>srv_Concurrency = cfg_Concurrency c, srv_Queues = cfg_Queues c,
     srv_Group =
       (case cfg_GroupAggregation c of
          Some g \<Rightarrow> if ga_Enabled g then Some (ga_GroupMaxSize g, ga_GroupMaxDelay g, ga_GroupGracePeriod g) else None
        | None \<Rightarrow> None)\<rparr>"

section \<open>The client\<close>

text \<open>What the client calls of Asynq: \<open>Enqueue\<close>, and \<open>DeleteTask\<close> of the inspector.\<close>

record 's asynq =
  aq_Enqueue :: "asynq_task \<Rightarrow> asynq_option list \<Rightarrow> ('s, task_info) op"
  aq_DeleteTask :: "string \<Rightarrow> string \<Rightarrow> ('s, unit) op"
  aq_ErrTaskNotFound :: err

record 's queue_client =
  qc_asynq :: "'s asynq"
  qc_codec :: payload_codec
  qc_retryPolicy :: "queue_retry_policy option"

definition NewClient :: "'s asynq \<Rightarrow> payload_codec \<Rightarrow> queue_config \<Rightarrow> ('s queue_client) res" where
  "NewClient aq cd config =
    rbind (wrap_err ''invalid config'' (Config_Validate config)) (\<lambda>c.
      Ok \<lparr>qc_asynq = aq, qc_codec = cd, qc_retryPolicy = cfg_RetryPolicy c\<rparr>)"

definition default_options :: "'s queue_client \<Rightarrow> execution_task_payload \<Rightarrow> asynq_option list \<Rightarrow> asynq_option list" where
  "default_options c payload opts =
    (case qc_retryPolicy c of
       Some p \<Rightarrow>
         if opts = [] then
           [MaxRetry (qp_MaxRetry p), Timeout (qp_Timeout p), Queue (ep_StateMachineID payload)] @
           (if ep_ApplyUnique payload then [Unique (24 * 3600 * 10 ^ 9)] else [])
         else opts
     | None \<Rightarrow> opts)"

definition EnqueueExecution ::
  "'s queue_client \<Rightarrow> execution_task_payload \<Rightarrow> asynq_option list \<Rightarrow> ('s, task_info) op" where
  "EnqueueExecution c payload opts =
    op_bind (op_wrap ''failed to create task'' (op_return (NewExecutionTask (qc_codec c) payload))) (\<lambda>task.
      op_wrap ''failed to enqueue task'' (aq_Enqueue (qc_asynq c) task (default_options c payload opts)))"

fun enqueue_group ::
  "'s queue_client \<Rightarrow> execution_task_payload list \<Rightarrow> asynq_option list \<Rightarrow> ('s, task_info list) op" where
  "enqueue_group c [] opts = op_return (Ok [])"
| "enqueue_group c (payload # payloads) opts =
     op_bind (op_wrap ''failed to create task'' (op_return (NewExecutionTask (qc_codec c) payload))) (\<lambda>task.
     op_bind (op_wrap (''failed to enqueue task '' @ ep_ExecutionName payload)
         (aq_Enqueue (qc_asynq c) task (default_options c payload opts))) (\<lambda>info.
     op_bind (enqueue_group c payloads opts) (\<lambda>infos. op_return (Ok (info # infos)))))"

definition EnqueueExecutionGroup ::
  "'s queue_client \<Rightarrow> execution_task_payload list \<Rightarrow> string \<Rightarrow> asynq_option list \<Rightarrow> ('s, task_info list) op" where
  "EnqueueExecutionGroup c payloads groupID opts =
    (if payloads = [] then op_return (Err (ErrorNew ''no payloads provided''))
     else if groupID = [] then op_return (Err (ErrorNew ''groupID is required''))
     else enqueue_group c (map (\<lambda>p. p\<lparr>ep_GroupID := groupID\<rparr>) payloads) opts)"

definition EnqueueExecutionWithPriority ::
  "'s queue_client \<Rightarrow> execution_task_payload \<Rightarrow> string \<Rightarrow> ('s, task_info) op" where
  "EnqueueExecutionWithPriority c payload priority =
    EnqueueExecution c payload
      ([Queue priority] @
       (case qc_retryPolicy c of Some p \<Rightarrow> [MaxRetry (qp_MaxRetry p), Timeout (qp_Timeout p)] | None \<Rightarrow> []))"

definition timeout_task_id :: "string \<Rightarrow> string" where
  "timeout_task_id correlationID = ''timeout-'' @ correlationID"

definition ScheduleExecution :: "'s queue_client \<Rightarrow> execution_task_payload \<Rightarrow> int \<Rightarrow> ('s, task_info) op" where
  "ScheduleExecution c payload delay =
    op_bind (op_wrap ''failed to create task'' (op_return (NewExecutionTask (qc_codec c) payload))) (\<lambda>task.
      op_wrap ''failed to schedule task'' (aq_Enqueue (qc_asynq c) task
        ([ProcessIn delay, Queue ''default'', TaskID (timeout_task_id (ep_CorrelationID payload))] @
         (case qc_retryPolicy c of Some p \<Rightarrow> [MaxRetry (qp_MaxRetry p), Timeout (qp_Timeout p)] | None \<Rightarrow> []))))"

definition ScheduleTimeout :: "'s queue_client \<Rightarrow> timeout_task_payload \<Rightarrow> int \<Rightarrow> ('s, task_info) op" where
  "ScheduleTimeout c payload delay =
    op_bind (op_wrap ''failed to create timeout task'' (op_return (NewTimeoutTask (qc_codec c) payload))) (\<lambda>task.
      op_wrap ''failed to schedule timeout task'' (aq_Enqueue (qc_asynq c) task
        ([ProcessIn delay, Queue ''timeout'', TaskID (timeout_task_id (tp_CorrelationID payload)),
          Retention (24 * 3600 * 10 ^ 9)] @
         (case qc_retryPolicy c of Some p \<Rightarrow> [MaxRetry 1, Timeout (qp_Timeout p)] | None \<Rightarrow> []))))"

definition CancelTimeout :: "'s queue_client \<Rightarrow> string \<Rightarrow> ('s, bool) op" where
  "CancelTimeout c correlationID s =
    (case aq_DeleteTask (qc_asynq c) ''timeout'' (timeout_task_id correlationID) s of
       (Ok _, s1) \<Rightarrow> (Ok True, s1)
     | (Err e, s1) \<Rightarrow>
         (if e = aq_ErrTaskNotFound (qc_asynq c) then Ok False else Err (Wrapped ''failed to cancel timeout task'' e), s1)
     | (Panic m, s1) \<Rightarrow> (Panic m, s1)
     | (Crash m, s1) \<Rightarrow> (Crash m, s1))"

section \<open>Groups\<close>

definition Aggregate :: "payload_codec \<Rightarrow> string \<Rightarrow> asynq_task list \<Rightarrow> asynq_task option" where
  "Aggregate cd grp tasks =
    (case tasks of
       [] \<Rightarrow> None
     | task # _ \<Rightarrow>
         (let b = \<lparr>bp_GroupID = grp, bp_StateMachineID = [], bp_SourceStateName = [], bp_InputTransformerName = [],
                   bp_GroupConcurrency = 0, bp_TaskCount = int (length tasks), bp_OriginalType = TypeExecutionTask,
                   bp_Tasks = map at_Payload tasks\<rparr>;
              batchPayload =
                (case dec_execution cd (at_Payload task) of
                   Ok p \<Rightarrow> b\<lparr>bp_StateMachineID := ep_StateMachineID p, bp_SourceStateName := ep_SourceStateName p,
                              bp_InputTransformerName := ep_InputTransformerName p,
                              bp_GroupConcurrency := ep_GroupConcurrency p\<rparr>
                 | _ \<Rightarrow> b)
          in case enc_batch cd batchPayload of
               Ok data \<Rightarrow> Some \<lparr>at_Type = TypeBatchTask, at_Payload = data, at_Options = [TaskID (''batch-'' @ grp)]\<rparr>
             | _ \<Rightarrow> Some task))"

section \<open>The worker\<close>

record 's execution_handler =
  eh_HandleExecution :: "execution_task_payload \<Rightarrow> ('s, unit) op"
  eh_HandleTimeout :: "timeout_task_payload \<Rightarrow> ('s, unit) op"
  eh_HandleBatchExecution :: "batch_task_payload \<Rightarrow> ('s, unit) op"

definition handleExecutionTask :: "payload_codec \<Rightarrow> 's execution_handler \<Rightarrow> asynq_task \<Rightarrow> ('s, unit) op" where
  "handleExecutionTask cd h task =
    op_bind (op_wrap ''failed to parse task payload'' (op_return (ParseExecutionTaskPayload cd task))) (\<lambda>payload.
      op_wrap ''execution failed'' (eh_HandleExecution h payload))"

definition handleTimeoutTask :: "payload_codec \<Rightarrow> 's execution_handler \<Rightarrow> asynq_task \<Rightarrow> ('s, unit) op" where
  "handleTimeoutTask cd h task =
    op_bind (op_wrap ''failed to parse timeout task payload'' (op_return (ParseTimeoutTaskPayload cd task))) (\<lambda>payload s.
      case eh_HandleTimeout h payload s of
        (Err e, s1) \<Rightarrow>
          (if Error e = ''correlation already processed'' then Ok () else Err (Wrapped ''timeout task failed'' e), s1)
      | r \<Rightarrow> r)"

definition handleBatchTask :: "payload_codec \<Rightarrow> 's execution_handler \<Rightarrow> asynq_task \<Rightarrow> ('s, unit) op" where
  "handleBatchTask cd h task =
    op_bind (op_wrap ''failed to parse batch task payload'' (op_return (ParseBatchTaskPayload cd task))) (\<lambda>payload.
      op_wrap ''batch execution failed'' (eh_HandleBatchExecution h payload))"

definition registerHandlers :: "payload_codec \<Rightarrow> 's execution_handler \<Rightarrow> (string \<times> (asynq_task \<Rightarrow> ('s, unit) op)) list" where
  "registerHandlers cd h =
    [(TypeExecutionTask, handleExecutionTask cd h), (TypeTimeoutTask, handleTimeoutTask cd h),
     (TypeBatchTask, handleBatchTask cd h)]"

section \<open>What the code relies on of Asynq\<close>

text \<open>The queue and the identifier of a task: of repeated options the last one counts.\<close>

fun option_id :: "asynq_option \<Rightarrow> string option" where
  "option_id (TaskID i) = Some i"
| "option_id _ = None"

fun option_queue :: "asynq_option \<Rightarrow> string option" where
  "option_queue (Queue q) = Some q"
| "option_queue _ = None"

definition last_of :: "('a \<Rightarrow> 'b option) \<Rightarrow> 'a list \<Rightarrow> 'b option" where
  "last_of f xs = (case List.map_filter f xs of [] \<Rightarrow> None | y # ys \<Rightarrow> Some (last (y # ys)))"

definition task_key :: "asynq_task \<Rightarrow> asynq_option list \<Rightarrow> (string \<times> string) option" where
  "task_key t opts =
    map_option (Pair (case last_of option_queue (at_Options t @ opts) of Some q \<Rightarrow> q | None \<Rightarrow> ''default''))
      (last_of option_id (at_Options t @ opts))"

text \<open>\<open>held s\<close> are the tasks that Asynq holds, by queue and identifier. A second task with the identifier of a task that is still held is refused.\<close>

locale asynq_store =
  fixes aq :: "'s asynq" and held :: "'s \<Rightarrow> string \<times> string \<Rightarrow> asynq_task option"
  assumes enqueue_held: "aq_Enqueue aq t opts s = (Ok info, s1) \<Longrightarrow> task_key t opts = Some k \<Longrightarrow>
      held s k = None \<and> held s1 = (held s)(k \<mapsto> t)"
    and delete_held: "aq_DeleteTask aq q i s = (Ok u, s1) \<Longrightarrow> held s (q, i) \<noteq> None \<and> held s1 = (held s)((q, i) := None)"
    and delete_missing: "aq_DeleteTask aq q i s = (Err (aq_ErrTaskNotFound aq), s1) \<Longrightarrow> held s (q, i) = None \<and> held s1 = held s"
begin

lemma schedule_held:
  assumes "qc_asynq c = aq" and "ScheduleTimeout c payload delay s = (Ok info, s1)"
  shows "\<exists>t. NewTimeoutTask (qc_codec c) payload = Ok t \<and> held s (''timeout'', timeout_task_id (tp_CorrelationID payload)) = None \<and>
    held s1 = (held s)((''timeout'', timeout_task_id (tp_CorrelationID payload)) \<mapsto> t)"
proof -
  from assms(2) obtain t where t: "NewTimeoutTask (qc_codec c) payload = Ok t"
    by (cases "NewTimeoutTask (qc_codec c) payload") (auto simp: ScheduleTimeout_def op_bind_def op_wrap_def op_return_def)
  let ?opts = "[ProcessIn delay, Queue ''timeout'', TaskID (timeout_task_id (tp_CorrelationID payload)), Retention (24 * 3600 * 10 ^ 9)] @
      (case qc_retryPolicy c of Some p \<Rightarrow> [MaxRetry 1, Timeout (qp_Timeout p)] | None \<Rightarrow> [])"
  have "aq_Enqueue aq t ?opts s = (Ok info, s1)"
    using assms t by (cases "aq_Enqueue aq t ?opts s", cases "fst (aq_Enqueue aq t ?opts s)")
      (auto simp: ScheduleTimeout_def op_bind_def op_wrap_def op_return_def)
  moreover have "at_Options t = []" using t by (auto simp: NewTimeoutTask_def rbind_eq_Ok)
  then have "task_key t ?opts = Some (''timeout'', timeout_task_id (tp_CorrelationID payload))"
    by (simp add: task_key_def last_of_def List.map_filter_simps split: option.split)
  ultimately show ?thesis using t enqueue_held by blast
qed

lemma cancel_cases:
  assumes "qc_asynq c = aq" and "CancelTimeout c corr s = (Ok b, s1)"
  shows "b = (held s (''timeout'', timeout_task_id corr) \<noteq> None) \<and>
    held s1 = (held s)((''timeout'', timeout_task_id corr) := None)"
proof (cases b)
  case True
  with assms obtain u where "aq_DeleteTask aq ''timeout'' (timeout_task_id corr) s = (Ok u, s1)"
    by (cases "aq_DeleteTask aq ''timeout'' (timeout_task_id corr) s", cases "fst (aq_DeleteTask aq ''timeout'' (timeout_task_id corr) s)")
      (auto simp: CancelTimeout_def split: if_splits)
  from delete_held [OF this] True show ?thesis by simp
next
  case False
  with assms have "aq_DeleteTask aq ''timeout'' (timeout_task_id corr) s = (Err (aq_ErrTaskNotFound aq), s1)"
    by (cases "aq_DeleteTask aq ''timeout'' (timeout_task_id corr) s", cases "fst (aq_DeleteTask aq ''timeout'' (timeout_task_id corr) s)")
      (auto simp: CancelTimeout_def split: if_splits)
  from delete_missing [OF this] False show ?thesis by auto
qed

end

text \<open>Asynq as a map from queue and identifier to the task held.\<close>

type_synonym aq_state = "string \<times> string \<Rightarrow> asynq_task option"

definition map_asynq :: "aq_state asynq" where
  "map_asynq =
    \<lparr>aq_Enqueue = (\<lambda>t opts s.
       case task_key t opts of
         None \<Rightarrow> (Ok \<lparr>ti_ID = [], ti_Queue = []\<rparr>, s)
       | Some (q, i) \<Rightarrow>
           if s (q, i) \<noteq> None then (Err (ErrorNew ''task ID conflicts with another task''), s)
           else (Ok \<lparr>ti_ID = i, ti_Queue = q\<rparr>, s((q, i) \<mapsto> t))),
     aq_DeleteTask = (\<lambda>q i s.
       if s (q, i) = None then (Err (ErrorNew ''asynq: task not found''), s) else (Ok (), s((q, i) := None))),
     aq_ErrTaskNotFound = ErrorNew ''asynq: task not found''\<rparr>"

interpretation aqm: asynq_store map_asynq "\<lambda>s. s"
  by unfold_locales (auto simp: map_asynq_def split: option.splits if_splits)

section \<open>Properties\<close>

text \<open>A timeout that was scheduled can be cancelled, once, by its correlation. After \<open>ScheduleTimeout\<close> succeeded, a \<open>CancelTimeout\<close> for the
  same correlation that returns reports success and removes exactly that task; a further one reports that nothing was there; and a
  cancellation for any other correlation leaves the task in place. Asynq is any system with the stated laws.\<close>

theorem ScheduleTimeout_cancel:
  assumes "asynq_store (qc_asynq c) held" and "ScheduleTimeout c payload delay s = (Ok info, s1)"
    and "CancelTimeout c (tp_CorrelationID payload) s1 = (Ok b, s2)" and "CancelTimeout c (tp_CorrelationID payload) s2 = (Ok b', s3)"
    and "CancelTimeout c other s1 = (Ok d, s4)" and "other \<noteq> tp_CorrelationID payload"
  shows "b \<and> held s2 = held s \<and> \<not> b' \<and>
    held s4 (''timeout'', timeout_task_id (tp_CorrelationID payload)) = held s1 (''timeout'', timeout_task_id (tp_CorrelationID payload)) \<and>
    held s1 (''timeout'', timeout_task_id (tp_CorrelationID payload)) \<noteq> None"
proof -
  let ?k = "(''timeout'', timeout_task_id (tp_CorrelationID payload))"
  obtain t where t: "held s ?k = None" "held s1 = (held s)(?k \<mapsto> t)"
    using asynq_store.schedule_held [OF assms(1) refl assms(2)] by blast
  have c1: "b = (held s1 ?k \<noteq> None) \<and> held s2 = (held s1)(?k := None)"
    by (rule asynq_store.cancel_cases [OF assms(1) refl assms(3)])
  have c2: "b' = (held s2 ?k \<noteq> None)"
    using asynq_store.cancel_cases [OF assms(1) refl assms(4)] by blast
  have c3: "held s4 = (held s1)((''timeout'', timeout_task_id other) := None)"
    using asynq_store.cancel_cases [OF assms(1) refl assms(5)] by blast
  have "timeout_task_id other \<noteq> timeout_task_id (tp_CorrelationID payload)"
    using assms(6) by (simp add: timeout_task_id_def)
  with t c1 c2 c3 show ?thesis by (auto simp: fun_upd_idem)
qed

definition sample_codec :: payload_codec where
  "sample_codec =
    \<lparr>enc_execution = (\<lambda>p. Ok (ep_ExecutionName p)), dec_execution = (\<lambda>d. Err (ErrorNew ''not implemented'')),
     enc_timeout = (\<lambda>p. Ok (tp_CorrelationID p)), dec_timeout = (\<lambda>d. Err (ErrorNew ''not implemented'')),
     enc_batch = (\<lambda>p. Ok (concat (bp_Tasks p))), dec_batch = (\<lambda>d. Err (ErrorNew ''not implemented''))\<rparr>"

definition sample_client :: "aq_state queue_client" where
  "sample_client = \<lparr>qc_asynq = map_asynq, qc_codec = sample_codec, qc_retryPolicy = cfg_RetryPolicy DefaultConfig\<rparr>"

definition sample_timeout :: timeout_task_payload where
  "sample_timeout = \<lparr>tp_ExecutionID = ''e'', tp_StateMachineID = ''m'', tp_StateName = ''W'', tp_CorrelationID = ''corr-e-W'',
     tp_TimeoutSeconds = 60, tp_ScheduledAt = 0\<rparr>"

theorem ScheduleTimeout_cancel_witness:
  "\<exists>info s1 s2. ScheduleTimeout sample_client sample_timeout (60 * 10 ^ 9) (\<lambda>_. None) = (Ok info, s1) \<and>
     CancelTimeout sample_client ''corr-e-W'' s1 = (Ok True, s2) \<and> s2 = (\<lambda>_. None)"
proof -
  let ?k = "(''timeout'', timeout_task_id ''corr-e-W'')"
  obtain info s1 where s: "ScheduleTimeout sample_client sample_timeout (60 * 10 ^ 9) (\<lambda>_. None) = (Ok info, s1)"
    by (simp add: ScheduleTimeout_def sample_client_def map_asynq_def op_bind_def op_wrap_def op_return_def NewTimeoutTask_def
        sample_codec_def task_key_def last_of_def List.map_filter_simps DefaultConfig_def)
  have aq: "qc_asynq sample_client = map_asynq" by (simp add: sample_client_def)
  have corr: "tp_CorrelationID sample_timeout = ''corr-e-W''" by (simp add: sample_timeout_def)
  have cancel: "\<exists>b s'. CancelTimeout sample_client i t = (Ok b, s')" for i t
    by (auto simp: CancelTimeout_def aq map_asynq_def)
  obtain b s2 b' s3 d s4 where c: "CancelTimeout sample_client (tp_CorrelationID sample_timeout) s1 = (Ok b, s2)"
      "CancelTimeout sample_client (tp_CorrelationID sample_timeout) s2 = (Ok b', s3)"
      "CancelTimeout sample_client ''other'' s1 = (Ok d, s4)" using cancel by metis
  have "asynq_store (qc_asynq sample_client) (\<lambda>s. s)" using aqm.asynq_store_axioms aq by simp
  from ScheduleTimeout_cancel [OF this s c] have "b" "s2 = (\<lambda>_. None)" by (simp_all add: corr)
  with s c(1) corr show ?thesis by auto
qed

text \<open>Aggregation loses nothing. When Asynq aggregates the execution tasks of a group into one batch task, the worker hands the batch handler a
  payload from which exactly the original payloads can be decoded, in order, with their number, the group, and the state machine of
  the first one; the JSON codec is any one that reads back what it wrote.\<close>

theorem Aggregate_delivers:
  assumes "\<forall>b d. enc_batch cd b = Ok d \<longrightarrow> dec_batch cd d = Ok b" and "\<forall>p d. enc_execution cd p = Ok d \<longrightarrow> dec_execution cd d = Ok p"
    and "map (NewExecutionTask cd) payloads = map Ok tasks" and "payloads \<noteq> []"
    and "Aggregate cd g tasks = Some t" and "at_Type t = TypeBatchTask"
  shows "\<exists>b. handleBatchTask cd h t = op_wrap ''batch execution failed'' (eh_HandleBatchExecution h b) \<and>
    map (dec_execution cd) (bp_Tasks b) = map Ok payloads \<and> bp_TaskCount b = int (length payloads) \<and> bp_GroupID b = g \<and>
    bp_StateMachineID b = ep_StateMachineID (hd payloads)"
proof -
  have len: "length tasks = length payloads" using assms(3) by (metis length_map)
  have dec: "dec_execution cd (at_Payload u) = Ok p \<and> at_Type u = TypeExecutionTask" if "NewExecutionTask cd p = Ok u" for p u
    using that assms(2) by (auto simp: NewExecutionTask_def rbind_eq_Ok)
  have nth: "dec_execution cd (at_Payload (tasks ! i)) = Ok (payloads ! i) \<and> at_Type (tasks ! i) = TypeExecutionTask"
    if "i < length payloads" for i
    using dec [of "payloads ! i" "tasks ! i"] assms(3) that len by (metis nth_map)
  obtain u us where tasks: "tasks = u # us" using assms(4) len by (cases tasks) auto
  have hd: "dec_execution cd (at_Payload u) = Ok (hd payloads)" "at_Type u = TypeExecutionTask"
    using nth [of 0] assms(4) tasks by (auto simp: hd_conv_nth)
  then obtain b where b: "enc_batch cd b = Ok (at_Payload t)" "bp_Tasks b = map at_Payload tasks" "bp_TaskCount b = int (length tasks)"
      "bp_GroupID b = g" "bp_StateMachineID b = ep_StateMachineID (hd payloads)"
    using assms(5,6) tasks by (auto simp: Aggregate_def Let_def split: res.splits)
  have "map (dec_execution cd) (bp_Tasks b) = map Ok payloads"
    using nth len by (auto simp: b(2) intro!: nth_equalityI)
  moreover have "handleBatchTask cd h t = op_wrap ''batch execution failed'' (eh_HandleBatchExecution h b)"
    using assms(1) b(1) by (auto simp: handleBatchTask_def ParseBatchTaskPayload_def op_bind_def op_wrap_def op_return_def fun_eq_iff)
  ultimately show ?thesis using b len by auto
qed

definition sample_payload :: execution_task_payload where
  "sample_payload = \<lparr>ep_StateMachineID = ''m'', ep_ExecutionID = [], ep_SourceExecutionID = [], ep_SourceStateName = [],
     ep_InputTransformerName = [], ep_ApplyUnique = False, ep_ExecutionName = ''x-0'', ep_ExecutionIndex = 0, ep_Input = GNil,
     ep_Options = None, ep_IsTimeout = False, ep_CorrelationID = [], ep_GroupID = ''g'', ep_GroupConcurrency = 2\<rparr>"

definition sample_batch :: batch_task_payload where
  "sample_batch = \<lparr>bp_GroupID = ''g'', bp_StateMachineID = ''m'', bp_SourceStateName = [], bp_InputTransformerName = [],
     bp_GroupConcurrency = 2, bp_TaskCount = 1, bp_OriginalType = TypeExecutionTask, bp_Tasks = [''p'']\<rparr>"

text \<open>A codec for these two payloads.\<close>

definition pair_codec :: payload_codec where
  "pair_codec = sample_codec
    \<lparr>enc_execution := (\<lambda>p. if p = sample_payload then Ok ''p'' else Err (ErrorNew ''unsupported'')),
     dec_execution := (\<lambda>d. if d = ''p'' then Ok sample_payload else Err (ErrorNew ''unsupported'')),
     enc_batch := (\<lambda>b. if b = sample_batch then Ok ''b'' else Err (ErrorNew ''unsupported'')),
     dec_batch := (\<lambda>d. if d = ''b'' then Ok sample_batch else Err (ErrorNew ''unsupported''))\<rparr>"

theorem Aggregate_delivers_witness:
  "\<forall>h :: aq_state execution_handler. \<exists>t b. Aggregate pair_codec ''g'' [\<lparr>at_Type = TypeExecutionTask, at_Payload = ''p'', at_Options = [TaskID ''x-0'', Group ''g'']\<rparr>] = Some t \<and>
     handleBatchTask pair_codec h t = op_wrap ''batch execution failed'' (eh_HandleBatchExecution h b) \<and> bp_TaskCount b = 1"
proof -
  let ?u = "\<lparr>at_Type = TypeExecutionTask, at_Payload = ''p'', at_Options = [TaskID ''x-0'', Group ''g'']\<rparr>"
  have new: "map (NewExecutionTask pair_codec) [sample_payload] = map Ok [?u]"
    by (simp add: NewExecutionTask_def pair_codec_def sample_payload_def)
  have agg: "Aggregate pair_codec ''g'' [?u] = Some \<lparr>at_Type = TypeBatchTask, at_Payload = ''b'', at_Options = [TaskID ''batch-g'']\<rparr>"
    by (simp add: Aggregate_def Let_def pair_codec_def sample_payload_def sample_batch_def)
  have laws: "\<forall>b d. enc_batch pair_codec b = Ok d \<longrightarrow> dec_batch pair_codec d = Ok b"
    "\<forall>p d. enc_execution pair_codec p = Ok d \<longrightarrow> dec_execution pair_codec d = Ok p" by (auto simp: pair_codec_def split: if_splits)
  show ?thesis
  proof
    fix h :: "aq_state execution_handler"
    from Aggregate_delivers [OF laws new _ agg, of h] agg show "\<exists>t b. Aggregate pair_codec ''g'' [?u] = Some t \<and>
      handleBatchTask pair_codec h t = op_wrap ''batch execution failed'' (eh_HandleBatchExecution h b) \<and> bp_TaskCount b = 1" by auto
  qed
qed

end
