(* ===== verification/Persistent.thy ===== *)
theory Persistent
  imports StateMachine Postgres Queue
begin

text \<open>
  The engine with persistence (\<open>pkg/statemachine/persistent/persistent.go\<close>): the loop of a run, which writes the execution, its history and
  message correlations to a repository and schedules timeouts on the queue, the resumption of paused executions and the
  processing of timeout triggers. The state \<open>'s\<close> is that of the repository and of the queue together; a repository
  manager is always present, and its failures are errors, not panics. \<open>executeStateWithRecovery\<close> and \<open>MergeInputs\<close> are repeated here in the
  source word for word; the model uses the definitions of \<open>StateMachine\<close>.
\<close>

record 's persistent =
  ps_machine :: state_machine
  ps_repository :: "'s repository"
  ps_stateMachineID :: string
  ps_queueClient :: "'s queue_client option"

definition Persistent_New ::
  "'j decoder \<Rightarrow> string \<Rightarrow> int \<Rightarrow> 'j raw_state_machine \<Rightarrow> string \<Rightarrow> int \<Rightarrow> 's repository \<Rightarrow> 's persistent res" where
  "Persistent_New dec newID now raw stateMachineId now2 manager =
    rbind (wrap_err ''failed to create state machine'' (New dec newID now raw)) (\<lambda>sm.
      Ok \<lparr>ps_machine = sm, ps_repository = manager,
          ps_stateMachineID = (if stateMachineId = [] then ''sm-'' @ itoa (unix_seconds now2) else stateMachineId),
          ps_queueClient = None\<rparr>)"

section \<open>Hooks\<close>

definition persistExecution :: "'s persistent \<Rightarrow> execution \<Rightarrow> 's \<Rightarrow> 's" where
  "persistExecution pm x = op_log (Manager_SaveExecution (ps_repository pm) x)"

definition saveHistory :: "int \<Rightarrow> 's persistent \<Rightarrow> execution \<Rightarrow> state_history \<Rightarrow> 's \<Rightarrow> 's" where
  "saveHistory now pm x h = op_log (Manager_SaveStateHistory (ps_repository pm) now x h)"

definition getState :: "'s persistent \<Rightarrow> string \<Rightarrow> state res" where
  "getState pm stateName =
    (case map_of (sm_States (ps_machine pm)) stateName of
       Some st \<Rightarrow> Ok st
     | None \<Rightarrow> Err (ErrorNew (''state not found: '' @ stateName)))"

text \<open>\<open>newStateHistory\<close> increments the sequence number of the execution, which it shares with the caller.\<close>

definition newStateHistory :: "int \<Rightarrow> string \<Rightarrow> state \<Rightarrow> execution \<Rightarrow> execution \<times> state_history" where
  "newStateHistory now stateName st x =
    (let n = wrap64 (HistorySequenceNumber x + 1) in
     (x\<lparr>HistorySequenceNumber := n\<rparr>,
      \<lparr>sh_StateName = stateName, sh_StateType = GetType st, sh_Status = [], sh_Input = Input x, sh_Output = GNil,
       sh_Timestamp = zero_time, sh_StartTime = Some now, sh_EndTime = None, sh_RetryCount = 0, sh_SequenceNumber = n,
       sh_Error = None\<rparr>))"

definition finalizeHistory :: "int \<Rightarrow> state_history \<Rightarrow> gval \<Rightarrow> err option \<Rightarrow> state_history" where
  "finalizeHistory now h output e =
    (let h1 = h\<lparr>sh_EndTime := Some now, sh_Output := output\<rparr> in
     if e \<noteq> None then h1\<lparr>sh_Status := ''FAILED'', sh_Error := e\<rparr> else h1\<lparr>sh_Status := ''SUCCEEDED''\<rparr>)"

fun isWaitingMessageState :: "gval \<Rightarrow> bool" where
  "isWaitingMessageState (GMessageStateResult status _ _ _ _ _) = (status = ''WAITING'')"
| "isWaitingMessageState _ = False"

definition correlation_id :: "string \<Rightarrow> string \<Rightarrow> string" where
  "correlation_id executionID stateName = ''corr-'' @ executionID @ ''-'' @ stateName"

definition scheduleTimeoutExecution :: "'s persistent \<Rightarrow> int \<Rightarrow> timeout_schedule_request \<Rightarrow> ('s, unit) op" where
  "scheduleTimeoutExecution pm now req =
    (case ps_queueClient pm of
       None \<Rightarrow> op_return (Err (ErrorNew ''queue client not configured for timeout scheduling''))
     | Some c \<Rightarrow>
         op_bind (op_wrap ''failed to schedule timeout execution''
             (ScheduleTimeout c
               \<lparr>tp_ExecutionID = tsr_ExecutionID req, tp_StateMachineID = tsr_StateMachineID req,
                tp_StateName = tsr_StateName req, tp_CorrelationID = tsr_CorrelationID req,
                tp_TimeoutSeconds = tsr_TimeoutSeconds req, tp_ScheduledAt = unix_seconds now\<rparr>
               (wrap64 (tsr_TimeoutSeconds req * 10 ^ 9))))
           (\<lambda>_. op_return (Ok ())))"

definition correlation_record ::
  "'s persistent \<Rightarrow> int \<Rightarrow> execution \<Rightarrow> string \<Rightarrow> gval \<Rightarrow> message_correlation_record" where
  "correlation_record pm now x stateName output =
    (case output of
       GMessageStateResult status key val inputData createdAt timeoutAt \<Rightarrow>
         \<lparr>mc_ID = correlation_id (ID x) stateName, mc_ExecutionID = ID x, mc_ExecutionStartTime = Some (StartTime x),
          mc_StateMachineID = ps_stateMachineID pm, mc_StateName = stateName, mc_CorrelationKey = key,
          mc_CorrelationValue = val, mc_CreatedAt = unix_seconds now, mc_TimeoutAt = timeoutAt, mc_Status = ''WAITING''\<rparr>)"

definition handleWaitingState ::
  "env \<Rightarrow> nat \<Rightarrow> 's persistent \<Rightarrow> execution \<Rightarrow> state_history \<Rightarrow> gval \<Rightarrow> state \<Rightarrow> string \<Rightarrow> 's \<Rightarrow> run_result \<times> 's" where
  "handleWaitingState env k pm x h output st name s =
    (let h1 = h\<lparr>sh_EndTime := Some (now_ns env [k, 4]), sh_Output := output, sh_Status := ''WAITING''\<rparr>;
         x1 = x\<lparr>History := History x @ [h1]\<rparr>;
         s1 = saveHistory (now_ns env [k, 5]) pm x1 h1 s;
         s2 = op_log (Manager_SaveMessageCorrelation (ps_repository pm)
                (correlation_record pm (now_ns env [k, 7]) x1 name output)) s1;
         s3 = (case st of
                 MessageState m \<Rightarrow>
                   (case CreateTimeoutScheduleRequest env [k, 8] m (ID x1) (ps_stateMachineID pm)
                           (correlation_id (ID x1) name) of
                      Some req \<Rightarrow> op_log (scheduleTimeoutExecution pm (now_ns env [k, 9]) req) s2
                    | None \<Rightarrow> s2)
               | _ \<Rightarrow> s2);
         x2 = x1\<lparr>Status := ''PAUSED'', CurrentState := name, Output := Input x1\<rparr>
     in (Ok (x2, None), persistExecution pm x2 s3))"

text \<open>The error exits of the loop: mark the execution, stamp and persist it, return it with the error.\<close>

definition fail_execution :: "env \<Rightarrow> nat \<Rightarrow> 's persistent \<Rightarrow> execution \<Rightarrow> err \<Rightarrow> 's \<Rightarrow> run_result \<times> 's" where
  "fail_execution env k pm x e s =
    (let x1 = (MarkFailed x e)\<lparr>EndTime := Some (now_ns env [k, 3])\<rparr> in (Ok (x1, Some e), persistExecution pm x1 s))"

definition checkContext :: "env \<Rightarrow> nat \<Rightarrow> 's persistent \<Rightarrow> execution \<Rightarrow> 's \<Rightarrow> (run_result \<times> 's) option" where
  "checkContext env k pm x s =
    (case ctx_done env [k, 6] of
       Some e \<Rightarrow>
         (let x1 = x\<lparr>Status := ''CANCELLED'', ExecError := Some e, EndTime := Some (now_ns env [k, 3])\<rparr>
          in Some (Ok (x1, Some e), persistExecution pm x1 s))
     | None \<Rightarrow> None)"

section \<open>The run\<close>

record 's pconfig =
  pc_step :: nat
  pc_StateName :: string
  pc_Exec :: execution
  pc_Store :: 's

text \<open>After a state has returned an output that is not a wait: record it, then stop or move on.\<close>

definition advance ::
  "env \<Rightarrow> nat \<Rightarrow> 's persistent \<Rightarrow> execution \<Rightarrow> state_history \<Rightarrow> state \<Rightarrow> string \<Rightarrow> gval \<Rightarrow> string option \<Rightarrow> err option \<Rightarrow> 's \<Rightarrow>
   's pconfig + run_result \<times> 's" where
  "advance env k pm x h st name output nextState err s =
    (let h1 = finalizeHistory (now_ns env [k, 4]) h output err;
         x2 = x\<lparr>History := History x @ [h1]\<rparr>;
         s1 = saveHistory (now_ns env [k, 5]) pm x2 h1 s
     in case err of
          Some e \<Rightarrow> Inr (fail_execution env k pm x2 e s1)
        | None \<Rightarrow>
            (let x3 = UpdateRecoveryMetadata x2 name output in
             if IsEnd st then
               (let x4 = x3\<lparr>Status := ''SUCCEEDED'', Output := output, EndTime := Some (now_ns env [k, 3])\<rparr>
                in Inr (Ok (x4, None), persistExecution pm x4 s1))
             else if nextState = None \<or> nextState = Some [] then
               Inr (fail_execution env k pm x3 (ErrorNew (''non-terminal state '' @ name @ '' did not provide next state'')) s1)
             else
               (let n = the nextState; x4 = x3\<lparr>CurrentState := n\<rparr> in
                case MergeInputs (Input x4) output of
                  Ok m \<Rightarrow> Inl \<lparr>pc_step = Suc k, pc_StateName = n, pc_Exec = x4\<lparr>Input := m\<rparr>, pc_Store = s1\<rparr>
                | Err e \<Rightarrow> Inr (Ok (x4, Some e), s1)
                | Panic p \<Rightarrow> Inr (Panic p, s1)
                | Crash p \<Rightarrow> Inr (Crash p, s1))))"

definition prun_once :: "nat \<Rightarrow> env \<Rightarrow> 's persistent \<Rightarrow> 's pconfig \<Rightarrow> ('s pconfig + run_result \<times> 's) option" where
  "prun_once fuel env pm c =
    (let k = pc_step c; x = pc_Exec c; name = pc_StateName c; s = pc_Store c in
     case checkContext env k pm x s of
       Some r \<Rightarrow> Some (Inr r)
     | None \<Rightarrow>
         (case getState pm name of
            Err e \<Rightarrow> Some (Inr (fail_execution env k pm x e s))
          | Panic p \<Rightarrow> Some (Inr (Panic p, s))
          | Crash p \<Rightarrow> Some (Inr (Crash p, s))
          | Ok st \<Rightarrow>
              (let (x1, h) = newStateHistory (now_ns env [k, 2]) name st x in
               case executeStateWithRecovery fuel env [k] st (Input x1) name of
                 None \<Rightarrow> None
               | Some (Ok (output, nextState, err)) \<Rightarrow>
                   Some (if isWaitingMessageState output
                         then Inr (handleWaitingState env k pm x1 h output st name s)
                         else advance env k pm x1 h st name output nextState err s)
               | Some (Err e) \<Rightarrow> Some (Inr (Err e, s))
               | Some (Panic p) \<Rightarrow> Some (Inr (Panic p, s))
               | Some (Crash p) \<Rightarrow> Some (Inr (Crash p, s)))))"

fun prun_loop :: "nat \<Rightarrow> env \<Rightarrow> 's persistent \<Rightarrow> 's pconfig \<Rightarrow> (run_result \<times> 's) option" where
  "prun_loop 0 env pm c = None"
| "prun_loop (Suc fuel) env pm c =
     (case prun_once fuel env pm c of
        None \<Rightarrow> None
      | Some (Inr r) \<Rightarrow> Some r
      | Some (Inl c') \<Rightarrow> prun_loop fuel env pm c')"

definition Persistent_RunExecution ::
  "nat \<Rightarrow> env \<Rightarrow> 's persistent \<Rightarrow> gval \<Rightarrow> execution \<Rightarrow> 's \<Rightarrow> (run_result \<times> 's) option" where
  "Persistent_RunExecution fuel env pm input x s =
    (let x1 = (if input \<noteq> GNil then x\<lparr>Input := input\<rparr> else x)
     in prun_loop fuel env pm \<lparr>pc_step = 0, pc_StateName = CurrentState x1, pc_Exec = x1, pc_Store = s\<rparr>)"

section \<open>Starting an execution\<close>

datatype exec_input = InputValue gval | InputExecution execution

definition deriveInputFromExecution :: "'s persistent \<Rightarrow> execution_config \<Rightarrow> ('s, gval) op" where
  "deriveInputFromExecution pm config =
    op_bind (rp_GetExecutionOutput (ps_repository pm) (ec_SourceExecutionID config) (ec_SourceStateName config)) (\<lambda>output.
      op_return (case ec_InputTransformer config of Some f \<Rightarrow> f output | None \<Rightarrow> Ok output))"

definition saveLinkedExecution :: "'s persistent \<Rightarrow> int \<Rightarrow> execution \<Rightarrow> execution_config \<Rightarrow> 's \<Rightarrow> 's" where
  "saveLinkedExecution pm now x config =
    op_log (op_bind (rp_GetExecution (ps_repository pm) (ec_SourceExecutionID config)) (\<lambda>sourceExec.
      rp_SaveLinkedExecution (ps_repository pm)
        \<lparr>le_ID = ''link-'' @ ec_SourceExecutionID config @ ''-'' @ ID x, le_SourceStateMachineID = er_StateMachineID sourceExec,
         le_SourceExecutionID = ec_SourceExecutionID config, le_SourceStateName = ec_SourceStateName config,
         le_InputTransformerName = ec_InputTransformerName config, le_TargetStateMachineName = sm_Name (ps_machine pm),
         le_TargetExecutionID = ID x, le_CreatedAt = now\<rparr>))"

definition initial_execution ::
  "env \<Rightarrow> string \<Rightarrow> 's persistent \<Rightarrow> execution_config \<Rightarrow> exec_input \<Rightarrow> execution \<times> gval" where
  "initial_execution env newID pm config input =
    (case input of
       InputExecution x \<Rightarrow>
         (let x1 = (if StateMachineID x = [] then x\<lparr>StateMachineID := ps_stateMachineID pm\<rparr> else x);
              x2 = (if CurrentState x1 = [] then x1\<lparr>CurrentState := sm_StartAt (ps_machine pm)\<rparr> else x1)
          in (x2\<lparr>HistorySequenceNumber := 0\<rparr>, Input x2))
     | InputValue v \<Rightarrow>
         (let execName = (if ec_Name config \<noteq> [] then ec_Name config
                          else ''execution-'' @ itoa (unix_seconds (now_ns env [])));
              x = NewContext newID (now_ns env [0, 5]) execName (sm_StartAt (ps_machine pm)) v
          in (x\<lparr>StateMachineID := ps_stateMachineID pm, HistorySequenceNumber := 0\<rparr>, v)))"

text \<open>\<open>Execute\<close> from the point where the input is known: refuse a name that is taken, save, link, run.\<close>

definition start_execution ::
  "nat \<Rightarrow> env \<Rightarrow> string \<Rightarrow> 's persistent \<Rightarrow> execution_config \<Rightarrow> exec_input \<Rightarrow> 's \<Rightarrow> (run_result \<times> 's) option" where
  "start_execution fuel env newID pm config input s =
    (let (x, v) = initial_execution env newID pm config input;
         checkName = (ExecName x \<noteq> [] \<and> ec_Name config \<noteq> []);
         (found, s1) = (if checkName then rp_GetExecutionByName (ps_repository pm) (ps_stateMachineID pm) (ExecName x) s
                        else (Err (ErrorNew []), s))
     in case found of
          Ok _ \<Rightarrow>
            Some (Err (ErrorNew (''execution with name '' @ quoted (ExecName x) @ '' already exists for state machine '' @
                   quoted (ps_stateMachineID pm))), s1)
        | Panic p \<Rightarrow> Some (Panic p, s1)
        | Crash p \<Rightarrow> Some (Crash p, s1)
        | Err _ \<Rightarrow>
            (let s2 = persistExecution pm x s1;
                 s3 = (if ec_SourceExecutionID config \<noteq> [] then saveLinkedExecution pm (now_ns env [0, 10]) x config s2 else s2)
             in Persistent_RunExecution fuel env pm v x s3))"

definition Persistent_Execute ::
  "nat \<Rightarrow> env \<Rightarrow> string \<Rightarrow> 's persistent \<Rightarrow> exec_input \<Rightarrow> (execution_config \<Rightarrow> execution_config) list \<Rightarrow> 's \<Rightarrow>
   (run_result \<times> 's) option" where
  "Persistent_Execute fuel env newID pm input opts s =
    (let config = fold (\<lambda>opt c. opt c) opts empty_config in
     if ec_SourceExecutionID config \<noteq> [] then
       (case op_wrap ''failed to derive input from source execution'' (deriveInputFromExecution pm config) s of
          (Ok derived, s1) \<Rightarrow> start_execution fuel env newID pm config (InputValue derived) s1
        | (Err e, s1) \<Rightarrow> Some (Err e, s1)
        | (Panic p, s1) \<Rightarrow> Some (Panic p, s1)
        | (Crash p, s1) \<Rightarrow> Some (Crash p, s1))
     else start_execution fuel env newID pm config input s)"

section \<open>Resuming an execution\<close>

definition cancelTimeoutTask :: "'s persistent \<Rightarrow> string \<Rightarrow> ('s, unit) op" where
  "cancelTimeoutTask pm correlationID =
    (case ps_queueClient pm of
       None \<Rightarrow> op_return (Ok ())
     | Some c \<Rightarrow> op_bind (op_wrap ''failed to cancel timeout task'' (CancelTimeout c correlationID)) (\<lambda>_. op_return (Ok ())))"

definition is_timeout_input :: "execution \<Rightarrow> bool" where
  "is_timeout_input x =
    (case Input x of GMap m \<Rightarrow> map_of m (timeoutTriggerKey (CurrentState x)) \<noteq> None | _ \<Rightarrow> False)"

text \<open>The bookkeeping of \<open>ResumeExecution\<close> before the run continues.\<close>

definition settle_correlation :: "'s persistent \<Rightarrow> execution \<Rightarrow> 's \<Rightarrow> 's" where
  "settle_correlation pm x s =
    (let corr = correlation_id (ID x) (CurrentState x) in
     if is_timeout_input x then op_log (Manager_UpdateCorrelationStatus (ps_repository pm) corr ''TIMEOUT'') s
     else
       (let s1 = op_log (Manager_UpdateCorrelationStatus (ps_repository pm) corr ''RECEIVED'') s
        in if ps_queueClient pm \<noteq> None then op_log (cancelTimeoutTask pm corr) s1 else s1))"

definition Persistent_ResumeExecution ::
  "nat \<Rightarrow> env \<Rightarrow> 's persistent \<Rightarrow> execution \<Rightarrow> 's \<Rightarrow> (run_result \<times> 's) option" where
  "Persistent_ResumeExecution fuel env pm x s =
    (if Status x \<noteq> ''PAUSED'' \<and> Status x \<noteq> ''RUNNING'' then
       Some (Err (ErrorNew (''cannot resume execution with status: '' @ Status x)), s)
     else
       (let s1 = settle_correlation pm x s;
            (x2, s2) = (if Status x = ''PAUSED''
                        then (let x1 = x\<lparr>Status := ''RUNNING''\<rparr> in (x1, persistExecution pm x1 s1)) else (x, s1))
        in Persistent_RunExecution fuel env pm (Output x2) x2 s2))"

section \<open>Timeout triggers\<close>

definition timeout_input :: "execution_record \<Rightarrow> message_correlation_record \<Rightarrow> string \<Rightarrow> gval" where
  "timeout_input rec corr correlationID =
    GMap [(timeoutTriggerKey (er_CurrentState rec), GBool True), (''correlation_id'', GString correlationID),
          (''execution_id'', GString (mc_ExecutionID corr)), (''state_name'', GString (mc_StateName corr))]"

text \<open>The execution built for the resumption; a missing \<open>StartTime\<close> is dereferenced.\<close>

definition timeout_execution :: "execution_record \<Rightarrow> gval \<Rightarrow> execution res" where
  "timeout_execution rec mergedInput =
    (case er_StartTime rec of
       None \<Rightarrow> Panic ''runtime error: invalid memory address or nil pointer dereference''
     | Some t \<Rightarrow>
         Ok ((NewContext (er_ExecutionID rec) t (er_Name rec) (er_CurrentState rec) mergedInput)
           \<lparr>StateMachineID := er_StateMachineID rec, Status := er_Status rec,
            HistorySequenceNumber := er_HistorySequenceNumber rec\<rparr>))"

definition ProcessTimeoutTrigger ::
  "nat \<Rightarrow> env \<Rightarrow> 's persistent \<Rightarrow> string \<Rightarrow> 's \<Rightarrow> (unit res \<times> 's) option" where
  "ProcessTimeoutTrigger fuel env pm correlationID s =
    (case op_wrap ''failed to get correlation record'' (Manager_GetMessageCorrelation (ps_repository pm) correlationID) s of
       (Err e, s1) \<Rightarrow> Some (Err e, s1)
     | (Panic p, s1) \<Rightarrow> Some (Panic p, s1)
     | (Crash p, s1) \<Rightarrow> Some (Crash p, s1)
     | (Ok corr, s1) \<Rightarrow>
         if mc_Status corr \<noteq> ''WAITING'' then Some (Ok (), s1)
         else (case op_wrap ''failed to get executionRecord'' (rp_GetExecution (ps_repository pm) (mc_ExecutionID corr)) s1 of
           (Err e, s2) \<Rightarrow> Some (Err e, s2)
         | (Panic p, s2) \<Rightarrow> Some (Panic p, s2)
         | (Crash p, s2) \<Rightarrow> Some (Crash p, s2)
         | (Ok rec, s2) \<Rightarrow>
             (case rbind (wrap_err ''failed to merge inputs'' (MergeInputs (er_Output rec) (timeout_input rec corr correlationID)))
                     (timeout_execution rec) of
                Err e \<Rightarrow> Some (Err e, s2)
              | Panic p \<Rightarrow> Some (Panic p, s2)
              | Crash p \<Rightarrow> Some (Crash p, s2)
              | Ok x \<Rightarrow>
                  map_option (\<lambda>(r, s3). (rbind r (\<lambda>(_, e). case e of None \<Rightarrow> Ok () | Some err \<Rightarrow> Err err), s3))
                    (Persistent_ResumeExecution fuel env pm x s2))))"

section \<open>One iteration: lemmas\<close>

text \<open>The entry that an iteration adds for a state that does not wait.\<close>

abbreviation entry :: "env \<Rightarrow> nat \<Rightarrow> string \<Rightarrow> state \<Rightarrow> execution \<Rightarrow> gval \<Rightarrow> err option \<Rightarrow> state_history" where
  "entry env k name st x output e \<equiv> finalizeHistory (now_ns env [k, 4]) (snd (newStateHistory (now_ns env [k, 2]) name st x)) output e"

abbreviation numbered_execution :: "execution \<Rightarrow> execution" where
  "numbered_execution x \<equiv> x\<lparr>HistorySequenceNumber := wrap64 (HistorySequenceNumber x + 1)\<rparr>"

lemma newStateHistory_simps [simp]:
  "fst (newStateHistory now name st x) = numbered_execution x"
  "sh_StateName (snd (newStateHistory now name st x)) = name" "sh_StateType (snd (newStateHistory now name st x)) = GetType st"
  "sh_Input (snd (newStateHistory now name st x)) = Input x"
  "sh_SequenceNumber (snd (newStateHistory now name st x)) = wrap64 (HistorySequenceNumber x + 1)"
  by (simp_all add: newStateHistory_def Let_def)

lemma finalizeHistory_simps [simp]:
  "sh_StateName (finalizeHistory now h output e) = sh_StateName h" "sh_StateType (finalizeHistory now h output e) = sh_StateType h"
  "sh_Input (finalizeHistory now h output e) = sh_Input h" "sh_Output (finalizeHistory now h output e) = output"
  "sh_SequenceNumber (finalizeHistory now h output e) = sh_SequenceNumber h"
  "sh_Status (finalizeHistory now h output e) = (if e \<noteq> None then ''FAILED'' else ''SUCCEEDED'')"
  by (simp_all add: finalizeHistory_def Let_def)

lemma UpdateRecoveryMetadata_simps [simp]:
  "History (UpdateRecoveryMetadata x n v) = History x" "Input (UpdateRecoveryMetadata x n v) = Input x"
  "HistorySequenceNumber (UpdateRecoveryMetadata x n v) = HistorySequenceNumber x" "ExecError (UpdateRecoveryMetadata x n v) = ExecError x"
  "Status (UpdateRecoveryMetadata x n v) = Status x" "ID (UpdateRecoveryMetadata x n v) = ID x"
  "StartTime (UpdateRecoveryMetadata x n v) = StartTime x" "CurrentState (UpdateRecoveryMetadata x n v) = CurrentState x"
  by (simp_all add: UpdateRecoveryMetadata_def)

lemmas prun_defs = prun_once_def getState_def checkContext_def Let_def

lemma executeStateWithRecovery_no_Err:
  assumes "executeStateWithRecovery f env ev s i name = Some r"
  shows "r \<noteq> Err e" and "r \<noteq> Panic p"
  using assms by (auto elim!: executeStateWithRecovery_cases)

lemma prun_once_state:
  assumes "ctx_done env [pc_step c, 6] = None" and "map_of (sm_States (ps_machine pm)) (pc_StateName c) = Some st"
    and "executeStateWithRecovery f env [pc_step c] st (Input (pc_Exec c)) (pc_StateName c) = Some (Ok (output, nx, e))"
  shows "prun_once f env pm c = Some
    (if isWaitingMessageState output
     then Inr (handleWaitingState env (pc_step c) pm (numbered_execution (pc_Exec c))
            (snd (newStateHistory (now_ns env [pc_step c, 2]) (pc_StateName c) st (pc_Exec c))) output st (pc_StateName c) (pc_Store c))
     else advance env (pc_step c) pm (numbered_execution (pc_Exec c))
            (snd (newStateHistory (now_ns env [pc_step c, 2]) (pc_StateName c) st (pc_Exec c))) st (pc_StateName c) output nx e (pc_Store c))"
  using assms newStateHistory_simps(1) [of "now_ns env [pc_step c, 2]" "pc_StateName c" st "pc_Exec c"]
  by (cases "newStateHistory (now_ns env [pc_step c, 2]) (pc_StateName c) st (pc_Exec c)") (simp add: prun_defs)

lemma prun_once_Inl:
  assumes "prun_once f env pm c = Some (Inl c')"
  obtains st out n m where "map_of (sm_States (ps_machine pm)) (pc_StateName c) = Some st" "\<not> IsEnd st"
    "executeStateWithRecovery f env [pc_step c] st (Input (pc_Exec c)) (pc_StateName c) = Some (Ok (out, Some n, None))"
    "\<not> isWaitingMessageState out" "n \<in> set (GetNextStates st)" "MergeInputs (Input (pc_Exec c)) out = Ok m"
    "pc_step c' = Suc (pc_step c)" "pc_StateName c' = n"
    "pc_Exec c' = (UpdateRecoveryMetadata ((numbered_execution (pc_Exec c))
       \<lparr>History := History (pc_Exec c) @ [entry env (pc_step c) (pc_StateName c) st (pc_Exec c) out None]\<rparr>) (pc_StateName c) out)
       \<lparr>CurrentState := n, Input := m\<rparr>"
    "pc_Store c' = saveHistory (now_ns env [pc_step c, 5]) pm ((numbered_execution (pc_Exec c))
       \<lparr>History := History (pc_Exec c) @ [entry env (pc_step c) (pc_StateName c) st (pc_Exec c) out None]\<rparr>)
       (entry env (pc_step c) (pc_StateName c) st (pc_Exec c) out None) (pc_Store c)"
proof -
  from assms obtain st where st: "map_of (sm_States (ps_machine pm)) (pc_StateName c) = Some st" and ctx: "ctx_done env [pc_step c, 6] = None"
    by (auto simp: prun_defs split: option.splits)
  with assms obtain q where q: "executeStateWithRecovery f env [pc_step c] st (Input (pc_Exec c)) (pc_StateName c) = Some q"
    by (auto simp: prun_defs newStateHistory_def split: option.splits)
  from q show thesis
  proof (cases rule: executeStateWithRecovery_cases)
    case (1 out nx e)
    note run = q [unfolded 1(1)]
    from assms prun_once_state [OF ctx st run] have adv:
        "\<not> isWaitingMessageState out" "advance env (pc_step c) pm (numbered_execution (pc_Exec c))
          (snd (newStateHistory (now_ns env [pc_step c, 2]) (pc_StateName c) st (pc_Exec c))) st (pc_StateName c) out nx e (pc_Store c) = Inl c'"
      by (auto split: if_splits)
    then obtain n m where "e = None" "nx = Some n" "\<not> IsEnd st" "MergeInputs (Input (pc_Exec c)) out = Ok m"
        "pc_step c' = Suc (pc_step c)" "pc_StateName c' = n"
        "pc_Exec c' = (UpdateRecoveryMetadata ((numbered_execution (pc_Exec c))
          \<lparr>History := History (pc_Exec c) @ [entry env (pc_step c) (pc_StateName c) st (pc_Exec c) out None]\<rparr>) (pc_StateName c) out)
          \<lparr>CurrentState := n, Input := m\<rparr>"
        "pc_Store c' = saveHistory (now_ns env [pc_step c, 5]) pm ((numbered_execution (pc_Exec c))
       \<lparr>History := History (pc_Exec c) @ [entry env (pc_step c) (pc_StateName c) st (pc_Exec c) out None]\<rparr>)
       (entry env (pc_step c) (pc_StateName c) st (pc_Exec c) out None) (pc_Store c)"
      by (auto simp: advance_def Let_def split: option.splits if_splits res.splits)
    with that st run adv(1) executeStateWithRecovery_next show thesis by blast
  next
    case (2 m)
    with q assms st ctx show thesis by (auto simp: prun_defs newStateHistory_def)
  qed
qed

lemma prun_once_mono:
  assumes "f \<le> g" and "prun_once f env pm c = Some r"
  shows "prun_once g env pm c = Some r"
proof (cases "checkContext env (pc_step c) pm (pc_Exec c) (pc_Store c) = None")
  case True
  show ?thesis
  proof (cases "map_of (sm_States (ps_machine pm)) (pc_StateName c)")
    case None
    with True assms(2) show ?thesis by (simp add: prun_once_def getState_def Let_def)
  next
    case (Some st)
    with True assms(2) obtain q where q:
      "executeStateWithRecovery f env [pc_step c] st (Input (pc_Exec c)) (pc_StateName c) = Some q"
      by (auto simp: prun_once_def getState_def Let_def newStateHistory_def split: option.splits)
    from executeStateWithRecovery_mono [OF assms(1) q] assms(2) True Some q show ?thesis
      by (simp add: prun_once_def getState_def Let_def newStateHistory_def)
  qed
next
  case False
  then obtain q where "checkContext env (pc_step c) pm (pc_Exec c) (pc_Store c) = Some q" by blast
  with assms(2) show ?thesis by (simp add: prun_once_def Let_def)
qed

interpretation prun: fuelled_loop "\<lambda>f. prun_once f env pm" "\<lambda>f. prun_loop f env pm" for env pm
  by unfold_locales (auto intro: prun_once_mono)

text \<open>How a run ends.\<close>

lemma prun_once_Inr:
  assumes "prun_once f env pm c = Some (Inr (Ok (x, e), s))"
  obtains (cancelled) err where "ctx_done env [pc_step c, 6] = Some err" "e = Some err" "s = persistExecution pm x (pc_Store c)"
      "x = (pc_Exec c)\<lparr>Status := ''CANCELLED'', ExecError := Some err, EndTime := Some (now_ns env [pc_step c, 3])\<rparr>"
  | (missing) err where "map_of (sm_States (ps_machine pm)) (pc_StateName c) = None" "e = Some err"
      "fail_execution env (pc_step c) pm (pc_Exec c) err (pc_Store c) = (Ok (x, e), s)"
  | (waiting) st out nx err where "map_of (sm_States (ps_machine pm)) (pc_StateName c) = Some st"
      "executeStateWithRecovery f env [pc_step c] st (Input (pc_Exec c)) (pc_StateName c) = Some (Ok (out, nx, err))"
      "isWaitingMessageState out"
      "handleWaitingState env (pc_step c) pm (numbered_execution (pc_Exec c))
         (snd (newStateHistory (now_ns env [pc_step c, 2]) (pc_StateName c) st (pc_Exec c))) out st (pc_StateName c) (pc_Store c)
       = (Ok (x, e), s)"
  | (stopped) st out nx err where "map_of (sm_States (ps_machine pm)) (pc_StateName c) = Some st"
      "executeStateWithRecovery f env [pc_step c] st (Input (pc_Exec c)) (pc_StateName c) = Some (Ok (out, nx, err))"
      "advance env (pc_step c) pm (numbered_execution (pc_Exec c))
         (snd (newStateHistory (now_ns env [pc_step c, 2]) (pc_StateName c) st (pc_Exec c))) st (pc_StateName c) out nx err (pc_Store c)
       = Inr (Ok (x, e), s)"
proof (cases "ctx_done env [pc_step c, 6]")
  case ctx: None
  show thesis
  proof (cases "map_of (sm_States (ps_machine pm)) (pc_StateName c)")
    case None
    with assms ctx have "fail_execution env (pc_step c) pm (pc_Exec c) (ErrorNew (''state not found: '' @ pc_StateName c)) (pc_Store c) = (Ok (x, e), s)"
      by (simp add: prun_defs)
    then show thesis by (intro missing [OF None, of "ErrorNew (''state not found: '' @ pc_StateName c)"]) (auto simp: fail_execution_def Let_def)
  next
    case (Some st)
    with assms ctx obtain q where q: "executeStateWithRecovery f env [pc_step c] st (Input (pc_Exec c)) (pc_StateName c) = Some q"
      by (auto simp: prun_defs newStateHistory_def split: option.splits)
    from q show thesis
    proof (cases rule: executeStateWithRecovery_cases)
      case (1 out nx err)
      from assms prun_once_state [OF ctx Some q [unfolded 1(1)]] waiting [OF Some q [unfolded 1(1)]] stopped [OF Some q [unfolded 1(1)]]
      show thesis by (auto split: if_splits)
    next
      case (2 m)
      with q assms Some ctx show thesis by (auto simp: prun_defs newStateHistory_def)
    qed
  qed
next
  case (Some err)
  with assms show thesis by (intro cancelled [OF Some]) (auto simp: prun_defs)
qed

section \<open>Persistence does not change a run\<close>

text \<open>What an iteration shows apart from the store.\<close>

definition pview :: "'s pconfig \<Rightarrow> nat \<times> string \<times> execution" where
  "pview c = (pc_step c, pc_StateName c, pc_Exec c)"

abbreviation once_view :: "('s pconfig + run_result \<times> 's) option \<Rightarrow> (nat \<times> string \<times> execution + run_result) option" where
  "once_view \<equiv> map_option (map_sum pview fst)"

lemma handleWaitingState_view:
  "fst (handleWaitingState env k pm x h out st name s) = fst (handleWaitingState env k pm' x h out st name t)"
  by (simp add: handleWaitingState_def Let_def)

lemma fail_execution_view: "fst (fail_execution env k pm x e s) = fst (fail_execution env k pm' x e t)"
  by (simp add: fail_execution_def Let_def)

lemma advance_view:
  "map_sum pview fst (advance env k pm x h st name out nx e s) = map_sum pview fst (advance env k pm' x h st name out nx e t)"
  using fail_execution_view by (auto simp: advance_def Let_def pview_def split: option.split res.split)

lemma prun_once_view:
  assumes "ps_machine pm = ps_machine pm'" and "pview c = pview c'"
  shows "once_view (prun_once f env pm c) = once_view (prun_once f env pm' c')"
proof -
  have c: "pc_step c = pc_step c'" "pc_StateName c = pc_StateName c'" "pc_Exec c = pc_Exec c'"
    using assms(2) by (simp_all add: pview_def)
  show ?thesis
    by (cases "ctx_done env [pc_step c', 6]"; cases "map_of (sm_States (ps_machine pm')) (pc_StateName c')")
      (auto simp: prun_defs assms(1) c newStateHistory_def handleWaitingState_view fail_execution_view advance_view
        split: option.split res.split intro: handleWaitingState_view fail_execution_view advance_view)
qed

lemma prun_loop_view:
  assumes "ps_machine pm = ps_machine pm'"
  shows "pview c = pview c' \<Longrightarrow> map_option fst (prun_loop f env pm c) = map_option fst (prun_loop f env pm' c')"
proof (induction f arbitrary: c c')
  case (Suc f)
  note once = prun_once_view [OF assms Suc.prems, of f env]
  show ?case
  proof (cases "prun_once f env pm c")
    case None
    with once show ?thesis by (cases "prun_once f env pm' c'") auto
  next
    case (Some r)
    with once obtain r' where r': "prun_once f env pm' c' = Some r'" by (cases "prun_once f env pm' c'") auto
    with once Some Suc.IH show ?thesis by (cases r; cases r') auto
  qed
qed simp

section \<open>The history of a run\<close>

text \<open>How an entry follows another: the first one succeeded, was for a state that is not an end and that declares the next state, and its input
  merged with its output is the input of the next.\<close>

definition plink :: "state_machine \<Rightarrow> state_history \<Rightarrow> state_history \<Rightarrow> bool" where
  "plink sm a b \<longleftrightarrow>
    sh_Status a = ''SUCCEEDED'' \<and> MergeInputs (sh_Input a) (sh_Output a) = Ok (sh_Input b) \<and>
    (\<exists>st. map_of (sm_States sm) (sh_StateName a) = Some st \<and> \<not> IsEnd st \<and> sh_StateName b \<in> set (GetNextStates st))"

text \<open>\<open>plog sm x0 n h\<close>: the entries that a run which started with \<open>x0\<close> has added.\<close>

definition plog :: "state_machine \<Rightarrow> execution \<Rightarrow> state_history list \<Rightarrow> bool" where
  "plog sm x0 h \<longleftrightarrow>
    (h \<noteq> [] \<longrightarrow> sh_StateName (hd h) = CurrentState x0 \<and> sh_Input (hd h) = Input x0) \<and>
    (\<forall>i<length h. sh_SequenceNumber (h ! i) = wrap64 (HistorySequenceNumber x0 + int i + 1) \<and>
       map_of (sm_States sm) (sh_StateName (h ! i)) \<noteq> None) \<and>
    successively (plink sm) h"

definition next_entry :: "string \<Rightarrow> execution \<Rightarrow> state_history \<Rightarrow> bool" where
  "next_entry name x e \<longleftrightarrow>
    sh_StateName e = name \<and> sh_Input e = Input x \<and> sh_SequenceNumber e = wrap64 (HistorySequenceNumber x + 1)"

definition pinv :: "state_machine \<Rightarrow> execution \<Rightarrow> 's pconfig \<Rightarrow> bool" where
  "pinv sm x0 c \<longleftrightarrow>
    (let x = pc_Exec c in
     CurrentState x = pc_StateName c \<and> ID x = ID x0 \<and> ExecError x = ExecError x0 \<and>
     (\<exists>h. History x = History x0 @ h \<and> plog sm x0 h \<and>
        HistorySequenceNumber x = (if h = [] then HistorySequenceNumber x0 else wrap64 (HistorySequenceNumber x0 + int (length h))) \<and>
        (\<forall>e. next_entry (pc_StateName c) x e \<longrightarrow> map_of (sm_States sm) (pc_StateName c) \<noteq> None \<longrightarrow> plog sm x0 (h @ [e]))))"

lemma wrap64_add: "wrap64 (wrap64 a + b) = wrap64 (a + b)"
  using signed_take_bit_add [of 63 "signed_take_bit 63 a" b] signed_take_bit_add [of 63 a b] by (simp add: wrap64_def)

lemma plog_snoc:
  assumes "plog sm x0 h" and "h = [] \<Longrightarrow> sh_StateName e = CurrentState x0 \<and> sh_Input e = Input x0" and "h \<noteq> [] \<Longrightarrow> plink sm (last h) e"
    and "sh_SequenceNumber e = wrap64 (HistorySequenceNumber x0 + int (length h) + 1)" and "map_of (sm_States sm) (sh_StateName e) \<noteq> None"
  shows "plog sm x0 (h @ [e])"
  using assms unfolding plog_def
  by (auto simp: successively_append_iff nth_append less_Suc_eq hd_append)

lemma pinv_start: "pc_StateName c = CurrentState (pc_Exec c) \<Longrightarrow> pinv sm (pc_Exec c) c"
  by (auto simp: pinv_def plog_def Let_def next_entry_def)

lemma pinv_step:
  assumes "pinv sm x0 c" and "prun_once f env pm c = Some (Inl c')" and "sm = ps_machine pm"
  shows "pinv sm x0 c'"
  using assms(2)
proof (rule prun_once_Inl)
  fix st out n m
  let ?x = "pc_Exec c" and ?e = "entry env (pc_step c) (pc_StateName c) st (pc_Exec c) out None"
  assume st: "map_of (sm_States (ps_machine pm)) (pc_StateName c) = Some st" "\<not> IsEnd st" "n \<in> set (GetNextStates st)"
    and m: "MergeInputs (Input ?x) out = Ok m" and c': "pc_StateName c' = n"
      "pc_Exec c' = (UpdateRecoveryMetadata ((numbered_execution ?x)\<lparr>History := History ?x @ [?e]\<rparr>) (pc_StateName c) out)\<lparr>CurrentState := n, Input := m\<rparr>"
  from assms(1) obtain h where h: "History ?x = History x0 @ h" "plog sm x0 h" "ID ?x = ID x0" "ExecError ?x = ExecError x0"
      "HistorySequenceNumber ?x = (if h = [] then HistorySequenceNumber x0 else wrap64 (HistorySequenceNumber x0 + int (length h)))"
      "next_entry (pc_StateName c) ?x ?e \<longrightarrow> map_of (sm_States sm) (pc_StateName c) \<noteq> None \<longrightarrow> plog sm x0 (h @ [?e])"
    by (auto simp: pinv_def Let_def)
  have seq: "wrap64 (HistorySequenceNumber ?x + 1) = wrap64 (HistorySequenceNumber x0 + int (length h) + 1)"
    by (simp add: h(5) wrap64_add)
  have log: "plog sm x0 (h @ [?e])" using h(6) st assms(3) by (simp add: next_entry_def)
  have "plog sm x0 ((h @ [?e]) @ [e])" if e: "next_entry n (pc_Exec c') e" "map_of (sm_States sm) n \<noteq> None" for e
  proof (rule plog_snoc [OF log])
    show "plink sm (last (h @ [?e])) e" using st m c'(2) e assms(3) by (simp add: plink_def next_entry_def)
    show "sh_SequenceNumber e = wrap64 (HistorySequenceNumber x0 + int (length (h @ [?e])) + 1)"
    proof -
      have "sh_SequenceNumber e = wrap64 (wrap64 (HistorySequenceNumber ?x + 1) + 1)" using e(1) by (simp add: next_entry_def c'(2))
      also have "\<dots> = wrap64 (HistorySequenceNumber x0 + int (length h) + 1 + 1)" unfolding seq by (rule wrap64_add)
      finally show ?thesis by (simp add: algebra_simps)
    qed
  qed (use e in \<open>auto simp: next_entry_def\<close>)
  with log h(1,3,4) seq show ?thesis
    unfolding pinv_def Let_def c' by (auto simp: algebra_simps intro!: exI [of _ "h @ [?e]"])
qed

text \<open>A run ends with one more entry, or with none when it was cancelled or its state does not exist.\<close>

lemma prun_final_history:
  assumes "prun_once f env pm c = Some (Inr (Ok (x, e), s))"
  shows "History x = History (pc_Exec c) \<or> (\<exists>h. History x = History (pc_Exec c) @ [h] \<and> next_entry (pc_StateName c) (pc_Exec c) h \<and>
    map_of (sm_States (ps_machine pm)) (pc_StateName c) \<noteq> None)"
  using assms
proof (cases rule: prun_once_Inr)
  case (stopped st out nx err)
  then show ?thesis
    by (auto simp: advance_def Let_def fail_execution_def MarkFailed_def next_entry_def split: option.splits if_splits res.splits)
qed (auto simp: fail_execution_def handleWaitingState_def MarkFailed_def Let_def next_entry_def)

lemma pinv_final:
  assumes "pinv (ps_machine pm) x0 c" and "prun_once f env pm c = Some (Inr (Ok (x, e), s))"
  shows "\<exists>h. History x = History x0 @ h \<and> plog (ps_machine pm) x0 h"
proof -
  from assms(1) obtain h where h: "History (pc_Exec c) = History x0 @ h" "plog (ps_machine pm) x0 h"
      "\<forall>e. next_entry (pc_StateName c) (pc_Exec c) e \<longrightarrow> map_of (sm_States (ps_machine pm)) (pc_StateName c) \<noteq> None \<longrightarrow> plog (ps_machine pm) x0 (h @ [e])"
    unfolding pinv_def Let_def by blast
  from prun_final_history [OF assms(2)] h show ?thesis by auto
qed

lemma prun_start:
  "Persistent_RunExecution fuel env pm input x s = prun_loop fuel env pm
    \<lparr>pc_step = 0, pc_StateName = CurrentState x, pc_Exec = (if input \<noteq> GNil then x\<lparr>Input := input\<rparr> else x), pc_Store = s\<rparr>"
  by (simp add: Persistent_RunExecution_def)

lemma Persistent_RunExecution_ends:
  assumes "Persistent_RunExecution fuel env pm input x0 s = Some r"
  obtains c g where "pinv (ps_machine pm) (if input \<noteq> GNil then x0\<lparr>Input := input\<rparr> else x0) c" "prun_once g env pm c = Some (Inr r)"
proof -
  let ?x = "if input \<noteq> GNil then x0\<lparr>Input := input\<rparr> else x0"
  let ?c = "\<lparr>pc_step = 0, pc_StateName = CurrentState x0, pc_Exec = ?x, pc_Store = s\<rparr>"
  from assms obtain c g where c: "(\<lambda>a b. \<exists>n. prun_once n env pm a = Some (Inl b))\<^sup>*\<^sup>* ?c c" "prun_once g env pm c = Some (Inr r)"
    unfolding prun_start using prun.loop_trace by blast
  have "pinv (ps_machine pm) (pc_Exec ?c) ?c" by (rule pinv_start) simp
  then have "pinv (ps_machine pm) ?x ?c" by simp
  with c(1) have "pinv (ps_machine pm) ?x c" by (induction rule: rtranclp_induct) (auto intro: pinv_step)
  with c(2) that show thesis by blast
qed

section \<open>How a run ends\<close>

definition ended :: "state_machine \<Rightarrow> execution \<Rightarrow> err option \<Rightarrow> bool" where
  "ended sm x e \<longleftrightarrow>
    ExecError x = e \<and>
    (case e of
       Some err \<Rightarrow> (Status x = ''FAILED'' \<or> Status x = ''CANCELLED'') \<and> EndTime x \<noteq> None
     | None \<Rightarrow>
         History x \<noteq> [] \<and> sh_StateName (last (History x)) = CurrentState x \<and>
         (Status x = ''SUCCEEDED'' \<and> EndTime x \<noteq> None \<and> sh_Status (last (History x)) = ''SUCCEEDED'' \<and> Output x = sh_Output (last (History x)) \<and>
            (\<exists>st. map_of (sm_States sm) (CurrentState x) = Some st \<and> IsEnd st) \<or>
          Status x = ''PAUSED'' \<and> sh_Status (last (History x)) = ''WAITING'' \<and> isWaitingMessageState (sh_Output (last (History x))) \<and>
            Output x = Input x))"

lemma advance_ended:
  assumes "advance env k pm x h st name out nx e s = Inr (Ok (x', e'), s')" and "ExecError x = None" and "CurrentState x = name"
    and "map_of (sm_States (ps_machine pm)) name = Some st" and "sh_StateName h = name"
  shows "ended (ps_machine pm) x' e' \<and> ID x' = ID x \<and> (\<exists>s1. s' = persistExecution pm x' s1)"
  using assms MergeInputs_Ok [of "Input x" out]
  by (auto simp: advance_def Let_def ended_def fail_execution_def MarkFailed_def split: option.splits if_splits)

lemma prun_once_ended:
  assumes "prun_once f env pm c = Some (Inr (Ok (x, e), s))" and "ExecError (pc_Exec c) = None" and "CurrentState (pc_Exec c) = pc_StateName c"
  shows "ended (ps_machine pm) x e \<and> ID x = ID (pc_Exec c) \<and> (\<exists>s1. s = persistExecution pm x s1)"
  using assms(1)
proof (cases rule: prun_once_Inr)
  case (stopped st out nx err)
  show ?thesis using advance_ended [OF stopped(3)] stopped(1) assms(2,3) by simp
qed (use assms in \<open>auto simp: ended_def fail_execution_def handleWaitingState_def MarkFailed_def Let_def\<close>)

lemma Persistent_RunExecution_ended:
  assumes "Persistent_RunExecution fuel env pm input x0 s = Some (Ok (x, e), s')" and "ExecError x0 = None"
  shows "ended (ps_machine pm) x e \<and> ID x = ID x0 \<and> (\<exists>s1. s' = persistExecution pm x s1)"
proof -
  let ?x = "if input \<noteq> GNil then x0\<lparr>Input := input\<rparr> else x0"
  obtain c g where c: "pinv (ps_machine pm) ?x c" "prun_once g env pm c = Some (Inr (Ok (x, e), s'))"
    using Persistent_RunExecution_ends [OF assms(1)] by blast
  have "ExecError (pc_Exec c) = None" "CurrentState (pc_Exec c) = pc_StateName c" "ID (pc_Exec c) = ID x0"
    using c(1) assms(2) by (auto simp: pinv_def Let_def)
  with prun_once_ended [OF c(2)] show ?thesis by simp
qed

section \<open>Runs of machines without cycles end\<close>

lemma prun_once_returns:
  assumes "\<And>name st ev i. (name, st) \<in> set (sm_States (ps_machine pm)) \<Longrightarrow> Execute f env ev st i \<noteq> None"
  shows "prun_once f env pm c \<noteq> None"
proof (cases "checkContext env (pc_step c) pm (pc_Exec c) (pc_Store c) = None \<and> map_of (sm_States (ps_machine pm)) (pc_StateName c) \<noteq> None")
  case True
  then obtain st where st: "map_of (sm_States (ps_machine pm)) (pc_StateName c) = Some st" by blast
  have "executeStateWithRecovery f env [pc_step c] st (Input (pc_Exec c)) (pc_StateName c) \<noteq> None"
    using assms [OF map_of_in_set [OF st]] by (rule executeStateWithRecovery_returns)
  with True st show ?thesis
    by (auto simp: prun_once_def getState_def Let_def newStateHistory_def split: option.split res.split)
next
  case False
  then show ?thesis
    by (cases "checkContext env (pc_step c) pm (pc_Exec c) (pc_Store c)") (auto simp: prun_once_def getState_def Let_def)
qed

lemma prun_loop_returns:
  assumes "ranked_machine rank (ps_machine pm)"
    and "\<And>g name st ev i. f \<le> g \<Longrightarrow> (name, st) \<in> set (sm_States (ps_machine pm)) \<Longrightarrow> Execute g env ev st i \<noteq> None"
  shows "f + rank (pc_StateName c) < n \<Longrightarrow> prun_loop n env pm c \<noteq> None"
proof (rule prun.loop_returns [where f = f and rank = "\<lambda>c. rank (pc_StateName c)"])
  show "rank (pc_StateName c2) < rank (pc_StateName c1)" if "prun_once m env pm c1 = Some (Inl c2)" for m c1 c2
    using that assms(1) by (fastforce simp: ranked_machine_def dest!: map_of_in_set elim!: prun_once_Inl)
  show "prun_once g env pm c1 \<noteq> None" if "f \<le> g" for g c1
    using that by (intro prun_once_returns assms(2)) auto
qed

text \<open>C27: A machine whose transitions decrease a rank always finishes: for every execution there is a bound on the fuel, whatever the input, the environment, the
  repository and the queue, with which the persistent run returns.\<close>

theorem Persistent_RunExecution_terminates:
  assumes "ranked_machine rank (ps_machine pm)"
  shows "\<exists>n. \<forall>m\<ge>n. \<forall>env input s. Persistent_RunExecution m env pm input x s \<noteq> None"
proof -
  from ranked_states_return [OF assms] obtain f where
    f: "\<And>g env name st ev i. f \<le> g \<Longrightarrow> (name, st) \<in> set (sm_States (ps_machine pm)) \<Longrightarrow> Execute g env ev st i \<noteq> None" by blast
  have "Persistent_RunExecution m env pm input x s \<noteq> None" if "Suc (f + rank (CurrentState x)) \<le> m" for m env input s
    unfolding prun_start by (rule prun_loop_returns [OF assms f]) (use that in auto)
  then show ?thesis by blast
qed

section \<open>Correlations through a run\<close>

text \<open>The engine over a store of correlations; the calls of the queue leave the correlations alone.\<close>

locale persistent_store = correlation_store rp status_of
  for rp :: "'s repository" and status_of :: "'s \<Rightarrow> string \<Rightarrow> string option" +
  fixes qc :: "'s queue_client option"
  assumes schedule_frame: "qc = Some c \<Longrightarrow> status_of (snd (ScheduleTimeout c payload delay s)) = status_of s"
    and cancel_frame: "qc = Some c \<Longrightarrow> status_of (snd (CancelTimeout c i s)) = status_of s"
begin

lemma persist_frame [simp]: "ps_repository pm = rp \<Longrightarrow> status_of (persistExecution pm x s) = status_of s"
  by (simp add: persistExecution_def)

lemma history_frame [simp]: "ps_repository pm = rp \<Longrightarrow> status_of (saveHistory now pm x h s) = status_of s"
  by (simp add: saveHistory_def)

lemma schedule_log [simp]:
  "ps_queueClient pm = qc \<Longrightarrow> status_of (op_log (scheduleTimeoutExecution pm now req) s) = status_of s"
  using schedule_frame by (cases qc) (auto simp: scheduleTimeoutExecution_def op_log_def)

lemma cancel_log [simp]: "ps_queueClient pm = qc \<Longrightarrow> status_of (op_log (cancelTimeoutTask pm i) s) = status_of s"
  using cancel_frame by (cases qc) (auto simp: cancelTimeoutTask_def op_log_def)

lemma fail_frame [simp]: "ps_repository pm = rp \<Longrightarrow> status_of (snd (fail_execution env k pm x e s)) = status_of s"
  by (simp add: fail_execution_def Let_def)

lemma advance_frame:
  assumes "ps_repository pm = rp"
  shows "advance env k pm x h st name out nx e s = Inl c' \<Longrightarrow> status_of (pc_Store c') = status_of s"
    and "advance env k pm x h st name out nx e s = Inr r \<Longrightarrow> status_of (snd r) = status_of s"
  using assms by (auto simp: advance_def Let_def split: option.splits if_splits res.splits)

lemma waiting_frame:
  assumes "ps_repository pm = rp" and "ps_queueClient pm = qc" and "isWaitingMessageState out"
    and "handleWaitingState env k pm x h out st name s = (r, s')"
  shows "status_of s' i = status_of s i \<or>
    (\<exists>x'. r = Ok (x', None) \<and> Status x' = ''PAUSED'' \<and> ID x' = ID x \<and> i = correlation_id (ID x) name \<and> CurrentState x' = name \<and> status_of s' i = Some ''WAITING'')"
proof -
  let ?h = "h\<lparr>sh_EndTime := Some (now_ns env [k, 4]), sh_Output := out, sh_Status := ''WAITING''\<rparr>"
  let ?x = "x\<lparr>History := History x @ [?h]\<rparr>"
  let ?c = "correlation_record pm (now_ns env [k, 7]) ?x name out"
  have c: "mc_ID ?c = correlation_id (ID x) name" "mc_Status ?c = ''WAITING''"
    using assms(3) by (cases out; simp add: correlation_record_def)+
  have "status_of s' = status_of (op_log (Manager_SaveMessageCorrelation rp ?c) (saveHistory (now_ns env [k, 5]) pm ?x ?h s))"
    using assms(1,2,4) by (auto simp: handleWaitingState_def Let_def split: state.splits option.splits)
  then show ?thesis using log_save_correlation [of ?c "saveHistory (now_ns env [k, 5]) pm ?x ?h s" i] assms(1,4) c
    by (auto simp: handleWaitingState_def Let_def)
qed

lemma prun_once_frame:
  assumes "ps_repository pm = rp" and "ps_queueClient pm = qc"
  shows "prun_once f env pm c = Some (Inl c') \<Longrightarrow> status_of (pc_Store c') = status_of (pc_Store c)"
    and "prun_once f env pm c = Some (Inr (r, s')) \<Longrightarrow> status_of s' i = status_of (pc_Store c) i \<or>
      (\<exists>x'. r = Ok (x', None) \<and> Status x' = ''PAUSED'' \<and> ID x' = ID (pc_Exec c) \<and> i = correlation_id (ID x') (CurrentState x'))"
proof -
  show "prun_once f env pm c = Some (Inl c') \<Longrightarrow> status_of (pc_Store c') = status_of (pc_Store c)"
    using assms(1) by (auto elim!: prun_once_Inl)
  assume run: "prun_once f env pm c = Some (Inr (r, s'))"
  show "status_of s' i = status_of (pc_Store c) i \<or>
      (\<exists>x'. r = Ok (x', None) \<and> Status x' = ''PAUSED'' \<and> ID x' = ID (pc_Exec c) \<and> i = correlation_id (ID x') (CurrentState x'))"
  proof (cases "\<exists>x e. r = Ok (x, e)")
    case True
    then obtain x e where "r = Ok (x, e)" by blast
    with run have "prun_once f env pm c = Some (Inr (Ok (x, e), s'))" by simp
    then show ?thesis
    proof (cases rule: prun_once_Inr)
      case (missing err)
      then show ?thesis using fail_frame [OF assms(1), of env "pc_step c" "pc_Exec c" err "pc_Store c"] by simp
    next
      case (waiting st out nx err)
      from waiting_frame [OF assms waiting(3,4), of i] \<open>r = Ok (x, e)\<close> show ?thesis by auto
    next
      case (stopped st out nx err)
      from advance_frame(2) [OF assms(1) stopped(3)] show ?thesis by simp
    qed (use assms in auto)
  next
    case False
    with run assms show ?thesis
      by (auto simp: prun_once_def Let_def checkContext_def getState_def newStateHistory_def handleWaitingState_def fail_execution_def
          split: option.splits res.splits if_splits dest!: advance_frame(2) [OF assms(1)])
  qed
qed

text \<open>A run changes the status of a correlation only by pausing: then that correlation waits.\<close>

lemma run_frame:
  assumes "ps_repository pm = rp" and "ps_queueClient pm = qc" and "Persistent_RunExecution fuel env pm input x s = Some (r, s')"
  shows "status_of s' i = status_of s i \<or>
    (\<exists>x'. r = Ok (x', None) \<and> Status x' = ''PAUSED'' \<and> i = correlation_id (ID x') (CurrentState x'))"
proof -
  let ?c = "\<lparr>pc_step = 0, pc_StateName = CurrentState x, pc_Exec = (if input \<noteq> GNil then x\<lparr>Input := input\<rparr> else x), pc_Store = s\<rparr>"
  from assms(3) obtain c g where c: "(\<lambda>a b. \<exists>n. prun_once n env pm a = Some (Inl b))\<^sup>*\<^sup>* ?c c" "prun_once g env pm c = Some (Inr (r, s'))"
    unfolding prun_start using prun.loop_trace by blast
  from c(1) have "status_of (pc_Store c) = status_of s"
    by (induction rule: rtranclp_induct) (auto dest: prun_once_frame(1) [OF assms(1,2)])
  with prun_once_frame(2) [OF assms(1,2) c(2), of i] show ?thesis by auto
qed

text \<open>After an execution was resumed by a message, and did not wait there again, a timeout trigger only reads.\<close>

lemma timeout_after_message:
  assumes "ps_repository pm = rp" and "ps_queueClient pm = qc" and "\<not> is_timeout_input x"
    and "fst (Manager_UpdateCorrelationStatus rp (correlation_id (ID x) (CurrentState x)) ''RECEIVED'' s) = Ok u"
    and "Persistent_ResumeExecution fuel env pm x s = Some (Ok (x', e), s')"
    and "Status x' = ''PAUSED'' \<Longrightarrow> correlation_id (ID x') (CurrentState x') \<noteq> correlation_id (ID x) (CurrentState x)"
  shows "\<exists>r. ProcessTimeoutTrigger fuel' env' pm (correlation_id (ID x) (CurrentState x)) s' =
    Some (r, snd (Manager_GetMessageCorrelation rp (correlation_id (ID x) (CurrentState x)) s'))"
proof -
  let ?i = "correlation_id (ID x) (CurrentState x)"
  obtain s1 where upd: "Manager_UpdateCorrelationStatus rp ?i ''RECEIVED'' s = (Ok u, s1)" using assms(4) by (metis prod.collapse)
  have settle: "status_of (settle_correlation pm x s) ?i = Some ''RECEIVED''"
    using update_decides [OF upd] upd assms(1,2,3) by (simp add: settle_correlation_def Let_def op_log_def [of "Manager_UpdateCorrelationStatus _ _ _"])
  obtain v x2 s2 where run: "Persistent_RunExecution fuel env pm v x2 s2 = Some (Ok (x', e), s')"
      "status_of s2 = status_of (settle_correlation pm x s)"
    using assms(1,5) by (auto simp: Persistent_ResumeExecution_def Let_def split: if_splits)
  have status: "status_of s' ?i = Some ''RECEIVED''"
    using run_frame [OF assms(1,2) run(1), of ?i] run(2) settle assms(6) by auto
  show ?thesis
  proof (cases "fst (Manager_GetMessageCorrelation rp ?i s')")
    case (Ok c)
    then obtain s'' where get: "Manager_GetMessageCorrelation rp ?i s' = (Ok c, s'')" by (metis prod.collapse)
    from read_decides [OF this] status have "mc_Status c \<noteq> ''WAITING''" by auto
    then show ?thesis using assms(1) get by (simp add: ProcessTimeoutTrigger_def op_wrap_def)
  qed (use assms(1) in \<open>auto simp: ProcessTimeoutTrigger_def op_wrap_def split: prod.split\<close>)
qed

end

section \<open>The engine on PostgreSQL and Asynq\<close>

text \<open>A database and a queue side by side: the calls of one do not touch the other.\<close>

definition op_fst :: "('a, 'r) op \<Rightarrow> ('a \<times> 'b, 'r) op" where
  "op_fst f s = (case f (fst s) of (r, a) \<Rightarrow> (r, (a, snd s)))"

definition op_snd :: "('b, 'r) op \<Rightarrow> ('a \<times> 'b, 'r) op" where
  "op_snd f s = (case f (snd s) of (r, b) \<Rightarrow> (r, (fst s, b)))"

definition on_database :: "'a repository \<Rightarrow> ('a \<times> 'b) repository" where
  "on_database rp =
    \<lparr>rp_SaveExecution = (\<lambda>x. op_fst (rp_SaveExecution rp x)), rp_GetExecution = (\<lambda>i. op_fst (rp_GetExecution rp i)),
     rp_GetExecutionByName = (\<lambda>m n. op_fst (rp_GetExecutionByName rp m n)), rp_SaveStateHistory = (\<lambda>h. op_fst (rp_SaveStateHistory rp h)),
     rp_GetStateHistory = (\<lambda>i. op_fst (rp_GetStateHistory rp i)), rp_GetExecutionOutput = (\<lambda>i n. op_fst (rp_GetExecutionOutput rp i n)),
     rp_SaveLinkedExecution = (\<lambda>l. op_fst (rp_SaveLinkedExecution rp l)), rp_SaveStateMachine = (\<lambda>m. op_fst (rp_SaveStateMachine rp m)),
     rp_GetStateMachine = (\<lambda>i. op_fst (rp_GetStateMachine rp i)), rp_ListExecutionIDs = (\<lambda>f. op_fst (rp_ListExecutionIDs rp f)),
     rp_ListNonLinkedExecutions = (\<lambda>f l. op_fst (rp_ListNonLinkedExecutions rp f l)),
     rp_FindOrphanedExecutions = (\<lambda>m t. op_fst (rp_FindOrphanedExecutions rp m t)), rp_messages = rp_messages rp,
     rp_SaveMessageCorrelation = (\<lambda>c. op_fst (rp_SaveMessageCorrelation rp c)),
     rp_GetMessageCorrelation = (\<lambda>i. op_fst (rp_GetMessageCorrelation rp i)),
     rp_FindWaitingCorrelations = (\<lambda>f. op_fst (rp_FindWaitingCorrelations rp f)),
     rp_UpdateCorrelationStatus = (\<lambda>i st. op_fst (rp_UpdateCorrelationStatus rp i st)),
     rp_DeleteMessageCorrelation = (\<lambda>i. op_fst (rp_DeleteMessageCorrelation rp i)),
     rp_ListTimedOutCorrelations = (\<lambda>t. op_fst (rp_ListTimedOutCorrelations rp t))\<rparr>"

definition on_queue :: "'b asynq \<Rightarrow> ('a \<times> 'b) asynq" where
  "on_queue aq = \<lparr>aq_Enqueue = (\<lambda>t opts. op_snd (aq_Enqueue aq t opts)), aq_DeleteTask = (\<lambda>q i. op_snd (aq_DeleteTask aq q i)),
     aq_ErrTaskNotFound = aq_ErrTaskNotFound aq\<rparr>"

definition queue_on :: "payload_codec \<Rightarrow> queue_retry_policy option \<Rightarrow> ('a \<times> aq_state) queue_client" where
  "queue_on cd policy = \<lparr>qc_asynq = on_queue map_asynq, qc_codec = cd, qc_retryPolicy = policy\<rparr>"

lemma fst_snd_op_snd [simp]: "fst (snd (op_snd f s)) = fst s"
  by (simp add: op_snd_def split: prod.split)

lemma snd_snd_op_fst [simp]: "snd (snd (op_fst f s)) = snd s" and fst_snd_op_fst [simp]: "fst (snd (op_fst f s)) = snd (f (fst s))"
  by (simp_all add: op_fst_def split: prod.split)

lemma fst_op_fst [simp]: "fst (op_fst f s) = fst (f (fst s))"
  by (simp add: op_fst_def split: prod.split)

lemma op_fst_eq: "op_fst f s = (r, s1) \<longleftrightarrow> f (fst s) = (r, fst s1) \<and> snd s1 = snd s"
  by (cases "f (fst s)"; cases s1) (auto simp: op_fst_def)

lemma op_wrap_return: "op_wrap m (op_return r) = op_return (wrap_err m r)"
  by (rule ext) (simp add: op_wrap_def op_return_def)

lemma ScheduleTimeout_database [simp]: "qc_asynq c = on_queue aq \<Longrightarrow> fst (snd (ScheduleTimeout c payload delay s)) = fst s"
  by (cases "NewTimeoutTask (qc_codec c) payload") (simp_all add: ScheduleTimeout_def op_wrap_return on_queue_def)

lemma CancelTimeout_database [simp]: "qc_asynq c = on_queue aq \<Longrightarrow> fst (snd (CancelTimeout c i s)) = fst s"
  using fst_snd_op_snd [of "aq_DeleteTask aq ''timeout'' (timeout_task_id i)" s]
  by (cases "op_snd (aq_DeleteTask aq ''timeout'' (timeout_task_id i)) s") (auto simp: CancelTimeout_def on_queue_def split: res.split)

lemma on_database_store:
  assumes "correlation_store rp status_of"
  shows "correlation_store (on_database rp) (\<lambda>s. status_of (fst s))"
proof -
  note laws = correlation_store.get_status [OF assms] correlation_store.update_status [OF assms] correlation_store.save_status [OF assms]
    correlation_store.save_execution_frame [OF assms] correlation_store.save_history_frame [OF assms]
  show ?thesis
  proof (unfold_locales, goal_cases)
    case (1 i s r s1)
    then show ?case using laws(1) [of i "fst s" r "fst s1"] by (simp add: on_database_def op_fst_eq)
  next
    case (2 i st s q s1)
    then show ?case using laws(2) [of i st "fst s" q "fst s1"] by (simp add: on_database_def op_fst_eq)
  next
    case (3 c s q s1)
    then show ?case using laws(3) [of c "fst s" q "fst s1"] by (simp add: on_database_def op_fst_eq)
  qed (simp_all add: on_database_def laws(4,5))
qed

interpretation eng: persistent_store "on_database (Postgres_repository pg)" "\<lambda>s. correlation_status (fst s)" "Some (queue_on cd policy)" for pg cd policy
  by (rule persistent_store.intro [OF on_database_store [OF pgc.correlation_store_axioms]], unfold_locales) (auto simp: queue_on_def)

section \<open>Properties\<close>

text \<open>An engine for examples: PostgreSQL with the given server, Asynq, and a codec.\<close>

definition engine :: "'j postgres \<Rightarrow> string \<Rightarrow> states_map \<Rightarrow> ('j db \<times> aq_state) persistent" where
  "engine pg startAt m = \<lparr>ps_machine = machine startAt m, ps_repository = on_database (Postgres_repository pg), ps_stateMachineID = ''m1'',
     ps_queueClient = Some (queue_on sample_codec None)\<rparr>"

definition broken_pg :: "gval postgres" where
  "broken_pg = plain_pg\<lparr>pg_fault := \<lambda>n. Some (ErrorNew ''connection refused'', False)\<rparr>"

definition start :: "string \<Rightarrow> gval \<Rightarrow> execution" where
  "start name v = (NewContext ''e1'' 5000 ''run'' name v)\<lparr>StateMachineID := ''m1''\<rparr>"

abbreviation empty_store :: "gval db \<times> aq_state" where
  "empty_store \<equiv> (empty_db, \<lambda>_. None)"

definition pobserve :: "(execution \<Rightarrow> err option \<Rightarrow> 's \<Rightarrow> 'a) \<Rightarrow> (run_result \<times> 's) option \<Rightarrow> 'a option" where
  "pobserve g r = (case r of Some (Ok (x, e), s) \<Rightarrow> Some (g x e s) | _ \<Rightarrow> None)"

lemma pobserve_Some: "pobserve g r = Some y \<longleftrightarrow> (\<exists>x e s. r = Some (Ok (x, e), s) \<and> g x e s = y)"
  by (auto simp: pobserve_def split: option.splits res.splits)

lemma engine_run:
  "pobserve (\<lambda>x e s. (Status x, map sh_StateName (History x), map xr_status (db_executions (fst s)), length (db_history (fst s)), e))
     (Persistent_RunExecution 5 quiet_env (engine plain_pg ''A'' pass_machine) GNil (start ''A'' GNil)
       (persistExecution (engine plain_pg ''A'' pass_machine) (start ''A'' GNil) empty_store))
   = Some (''SUCCEEDED'', [''A'', ''B''], [''SUCCEEDED''], 2, None)"
  by code_simp

text \<open>C17: Persistence never changes an execution: two machines with the same definition give the same execution and the same
  error from the same input, whatever their repositories and queues do. A repository that fails, or one that holds other
  records, changes what is stored and nothing else.\<close>

theorem Persistent_RunExecution_store_irrelevant:
  assumes "ps_machine pm = ps_machine pm'"
  shows "map_option fst (Persistent_RunExecution fuel env pm input x s) = map_option fst (Persistent_RunExecution fuel env pm' input x t)"
  unfolding Persistent_RunExecution_def Let_def by (rule prun_loop_view [OF assms]) (simp add: pview_def)

theorem Persistent_RunExecution_store_irrelevant_witness:
  "map_option fst (Persistent_RunExecution 5 quiet_env (engine plain_pg ''A'' pass_machine) GNil (start ''A'' GNil) empty_store) =
   map_option fst (Persistent_RunExecution 5 quiet_env (engine broken_pg ''A'' pass_machine) GNil (start ''A'' GNil) empty_store)"
  by (rule Persistent_RunExecution_store_irrelevant) (simp add: engine_def)

text \<open>C15: The history that a persistent run adds follows the machine. It starts at the current state of the execution with its input; entry \<open>i\<close> has the
  next sequence number in 64-bit arithmetic and names a state of the machine; and of two entries in sequence the first succeeded, was for a
  state that is not an end and declares the second's state, and the second's input is the first's input merged with its output.\<close>

theorem Persistent_RunExecution_history:
  assumes "Persistent_RunExecution fuel env pm input x0 s = Some (Ok (x, e), s')"
  shows "\<exists>h. History x = History x0 @ h \<and>
    (h \<noteq> [] \<longrightarrow> sh_StateName (hd h) = CurrentState x0 \<and> sh_Input (hd h) = (if input \<noteq> GNil then input else Input x0)) \<and>
    (\<forall>i<length h. sh_SequenceNumber (h ! i) = wrap64 (HistorySequenceNumber x0 + int i + 1) \<and>
       map_of (sm_States (ps_machine pm)) (sh_StateName (h ! i)) \<noteq> None) \<and>
    successively (\<lambda>a b. sh_Status a = ''SUCCEEDED'' \<and> MergeInputs (sh_Input a) (sh_Output a) = Ok (sh_Input b) \<and>
      (\<exists>st. map_of (sm_States (ps_machine pm)) (sh_StateName a) = Some st \<and> \<not> IsEnd st \<and> sh_StateName b \<in> set (GetNextStates st))) h"
proof -
  let ?x = "if input \<noteq> GNil then x0\<lparr>Input := input\<rparr> else x0"
  obtain c g where c: "pinv (ps_machine pm) ?x c" "prun_once g env pm c = Some (Inr (Ok (x, e), s'))"
    using Persistent_RunExecution_ends [OF assms] by blast
  from pinv_final [OF c] obtain h where "History x = History ?x @ h" "plog (ps_machine pm) ?x h" by blast
  then show ?thesis unfolding plog_def plink_def by (intro exI [of _ h]) (auto split: if_splits)
qed

theorem Persistent_RunExecution_history_witness:
  "\<exists>x s. Persistent_RunExecution 5 quiet_env (engine plain_pg ''A'' pass_machine) GNil (start ''A'' GNil)
       (persistExecution (engine plain_pg ''A'' pass_machine) (start ''A'' GNil) empty_store) = Some (Ok (x, None), s) \<and>
     map sh_SequenceNumber (History x) = [1, 2] \<and> MergeInputs (sh_Input (History x ! 0)) (sh_Output (History x ! 0)) = Ok (sh_Input (History x ! 1))"
proof -
  obtain x s where run: "Persistent_RunExecution 5 quiet_env (engine plain_pg ''A'' pass_machine) GNil (start ''A'' GNil)
       (persistExecution (engine plain_pg ''A'' pass_machine) (start ''A'' GNil) empty_store) = Some (Ok (x, None), s)"
      "map sh_StateName (History x) = [''A'', ''B'']" using engine_run unfolding pobserve_Some by auto
  from run(2) obtain a b where h: "History x = [a, b]" by auto
  have zero: "HistorySequenceNumber (start ''A'' GNil) = 0" "History (start ''A'' GNil) = []" by (simp_all add: start_def NewContext_def)
  have w: "wrap64 1 = 1" "wrap64 2 = 2" by (simp_all add: in_int64_def)
  from Persistent_RunExecution_history [OF run(1)] have "sh_SequenceNumber ([a, b] ! 0) = 1" "sh_SequenceNumber ([a, b] ! 1) = 2"
      "MergeInputs (sh_Input a) (sh_Output a) = Ok (sh_Input b)" by (fastforce simp: h zero w)+
  with run(1) h show ?thesis by simp
qed

text \<open>C16: A persistent run that returns leaves the execution ended, or paused on purpose. It carries the error that is returned; without an error it SUCCEEDED at
  an end state with the output of its last history entry, or it is PAUSED at a Message state whose WAITING entry is its last, with its
  input kept as output; with an error it is FAILED or CANCELLED. The last thing written to the repository is this execution.\<close>

theorem Persistent_RunExecution_complete:
  assumes "Persistent_RunExecution fuel env pm input x0 s = Some (Ok (x, e), s')" and "ExecError x0 = None"
  shows "ExecError x = e \<and> (\<exists>s1. s' = snd (rp_SaveExecution (ps_repository pm) (execution_to_record x) s1)) \<and>
    (e \<noteq> None \<longrightarrow> (Status x = ''FAILED'' \<or> Status x = ''CANCELLED'') \<and> EndTime x \<noteq> None) \<and>
    (e = None \<longrightarrow> History x \<noteq> [] \<and> sh_StateName (last (History x)) = CurrentState x \<and>
      (Status x = ''SUCCEEDED'' \<and> EndTime x \<noteq> None \<and> Output x = sh_Output (last (History x)) \<and>
         (\<exists>st. map_of (sm_States (ps_machine pm)) (CurrentState x) = Some st \<and> IsEnd st) \<or>
       Status x = ''PAUSED'' \<and> sh_Status (last (History x)) = ''WAITING'' \<and> isWaitingMessageState (sh_Output (last (History x))) \<and> Output x = Input x))"
  using Persistent_RunExecution_ended [OF assms]
  by (auto simp: ended_def persistExecution_def op_log_def Manager_SaveExecution_def)

text \<open>A machine whose only step waits for a message, and its run up to the pause: the correlation is stored and the timeout scheduled.\<close>

definition message_M :: state where
  "message_M = MessageState (sample_message\<lparr>CorrelationValuePath := Some ''$.order'', Next := None, End := True\<rparr>)"

abbreviation message_engine :: "(gval db \<times> aq_state) persistent" where
  "message_engine \<equiv> engine plain_pg ''M'' [(''M'', message_M), (''L'', pass_end ''L'' (GString ''late''))]"

definition order_input :: gval where
  "order_input = GMap [(''order'', GString ''42'')]"

definition saved_store :: "gval db \<times> aq_state" where
  "saved_store = persistExecution message_engine (start ''M'' order_input) empty_store"

definition pause_result :: gval where
  "pause_result = GMessageStateResult ''WAITING'' ''order'' (GString ''42'') order_input 0 (Some 60)"

definition pause_outcome :: "run_result \<times> gval db \<times> aq_state" where
  "pause_outcome = handleWaitingState quiet_env 0 message_engine (numbered_execution (start ''M'' order_input))
      (snd (newStateHistory 0 ''M'' message_M (start ''M'' order_input))) pause_result message_M ''M'' saved_store"

lemma pause_exec: "executeStateWithRecovery 4 quiet_env [0] message_M order_input ''M'' = Some (Ok (pause_result, None, None))"
  by code_simp

lemma quiet_env_simps: "ctx_done quiet_env ev = None" "now_ns quiet_env ev = 0"
  by (simp_all add: quiet_env_def)

lemma message_engine_M: "map_of (sm_States (ps_machine message_engine)) ''M'' = Some message_M"
  by (simp add: engine_def machine_def)

lemma pause_run: "Persistent_RunExecution 5 quiet_env message_engine GNil (start ''M'' order_input) saved_store = Some pause_outcome"
proof -
  let ?c = "\<lparr>pc_step = 0, pc_StateName = ''M'', pc_Exec = start ''M'' order_input, pc_Store = saved_store\<rparr>"
  have "prun_once 4 quiet_env message_engine ?c = Some (Inr pause_outcome)"
    using prun_once_state [of quiet_env ?c message_engine message_M 4 pause_result None None] pause_exec message_engine_M
    by (simp add: pause_result_def start_def NewContext_def quiet_env_simps pause_outcome_def)
  then show ?thesis by (simp add: prun_start start_def NewContext_def eval_nat_numeral)
qed

lemma pause_observed:
  "pobserve (\<lambda>x e s. (Status x, CurrentState x, map cr_status (db_correlations (fst s)), map xr_status (db_executions (fst s)),
      snd s (''timeout'', ''timeout-corr-e1-M'') \<noteq> None, e)) (Some pause_outcome)
   = Some (''PAUSED'', ''M'', [''WAITING''], [''PAUSED''], True, None)"
  by code_simp

theorem Persistent_RunExecution_complete_witness:
  "\<exists>x e s'. Persistent_RunExecution 5 quiet_env message_engine GNil (start ''M'' order_input) saved_store = Some (Ok (x, e), s') \<and>
     ExecError x = e \<and> Status x = ''PAUSED'' \<and> e = None \<and> Output x = Input x"
proof -
  from pause_observed obtain x e s' where run: "pause_outcome = (Ok (x, e), s')" "Status x = ''PAUSED''" "e = None"
    unfolding pobserve_Some by auto
  have "ExecError (start ''M'' order_input) = None" by (simp add: start_def NewContext_def)
  from Persistent_RunExecution_complete [OF pause_run [unfolded run(1)] this] run(2,3) have "ExecError x = e" "Output x = Input x" by auto
  with run pause_run show ?thesis by metis
qed

theorem Persistent_RunExecution_terminates_witness:
  "\<exists>n. \<forall>m\<ge>n. \<forall>env input s. Persistent_RunExecution m env (engine plain_pg ''A'' pass_machine) input (start ''A'' GNil) s \<noteq> None"
proof -
  have "ps_machine (engine plain_pg ''A'' pass_machine) = machine ''A'' pass_machine" by (simp add: engine_def)
  then show ?thesis using Persistent_RunExecution_terminates [of _ "engine plain_pg ''A'' pass_machine"] pass_machine_ranked by metis
qed

text \<open>C18: No execution is resumed twice in sequence. When a message has resumed a paused execution, its correlation was marked RECEIVED, and the run did not pause there
  again, then a timeout trigger for that correlation, however late, changes neither the tables nor the queue: it reads the correlation and stops. This
  holds on PostgreSQL with any faults of the connection.\<close>

theorem timeout_after_message_ignored:
  assumes "ps_repository pm = on_database (Postgres_repository pg)" and "ps_queueClient pm = Some (queue_on cd policy)"
    and "\<not> is_timeout_input x"
    and "fst (Postgres_UpdateCorrelationStatus pg (correlation_id (ID x) (CurrentState x)) ''RECEIVED'' (fst s)) = Ok ()"
    and "Persistent_ResumeExecution fuel env pm x s = Some (Ok (x', e), s')"
    and "Status x' = ''PAUSED'' \<longrightarrow> correlation_id (ID x') (CurrentState x') \<noteq> correlation_id (ID x) (CurrentState x)"
  shows "\<exists>r. ProcessTimeoutTrigger fuel' env' pm (correlation_id (ID x) (CurrentState x)) s' =
    Some (r, (fst s')\<lparr>db_tick := Suc (db_tick (fst s'))\<rparr>, snd s')"
proof -
  let ?i = "correlation_id (ID x) (CurrentState x)" and ?rp = "on_database (Postgres_repository pg) :: ('a db \<times> aq_state) repository"
  have "fst (Manager_UpdateCorrelationStatus ?rp ?i ''RECEIVED'' s) = Ok ()"
    using assms(4) by (simp add: Manager_UpdateCorrelationStatus_def on_database_def)
  moreover have "snd (Manager_GetMessageCorrelation ?rp ?i s') = ((fst s')\<lparr>db_tick := Suc (db_tick (fst s'))\<rparr>, snd s')"
    by (rule prod_eqI) (simp_all add: Manager_GetMessageCorrelation_def on_database_def GetMessageCorrelation_state)
  ultimately show ?thesis
    using eng.timeout_after_message [OF assms(1,2,3) _ assms(5), of "()" fuel' env'] assms(6) by simp
qed

definition answered :: execution where
  "answered = (start ''M'' (GMap [(''order'', GString ''42''), (receivedMessageKey ''M'', GMap [(''data'', GString ''paid'')])]))\<lparr>Status := ''PAUSED''\<rparr>"

definition resumed_store :: "gval db \<times> aq_state" where
  "resumed_store = persistExecution message_engine (answered\<lparr>Status := ''RUNNING''\<rparr>) (settle_correlation message_engine answered (snd pause_outcome))"

definition resume_outcome :: "(gval db \<times> aq_state) pconfig + run_result \<times> gval db \<times> aq_state" where
  "resume_outcome = advance quiet_env 0 message_engine (numbered_execution (answered\<lparr>Status := ''RUNNING''\<rparr>))
      (snd (newStateHistory 0 ''M'' message_M (answered\<lparr>Status := ''RUNNING''\<rparr>))) message_M ''M'' (GString ''paid'') None None resumed_store"

lemma resume_exec: "executeStateWithRecovery 4 quiet_env [0] message_M (Input answered) ''M'' = Some (Ok (GString ''paid'', None, None))"
  by code_simp

lemma resume_run:
  obtains x' s' where "Persistent_ResumeExecution 5 quiet_env message_engine answered (snd pause_outcome) = Some (Ok (x', None), s')" "Status x' = ''SUCCEEDED''"
proof -
  let ?c = "\<lparr>pc_step = 0, pc_StateName = ''M'', pc_Exec = answered\<lparr>Status := ''RUNNING''\<rparr>, pc_Store = resumed_store\<rparr>"
  have "IsEnd message_M" by code_simp
  then obtain x' s' where adv: "resume_outcome = Inr (Ok (x', None), s')" "Status x' = ''SUCCEEDED''"
    by (simp add: resume_outcome_def advance_def Let_def)
  have "prun_once 4 quiet_env message_engine ?c = Some resume_outcome"
    using prun_once_state [of quiet_env ?c message_engine message_M 4 "GString ''paid''" None None] resume_exec message_engine_M
    by (simp add: quiet_env_simps resume_outcome_def)
  then have "Persistent_ResumeExecution 5 quiet_env message_engine answered (snd pause_outcome) = Some (Ok (x', None), s')"
    by (simp add: Persistent_ResumeExecution_def prun_start answered_def start_def NewContext_def eval_nat_numeral adv(1)
        resumed_store_def Let_def)
  with that adv(2) show thesis by blast
qed

theorem timeout_after_message_ignored_witness:
  "\<exists>x' s' r. Persistent_ResumeExecution 5 quiet_env message_engine answered (snd pause_outcome) = Some (Ok (x', None), s') \<and>
     ProcessTimeoutTrigger 5 quiet_env message_engine ''corr-e1-M'' s' = Some (r, (fst s')\<lparr>db_tick := Suc (db_tick (fst s'))\<rparr>, snd s')"
proof -
  obtain x' s' where run: "Persistent_ResumeExecution 5 quiet_env message_engine answered (snd pause_outcome) = Some (Ok (x', None), s')" "Status x' = ''SUCCEEDED''"
    by (rule resume_run)
  have corr: "correlation_id (ID answered) (CurrentState answered) = ''corr-e1-M''"
    by (simp add: correlation_id_def answered_def start_def NewContext_def)
  have upd: "fst (Postgres_UpdateCorrelationStatus plain_pg ''corr-e1-M'' ''RECEIVED'' (fst (snd pause_outcome))) = Ok ()" by code_simp
  have "\<not> is_timeout_input answered" by code_simp
  with timeout_after_message_ignored [OF _ _ _ _ run(1), of plain_pg sample_codec None 5 quiet_env] upd run show ?thesis
    unfolding corr by (auto simp: engine_def)
qed

text \<open>What the first iteration makes of a timeout trigger at a Message state with the default paths.\<close>

lemma Message_timeout_step:
  assumes "ctx_done env [pc_step c, 6] = None" and "map_of (sm_States (ps_machine pm)) (pc_StateName c) = Some (MessageState msg)"
    and "InputPath msg = None" and "ResultPath msg = None" and "OutputPath msg = None" and "TimeoutPath msg = Some p" and "p \<noteq> []"
    and "Input (pc_Exec c) = GMap m" and "map_of m (timeoutTriggerKey (Name msg)) \<noteq> None"
  obtains v where "map_of v ''status'' = Some (GString ''TIMEOUT'')"
    "\<not> End msg \<Longrightarrow> \<exists>c'. prun_once f env pm c = Some (Inl c') \<and> pc_step c' = Suc (pc_step c) \<and> pc_StateName c' = p \<and> CurrentState (pc_Exec c') = p \<and>
      ID (pc_Exec c') = ID (pc_Exec c) \<and> Status (pc_Exec c') = Status (pc_Exec c) \<and> MergeInputs (GMap m) (GMap v) = Ok (Input (pc_Exec c'))"
    "End msg \<Longrightarrow> \<exists>x s. prun_once f env pm c = Some (Inr (Ok (x, None), persistExecution pm x s)) \<and> ID x = ID (pc_Exec c) \<and>
      Status x = ''SUCCEEDED'' \<and> Output x = GMap v"
proof -
  obtain t where "map_of m (timeoutTriggerKey (Name msg)) = Some t" using assms(9) by auto
  from MessageState_timeout_out [OF assms(3-5) this] assms(6) obtain v where v: "MessageState_Execute env [pc_step c] msg (GMap m) = Returned (GMap v) (Some p) None"
      "map_of v ''status'' = Some (GString ''TIMEOUT'')"
    by fastforce
  have "executeStateWithRecovery f env [pc_step c] (MessageState msg) (Input (pc_Exec c)) (pc_StateName c) = Some (Ok (GMap v, Some p, None))"
    by (simp add: executeStateWithRecovery_def assms(8) v(1))
  note once = prun_once_state [OF assms(1,2) this]
  obtain m2 where m2: "MergeInputs (GMap m) (GMap v) = Ok m2" using MergeInputs_Ok by blast
  have ending: "BaseState_IsEnd (base_state.truncate msg) = End msg" by (simp add: BaseState_IsEnd_def base_state.defs)
  show thesis
  proof (rule that [OF v(2)])
    assume "\<not> End msg"
    with once m2 assms(7,8) show "\<exists>c'. prun_once f env pm c = Some (Inl c') \<and> pc_step c' = Suc (pc_step c) \<and> pc_StateName c' = p \<and> CurrentState (pc_Exec c') = p \<and>
      ID (pc_Exec c') = ID (pc_Exec c) \<and> Status (pc_Exec c') = Status (pc_Exec c) \<and> MergeInputs (GMap m) (GMap v) = Ok (Input (pc_Exec c'))"
      by (simp add: advance_def Let_def ending)
  next
    assume "End msg"
    with once show "\<exists>x s. prun_once f env pm c = Some (Inr (Ok (x, None), persistExecution pm x s)) \<and> ID x = ID (pc_Exec c) \<and>
      Status x = ''SUCCEEDED'' \<and> Output x = GMap v" by (simp add: advance_def Let_def ending) blast
  qed
qed

text \<open>C19: A timeout is never lost. The trigger of a correlation that still waits reaches a PAUSED execution whose state is a map, and the machine has at the
  execution's current state a Message state of that name with a \<open>TimeoutPath\<close> and without \<open>InputPath\<close>, \<open>ResultPath\<close> and
  \<open>OutputPath\<close>. If the state is not an end state, the execution continues at the \<open>TimeoutPath\<close>, RUNNING, on its input merged with the TIMEOUT
  result, whatever message may be in the input too; if it is an end state, the execution has SUCCEEDED with the TIMEOUT result as its output and is saved.
  The context is not done when the run starts.\<close>

theorem ProcessTimeoutTrigger_resumes:
  assumes "Manager_GetMessageCorrelation (ps_repository pm) i s = (Ok corr, s1)" and "mc_Status corr = ''WAITING''"
    and "rp_GetExecution (ps_repository pm) (mc_ExecutionID corr) s1 = (Ok rec, s2)"
    and "er_Status rec = ''PAUSED''" and "er_StartTime rec = Some t" and "er_Output rec = GMap m" and "distinct_keys m"
    and "map_of (sm_States (ps_machine pm)) (er_CurrentState rec) = Some (MessageState msg)" and "Name msg = er_CurrentState rec"
    and "InputPath msg = None" and "ResultPath msg = None" and "OutputPath msg = None" and "TimeoutPath msg = Some p" and "p \<noteq> []"
    and "ctx_done env [0, 6] = None"
  shows "\<exists>v m2. map_of v ''status'' = Some (GString ''TIMEOUT'') \<and> MergeInputs (er_Output rec) (timeout_input rec corr i) = Ok (GMap m2) \<and>
    (\<not> End msg \<longrightarrow> (\<exists>c. ProcessTimeoutTrigger (Suc fuel) env pm i s =
        map_option (\<lambda>(r, s4). (rbind r (\<lambda>(_, e). case e of None \<Rightarrow> Ok () | Some err \<Rightarrow> Err err), s4)) (prun_loop fuel env pm c) \<and>
      pc_StateName c = p \<and> pc_step c = 1 \<and> CurrentState (pc_Exec c) = p \<and> ID (pc_Exec c) = er_ExecutionID rec \<and> Status (pc_Exec c) = ''RUNNING'' \<and>
      MergeInputs (GMap m2) (GMap v) = Ok (Input (pc_Exec c)))) \<and>
    (End msg \<longrightarrow> (\<exists>x s3. ProcessTimeoutTrigger (Suc fuel) env pm i s = Some (Ok (), persistExecution pm x s3) \<and>
      ID x = er_ExecutionID rec \<and> Status x = ''SUCCEEDED'' \<and> Output x = GMap v))"
proof -
  let ?in = "timeout_input rec corr i" and ?k = "timeoutTriggerKey (er_CurrentState rec)"
  obtain b where b: "?in = GMap b" "distinct_keys b" "map_of b ?k = Some (GBool True)"
    by (simp add: timeout_input_def timeoutTriggerKey_def)
  have merge: "MergeInputs (er_Output rec) ?in = Ok (GMap (mergeMaps m b))"
    by (simp add: assms(6) b(1) MergeInputs_def ApplyResultPath_def setValue_def HasPrefix_def)
  have key: "map_of (mergeMaps m b) (timeoutTriggerKey (Name msg)) \<noteq> None"
    using map_of_mergeMaps [OF assms(7) b(2), of ?k] b(3) assms(9) by (cases "nonnil (map_of m ?k)" rule: option.exhaust) (auto simp: nonnil_def)
  define x0 where "x0 = (NewContext (er_ExecutionID rec) t (er_Name rec) (er_CurrentState rec) (GMap (mergeMaps m b)))
    \<lparr>StateMachineID := er_StateMachineID rec, Status := er_Status rec, HistorySequenceNumber := er_HistorySequenceNumber rec\<rparr>"
  have x0: "timeout_execution rec (GMap (mergeMaps m b)) = Ok x0" by (simp add: timeout_execution_def assms(5) x0_def)
  have out: "Output x0 = GNil" "Status x0 = ''PAUSED''" "Input x0 = GMap (mergeMaps m b)" "ID x0 = er_ExecutionID rec" "CurrentState x0 = er_CurrentState rec"
    by (simp_all add: x0_def NewContext_def assms(4))
  let ?c = "\<lparr>pc_step = 0, pc_StateName = er_CurrentState rec, pc_Exec = x0\<lparr>Status := ''RUNNING''\<rparr>,
      pc_Store = persistExecution pm (x0\<lparr>Status := ''RUNNING''\<rparr>) (settle_correlation pm x0 s2)\<rparr>"
  have run: "ProcessTimeoutTrigger (Suc fuel) env pm i s =
      map_option (\<lambda>(r, s4). (rbind r (\<lambda>(_, e). case e of None \<Rightarrow> Ok () | Some err \<Rightarrow> Err err), s4)) (prun_loop (Suc fuel) env pm ?c)"
    using assms(1-3) by (simp add: ProcessTimeoutTrigger_def op_wrap_def merge x0 Persistent_ResumeExecution_def Persistent_RunExecution_def out Let_def)
  have c: "ctx_done env [pc_step ?c, 6] = None" "map_of (sm_States (ps_machine pm)) (pc_StateName ?c) = Some (MessageState msg)"
      "Input (pc_Exec ?c) = GMap (mergeMaps m b)" using assms(8,15) out(3) by simp_all
  show ?thesis
  proof (rule Message_timeout_step [OF c(1,2) assms(10-14) c(3) key, of fuel], goal_cases)
    case (1 v)
    show ?case
    proof (rule exI [of _ v], rule exI [of _ "mergeMaps m b"], intro conjI impI)
      assume "\<not> End msg"
      from 1(2) [OF this] obtain c' where "prun_once fuel env pm ?c = Some (Inl c')" "pc_step c' = 1" "pc_StateName c' = p" "CurrentState (pc_Exec c') = p"
          "ID (pc_Exec c') = er_ExecutionID rec" "Status (pc_Exec c') = ''RUNNING''" "MergeInputs (GMap (mergeMaps m b)) (GMap v) = Ok (Input (pc_Exec c'))"
        by (auto simp: out)
      then show "\<exists>c. ProcessTimeoutTrigger (Suc fuel) env pm i s =
          map_option (\<lambda>(r, s4). (rbind r (\<lambda>(_, e). case e of None \<Rightarrow> Ok () | Some err \<Rightarrow> Err err), s4)) (prun_loop fuel env pm c) \<and>
        pc_StateName c = p \<and> pc_step c = 1 \<and> CurrentState (pc_Exec c) = p \<and> ID (pc_Exec c) = er_ExecutionID rec \<and> Status (pc_Exec c) = ''RUNNING'' \<and>
        MergeInputs (GMap (mergeMaps m b)) (GMap v) = Ok (Input (pc_Exec c))"
        by (intro exI [of _ c']) (simp add: run)
    next
      assume "End msg"
      from 1(3) [OF this] obtain x s3 where "prun_once fuel env pm ?c = Some (Inr (Ok (x, None), persistExecution pm x s3))" "ID x = er_ExecutionID rec"
          "Status x = ''SUCCEEDED''" "Output x = GMap v" by (auto simp: out)
      then show "\<exists>x s3. ProcessTimeoutTrigger (Suc fuel) env pm i s = Some (Ok (), persistExecution pm x s3) \<and>
          ID x = er_ExecutionID rec \<and> Status x = ''SUCCEEDED'' \<and> Output x = GMap v"
        by (intro exI [of _ x] exI [of _ s3]) (simp add: run)
    qed (simp_all add: 1(1) merge)
  qed
qed

text \<open>The engine of the example with a Message state that is not an end state.\<close>

definition timeout_engine :: "(gval db \<times> aq_state) persistent" where
  "timeout_engine = message_engine\<lparr>ps_machine := machine ''M''
     [(''M'', MessageState (sample_message\<lparr>CorrelationValuePath := Some ''$.order''\<rparr>)), (''N'', pass_end ''N'' GNil), (''L'', pass_end ''L'' GNil)]\<rparr>"

theorem ProcessTimeoutTrigger_resumes_witness:
  "\<exists>c. ProcessTimeoutTrigger 5 quiet_env timeout_engine ''corr-e1-M'' (snd pause_outcome) =
      map_option (\<lambda>(r, s4). (rbind r (\<lambda>(_, e). case e of None \<Rightarrow> Ok () | Some err \<Rightarrow> Err err), s4)) (prun_loop 4 quiet_env timeout_engine c) \<and>
    pc_StateName c = ''L'' \<and> ID (pc_Exec c) = ''e1''"
proof -
  let ?msg = "sample_message\<lparr>CorrelationValuePath := Some ''$.order''\<rparr>"
  have rp: "ps_repository timeout_engine = ps_repository message_engine" by (simp add: timeout_engine_def)
  have "(case Manager_GetMessageCorrelation (ps_repository message_engine) ''corr-e1-M'' (snd pause_outcome) of
      (Ok c, s) \<Rightarrow> (mc_Status c, mc_ExecutionID c, (case fst (rp_GetExecution (ps_repository message_engine) (mc_ExecutionID c) s) of
          Ok r \<Rightarrow> Some (er_ExecutionID r, er_Status r, er_CurrentState r, er_StartTime r, er_Output r) | _ \<Rightarrow> None)) | _ \<Rightarrow> ([], [], None)) =
    (''WAITING'', ''e1'', Some (''e1'', ''PAUSED'', ''M'', Some 5000, GMap [(''order'', GString ''42'')]))" by code_simp
  then obtain c s1 r s2 where "Manager_GetMessageCorrelation (ps_repository message_engine) ''corr-e1-M'' (snd pause_outcome) = (Ok c, s1)"
      "mc_Status c = ''WAITING''" "rp_GetExecution (ps_repository message_engine) (mc_ExecutionID c) s1 = (Ok r, s2)"
      "er_ExecutionID r = ''e1''" "er_Status r = ''PAUSED''" "er_CurrentState r = ''M''" "er_StartTime r = Some 5000" "er_Output r = GMap [(''order'', GString ''42'')]"
    by (auto split: prod.splits res.splits option.splits intro: prod.collapse) (metis prod.collapse)
  note paused = this [folded rp]
  have st: "map_of (sm_States (ps_machine timeout_engine)) (er_CurrentState r) = Some (MessageState ?msg)"
    by (simp add: paused(6) timeout_engine_def machine_def)
  have msg: "Name ?msg = er_CurrentState r" "InputPath ?msg = None" "ResultPath ?msg = None" "OutputPath ?msg = None" "TimeoutPath ?msg = Some ''L''" "\<not> End ?msg"
    unfolding paused(6) by code_simp+
  from ProcessTimeoutTrigger_resumes [OF paused(1-3,5,7,8) _ st msg(1-5) _ quiet_env_simps(1), of 4] msg(6) paused(4) show ?thesis by auto
qed

text \<open>The Message state of the example with a \<open>ResultPath\<close> and a next state.\<close>

definition message_R :: state where
  "message_R = MessageState (sample_message\<lparr>CorrelationValuePath := Some ''$.order'', ResultPath := Some ''$.wait''\<rparr>)"

definition path_engine :: "(gval db \<times> aq_state) persistent" where
  "path_engine = engine plain_pg ''M'' [(''M'', message_R), (''N'', pass_end ''N'' GNil), (''L'', pass_end ''L'' GNil)]"

definition path_output :: gval where
  "path_output = GMap [(''order'', GString ''42''), (''wait'', pause_result)]"

lemma path_exec: "executeStateWithRecovery 4 quiet_env [0] message_R order_input ''M'' = Some (Ok (path_output, None, None))"
  by code_simp

text \<open>A Message state with a \<open>ResultPath\<close> cannot wait in the persistent engine. Its definition is valid, but the WAITING result is wrapped by the path, the engine does
  not recognise it, stores no correlation, and the execution fails because the state gives no next state.\<close>

theorem Message_ResultPath_fails:
  "Validate message_R = None \<and>
   (\<exists>x s. Persistent_RunExecution 5 quiet_env path_engine GNil (start ''M'' order_input) empty_store =
       Some (Ok (x, Some (ErrorNew ''non-terminal state M did not provide next state'')), s) \<and>
     Status x = ''FAILED'' \<and> db_correlations (fst s) = [])"
proof
  show "Validate message_R = None" by code_simp
  let ?c = "\<lparr>pc_step = 0, pc_StateName = ''M'', pc_Exec = start ''M'' order_input, pc_Store = empty_store\<rparr>"
  let ?adv = "advance quiet_env 0 path_engine (numbered_execution (start ''M'' order_input)) (snd (newStateHistory 0 ''M'' message_R (start ''M'' order_input)))
      message_R ''M'' path_output None None empty_store"
  have "(case ?adv of Inr (Ok (x, e), s) \<Rightarrow> Some (Status x, e, length (db_correlations (fst s))) | _ \<Rightarrow> None) =
      Some (''FAILED'', Some (ErrorNew ''non-terminal state M did not provide next state''), 0)" by code_simp
  then obtain x s where adv: "?adv = Inr (Ok (x, Some (ErrorNew ''non-terminal state M did not provide next state'')), s)"
      "Status x = ''FAILED''" "db_correlations (fst s) = []"
    by (auto split: sum.splits prod.splits res.splits)
  have st: "map_of (sm_States (ps_machine path_engine)) ''M'' = Some message_R" by (simp add: path_engine_def engine_def machine_def)
  have "prun_once 4 quiet_env path_engine ?c = Some ?adv"
    using prun_once_state [of quiet_env ?c path_engine message_R 4 path_output None None] path_exec st
    by (simp add: quiet_env_simps path_output_def start_def NewContext_def)
  with adv show "\<exists>x s. Persistent_RunExecution 5 quiet_env path_engine GNil (start ''M'' order_input) empty_store =
       Some (Ok (x, Some (ErrorNew ''non-terminal state M did not provide next state'')), s) \<and> Status x = ''FAILED'' \<and> db_correlations (fst s) = []"
    by (simp add: prun_start start_def NewContext_def eval_nat_numeral)
qed

end
