(* ===== verification/Recovery.thy ===== *)
theory Recovery
  imports Persistent
begin

text \<open>
  Crash recovery (\<open>pkg/recovery/recovery.go\<close>): finding executions that are stuck in RUNNING, rebuilding an execution from its stored record and
  history, the strategies, and the background scanner with its start and stop. The recovery function is an argument; the one that
  \<open>StartRecoveryScanner\<close> of the persistent engine passes is \<open>engine_recovery\<close>. The scanner runs in goroutines, so a panic there ends the
  process. \<open>clock\<close> gives the readings of the clock within one call.
\<close>

section \<open>Configuration\<close>

abbreviation StrategyRetry :: string where "StrategyRetry \<equiv> ''RETRY''"
abbreviation StrategySkip :: string where "StrategySkip \<equiv> ''SKIP''"
abbreviation StrategyFail :: string where "StrategyFail \<equiv> ''FAIL''"
abbreviation StrategyPause :: string where "StrategyPause \<equiv> ''PAUSE''"

record recovery_config =
  rc_Enabled :: bool
  rc_ScanInterval :: int
  rc_OrphanedThreshold :: int
  rc_DefaultRecoveryStrategy :: string
  rc_DefaultMaxRecoveryAttempts :: int
  rc_StateMachineID :: string

definition DefaultRecoveryConfig :: recovery_config where
  "DefaultRecoveryConfig =
    \<lparr>rc_Enabled = True, rc_ScanInterval = 30 * 10 ^ 9, rc_OrphanedThreshold = 300 * 10 ^ 9,
     rc_DefaultRecoveryStrategy = StrategyRetry, rc_DefaultMaxRecoveryAttempts = 3, rc_StateMachineID = []\<rparr>"

text \<open>A recovery function runs an execution; the channel \<open>stopChan\<close> is only ever closed.\<close>

type_synonym 's recovery_func = "nat \<Rightarrow> env \<Rightarrow> execution \<Rightarrow> 's \<Rightarrow> (run_result \<times> 's) option"

record 's recovery_manager =
  rm_repositoryManager :: "'s repository"
  rm_config :: recovery_config
  rm_stopChanClosed :: bool
  rm_isRunning :: bool
  rm_recoveryFunc :: "'s recovery_func option"

definition NewRecoveryManager :: "'s repository \<Rightarrow> recovery_config option \<Rightarrow> 's recovery_manager" where
  "NewRecoveryManager repositoryManager config =
    \<lparr>rm_repositoryManager = repositoryManager,
     rm_config = (case config of Some c \<Rightarrow> c | None \<Rightarrow> DefaultRecoveryConfig),
     rm_stopChanClosed = False, rm_isRunning = False, rm_recoveryFunc = None\<rparr>"

definition engine_recovery :: "'s persistent \<Rightarrow> 's recovery_func" where
  "engine_recovery pm fuel env x s = Persistent_RunExecution fuel env pm (Input x) x s"

section \<open>Finding orphaned executions\<close>

record orphaned_execution =
  oe_ExecutionID :: string
  oe_StateMachineID :: string
  oe_CurrentState :: string
  oe_Status :: string
  oe_StartTime :: int
  oe_LastUpdateTime :: int
  oe_Duration :: int
  oe_RecoveryMetadata :: "repo_recovery_metadata option"

definition nil_dereference :: string where
  "nil_dereference = ''runtime error: invalid memory address or nil pointer dereference''"

fun orphans_of :: "int \<Rightarrow> execution_record list \<Rightarrow> orphaned_execution list res" where
  "orphans_of now [] = Ok []"
| "orphans_of now (r # rs) =
     (case er_StartTime r of
        None \<Rightarrow> Panic nil_dereference
      | Some t \<Rightarrow>
          rbind (orphans_of now rs) (\<lambda>os. Ok
            (\<lparr>oe_ExecutionID = er_ExecutionID r, oe_StateMachineID = er_StateMachineID r, oe_CurrentState = er_CurrentState r,
              oe_Status = er_Status r, oe_StartTime = t,
              oe_LastUpdateTime = (case er_UpdatedAt r of Some u \<Rightarrow> u | None \<Rightarrow> zero_time),
              oe_Duration = time_sub now t, oe_RecoveryMetadata = er_RecoveryMetadata r\<rparr> # os)))"

definition FindOrphanedExecutions :: "int \<Rightarrow> 's recovery_manager \<Rightarrow> ('s, orphaned_execution list) op" where
  "FindOrphanedExecutions now rm =
    (if \<not> rc_Enabled (rm_config rm) then op_return (Ok [])
     else op_bind (op_wrap ''failed to find orphaned executions''
         (rp_FindOrphanedExecutions (rm_repositoryManager rm) (rc_StateMachineID (rm_config rm)) (rc_OrphanedThreshold (rm_config rm))))
       (\<lambda>executions. op_return (orphans_of now executions)))"

section \<open>Rebuilding an execution\<close>

definition findLastSuccessfulState :: "state_history_record list \<Rightarrow> string" where
  "findLastSuccessfulState history =
    (case find (\<lambda>h. hr_Status h = ''SUCCEEDED'') (rev history) of Some h \<Rightarrow> hr_StateName h | None \<Rightarrow> [])"

definition getLastSuccessfulStateOutput :: "state_history_record list \<Rightarrow> string \<Rightarrow> gval" where
  "getLastSuccessfulStateOutput history stateName =
    (case find (\<lambda>h. hr_StateName h = stateName \<and> hr_Status h = ''SUCCEEDED'') (rev history) of
       Some h \<Rightarrow> hr_Output h
     | None \<Rightarrow> GNil)"

definition error_text :: "string \<Rightarrow> err option" where
  "error_text m = (if m \<noteq> [] then Some (ErrorNew m) else None)"

fun rebuild_history :: "state_history_record list \<Rightarrow> state_history list res" where
  "rebuild_history [] = Ok []"
| "rebuild_history (h # hs) =
     (case hr_StartTime h of
        None \<Rightarrow> Panic nil_dereference
      | Some t \<Rightarrow>
          rbind (rebuild_history hs) (\<lambda>rest. Ok
            (\<lparr>sh_StateName = hr_StateName h, sh_StateType = hr_StateType h, sh_Status = hr_Status h, sh_Input = hr_Input h,
              sh_Output = hr_Output h, sh_Timestamp = zero_time, sh_StartTime = Some t, sh_EndTime = hr_EndTime h,
              sh_RetryCount = hr_RetryCount h, sh_SequenceNumber = hr_SequenceNumber h, sh_Error = error_text (hr_Error h)\<rparr> # rest)))"

text \<open>The recovery metadata of the rebuilt execution, with the last successful state of the history.\<close>

definition note_last_success :: "state_history_record list \<Rightarrow> execution \<Rightarrow> execution" where
  "note_last_success history x =
    (let name = findLastSuccessfulState history; out = getLastSuccessfulStateOutput history name;
         m = the (RecoveryMetadata x)
     in if name = [] then x
        else x\<lparr>RecoveryMetadata := Some (if out \<noteq> GNil then m\<lparr>LastSuccessfulState := name, LastSuccessfulStateOutput := out\<rparr>
                                        else m\<lparr>LastSuccessfulState := name\<rparr>)\<rparr>)"

definition reconstructExecution ::
  "int \<Rightarrow> 's recovery_manager \<Rightarrow> execution_record \<Rightarrow> state_history_record list \<Rightarrow> execution res" where
  "reconstructExecution now rm record history =
    (case er_StartTime record of
       None \<Rightarrow> Panic nil_dereference
     | Some t \<Rightarrow>
         rbind (rebuild_history history) (\<lambda>h.
           let x = \<lparr>StateMachineID = er_StateMachineID record, ID = er_ExecutionID record, ExecName = er_Name record,
                     Status = er_Status record, StartTime = t, EndTime = er_EndTime record, Input = er_Input record,
                     Output = er_Output record, ExecError = error_text (er_Error record), CurrentState = er_CurrentState record,
                     History = h, HistorySequenceNumber = er_HistorySequenceNumber record, Metadata = None,
                     RecoveryMetadata = None\<rparr>;
               x1 = (case er_RecoveryMetadata record of
                       Some m \<Rightarrow> x\<lparr>RecoveryMetadata := Some (record_metadata m)\<rparr>
                     | None \<Rightarrow> PrepareForRecovery x (rc_DefaultMaxRecoveryAttempts (rm_config rm))
                                (rc_DefaultRecoveryStrategy (rm_config rm)))
           in Ok (MarkCrashDetected now (note_last_success history x1))))"

section \<open>Strategies\<close>

definition recoverWithRetry ::
  "nat \<Rightarrow> env \<Rightarrow> execution \<Rightarrow> 's recovery_func \<Rightarrow> 's \<Rightarrow> (unit res \<times> 's) option" where
  "recoverWithRetry fuel env x recoveryFunc s =
    (let recoveryInput = GetRecoveryInput x;
         x1 = (if recoveryInput \<noteq> GNil then x\<lparr>Input := recoveryInput\<rparr> else x)
     in map_option (\<lambda>(r, s1). (rbind r (\<lambda>(_, e). case e of None \<Rightarrow> Ok () | Some err \<Rightarrow> Err err), s1)) (recoveryFunc fuel env x1 s))"

definition recoverWithSkip ::
  "nat \<Rightarrow> env \<Rightarrow> execution \<Rightarrow> 's recovery_func \<Rightarrow> 's \<Rightarrow> (unit res \<times> 's) option" where
  "recoverWithSkip fuel env x recoveryFunc s = recoverWithRetry fuel env x recoveryFunc s"

definition markExecutionFailed :: "int \<Rightarrow> 's recovery_manager \<Rightarrow> execution \<Rightarrow> err \<Rightarrow> ('s, unit) op" where
  "markExecutionFailed now rm x e =
    Manager_SaveExecution (rm_repositoryManager rm) (x\<lparr>Status := ''FAILED'', ExecError := Some e, EndTime := Some now\<rparr>)"

definition markExecutionPaused :: "int \<Rightarrow> 's recovery_manager \<Rightarrow> execution \<Rightarrow> ('s, unit) op" where
  "markExecutionPaused now rm x =
    op_wrap ''failed to save paused execution''
      (Manager_SaveExecution (rm_repositoryManager rm) (x\<lparr>Status := ''PAUSED'', EndTime := Some now\<rparr>))"

text \<open>From the rebuilt execution: give up, or apply the strategy.\<close>

definition apply_strategy ::
  "nat \<Rightarrow> env \<Rightarrow> (nat \<Rightarrow> int) \<Rightarrow> 's recovery_manager \<Rightarrow> execution \<Rightarrow> 's recovery_func \<Rightarrow> 's \<Rightarrow> (unit res \<times> 's) option" where
  "apply_strategy fuel env clock rm x recoveryFunc s =
    (if \<not> CanRecover x then Some (markExecutionFailed (clock 2) rm x (ErrorNew ''max recovery attempts exceeded'') s)
     else
       (let x1 = MarkRecoveryAttempt (clock 1) x; strategy = rc_DefaultRecoveryStrategy (rm_config rm) in
        if strategy = StrategyRetry then recoverWithRetry fuel env x1 recoveryFunc s
        else if strategy = StrategySkip then recoverWithSkip fuel env x1 recoveryFunc s
        else if strategy = StrategyFail then Some (markExecutionFailed (clock 2) rm x1 (ErrorNew ''recovery strategy is FAIL'') s)
        else if strategy = StrategyPause then Some (markExecutionPaused (clock 2) rm x1 s)
        else recoverWithRetry fuel env x1 recoveryFunc s))"

definition load_crashed :: "int \<Rightarrow> 's recovery_manager \<Rightarrow> string \<Rightarrow> ('s, execution) op" where
  "load_crashed now rm i =
    op_bind (op_wrap ''failed to get execution'' (rp_GetExecution (rm_repositoryManager rm) i)) (\<lambda>execRecord.
    op_bind (op_wrap ''failed to get state history'' (rp_GetStateHistory (rm_repositoryManager rm) i)) (\<lambda>history.
      op_return (reconstructExecution now rm execRecord history)))"

definition RecoverExecution ::
  "nat \<Rightarrow> env \<Rightarrow> (nat \<Rightarrow> int) \<Rightarrow> 's recovery_manager \<Rightarrow> orphaned_execution \<Rightarrow> 's recovery_func \<Rightarrow> 's \<Rightarrow> (unit res \<times> 's) option" where
  "RecoverExecution fuel env clock rm orphaned recoveryFunc s =
    (case load_crashed (clock 0) rm (oe_ExecutionID orphaned) s of
       (Ok x, s1) \<Rightarrow> apply_strategy fuel env clock rm x recoveryFunc s1
     | (Err e, s1) \<Rightarrow> Some (Err e, s1)
     | (Panic p, s1) \<Rightarrow> Some (Panic p, s1)
     | (Crash p, s1) \<Rightarrow> Some (Crash p, s1))"

section \<open>The scanner\<close>

definition StartBackgroundScanner :: "'s recovery_func \<Rightarrow> 's recovery_manager \<Rightarrow> check \<times> 's recovery_manager" where
  "StartBackgroundScanner recoveryFunc rm =
    (if rm_isRunning rm then (Some (ErrorNew ''recovery scanner is already running''), rm)
     else if \<not> rc_Enabled (rm_config rm) then (Some (ErrorNew ''recovery is disabled''), rm)
     else (None, rm\<lparr>rm_isRunning := True, rm_recoveryFunc := Some recoveryFunc\<rparr>))"

definition StopBackgroundScanner :: "'s recovery_manager \<Rightarrow> unit res \<times> 's recovery_manager" where
  "StopBackgroundScanner rm =
    (if \<not> rm_isRunning rm then (Ok (), rm)
     else if rm_stopChanClosed rm then (Panic ''close of closed channel'', rm)
     else (Ok (), rm\<lparr>rm_stopChanClosed := True, rm_isRunning := False\<rparr>))"

text \<open>The loop over the orphans; an error is logged, a panic ends the process.\<close>

fun recover_all ::
  "nat \<Rightarrow> (nat \<Rightarrow> env) \<Rightarrow> (nat \<Rightarrow> nat \<Rightarrow> int) \<Rightarrow> nat \<Rightarrow> 's recovery_manager \<Rightarrow> 's recovery_func \<Rightarrow> orphaned_execution list \<Rightarrow> 's \<Rightarrow>
   (unit res \<times> 's) option" where
  "recover_all fuel envs clocks i rm f [] s = Some (Ok (), s)"
| "recover_all fuel envs clocks i rm f (o1 # os) s =
     (case RecoverExecution fuel (envs i) (clocks i) rm o1 f s of
        None \<Rightarrow> None
      | Some (Panic p, s1) \<Rightarrow> Some (Crash p, s1)
      | Some (Crash p, s1) \<Rightarrow> Some (Crash p, s1)
      | Some (_, s1) \<Rightarrow> recover_all fuel envs clocks (Suc i) rm f os s1)"

definition scanAndRecover ::
  "nat \<Rightarrow> (nat \<Rightarrow> env) \<Rightarrow> int \<Rightarrow> (nat \<Rightarrow> nat \<Rightarrow> int) \<Rightarrow> 's recovery_manager \<Rightarrow> 's recovery_func \<Rightarrow> 's \<Rightarrow> (unit res \<times> 's) option" where
  "scanAndRecover fuel envs now clocks rm f s =
    (case FindOrphanedExecutions now rm s of
       (Ok orphaned, s1) \<Rightarrow> recover_all fuel envs clocks 0 rm f orphaned s1
     | (Err e, s1) \<Rightarrow> Some (Ok (), s1)
     | (Panic p, s1) \<Rightarrow> Some (Crash p, s1)
     | (Crash p, s1) \<Rightarrow> Some (Crash p, s1))"

text \<open>The manager with its goroutines. \<open>sc_live\<close> of them run \<open>backgroundScanner\<close>: each may leave once the channel is closed, and may scan at any tick.\<close>

record 's scanning =
  sc_manager :: "'s recovery_manager"
  sc_live :: nat
  sc_store :: 's

inductive scanner_step :: "'s scanning \<Rightarrow> 's scanning \<Rightarrow> bool" where
  start: "StartBackgroundScanner f (sc_manager c) = (None, rm) \<Longrightarrow>
    scanner_step c (c\<lparr>sc_manager := rm, sc_live := Suc (sc_live c)\<rparr>)"
| stop: "StopBackgroundScanner (sc_manager c) = (Ok (), rm) \<Longrightarrow> scanner_step c (c\<lparr>sc_manager := rm\<rparr>)"
| leave: "rm_stopChanClosed (sc_manager c) \<Longrightarrow> sc_live c = Suc n \<Longrightarrow> scanner_step c (c\<lparr>sc_live := n\<rparr>)"
| tick: "0 < sc_live c \<Longrightarrow> rm_recoveryFunc (sc_manager c) = Some f \<Longrightarrow>
    scanAndRecover fuel envs now clocks (sc_manager c) f (sc_store c) = Some (Ok (), s) \<Longrightarrow> scanner_step c (c\<lparr>sc_store := s\<rparr>)"

section \<open>What is handed to the recovery function\<close>


lemma find_rev: "find P (rev xs) = (if filter P xs = [] then None else Some (last (filter P xs)))"
  by (induction xs rule: rev_induct) auto

text \<open>How often recovery was tried, and how often it may be, according to a stored record.\<close>

definition attempts :: "execution_record \<Rightarrow> int" where
  "attempts record = (case er_RecoveryMetadata record of Some m \<Rightarrow> rr_RecoveryAttemptCount m | None \<Rightarrow> 0)"

definition attempt_limit :: "recovery_config \<Rightarrow> execution_record \<Rightarrow> int" where
  "attempt_limit config record =
    (let n = (case er_RecoveryMetadata record of Some m \<Rightarrow> rr_MaxRecoveryAttempts m | None \<Rightarrow> rc_DefaultMaxRecoveryAttempts config)
     in if n \<le> 0 then 3 else n)"

text \<open>The last entry of a state that succeeded, and the input for recovery: its output, when it has a name and the output is not nil; otherwise the output kept in the
  recovery metadata of the record, when there is one, or the stored input.\<close>

definition last_success :: "state_history_record list \<Rightarrow> state_history_record option" where
  "last_success history = find (\<lambda>h. hr_Status h = ''SUCCEEDED'') (rev history)"

definition stored_input :: "execution_record \<Rightarrow> gval" where
  "stored_input record =
    (case er_RecoveryMetadata record of
       Some m \<Rightarrow> if rr_LastSuccessfulStateOutput m \<noteq> GNil then rr_LastSuccessfulStateOutput m else er_Input record
     | None \<Rightarrow> er_Input record)"

definition recovery_input :: "execution_record \<Rightarrow> state_history_record list \<Rightarrow> gval" where
  "recovery_input record history =
    (case last_success history of
       Some h \<Rightarrow> if hr_StateName h \<noteq> [] \<and> hr_Output h \<noteq> GNil then hr_Output h else stored_input record
     | None \<Rightarrow> stored_input record)"

lemma getLastSuccessfulStateOutput_last:
  assumes "last_success history = Some h"
  shows "getLastSuccessfulStateOutput history (hr_StateName h) = hr_Output h"
proof -
  let ?ok = "\<lambda>h. hr_Status h = ''SUCCEEDED''"
  have "find ?ok ys = Some h \<Longrightarrow> find (\<lambda>k. hr_StateName k = hr_StateName h \<and> ?ok k) ys = Some h" for ys
    by (induction ys) (auto split: if_splits)
  then show ?thesis using assms by (simp add: last_success_def getLastSuccessfulStateOutput_def)
qed

lemma note_last_success_input:
  assumes "RecoveryMetadata x = Some m"
  shows "GetRecoveryInput (note_last_success history x) =
    (case last_success history of
       Some h \<Rightarrow> if hr_StateName h \<noteq> [] \<and> hr_Output h \<noteq> GNil then hr_Output h else GetRecoveryInput x
     | None \<Rightarrow> GetRecoveryInput x)"
proof (cases "last_success history")
  case None
  then show ?thesis by (simp add: note_last_success_def findLastSuccessfulState_def last_success_def)
next
  case (Some h)
  then have "findLastSuccessfulState history = hr_StateName h" by (simp add: findLastSuccessfulState_def last_success_def)
  then show ?thesis using assms Some getLastSuccessfulStateOutput_last [OF Some]
    by (simp add: note_last_success_def GetRecoveryInput_def Let_def)
qed

lemma note_last_success_simps [simp]:
  "ID (note_last_success h x) = ID x" "CurrentState (note_last_success h x) = CurrentState x" "Status (note_last_success h x) = Status x"
  "Input (note_last_success h x) = Input x" "Output (note_last_success h x) = Output x"
  by (simp_all add: note_last_success_def Let_def)

lemma note_last_success_counts:
  assumes "RecoveryMetadata x = Some m"
  shows "\<exists>m'. RecoveryMetadata (note_last_success h x) = Some m' \<and> RecoveryAttemptCount m' = RecoveryAttemptCount m \<and>
    MaxRecoveryAttempts m' = MaxRecoveryAttempts m"
  using assms by (auto simp: note_last_success_def Let_def)

lemma reconstructExecution_spec:
  assumes "reconstructExecution now rm record history = Ok x"
  shows "ID x = er_ExecutionID record \<and> CurrentState x = er_CurrentState record \<and> Status x = er_Status record \<and> Input x = er_Input record \<and>
    CanRecover x = (attempts record < attempt_limit (rm_config rm) record) \<and>
    (\<exists>m. RecoveryMetadata x = Some m \<and> RecoveryAttemptCount m = attempts record) \<and>
    GetRecoveryInput x = recovery_input record history"
proof -
  define x0 where "x0 h t = \<lparr>StateMachineID = er_StateMachineID record, ID = er_ExecutionID record, ExecName = er_Name record,
     Status = er_Status record, StartTime = t, EndTime = er_EndTime record, Input = er_Input record,
     Output = er_Output record, ExecError = error_text (er_Error record), CurrentState = er_CurrentState record,
     History = h, HistorySequenceNumber = er_HistorySequenceNumber record, Metadata = None, RecoveryMetadata = None\<rparr>" for h t
  define x1 where "x1 h t = (case er_RecoveryMetadata record of
       Some m \<Rightarrow> (x0 h t)\<lparr>RecoveryMetadata := Some (record_metadata m)\<rparr>
     | None \<Rightarrow> PrepareForRecovery (x0 h t) (rc_DefaultMaxRecoveryAttempts (rm_config rm)) (rc_DefaultRecoveryStrategy (rm_config rm)))" for h t
  from assms obtain t where t: "er_StartTime record = Some t" by (auto simp: reconstructExecution_def split: option.splits)
  with assms obtain h where x: "x = MarkCrashDetected now (note_last_success history (x1 h t))"
    unfolding reconstructExecution_def x1_def x0_def Let_def by (simp only: t option.case rbind_eq_Ok res.inject) blast
  obtain m where m: "RecoveryMetadata (x1 h t) = Some m" "RecoveryAttemptCount m = attempts record"
      "(if MaxRecoveryAttempts m \<le> 0 then 3 else MaxRecoveryAttempts m) = attempt_limit (rm_config rm) record"
    by (cases "er_RecoveryMetadata record")
      (auto simp: x1_def x0_def PrepareForRecovery_def empty_metadata_def record_metadata_def attempts_def attempt_limit_def Let_def)
  obtain m' where m': "RecoveryMetadata (note_last_success history (x1 h t)) = Some m'" "RecoveryAttemptCount m' = RecoveryAttemptCount m"
      "MaxRecoveryAttempts m' = MaxRecoveryAttempts m"
    using note_last_success_counts [OF m(1)] by blast
  have "GetRecoveryInput x = GetRecoveryInput (note_last_success history (x1 h t))"
    using m'(1) by (simp add: x MarkCrashDetected_def GetRecoveryInput_def metadata_or_def)
  moreover have "GetRecoveryInput (x1 h t) = stored_input record"
    by (simp add: stored_input_def x1_def x0_def GetRecoveryInput_def PrepareForRecovery_def empty_metadata_def record_metadata_def split: option.split)
  ultimately have "GetRecoveryInput x = recovery_input record history"
    by (simp add: recovery_input_def note_last_success_input [OF m(1)] split: option.split)
  moreover have "CanRecover x = (attempts record < attempt_limit (rm_config rm) record)"
    using m m' by (auto simp: x MarkCrashDetected_def CanRecover_def metadata_or_def Let_def split: if_splits)
  ultimately show ?thesis using m'(1,2) m(2)
    by (simp add: x MarkCrashDetected_def metadata_or_def) (simp add: x1_def x0_def PrepareForRecovery_def split: option.split)
qed

lemma load_crashed_Ok:
  "load_crashed now rm i s = (Ok x, s') \<longleftrightarrow>
    (\<exists>record s1 history. rp_GetExecution (rm_repositoryManager rm) i s = (Ok record, s1) \<and>
      rp_GetStateHistory (rm_repositoryManager rm) i s1 = (Ok history, s') \<and> reconstructExecution now rm record history = Ok x)"
  by (auto simp: load_crashed_def op_bind_eq op_wrap_Ok)

section \<open>Properties\<close>

lemma recovery_attempt:
  assumes "reconstructExecution now rm record history = Ok x0" and "x1 = MarkRecoveryAttempt c x0"
    and "x = (if GetRecoveryInput x1 \<noteq> GNil then x1\<lparr>Input := GetRecoveryInput x1\<rparr> else x1)"
  shows "ID x = er_ExecutionID record" "CurrentState x = er_CurrentState record" "Status x = er_Status record"
    "Input x = recovery_input record history" "\<exists>m. RecoveryMetadata x = Some m \<and> RecoveryAttemptCount m = wrap64 (attempts record + 1)"
    "ID x1 = er_ExecutionID record" "CurrentState x1 = er_CurrentState record" "Input x1 = er_Input record"
    "\<exists>m. RecoveryMetadata x1 = Some m \<and> RecoveryAttemptCount m = wrap64 (attempts record + 1)"
proof -
  note spec = reconstructExecution_spec [OF assms(1)]
  obtain m where m: "RecoveryMetadata x0 = Some m" "RecoveryAttemptCount m = attempts record" using spec by blast
  have x1: "ID x1 = ID x0" "CurrentState x1 = CurrentState x0" "Status x1 = Status x0" "Input x1 = Input x0"
      "RecoveryMetadata x1 = Some (m\<lparr>RecoveryAttemptCount := wrap64 (attempts record + 1), LastRecoveryAttemptAt := Some c\<rparr>)"
      "GetRecoveryInput x1 = GetRecoveryInput x0"
    using m by (simp_all add: assms(2) MarkRecoveryAttempt_def GetRecoveryInput_def metadata_or_def Let_def)
  show "ID x = er_ExecutionID record" "CurrentState x = er_CurrentState record" "Status x = er_Status record"
    "\<exists>m. RecoveryMetadata x = Some m \<and> RecoveryAttemptCount m = wrap64 (attempts record + 1)"
    "ID x1 = er_ExecutionID record" "CurrentState x1 = er_CurrentState record" "Input x1 = er_Input record"
    "\<exists>m. RecoveryMetadata x1 = Some m \<and> RecoveryAttemptCount m = wrap64 (attempts record + 1)"
    using spec x1 by (simp_all add: assms(3))
  have "GetRecoveryInput x1 = GNil \<Longrightarrow> Input x1 = GNil"
    using x1(5) by (simp add: GetRecoveryInput_def split: if_splits)
  then show "Input x = recovery_input record history" using spec x1(6) by (auto simp: assms(3))
qed


text \<open>A server that keeps one orphaned execution, for examples.\<close>

definition recovering :: "string \<Rightarrow> gval db recovery_manager" where
  "recovering strategy =
    NewRecoveryManager (Postgres_repository plain_pg) (Some (DefaultRecoveryConfig\<lparr>rc_DefaultRecoveryStrategy := strategy\<rparr>))"

definition orphan :: orphaned_execution where
  "orphan = \<lparr>oe_ExecutionID = ''e1'', oe_StateMachineID = ''m1'', oe_CurrentState = ''A'', oe_Status = ''RUNNING'', oe_StartTime = 5000,
     oe_LastUpdateTime = 5000, oe_Duration = 0, oe_RecoveryMetadata = None\<rparr>"

definition resumed_as_is :: "gval db recovery_func" where
  "resumed_as_is fuel env x s = Some (Ok (x, None), s)"

lemma orphan_read:
  obtains rec s1 s2 where "rp_GetExecution (rm_repositoryManager (recovering strategy)) (oe_ExecutionID orphan) sample_db = (Ok rec, s1)"
    "rp_GetStateHistory (rm_repositoryManager (recovering strategy)) (oe_ExecutionID orphan) s1 = (Ok [], s2)"
    "er_StartTime rec = Some 5000" "er_RecoveryMetadata rec = None" "er_CurrentState rec = ''A''"
    "er_Input rec = GBool True"
proof -
  have rm: "rm_repositoryManager (recovering strategy) = Postgres_repository plain_pg" by (simp add: recovering_def NewRecoveryManager_def)
  have "(case rp_GetExecution (Postgres_repository plain_pg) (oe_ExecutionID orphan) sample_db of
      (Ok r, s1) \<Rightarrow> (case fst (rp_GetStateHistory (Postgres_repository plain_pg) (oe_ExecutionID orphan) s1) of
          Ok h \<Rightarrow> Some (length h, er_StartTime r, er_RecoveryMetadata r, er_CurrentState r, er_Input r) | _ \<Rightarrow> None)
    | _ \<Rightarrow> None) = Some (0, Some 5000, None, ''A'', GBool True)" by code_simp
  then show thesis using that unfolding rm
    by (auto split: prod.splits res.splits) (metis prod.collapse)
qed


lemma GetExecution_no_metadata: "Postgres_GetExecution pg i d = (Ok rec, d') \<Longrightarrow> er_RecoveryMetadata rec = None"
  by (auto simp: Postgres_GetExecution_def op_bind_eq processJson_def rbind_eq_Ok row_record_def eq_commute [of "Ok _" "rbind _ _"]
    split: if_splits option.splits)

text \<open>On PostgreSQL recovery never gives up. The count of attempts is not read back, so that every recovery of an execution that can be read counts as the first one: with the
  strategy RETRY or SKIP the recovery function is called, however often it has been called before.\<close>

theorem Postgres_recovery_never_gives_up:
  assumes "rm_repositoryManager rm = Postgres_repository pg" and "rc_DefaultRecoveryStrategy (rm_config rm) \<notin> {StrategyFail, StrategyPause}"
    and "load_crashed (clock 0) rm (oe_ExecutionID o1) d = (Ok x0, d2)"
  shows "\<exists>x m. RecoverExecution fuel env clock rm o1 f d =
      map_option (\<lambda>(r, s3). (rbind r (\<lambda>(_, e). case e of None \<Rightarrow> Ok () | Some err \<Rightarrow> Err err), s3)) (f fuel env x d2) \<and>
    RecoveryMetadata x = Some m \<and> RecoveryAttemptCount m = 1"
proof -
  from assms(3) obtain rec d1 history where r: "Postgres_GetExecution pg (oe_ExecutionID o1) d = (Ok rec, d1)"
      "reconstructExecution (clock 0) rm rec history = Ok x0"
    by (auto simp: load_crashed_Ok assms(1) Postgres_repository_def)
  have "attempts rec = 0" "0 < attempt_limit (rm_config rm) rec"
    using GetExecution_no_metadata [OF r(1)] by (simp_all add: attempts_def attempt_limit_def Let_def)
  with reconstructExecution_spec [OF r(2)] obtain m where m: "CanRecover x0" "RecoveryMetadata x0 = Some m" "RecoveryAttemptCount m = 0" by auto
  let ?x1 = "MarkRecoveryAttempt (clock 1) x0"
  let ?x = "if GetRecoveryInput ?x1 \<noteq> GNil then ?x1\<lparr>Input := GetRecoveryInput ?x1\<rparr> else ?x1"
  have "RecoverExecution fuel env clock rm o1 f d =
      map_option (\<lambda>(r, s3). (rbind r (\<lambda>(_, e). case e of None \<Rightarrow> Ok () | Some err \<Rightarrow> Err err), s3)) (f fuel env ?x d2)"
    using assms(2,3) m(1) by (simp add: RecoverExecution_def apply_strategy_def recoverWithSkip_def recoverWithRetry_def Let_def)
  moreover have "RecoveryMetadata ?x = Some (m\<lparr>RecoveryAttemptCount := 1, LastRecoveryAttemptAt := Some (clock 1)\<rparr>)"
    using m(2,3) by (simp add: MarkRecoveryAttempt_def metadata_or_def Let_def wrap64_def)
  ultimately show ?thesis by (intro exI [of _ ?x] exI [of _ "m\<lparr>RecoveryAttemptCount := 1, LastRecoveryAttemptAt := Some (clock 1)\<rparr>"]) simp
qed

theorem Postgres_recovery_never_gives_up_witness:
  "\<exists>x m d2. RecoverExecution 5 quiet_env (\<lambda>_. 0) (recovering StrategySkip) orphan resumed_as_is sample_db =
       map_option (\<lambda>(r, s3). (rbind r (\<lambda>(_, e). case e of None \<Rightarrow> Ok () | Some err \<Rightarrow> Err err), s3)) (resumed_as_is 5 quiet_env x d2) \<and>
     RecoveryMetadata x = Some m \<and> RecoveryAttemptCount m = 1"
proof -
  obtain rec s1 s2 where r: "rp_GetExecution (rm_repositoryManager (recovering StrategySkip)) (oe_ExecutionID orphan) sample_db = (Ok rec, s1)"
      "rp_GetStateHistory (rm_repositoryManager (recovering StrategySkip)) (oe_ExecutionID orphan) s1 = (Ok [], s2)"
      "er_StartTime rec = Some 5000" by (rule orphan_read)
  then obtain x0 where x0: "load_crashed 0 (recovering StrategySkip) (oe_ExecutionID orphan) sample_db = (Ok x0, s2)"
    by (auto simp: load_crashed_Ok reconstructExecution_def Let_def)
  have "rm_repositoryManager (recovering StrategySkip) = Postgres_repository plain_pg"
      "rc_DefaultRecoveryStrategy (rm_config (recovering StrategySkip)) \<notin> {StrategyFail, StrategyPause}"
    by (simp_all add: recovering_def NewRecoveryManager_def)
  from Postgres_recovery_never_gives_up [OF this, of "\<lambda>_. 0" orphan sample_db x0 s2 5 quiet_env resumed_as_is] x0 show ?thesis by blast
qed

text \<open>C33: The life of the scanner. Until the first stop there is exactly one scanning goroutine while the manager says it is running, and none otherwise. After a stop the channel stays closed:
  a scanner that is started again is reported as running although its goroutine may leave at once, and stopping it panics.\<close>

theorem scanner_lifecycle:
  assumes "scanner_step\<^sup>*\<^sup>* \<lparr>sc_manager = NewRecoveryManager repo config, sc_live = 0, sc_store = s0\<rparr> c"
  shows "(\<not> rm_stopChanClosed (sc_manager c) \<longrightarrow> sc_live c = (if rm_isRunning (sc_manager c) then 1 else 0)) \<and>
    (rm_stopChanClosed (sc_manager c) \<longrightarrow> rm_isRunning (sc_manager c) \<longrightarrow>
      fst (StopBackgroundScanner (sc_manager c)) = Panic ''close of closed channel'' \<and>
      (0 < sc_live c \<longrightarrow> scanner_step c (c\<lparr>sc_live := sc_live c - 1\<rparr>)))"
proof -
  have inv: "\<not> rm_stopChanClosed (sc_manager c) \<longrightarrow> sc_live c = (if rm_isRunning (sc_manager c) then 1 else 0)"
    using assms
  proof (induction rule: rtranclp_induct)
    case base
    show ?case by (simp add: NewRecoveryManager_def)
  next
    case (step y z)
    from step(2,3) show ?case
      by (cases rule: scanner_step.cases) (auto simp: StartBackgroundScanner_def StopBackgroundScanner_def split: if_splits)
  qed
  have "scanner_step c (c\<lparr>sc_live := sc_live c - 1\<rparr>)" if "rm_stopChanClosed (sc_manager c)" "0 < sc_live c"
    using scanner_step.leave [OF that(1), of "sc_live c - 1"] that(2) by simp
  with inv show ?thesis by (simp add: StopBackgroundScanner_def)
qed

theorem scanner_lifecycle_witness:
  "\<exists>c :: gval db scanning. scanner_step\<^sup>*\<^sup>* \<lparr>sc_manager = recovering StrategyRetry, sc_live = 0, sc_store = empty_db\<rparr> c \<and>
     rm_isRunning (sc_manager c) \<and> fst (StopBackgroundScanner (sc_manager c)) = Panic ''close of closed channel''"
proof -
  let ?rm = "recovering StrategyRetry"
  define c0 :: "gval db scanning" where "c0 = \<lparr>sc_manager = ?rm, sc_live = 0, sc_store = empty_db\<rparr>"
  define c1 where "c1 = c0\<lparr>sc_manager := snd (StartBackgroundScanner resumed_as_is ?rm), sc_live := 1\<rparr>"
  define c2 where "c2 = c1\<lparr>sc_manager := snd (StopBackgroundScanner (sc_manager c1))\<rparr>"
  define c3 where "c3 = c2\<lparr>sc_manager := snd (StartBackgroundScanner resumed_as_is (sc_manager c2)), sc_live := Suc 1\<rparr>"
  have rm: "rc_Enabled (rm_config ?rm)" "\<not> rm_isRunning ?rm" "\<not> rm_stopChanClosed ?rm"
    by (simp_all add: recovering_def NewRecoveryManager_def DefaultRecoveryConfig_def)
  have "scanner_step c0 c1" using scanner_step.start [of resumed_as_is c0 "sc_manager c1"] rm by (simp add: c0_def c1_def StartBackgroundScanner_def)
  moreover have "scanner_step c1 c2"
    using scanner_step.stop [of c1 "sc_manager c2"] rm by (simp add: c0_def c1_def c2_def StartBackgroundScanner_def StopBackgroundScanner_def)
  moreover have "scanner_step c2 c3"
    using scanner_step.start [of resumed_as_is c2 "sc_manager c3"] rm
    by (simp add: c0_def c1_def c2_def c3_def StartBackgroundScanner_def StopBackgroundScanner_def)
  ultimately have reach: "scanner_step\<^sup>*\<^sup>* c0 c3" by (meson converse_rtranclp_into_rtranclp rtranclp.rtrancl_refl)
  moreover have "rm_stopChanClosed (sc_manager c3)" "rm_isRunning (sc_manager c3)"
    using rm by (simp_all add: c0_def c1_def c2_def c3_def StartBackgroundScanner_def StopBackgroundScanner_def)
  ultimately show ?thesis
    using scanner_lifecycle [of "Postgres_repository plain_pg" "Some (DefaultRecoveryConfig\<lparr>rc_DefaultRecoveryStrategy := StrategyRetry\<rparr>)" empty_db c3]
    unfolding c0_def recovering_def by blast
qed

section \<open>Recovery of a persistent run\<close>

lemma SaveStateHistory_executions [simp]: "db_executions (snd (Postgres_SaveStateHistory pg r d)) = db_executions d"
  by (auto simp: Postgres_SaveStateHistory_def sql_def insert_history_def op_bind_def op_wrap_def op_return_def Let_def
    split: res.splits option.splits prod.splits if_splits)

lemma saveHistory_executions:
  "ps_repository pm = on_database (Postgres_repository pg) \<Longrightarrow> db_executions (fst (saveHistory now pm x h s)) = db_executions (fst s)"
  by (simp add: saveHistory_def op_log_def Manager_SaveStateHistory_def on_database_def Postgres_repository_def)

lemma prun_keeps_executions:
  assumes "(\<lambda>a b. \<exists>n. prun_once n env pm a = Some (Inl b))\<^sup>*\<^sup>* c0 c" and "ps_repository pm = on_database (Postgres_repository pg)"
  shows "db_executions (fst (pc_Store c)) = db_executions (fst (pc_Store c0))"
  using assms(1)
proof (induction rule: rtranclp_induct)
  case (step y z)
  from step(2) obtain n where "prun_once n env pm y = Some (Inl z)" by blast
  then have "db_executions (fst (pc_Store z)) = db_executions (fst (pc_Store y))"
    by (rule prun_once_Inl) (simp add: saveHistory_executions [OF assms(2)])
  with step show ?case by simp
qed simp

lemma GetExecution_same:
  assumes "Postgres_GetExecution pg i d = (Ok r, d1)" and "Postgres_GetExecution pg i d' = (Ok r', d2)" and "db_executions d' = db_executions d"
  shows "r' = r"
  using assms by (auto simp: Postgres_GetExecution_def op_bind_eq op_wrap_Ok sql_def Let_def eq_commute [of "Ok _" "processJson _ _"] split: if_splits option.splits)

lemma GetExecution_history: "Postgres_GetExecution pg i d = (Ok r, d1) \<Longrightarrow> db_history d1 = db_history d"
  by (auto simp: Postgres_GetExecution_def op_bind_eq op_wrap_Ok sql_Ok split: if_splits)

text \<open>C31: A run that crashes is recovered from its beginning. Between its first and its last save the engine writes history entries only, so after a crash at any point of the run the stored
  execution still has the state and input it started with. Recovery, with a strategy other than FAIL and PAUSE, reads this record and the history stored by then and runs the engine from the
  state the run started with, whatever state it had reached. The input is the output of the last entry of the history that SUCCEEDED, when it has a name and a non-nil output; otherwise
  the stored input. The execution and its history can be read.\<close>

theorem crash_recovery_restarts:
  assumes "ps_repository pm = on_database (Postgres_repository pg)" and "rm_repositoryManager rm = on_database (Postgres_repository pg)"
    and "rc_DefaultRecoveryStrategy (rm_config rm) \<notin> {StrategyFail, StrategyPause}"
    and "(\<lambda>a b. \<exists>n. prun_once n env pm a = Some (Inl b))\<^sup>*\<^sup>* c0 c"
    and "Postgres_GetExecution pg (oe_ExecutionID o1) (fst (pc_Store c0)) = (Ok rec0, d0)"
    and "load_crashed (clock 0) rm (oe_ExecutionID o1) (pc_Store c) = (Ok x0, s1)"
  shows "\<exists>x history d1. RecoverExecution fuel env' clock rm o1 (engine_recovery pm) (pc_Store c) =
      map_option (\<lambda>(r, s2). (rbind r (\<lambda>(_, e). case e of None \<Rightarrow> Ok () | Some err \<Rightarrow> Err err), s2))
        (Persistent_RunExecution fuel env' pm (Input x) x s1) \<and>
    ID x = er_ExecutionID rec0 \<and> CurrentState x = er_CurrentState rec0 \<and> Status x = er_Status rec0 \<and>
    db_history d1 = db_history (fst (pc_Store c)) \<and> Postgres_GetStateHistory pg (oe_ExecutionID o1) d1 = (Ok history, fst s1) \<and>
    Input x = (case last_success history of
                 Some h \<Rightarrow> if hr_StateName h \<noteq> [] \<and> hr_Output h \<noteq> GNil then hr_Output h else er_Input rec0
               | None \<Rightarrow> er_Input rec0)"
proof -
  from assms(6) obtain rec s2 history where r: "rp_GetExecution (rm_repositoryManager rm) (oe_ExecutionID o1) (pc_Store c) = (Ok rec, s2)"
      "rp_GetStateHistory (rm_repositoryManager rm) (oe_ExecutionID o1) s2 = (Ok history, s1)" "reconstructExecution (clock 0) rm rec history = Ok x0"
    by (auto simp: load_crashed_Ok)
  then have get: "Postgres_GetExecution pg (oe_ExecutionID o1) (fst (pc_Store c)) = (Ok rec, fst s2)"
      "Postgres_GetStateHistory pg (oe_ExecutionID o1) (fst s2) = (Ok history, fst s1)"
    by (simp_all add: assms(2) on_database_def Postgres_repository_def op_fst_eq)
  have rec: "rec = rec0" by (rule GetExecution_same [OF assms(5) get(1) prun_keeps_executions [OF assms(4,1)]])
  have none: "er_RecoveryMetadata rec = None" by (rule GetExecution_no_metadata [OF get(1)])
  have "CanRecover x0" using reconstructExecution_spec [OF r(3)] none by (simp add: attempts_def attempt_limit_def Let_def)
  note attempt = recovery_attempt [OF r(3) refl [of "MarkRecoveryAttempt (clock 1) x0"] refl]
  let ?x1 = "MarkRecoveryAttempt (clock 1) x0"
  let ?x = "if GetRecoveryInput ?x1 \<noteq> GNil then ?x1\<lparr>Input := GetRecoveryInput ?x1\<rparr> else ?x1"
  have "RecoverExecution fuel env' clock rm o1 (engine_recovery pm) (pc_Store c) =
      map_option (\<lambda>(r, s2). (rbind r (\<lambda>(_, e). case e of None \<Rightarrow> Ok () | Some err \<Rightarrow> Err err), s2))
        (Persistent_RunExecution fuel env' pm (Input ?x) ?x s1)"
    using assms(3,6) \<open>CanRecover x0\<close>
    by (simp add: RecoverExecution_def apply_strategy_def recoverWithSkip_def recoverWithRetry_def engine_recovery_def Let_def)
  moreover have "Input ?x = (case last_success history of
                 Some h \<Rightarrow> if hr_StateName h \<noteq> [] \<and> hr_Output h \<noteq> GNil then hr_Output h else er_Input rec0
               | None \<Rightarrow> er_Input rec0)"
    using attempt(4) unfolding recovery_input_def rec stored_input_def none [unfolded rec] option.case(1) .
  ultimately show ?thesis
    using attempt(1-3) GetExecution_history [OF get(1)] get(2) unfolding rec by (intro exI [of _ ?x] exI [of _ history] exI [of _ "fst s2"]) simp
qed

text \<open>A run that crashes after its first state.\<close>

abbreviation pass_engine :: "(gval db \<times> aq_state) persistent" where
  "pass_engine \<equiv> engine plain_pg ''A'' pass_machine"

definition running :: "(gval db \<times> aq_state) pconfig" where
  "running = \<lparr>pc_step = 0, pc_StateName = ''A'', pc_Exec = start ''A'' GNil,
     pc_Store = persistExecution pass_engine (start ''A'' GNil) empty_store\<rparr>"

definition crashed :: "(gval db \<times> aq_state) pconfig" where
  "crashed = (case prun_once 4 quiet_env pass_engine running of Some (Inl c) \<Rightarrow> c | _ \<Rightarrow> running)"

definition engine_manager :: "(gval db \<times> aq_state) recovery_manager" where
  "engine_manager = NewRecoveryManager (on_database (Postgres_repository plain_pg)) None"

lemma crashed_step: "prun_once 4 quiet_env pass_engine running = Some (Inl crashed)"
proof -
  have "(case prun_once 4 quiet_env pass_engine running of Some (Inl c) \<Rightarrow> True | _ \<Rightarrow> False)" by code_simp
  then show ?thesis by (auto simp: crashed_def split: option.splits sum.splits)
qed

theorem crash_recovery_restarts_witness:
  "pc_StateName crashed = ''B'' \<and>
   (\<exists>x s1. RecoverExecution 5 quiet_env (\<lambda>_. 0) engine_manager orphan (engine_recovery pass_engine) (pc_Store crashed) =
      map_option (\<lambda>(r, s2). (rbind r (\<lambda>(_, e). case e of None \<Rightarrow> Ok () | Some err \<Rightarrow> Err err), s2))
        (Persistent_RunExecution 5 quiet_env pass_engine (Input x) x s1) \<and> CurrentState x = ''A'')"
proof -
  have "(case Postgres_GetExecution plain_pg (oe_ExecutionID orphan) (fst (pc_Store running)) of (Ok r, d) \<Rightarrow> er_CurrentState r | _ \<Rightarrow> []) = ''A''"
    by code_simp
  then obtain rec0 d0 where g: "Postgres_GetExecution plain_pg (oe_ExecutionID orphan) (fst (pc_Store running)) = (Ok rec0, d0)"
      "er_CurrentState rec0 = ''A''" by (auto split: prod.splits res.splits)
  have "(case load_crashed 0 engine_manager (oe_ExecutionID orphan) (pc_Store crashed) of (Ok x, s) \<Rightarrow> True | _ \<Rightarrow> False)" by code_simp
  then obtain x0 s1 where l: "load_crashed 0 engine_manager (oe_ExecutionID orphan) (pc_Store crashed) = (Ok x0, s1)"
    by (auto split: prod.splits res.splits)
  have m: "ps_repository pass_engine = on_database (Postgres_repository plain_pg)"
      "rm_repositoryManager engine_manager = on_database (Postgres_repository plain_pg)"
      "rc_DefaultRecoveryStrategy (rm_config engine_manager) \<notin> {StrategyFail, StrategyPause}"
    by (simp_all add: engine_def engine_manager_def NewRecoveryManager_def DefaultRecoveryConfig_def)
  have steps: "(\<lambda>a b. \<exists>n. prun_once n quiet_env pass_engine a = Some (Inl b))\<^sup>*\<^sup>* running crashed"
    using crashed_step by blast
  have "pc_StateName crashed = ''B''" by code_simp
  moreover from crash_recovery_restarts [OF m steps g(1), of "\<lambda>_. 0" x0 s1 5 quiet_env] l g(2)
  have "\<exists>x. RecoverExecution 5 quiet_env (\<lambda>_. 0) engine_manager orphan (engine_recovery pass_engine) (pc_Store crashed) =
      map_option (\<lambda>(r, s2). (rbind r (\<lambda>(_, e). case e of None \<Rightarrow> Ok () | Some err \<Rightarrow> Err err), s2))
        (Persistent_RunExecution 5 quiet_env pass_engine (Input x) x s1) \<and> CurrentState x = ''A''" by auto
  ultimately show ?thesis by blast
qed

end
