(* ===== verification/Executor.thy ===== *)
theory Executor
  imports Persistent
begin

text \<open>
  The executor (\<open>pkg/executor/executor.go\<close>, \<open>executor_message.go\<close>, \<open>execution_adapter.go\<close>): registries of task handlers, the table of
  executions that are paused in memory, and the delivery of messages to the executions that wait for them, in memory or in the
  repository. Executions and registries are shared by reference in the code, so the model has a heap of each: a pointer
  is an index, and what a run does to an execution is seen through every pointer to it.
\<close>

section \<open>Data\<close>

type_synonym task_handler = "evid \<Rightarrow> gval \<Rightarrow> gval res"

type_synonym state_registry = "(string \<times> task_handler) list"

text \<open>\<open>StateMachineInterface\<close>. A run returns the execution as it left it, with the error.\<close>

record 's sm_interface =
  si_GetStartAt :: string
  si_GetState :: "string \<Rightarrow> state res"
  si_IsTimeout :: "int \<Rightarrow> int \<Rightarrow> bool"
  si_RunExecution :: "nat \<Rightarrow> env \<Rightarrow> gval \<Rightarrow> execution \<Rightarrow> 's \<Rightarrow> (run_result \<times> 's) option"
  si_ResumeExecution :: "nat \<Rightarrow> env \<Rightarrow> execution \<Rightarrow> 's \<Rightarrow> (run_result \<times> 's) option"
  si_FindWaitingExecutionsByCorrelation :: "string \<Rightarrow> gval \<Rightarrow> ('s, execution_record list) op"
  si_GetID :: string
  si_MergeInputs :: "gval \<Rightarrow> gval \<Rightarrow> gval res"

record 's executor =
  ex_heap :: "execution list"
  ex_executions :: "(string \<times> nat) list"
  ex_stateMachines :: "(string \<times> 's sm_interface) list"
  ex_registry_heap :: "state_registry list"
  ex_registry :: nat
  ex_registries :: "(string \<times> nat option) list"
  ex_repositoryManager :: "'s repository option"
  ex_smLoader :: "(string \<Rightarrow> ('s, 's sm_interface option) op) option"

abbreviation exec_at :: "'s executor \<Rightarrow> nat \<Rightarrow> execution" where
  "exec_at ex a \<equiv> ex_heap ex ! a"

definition put_execution :: "nat \<Rightarrow> execution \<Rightarrow> 's executor \<Rightarrow> 's executor" where
  "put_execution a x ex = ex\<lparr>ex_heap := (ex_heap ex)[a := x]\<rparr>"

definition alloc_execution :: "execution \<Rightarrow> 's executor \<Rightarrow> nat \<times> 's executor" where
  "alloc_execution x ex = (length (ex_heap ex), ex\<lparr>ex_heap := ex_heap ex @ [x]\<rparr>)"

section \<open>Registries and machines\<close>

definition RegisterTaskHandler :: "string \<Rightarrow> task_handler \<Rightarrow> state_registry \<Rightarrow> state_registry" where
  "RegisterTaskHandler resourceURI handler r = AList.update resourceURI handler r"

definition GetTaskHandler :: "state_registry \<Rightarrow> string \<Rightarrow> task_handler option" where
  "GetTaskHandler r resourceURI = map_of r resourceURI"

definition NewBaseExecutor :: "'s executor" where
  "NewBaseExecutor =
    \<lparr>ex_heap = [], ex_executions = [], ex_stateMachines = [], ex_registry_heap = [[]], ex_registry = 0, ex_registries = [],
     ex_repositoryManager = None, ex_smLoader = None\<rparr>"

definition AddStateMachine :: "'s sm_interface option \<Rightarrow> 's executor \<Rightarrow> 's executor" where
  "AddStateMachine sm ex =
    (case sm of
       Some m \<Rightarrow> if si_GetID m \<noteq> [] then ex\<lparr>ex_stateMachines := AList.update (si_GetID m) m (ex_stateMachines ex)\<rparr> else ex
     | None \<Rightarrow> ex)"

definition AddRegistry :: "string \<Rightarrow> nat option \<Rightarrow> 's executor \<Rightarrow> 's executor" where
  "AddRegistry stateMachineID registry ex = ex\<lparr>ex_registries := AList.update stateMachineID registry (ex_registries ex)\<rparr>"

definition SetRepositoryManager :: "'s repository option \<Rightarrow> 's executor \<Rightarrow> 's executor" where
  "SetRepositoryManager manager ex = ex\<lparr>ex_repositoryManager := manager\<rparr>"

definition SetStateMachineLoader :: "(string \<Rightarrow> ('s, 's sm_interface option) op) option \<Rightarrow> 's executor \<Rightarrow> 's executor" where
  "SetStateMachineLoader loader ex = ex\<lparr>ex_smLoader := loader\<rparr>"

definition RegisterGoFunction :: "string \<Rightarrow> task_handler \<Rightarrow> 's executor \<Rightarrow> 's executor" where
  "RegisterGoFunction name fn ex =
    ex\<lparr>ex_registry_heap := (ex_registry_heap ex)
        [ex_registry ex := RegisterTaskHandler name fn (ex_registry_heap ex ! ex_registry ex)]\<rparr>"

text \<open>\<open>ExecutionContextAdapter.GetTaskHandler\<close>: the handlers that a run sees when its context carries the adapter of this executor.\<close>

definition Adapter_GetTaskHandler :: "'s executor \<Rightarrow> string \<Rightarrow> task_handler option" where
  "Adapter_GetTaskHandler ex resource = GetTaskHandler (ex_registry_heap ex ! ex_registry ex) resource"

definition adapter_env :: "'s executor \<Rightarrow> env \<Rightarrow> env" where
  "adapter_env ex env =
    env\<lparr>has_handler := (\<lambda>r. Adapter_GetTaskHandler ex r \<noteq> None),
        run_handler := (\<lambda>ev r v. case Adapter_GetTaskHandler ex r of Some h \<Rightarrow> h ev v | None \<Rightarrow> Ok v)\<rparr>"

section \<open>Executions in memory\<close>

definition GetStatus :: "'s executor \<Rightarrow> string \<Rightarrow> nat res" where
  "GetStatus ex executionID =
    (case map_of (ex_executions ex) executionID of
       None \<Rightarrow> Err (ErrorNew (''execution '' @ quoted executionID @ '' not found''))
     | Some a \<Rightarrow> Ok a)"

definition Stop :: "int \<Rightarrow> nat option \<Rightarrow> 's executor \<Rightarrow> check \<times> 's executor" where
  "Stop now execCtx ex =
    (case execCtx of
       None \<Rightarrow> (Some (ErrorNew ''execution context cannot be nil''), ex)
     | Some a \<Rightarrow>
         (let ex1 = put_execution a ((exec_at ex a)\<lparr>Status := ''ABORTED'', EndTime := Some now\<rparr>) ex
          in (None, ex1\<lparr>ex_executions := AList.delete (ID (exec_at ex1 a)) (ex_executions ex1)\<rparr>)))"

definition ListExecutions :: "'s executor \<Rightarrow> nat list" where
  "ListExecutions ex = map snd (ex_executions ex)"

definition pause_metadata :: "int \<Rightarrow> gmap \<Rightarrow> gmap option \<Rightarrow> gmap" where
  "pause_metadata now correlationData m =
    AList.update ''paused_at'' (GTime now)
      (AList.update ''correlation_data'' (GMap correlationData) (case m of Some d \<Rightarrow> d | None \<Rightarrow> []))"

definition PauseExecution :: "int \<Rightarrow> nat option \<Rightarrow> gmap \<Rightarrow> 's executor \<Rightarrow> check \<times> 's executor" where
  "PauseExecution now execCtx correlationData ex =
    (case execCtx of
       None \<Rightarrow> (Some (ErrorNew ''execution context cannot be nil''), ex)
     | Some a \<Rightarrow>
         (let x = exec_at ex a;
              ex1 = put_execution a (x\<lparr>Status := ''PAUSED'', Metadata := Some (pause_metadata now correlationData (Metadata x))\<rparr>) ex
          in (None, ex1\<lparr>ex_executions := AList.update (ID x) a (ex_executions ex1)\<rparr>)))"

definition ListWaitingExecutions :: "'s executor \<Rightarrow> nat list" where
  "ListWaitingExecutions ex = filter (\<lambda>a. Status (exec_at ex a) = ''PAUSED'') (map snd (ex_executions ex))"

definition compareCorrelationValues :: "env \<Rightarrow> gval \<Rightarrow> gval \<Rightarrow> bool" where
  "compareCorrelationValues env stored incoming \<longleftrightarrow> fmt_v env stored = fmt_v env incoming"

definition matchesCorrelation :: "env \<Rightarrow> execution \<Rightarrow> string \<Rightarrow> gval \<Rightarrow> bool" where
  "matchesCorrelation env x correlationKey correlationValue =
    (case Metadata x of
       None \<Rightarrow> False
     | Some m \<Rightarrow>
         (case map_of m ''correlation_data'' of
            Some (GMap corrMap) \<Rightarrow>
              (case map_of corrMap ''correlation_key'' of
                 Some (GString storedKey) \<Rightarrow>
                   storedKey = correlationKey \<and>
                   compareCorrelationValues env
                     (case map_of corrMap ''correlation_value'' of Some v \<Rightarrow> v | None \<Rightarrow> GNil) correlationValue
               | _ \<Rightarrow> False)
          | _ \<Rightarrow> False))"

definition findWaitingExecutions :: "env \<Rightarrow> 's executor \<Rightarrow> string \<Rightarrow> gval \<Rightarrow> nat list" where
  "findWaitingExecutions env ex correlationKey correlationValue =
    filter (\<lambda>a. Status (exec_at ex a) = ''PAUSED'' \<and> matchesCorrelation env (exec_at ex a) correlationKey correlationValue)
      (map snd (ex_executions ex))"

definition GetWaitingExecutionByCorrelation :: "env \<Rightarrow> 's executor \<Rightarrow> string \<Rightarrow> gval \<Rightarrow> nat res" where
  "GetWaitingExecutionByCorrelation env ex correlationKey correlationValue =
    (case findWaitingExecutions env ex correlationKey correlationValue of
       [] \<Rightarrow> Err (ErrorNew (''no waiting execution found for correlation key: '' @ correlationKey))
     | a # _ \<Rightarrow> Ok a)"

text \<open>The deadline of a paused execution: \<open>paused_at\<close> must be a time and \<open>timeout_seconds\<close> an \<open>int\<close>.\<close>

definition waited_too_long :: "int \<Rightarrow> execution \<Rightarrow> int option" where
  "waited_too_long now x =
    (case Metadata x of
       None \<Rightarrow> None
     | Some m \<Rightarrow>
         (case (map_of m ''paused_at'', map_of m ''timeout_seconds'') of
            (Some (GTime t), Some (GInteger KInt timeout)) \<Rightarrow>
              if time_sub now t > wrap64 (timeout * 10 ^ 9) then Some timeout else None
          | _ \<Rightarrow> None))"

text \<open>The loop over the table; an entry that was deleted before its turn is not visited.\<close>

fun timeout_loop :: "int \<Rightarrow> (string \<times> nat) list \<Rightarrow> 's executor \<Rightarrow> 's executor" where
  "timeout_loop now [] ex = ex"
| "timeout_loop now ((k, a) # rest) ex =
     timeout_loop now rest
       (if map_of (ex_executions ex) k = None \<or> Status (exec_at ex a) \<noteq> ''PAUSED'' then ex
        else (case waited_too_long now (exec_at ex a) of
                None \<Rightarrow> ex
              | Some timeout \<Rightarrow>
                  (let x = (exec_at ex a)\<lparr>Status := ''TIMEOUT'', EndTime := Some now,
                             ExecError := Some (ErrorNew (''message timeout after '' @ itoa timeout @ '' seconds''))\<rparr>;
                       ex1 = put_execution a x ex
                   in ex1\<lparr>ex_executions := AList.delete (ID x) (ex_executions ex1)\<rparr>)))"

definition TimeoutWaitingExecutions :: "int \<Rightarrow> 's executor \<Rightarrow> 's executor" where
  "TimeoutWaitingExecutions now ex = timeout_loop now (ex_executions ex) ex"

section \<open>Machines behind the interface\<close>

text \<open>The JSON front end of \<open>statemachine.New\<close>: \<open>unmarshal\<close> is \<open>encoding/json\<close>.\<close>

definition New_definition ::
  "(string \<Rightarrow> 'j raw_state_machine res) \<Rightarrow> 'j decoder \<Rightarrow> string \<Rightarrow> int \<Rightarrow> string \<Rightarrow> state_machine res" where
  "New_definition unmarshal dec newID now definition =
    rbind (wrap_err ''failed to unmarshal state machine definition'' (unmarshal definition)) (New dec newID now)"

definition Adapter_RunExecution :: "state_machine \<Rightarrow> nat \<Rightarrow> env \<Rightarrow> gval \<Rightarrow> execution \<Rightarrow> run_result option" where
  "Adapter_RunExecution sm fuel env input x =
    (let x1 = (if input \<noteq> GNil then x\<lparr>Input := input\<rparr> else x);
         x2 = (if CurrentState x1 = [] then x1\<lparr>CurrentState := sm_StartAt sm\<rparr> else x1)
     in RunExecution fuel env sm x2)"

definition repositoryStateMachineAdapter :: "string \<Rightarrow> state_machine \<Rightarrow> 's sm_interface" where
  "repositoryStateMachineAdapter smID sm =
    \<lparr>si_GetStartAt = sm_StartAt sm, si_GetState = GetState sm, si_IsTimeout = (\<lambda>now. IsTimeout now sm),
     si_RunExecution = (\<lambda>fuel env input x s. map_option (\<lambda>r. (r, s)) (Adapter_RunExecution sm fuel env input x)),
     si_ResumeExecution = (\<lambda>fuel env x s. map_option (\<lambda>r. (r, s)) (ResumeExecution fuel env sm x)),
     si_FindWaitingExecutionsByCorrelation =
       (\<lambda>_ _. op_return (Err (ErrorNew ''in-memory adapter does not support repository-based correlation search''))),
     si_GetID = smID, si_MergeInputs = MergeInputs\<rparr>"

definition persistent_interface :: "'s persistent \<Rightarrow> 's sm_interface" where
  "persistent_interface pm =
    \<lparr>si_GetStartAt = sm_StartAt (ps_machine pm), si_GetState = getState pm, si_IsTimeout = (\<lambda>now. IsTimeout now (ps_machine pm)),
     si_RunExecution = (\<lambda>fuel env. Persistent_RunExecution fuel env pm),
     si_ResumeExecution = (\<lambda>fuel env. Persistent_ResumeExecution fuel env pm),
     si_FindWaitingExecutionsByCorrelation = Manager_FindWaitingExecutionsByCorrelation (ps_repository pm),
     si_GetID = ps_stateMachineID pm, si_MergeInputs = MergeInputs\<rparr>"

section \<open>Messages\<close>

record message_request =
  rq_CorrelationKey :: string
  rq_CorrelationValue :: gval
  rq_Data :: gval

record message_response =
  rs_ExecutionID :: string
  rs_StateMachineID :: string
  rs_Status :: string
  rs_MessageReceived :: bool
  rs_ResumedAt :: "int option"
  rs_Error :: string

text \<open>The execution built from a stored record.\<close>

definition record_to_execution :: "execution_record \<Rightarrow> execution" where
  "record_to_execution rec =
    \<lparr>StateMachineID = er_StateMachineID rec, ID = er_ExecutionID rec, ExecName = er_Name rec, Status = er_Status rec,
     StartTime = (case er_StartTime rec of Some t \<Rightarrow> t | None \<Rightarrow> zero_time), EndTime = er_EndTime rec, Input = er_Input rec,
     Output = er_Output rec, ExecError = None, CurrentState = er_CurrentState rec, History = [],
     HistorySequenceNumber = er_HistorySequenceNumber rec, Metadata = er_Metadata rec, RecoveryMetadata = None\<rparr>"

fun add_records :: "execution_record list \<Rightarrow> nat list \<Rightarrow> 's executor \<Rightarrow> nat list \<times> 's executor" where
  "add_records [] found ex = (found, ex)"
| "add_records (rec # recs) found ex =
     (if \<exists>a\<in>set found. ID (exec_at ex a) = er_ExecutionID rec then add_records recs found ex
      else (let (a, ex1) = alloc_execution (record_to_execution rec) ex in add_records recs (found @ [a]) ex1))"

definition findAllWaitingExecutions ::
  "env \<Rightarrow> 's executor \<Rightarrow> string \<Rightarrow> gval \<Rightarrow> 's \<Rightarrow> nat list res \<times> 's executor \<times> 's" where
  "findAllWaitingExecutions env ex key val s =
    (let mem = findWaitingExecutions env ex key val in
     case ex_repositoryManager ex of
       None \<Rightarrow> (Ok mem, ex, s)
     | Some manager \<Rightarrow>
         (case op_wrap ''failed to find waiting executions in repository''
                 (Manager_FindWaitingExecutionsByCorrelation manager key val) s of
            (Ok recs, s1) \<Rightarrow> (let (found, ex1) = add_records recs mem ex in (Ok found, ex1, s1))
          | (Err e, s1) \<Rightarrow> (Err e, ex, s1)
          | (Panic p, s1) \<Rightarrow> (Panic p, ex, s1)
          | (Crash p, s1) \<Rightarrow> (Crash p, ex, s1)))"

definition loadStateMachineFromRepository ::
  "(string \<Rightarrow> state_machine res) \<Rightarrow> 's repository \<Rightarrow> string \<Rightarrow> ('s, 's sm_interface option) op" where
  "loadStateMachineFromRepository newSM manager smID =
    op_bind (rp_GetStateMachine manager smID) (\<lambda>record.
      if mr_Definition record = [] then op_return (Err (ErrorNew (''state machine definition not found for id '' @ smID)))
      else op_return (rbind (wrap_err (''failed to parse state machine definition for id '' @ smID) (newSM (mr_Definition record)))
        (\<lambda>sm. Ok (Some (repositoryStateMachineAdapter smID sm)))))"

text \<open>\<open>getOrLoadStateMachine\<close>: the cache of this call, then the executor's table, then the loader; a loading error counts as not found.\<close>

definition getOrLoadStateMachine ::
  "(string \<Rightarrow> state_machine res) \<Rightarrow> 's executor \<Rightarrow> string \<Rightarrow> (string \<times> 's sm_interface) list \<Rightarrow> 's \<Rightarrow>
   ('s sm_interface option \<times> (string \<times> 's sm_interface) list) res \<times> 's" where
  "getOrLoadStateMachine newSM ex smID smCache s =
    (case map_of smCache smID of
       Some sm \<Rightarrow> (Ok (Some sm, smCache), s)
     | None \<Rightarrow>
         (case map_of (ex_stateMachines ex) smID of
            Some sm \<Rightarrow> (Ok (Some sm, AList.update smID sm smCache), s)
          | None \<Rightarrow>
              (case ex_repositoryManager ex of
                 None \<Rightarrow> (Ok (None, smCache), s)
               | Some manager \<Rightarrow>
                   (case (case ex_smLoader ex of Some loader \<Rightarrow> loader smID
                          | None \<Rightarrow> loadStateMachineFromRepository newSM manager smID) s of
                      (Ok (Some sm), s1) \<Rightarrow> (Ok (Some sm, AList.update smID sm smCache), s1)
                    | (Ok None, s1) \<Rightarrow> (Ok (None, smCache), s1)
                    | (Err _, s1) \<Rightarrow> (Ok (None, smCache), s1)
                    | (Panic p, s1) \<Rightarrow> (Panic p, s1)
                    | (Crash p, s1) \<Rightarrow> (Crash p, s1)))))"

definition prepareRegistryForExecution :: "string \<Rightarrow> (string \<times> nat option) list option \<Rightarrow> 's executor \<Rightarrow> 's executor" where
  "prepareRegistryForExecution smID registryMap ex =
    (case map_of (case registryMap of Some m \<Rightarrow> m | None \<Rightarrow> ex_registries ex) smID of
       Some (Some r) \<Rightarrow> ex\<lparr>ex_registry := r\<rparr>
     | _ \<Rightarrow> ex)"

definition resume_input :: "execution \<Rightarrow> message_request \<Rightarrow> gval" where
  "resume_input x request =
    GMap [(receivedMessageKey (CurrentState x),
      GMap [(''correlation_key'', GString (rq_CorrelationKey request)), (''correlation_value'', rq_CorrelationValue request),
            (''data'', rq_Data request)])]"

definition resumeExecutionWithMessage ::
  "nat \<Rightarrow> env \<Rightarrow> int \<Rightarrow> 's sm_interface \<Rightarrow> nat \<Rightarrow> message_request \<Rightarrow> 's executor \<Rightarrow> 's \<Rightarrow>
   (message_response res \<times> 's executor \<times> 's) option" where
  "resumeExecutionWithMessage fuel env now sm a request ex s =
    (let x = exec_at ex a in
     case wrap_err ''failed to merge inputs'' (si_MergeInputs sm (Input x) (resume_input x request)) of
       Err e \<Rightarrow> Some (Err e, ex, s)
     | Panic p \<Rightarrow> Some (Panic p, ex, s)
     | Crash p \<Rightarrow> Some (Crash p, ex, s)
     | Ok mergedInput \<Rightarrow>
         (let x1 = x\<lparr>Input := mergedInput\<rparr> in
          case si_ResumeExecution sm fuel env x1 s of
            None \<Rightarrow> None
          | Some (Ok (x2, err), s1) \<Rightarrow>
              Some (wrap_err ''failed to resume execution''
                 (case err of
                    Some e \<Rightarrow> Err e
                  | None \<Rightarrow> Ok \<lparr>rs_ExecutionID = ID x2, rs_StateMachineID = StateMachineID x2, rs_Status = ''RESUMED'',
                              rs_MessageReceived = True, rs_ResumedAt = Some now, rs_Error = []\<rparr>),
                put_execution a x2 ex, s1)
          | Some (Err e, s1) \<Rightarrow> Some (wrap_err ''failed to resume execution'' (Err e), put_execution a x1 ex, s1)
          | Some (Panic p, s1) \<Rightarrow> Some (Panic p, put_execution a x1 ex, s1)
          | Some (Crash p, s1) \<Rightarrow> Some (Crash p, put_execution a x1 ex, s1)))"

text \<open>The variables of the loop of \<open>Message\<close>.\<close>

record 's delivery =
  dl_lastResponse :: "message_response option"
  dl_lastErr :: "err option"
  dl_resumedCount :: nat
  dl_smCache :: "(string \<times> 's sm_interface) list"
  dl_executor :: "'s executor"
  dl_store :: 's

definition error_response :: "execution \<Rightarrow> int \<Rightarrow> err \<Rightarrow> message_response" where
  "error_response x now e =
    \<lparr>rs_ExecutionID = ID x, rs_StateMachineID = StateMachineID x, rs_Status = ''ERROR'', rs_MessageReceived = True,
     rs_ResumedAt = Some now, rs_Error = Error e\<rparr>"

text \<open>One execution of the loop. \<open>env\<close> is the environment of this delivery; with \<open>adapted\<close> its context carries the adapter of the
  executor, so that the handlers are those of the registry that was prepared.\<close>

definition deliver ::
  "nat \<Rightarrow> env \<Rightarrow> bool \<Rightarrow> (string \<Rightarrow> state_machine res) \<Rightarrow> message_request \<Rightarrow> (string \<times> nat option) list option \<Rightarrow> nat \<Rightarrow>
   's delivery \<Rightarrow> (unit res \<times> 's delivery) option" where
  "deliver fuel env adapted newSM request registryMap a d =
    (let x = exec_at (dl_executor d) a; now = now_ns env [] in
     case getOrLoadStateMachine newSM (dl_executor d) (StateMachineID x) (dl_smCache d) (dl_store d) of
       (Err e, s1) \<Rightarrow> Some (Err e, d\<lparr>dl_store := s1\<rparr>)
     | (Panic p, s1) \<Rightarrow> Some (Panic p, d\<lparr>dl_store := s1\<rparr>)
     | (Crash p, s1) \<Rightarrow> Some (Crash p, d\<lparr>dl_store := s1\<rparr>)
     | (Ok (None, cache), s1) \<Rightarrow>
         (let e = ErrorNew (''failed to load state machine for execution '' @ ID x)
          in Some (Ok (), d\<lparr>dl_lastErr := Some e, dl_lastResponse := Some (error_response x now e), dl_smCache := cache,
                            dl_store := s1\<rparr>))
     | (Ok (Some sm, cache), s1) \<Rightarrow>
         (let ex1 = prepareRegistryForExecution (StateMachineID x) registryMap (dl_executor d) in
          case resumeExecutionWithMessage fuel (if adapted then adapter_env ex1 env else env) now sm a request ex1 s1 of
            None \<Rightarrow> None
          | Some (r, ex2, s2) \<Rightarrow>
              (let d1 = d\<lparr>dl_smCache := cache, dl_executor := ex2, dl_store := s2\<rparr> in
               Some (case r of
                 Err e \<Rightarrow> (Ok (), d1\<lparr>dl_lastErr := Some e, dl_lastResponse := Some (error_response (exec_at ex2 a) now e)\<rparr>)
               | Ok response \<Rightarrow> (Ok (), d1\<lparr>dl_lastResponse := Some response, dl_resumedCount := dl_resumedCount d + 1\<rparr>)
               | Panic p \<Rightarrow> (Panic p, d1)
               | Crash p \<Rightarrow> (Crash p, d1)))))"

text \<open>\<open>envs i\<close> is the environment of the \<open>i\<close>-th delivery.\<close>

fun deliver_all ::
  "nat \<Rightarrow> (nat \<Rightarrow> env) \<Rightarrow> nat \<Rightarrow> bool \<Rightarrow> (string \<Rightarrow> state_machine res) \<Rightarrow> message_request \<Rightarrow> (string \<times> nat option) list option \<Rightarrow>
   nat list \<Rightarrow> 's delivery \<Rightarrow> (unit res \<times> 's delivery) option" where
  "deliver_all fuel envs i adapted newSM request registryMap [] d = Some (Ok (), d)"
| "deliver_all fuel envs i adapted newSM request registryMap (a # as) d =
     (case deliver fuel (envs i) adapted newSM request registryMap a d of
        Some (Ok _, d1) \<Rightarrow> deliver_all fuel envs (Suc i) adapted newSM request registryMap as d1
      | r \<Rightarrow> r)"

definition no_match :: message_response where
  "no_match = \<lparr>rs_ExecutionID = [], rs_StateMachineID = [], rs_Status = ''NO_MATCH'', rs_MessageReceived = False,
     rs_ResumedAt = None, rs_Error = ''no waiting execution found for correlation key/value''\<rparr>"

definition Message ::
  "nat \<Rightarrow> (nat \<Rightarrow> env) \<Rightarrow> bool \<Rightarrow> (string \<Rightarrow> state_machine res) \<Rightarrow> message_request option \<Rightarrow> (string \<times> nat option) list option \<Rightarrow>
   's executor \<Rightarrow> 's \<Rightarrow> ((message_response option \<times> err option) res \<times> 's executor \<times> 's) option" where
  "Message fuel envs adapted newSM request registryMap ex s =
    (case request of
       None \<Rightarrow> Some (Ok (None, Some (ErrorNew ''message request cannot be nil'')), ex, s)
     | Some rq \<Rightarrow>
         if rq_CorrelationKey rq = [] then Some (Ok (None, Some (ErrorNew ''correlation key cannot be empty'')), ex, s)
         else (case findAllWaitingExecutions (envs 0) ex (rq_CorrelationKey rq) (rq_CorrelationValue rq) s of
           (Err e, ex1, s1) \<Rightarrow> Some (Ok (None, Some e), ex1, s1)
         | (Panic p, ex1, s1) \<Rightarrow> Some (Panic p, ex1, s1)
         | (Crash p, ex1, s1) \<Rightarrow> Some (Crash p, ex1, s1)
         | (Ok [], ex1, s1) \<Rightarrow> Some (Ok (Some no_match, None), ex1, s1)
         | (Ok found, ex1, s1) \<Rightarrow>
             map_option (\<lambda>(r, d). (rbind r (\<lambda>_. Ok (dl_lastResponse d, if dl_resumedCount d = 0 then dl_lastErr d else None)),
                 dl_executor d, dl_store d))
               (deliver_all fuel envs 0 adapted newSM rq registryMap found
                  \<lparr>dl_lastResponse = None, dl_lastErr = None, dl_resumedCount = 0, dl_smCache = [],
                   dl_executor = ex1, dl_store = s1\<rparr>)))"

text \<open>\<open>ResumeExecution\<close> of the executor, on a pointer.\<close>

definition Executor_ResumeExecution ::
  "nat \<Rightarrow> env \<Rightarrow> 's sm_interface \<Rightarrow> nat option \<Rightarrow> 's executor \<Rightarrow> 's \<Rightarrow> (nat res \<times> 's executor \<times> 's) option" where
  "Executor_ResumeExecution fuel env sm execCtx ex s =
    (case execCtx of
       None \<Rightarrow> Some (Err (ErrorNew ''execution context cannot be nil''), ex, s)
     | Some a \<Rightarrow>
         (let x = exec_at ex a in
          if Status x \<noteq> ''PAUSED'' \<and> Status x \<noteq> ''RUNNING'' then
            Some (Err (ErrorNew (''cannot resume execution in status: '' @ Status x)), ex, s)
          else
            (let x1 = x\<lparr>Status := ''RUNNING''\<rparr> in
             case si_RunExecution sm fuel env (Input x1) x1 s of
               None \<Rightarrow> None
             | Some (Ok (x2, err), s1) \<Rightarrow>
                 Some (wrap_err ''failed to resume execution'' (case err of Some e \<Rightarrow> Err e | None \<Rightarrow> Ok a), put_execution a x2 ex, s1)
             | Some (Err e, s1) \<Rightarrow> Some (wrap_err ''failed to resume execution'' (Err e), put_execution a x1 ex, s1)
             | Some (Panic p, s1) \<Rightarrow> Some (Panic p, put_execution a x1 ex, s1)
             | Some (Crash p, s1) \<Rightarrow> Some (Crash p, put_execution a x1 ex, s1))))"

section \<open>The contract of a machine\<close>

text \<open>What the executor relies on of a machine: a run works on the execution it was given and keeps its identifier.\<close>

locale machine_contract =
  fixes sm :: "'s sm_interface"
  assumes run_keeps: "si_RunExecution sm fuel env input x s = Some (Ok (x', e), s') \<Longrightarrow> ID x' = ID x"
    and resume_keeps: "si_ResumeExecution sm fuel env x s = Some (Ok (x', e), s') \<Longrightarrow> ID x' = ID x"

lemma run_once_ID:
  assumes "run_once f env sm c = Some r"
  shows "(r = Inl c' \<longrightarrow> ID (cf_Exec c') = ID (cf_Exec c)) \<and> (r = Inr (Ok (x, e)) \<longrightarrow> ID x = ID (cf_Exec c))"
  using assms by (auto simp: run_once_def Let_def finish_with_def AddStateHistory_def split: if_splits res.splits option.splits)

lemma run_loop_ID: "run_loop f env sm c = Some (Ok (x, e)) \<Longrightarrow> ID x = ID (cf_Exec c)"
proof (induction f arbitrary: c)
  case (Suc f)
  show ?case
  proof (cases "run_once f env sm c")
    case None
    with Suc.prems show ?thesis by simp
  next
    case (Some r)
    with Suc run_once_ID [OF Some] show ?thesis by (cases r) auto
  qed
qed simp

interpretation adapter: machine_contract "repositoryStateMachineAdapter i sm" for i sm
  by unfold_locales
    (auto simp: repositoryStateMachineAdapter_def Adapter_RunExecution_def ResumeExecution_def RunExecution_def Let_def start_config_def
      dest!: run_loop_ID split: if_splits)

lemma prun_once_ID:
  assumes "prun_once f env pm c = Some (Inr (Ok (x, e), s))"
  shows "ID x = ID (pc_Exec c)"
  using assms
  by (cases rule: prun_once_Inr)
    (auto simp: fail_execution_def handleWaitingState_def MarkFailed_def advance_def Let_def split: option.splits if_splits res.splits)

lemma Persistent_RunExecution_ID:
  assumes "Persistent_RunExecution fuel env pm input x s = Some (Ok (x', e), s')"
  shows "ID x' = ID x"
  using assms
proof (rule Persistent_RunExecution_ends)
  fix c g
  assume "pinv (ps_machine pm) (if input \<noteq> GNil then x\<lparr>Input := input\<rparr> else x) c" "prun_once g env pm c = Some (Inr (Ok (x', e), s'))"
  with prun_once_ID show ?thesis by (force simp: pinv_def Let_def)
qed

interpretation persistent: machine_contract "persistent_interface pm" for pm
  by unfold_locales
    (auto simp: persistent_interface_def Persistent_ResumeExecution_def Let_def dest!: Persistent_RunExecution_ID split: if_splits)

section \<open>The table of executions\<close>

text \<open>Every entry of the table points to an execution with the identifier of its key.\<close>

definition executor_ok :: "'s executor \<Rightarrow> bool" where
  "executor_ok ex \<longleftrightarrow> distinct_keys (ex_executions ex) \<and>
    (\<forall>(k, a)\<in>set (ex_executions ex). a < length (ex_heap ex) \<and> ID (exec_at ex a) = k)"

text \<open>\<open>keeps_table ex ex'\<close>: the same tables over a heap that may have grown and in which every execution kept its identifier.\<close>

definition keeps_table :: "'s executor \<Rightarrow> 's executor \<Rightarrow> bool" where
  "keeps_table ex ex' \<longleftrightarrow> ex_executions ex' = ex_executions ex \<and> ex_stateMachines ex' = ex_stateMachines ex \<and>
    ex_smLoader ex' = ex_smLoader ex \<and> length (ex_heap ex) \<le> length (ex_heap ex') \<and>
    (\<forall>a<length (ex_heap ex). ID (exec_at ex' a) = ID (exec_at ex a))"

lemma keeps_table_refl [simp]: "keeps_table ex ex"
  by (simp add: keeps_table_def)

lemma keeps_table_trans: "keeps_table ex ex1 \<Longrightarrow> keeps_table ex1 ex2 \<Longrightarrow> keeps_table ex ex2"
  by (auto simp: keeps_table_def)

lemma executor_ok_keeps: "executor_ok ex \<Longrightarrow> keeps_table ex ex' \<Longrightarrow> executor_ok ex'"
  by (fastforce simp: executor_ok_def keeps_table_def)

lemma put_execution_simps [simp]:
  "ex_executions (put_execution a x ex) = ex_executions ex" "length (ex_heap (put_execution a x ex)) = length (ex_heap ex)"
  "ex_heap (put_execution a x ex) = (ex_heap ex)[a := x]" "ex_stateMachines (put_execution a x ex) = ex_stateMachines ex"
  "ex_smLoader (put_execution a x ex) = ex_smLoader ex"
  by (simp_all add: put_execution_def)

lemma keeps_table_put [intro]: "ID x = ID (exec_at ex a) \<Longrightarrow> keeps_table ex (put_execution a x ex)"
  by (auto simp: keeps_table_def) (metis nth_list_update_eq nth_list_update_neq)

lemma executor_ok_put: "executor_ok ex \<Longrightarrow> ID x = ID (exec_at ex a) \<Longrightarrow> executor_ok (put_execution a x ex)"
  using executor_ok_keeps keeps_table_put by blast

lemma keeps_table_alloc: "keeps_table ex (snd (alloc_execution x ex))"
  by (auto simp: keeps_table_def alloc_execution_def nth_append)

lemma keeps_table_prepare [simp]: "keeps_table ex (prepareRegistryForExecution i m ex)"
  by (auto simp: prepareRegistryForExecution_def keeps_table_def split: option.splits)

lemma heap_prepare [simp]: "ex_heap (prepareRegistryForExecution i m ex) = ex_heap ex"
  by (auto simp: prepareRegistryForExecution_def split: option.splits)

lemma add_records_keeps: "keeps_table ex (snd (add_records recs found ex))"
proof (induction recs found ex rule: add_records.induct)
  case (2 rec recs found ex)
  obtain a ex1 where a: "alloc_execution (record_to_execution rec) ex = (a, ex1)" by (cases "alloc_execution (record_to_execution rec) ex")
  with keeps_table_alloc [of ex "record_to_execution rec"] have "keeps_table ex ex1" by simp
  with 2 a show ?case by (auto intro: keeps_table_trans)
qed simp

context machine_contract
begin

lemma resume_keeps_table:
  assumes "resumeExecutionWithMessage fuel env now sm a request ex s = Some (r, ex', s')"
  shows "keeps_table ex ex'"
  using assms unfolding resumeExecutionWithMessage_def Let_def
  by (auto split: res.splits option.splits intro!: keeps_table_put dest!: resume_keeps)

lemma executor_resume_keeps_table:
  assumes "Executor_ResumeExecution fuel env sm execCtx ex s = Some (r, ex', s')"
  shows "keeps_table ex ex'"
  using assms unfolding Executor_ResumeExecution_def Let_def
  by (auto split: res.splits option.splits if_splits intro!: keeps_table_put dest!: run_keeps)

end

text \<open>Every machine the executor can get hold of keeps the contract.\<close>

lemma set_update_subset: "set (AList.update k v xs) \<subseteq> insert (k, v) (set xs)"
  by (induction xs) auto

definition contracted :: "(string \<times> 's sm_interface) list \<Rightarrow> bool" where
  "contracted ms \<longleftrightarrow> (\<forall>m\<in>set ms. machine_contract (snd m))"

lemma contracted_Nil [simp]: "contracted []"
  by (simp add: contracted_def)

lemma contracted_update: "contracted ms \<Longrightarrow> machine_contract m \<Longrightarrow> contracted (AList.update i m ms)"
  using set_update_subset [of i m ms] by (auto simp: contracted_def)

lemma contracted_map_of: "contracted ms \<Longrightarrow> map_of ms i = Some m \<Longrightarrow> machine_contract m"
  by (force simp: contracted_def dest: map_of_in_set)

definition machines_ok :: "'s executor \<Rightarrow> bool" where
  "machines_ok ex \<longleftrightarrow> contracted (ex_stateMachines ex) \<and>
    (\<forall>loader i s m s'. ex_smLoader ex = Some loader \<longrightarrow> loader i s = (Ok (Some m), s') \<longrightarrow> machine_contract m)"

lemma machines_ok_keeps: "machines_ok ex \<Longrightarrow> keeps_table ex ex' \<Longrightarrow> machines_ok ex'"
  by (simp add: machines_ok_def keeps_table_def)

lemma loadStateMachineFromRepository_contract:
  "loadStateMachineFromRepository newSM manager i s = (Ok (Some m), s') \<Longrightarrow> machine_contract m"
  using adapter.machine_contract_axioms
  by (auto simp: loadStateMachineFromRepository_def op_bind_eq rbind_eq_Ok eq_commute [of "Ok _" "rbind _ _"] split: if_splits)

lemma getOrLoad_contract:
  assumes "getOrLoadStateMachine newSM ex i cache s = (Ok (found, cache'), s')" and "machines_ok ex"
    and "contracted cache"
  shows "contracted cache' \<and> (\<forall>m. found = Some m \<longrightarrow> machine_contract m)"
  using assms contracted_map_of [OF assms(3)] contracted_map_of [of "ex_stateMachines ex" i] contracted_update [OF assms(3)]
  unfolding getOrLoadStateMachine_def
  by (auto simp: machines_ok_def split: option.splits prod.splits res.splits dest!: loadStateMachineFromRepository_contract) blast+

definition delivery_ok :: "'s executor \<Rightarrow> 's delivery \<Rightarrow> bool" where
  "delivery_ok ex d \<longleftrightarrow> keeps_table ex (dl_executor d) \<and> machines_ok (dl_executor d) \<and> contracted (dl_smCache d)"

lemma deliver_ok:
  assumes "deliver fuel env adapted newSM request registryMap a d = Some (r, d')" and "delivery_ok ex d"
  shows "delivery_ok ex d'"
proof -
  let ?x = "exec_at (dl_executor d) a"
  obtain q s1 where q: "getOrLoadStateMachine newSM (dl_executor d) (StateMachineID ?x) (dl_smCache d) (dl_store d) = (q, s1)" by fastforce
  show ?thesis
  proof (cases "\<exists>m cache. q = Ok (Some m, cache)")
    case True
    then obtain m cache where m: "q = Ok (Some m, cache)" by blast
    have c: "machine_contract m" "contracted cache"
      using getOrLoad_contract [OF q [unfolded m]] assms(2) by (auto simp: delivery_ok_def)
    let ?ex = "prepareRegistryForExecution (StateMachineID ?x) registryMap (dl_executor d)"
    from assms(1) q m obtain r2 ex2 s2 where run:
        "resumeExecutionWithMessage fuel (if adapted then adapter_env ?ex env else env) (now_ns env []) m a request ?ex s1 = Some (r2, ex2, s2)"
        "dl_executor d' = ex2" "dl_smCache d' = cache"
      by (auto simp: deliver_def Let_def split: option.splits res.splits)
    have "keeps_table ?ex ex2" by (rule machine_contract.resume_keeps_table [OF c(1) run(1)])
    then have "keeps_table (dl_executor d) ex2" by (rule keeps_table_trans [OF keeps_table_prepare])
    with assms(2) c(2) run(2,3) show ?thesis by (auto simp: delivery_ok_def intro: keeps_table_trans machines_ok_keeps)
  next
    case False
    have "contracted cache" if "q = Ok (None, cache)" for cache
      using getOrLoad_contract [OF q [unfolded that]] assms(2) by (auto simp: delivery_ok_def)
    with False assms q show ?thesis
      by (auto simp: deliver_def Let_def delivery_ok_def split: res.splits option.splits)
  qed
qed

lemma deliver_all_ok:
  "deliver_all fuel envs i adapted newSM request registryMap as d = Some (r, d') \<Longrightarrow> delivery_ok ex d \<Longrightarrow> delivery_ok ex d'"
proof (induction as arbitrary: i d)
  case (Cons a as)
  from Cons.prems(1) obtain q d1 where q: "deliver fuel (envs i) adapted newSM request registryMap a d = Some (q, d1)"
    by (auto split: option.splits)
  with Cons.prems(1) Cons.IH [of "Suc i" d1] deliver_ok [OF q Cons.prems(2)] show ?case by (cases q) auto
qed simp

lemma findAllWaitingExecutions_keeps:
  assumes "findAllWaitingExecutions env ex key val s = (r, ex', s')"
  shows "keeps_table ex ex'"
proof -
  let ?mem = "findWaitingExecutions env ex key val"
  have "keeps_table ex ex1" if "add_records recs ?mem ex = (found, ex1)" for recs found ex1
    using add_records_keeps [of ex recs ?mem] that by simp
  with assms show ?thesis
    by (auto simp: findAllWaitingExecutions_def Let_def split: option.splits prod.splits res.splits)
qed

lemma Message_keeps:
  assumes "Message fuel envs adapted newSM request registryMap ex s = Some (r, ex', s')" and "machines_ok ex"
  shows "keeps_table ex ex'"
proof (cases "\<exists>rq. request = Some rq \<and> rq_CorrelationKey rq \<noteq> []")
  case True
  then obtain rq where rq: "request = Some rq" "rq_CorrelationKey rq \<noteq> []" by blast
  obtain q ex1 s1 where q: "findAllWaitingExecutions (envs 0) ex (rq_CorrelationKey rq) (rq_CorrelationValue rq) s = (q, ex1, s1)"
    by (metis prod_cases3)
  note keep = findAllWaitingExecutions_keeps [OF q]
  then have ok: "delivery_ok ex1 \<lparr>dl_lastResponse = None, dl_lastErr = None, dl_resumedCount = 0, dl_smCache = [],
      dl_executor = ex1, dl_store = s1\<rparr>"
    using assms(2) by (auto simp: delivery_ok_def intro: machines_ok_keeps)
  show ?thesis using assms(1) rq q keep deliver_all_ok [OF _ ok]
    by (auto simp: Message_def delivery_ok_def simp del: deliver_all.simps split: res.splits list.splits intro: keeps_table_trans)
qed (use assms in \<open>auto simp: Message_def split: option.splits if_splits\<close>)

section \<open>Every use of an executor\<close>

text \<open>What clients can do: create executions, run them, and call the operations, on pointers they hold.\<close>

inductive executor_step :: "'s executor \<times> 's \<Rightarrow> 's executor \<times> 's \<Rightarrow> bool" where
  create: "executor_step (ex, s) (snd (alloc_execution x ex), s)"
| run: "ID x = ID (exec_at ex a) \<Longrightarrow> executor_step (ex, s) (put_execution a x ex, s')"
| pause: "a < length (ex_heap ex) \<Longrightarrow> executor_step (ex, s) (snd (PauseExecution now (Some a) corr ex), s)"
| stop: "executor_step (ex, s) (snd (Stop now (Some a) ex), s)"
| timeout: "executor_step (ex, s) (TimeoutWaitingExecutions now ex, s)"
| register: "executor_step (ex, s) (RegisterGoFunction name fn ex, s)"
| add_machine: "machine_contract m \<Longrightarrow> executor_step (ex, s) (AddStateMachine (Some m) ex, s)"
| add_registry: "executor_step (ex, s) (AddRegistry i r ex, s)"
| set_repository: "executor_step (ex, s) (SetRepositoryManager manager ex, s)"
| set_loader: "(\<And>i s m s'. loader i s = (Ok (Some m), s') \<Longrightarrow> machine_contract m) \<Longrightarrow>
    executor_step (ex, s) (SetStateMachineLoader (Some loader) ex, s)"
| message: "Message fuel envs adapted newSM request registryMap ex s = Some (r, ex', s') \<Longrightarrow> executor_step (ex, s) (ex', s')"
| resume: "machine_contract m \<Longrightarrow> Executor_ResumeExecution fuel env m (Some a) ex s = Some (r, ex', s') \<Longrightarrow>
    executor_step (ex, s) (ex', s')"

lemma executor_ok_delete:
  "executor_ok ex \<Longrightarrow> executor_ok (ex\<lparr>ex_executions := AList.delete k (ex_executions ex)\<rparr>)"
  by (auto simp: executor_ok_def AList.delete_eq distinct_map_filter)

lemma machines_ok_fields:
  "machines_ok (ex\<lparr>ex_executions := t\<rparr>) = machines_ok ex" "machines_ok (put_execution a x ex) = machines_ok ex"
  by (simp_all add: machines_ok_def)

lemma executor_ok_fields [simp]:
  "executor_ok (RegisterGoFunction name fn ex) = executor_ok ex" "executor_ok (AddStateMachine m ex) = executor_ok ex"
  "executor_ok (AddRegistry i r ex) = executor_ok ex" "executor_ok (SetRepositoryManager manager ex) = executor_ok ex"
  "executor_ok (SetStateMachineLoader loader ex) = executor_ok ex"
  by (simp_all add: executor_ok_def RegisterGoFunction_def AddStateMachine_def AddRegistry_def SetRepositoryManager_def
      SetStateMachineLoader_def split: option.split)

lemma machines_ok_setters [simp]:
  "machines_ok (RegisterGoFunction name fn ex) = machines_ok ex" "machines_ok (AddRegistry i r ex) = machines_ok ex"
  "machines_ok (SetRepositoryManager manager ex) = machines_ok ex"
  by (simp_all add: machines_ok_def RegisterGoFunction_def AddRegistry_def SetRepositoryManager_def)

lemma machines_ok_add: "machines_ok ex \<Longrightarrow> machine_contract m \<Longrightarrow> machines_ok (AddStateMachine (Some m) ex)"
  by (auto simp: machines_ok_def AddStateMachine_def contracted_update)

lemma timeout_loop_ok: "executor_ok ex \<and> machines_ok ex \<Longrightarrow> executor_ok (timeout_loop now es ex) \<and> machines_ok (timeout_loop now es ex)"
proof (induction now es ex rule: timeout_loop.induct)
  case (2 now k a rest ex)
  have put: "executor_ok ((put_execution a x ex)\<lparr>ex_executions := AList.delete j (ex_executions (put_execution a x ex))\<rparr>)"
    if "ID x = ID (exec_at ex a)" for x j
    using 2(2) that by (intro executor_ok_delete executor_ok_put) simp_all
  show ?case unfolding timeout_loop.simps
    by (rule 2(1)) (use 2(2) put in \<open>auto simp: Let_def machines_ok_fields simp del: put_execution_simps split: option.split\<close>)
qed simp

lemma executor_ok_pause:
  assumes "executor_ok ex \<and> machines_ok ex" and "a < length (ex_heap ex)"
  shows "executor_ok (snd (PauseExecution now (Some a) corr ex)) \<and> machines_ok (snd (PauseExecution now (Some a) corr ex))"
proof -
  let ?x = "(exec_at ex a)\<lparr>Status := ''PAUSED'', Metadata := Some (pause_metadata now corr (Metadata (exec_at ex a)))\<rparr>"
  have "executor_ok (put_execution a ?x ex)" using assms(1) by (simp add: executor_ok_put)
  then show ?thesis using assms set_update_subset [of "ID (exec_at ex a)" a "ex_executions ex"]
    by (auto simp: executor_ok_def PauseExecution_def Let_def machines_ok_fields)
qed

lemma executor_ok_stop:
  assumes "executor_ok ex \<and> machines_ok ex"
  shows "executor_ok (snd (Stop now (Some a) ex)) \<and> machines_ok (snd (Stop now (Some a) ex))"
proof -
  have "executor_ok (put_execution a ((exec_at ex a)\<lparr>Status := ''ABORTED'', EndTime := Some now\<rparr>) ex)"
    using assms by (simp add: executor_ok_put)
  from executor_ok_delete [OF this] assms show ?thesis by (simp add: Stop_def Let_def machines_ok_fields)
qed

lemma executor_step_ok:
  assumes "executor_step p q" and "executor_ok (fst p) \<and> machines_ok (fst p)"
  shows "executor_ok (fst q) \<and> machines_ok (fst q)"
  using assms
proof (induction rule: executor_step.induct)
  case (create ex s x)
  then show ?case using executor_ok_keeps machines_ok_keeps keeps_table_alloc by (metis fst_conv)
next
  case (run x ex a s s')
  then show ?case using executor_ok_keeps machines_ok_keeps keeps_table_put by (metis fst_conv)
next
  case (message fuel envs adapted newSM request registryMap ex s r ex' s')
  then show ?case using executor_ok_keeps machines_ok_keeps Message_keeps by (metis fst_conv)
next
  case (resume m fuel env a ex s r ex' s')
  then show ?case using executor_ok_keeps machines_ok_keeps machine_contract.executor_resume_keeps_table by (metis fst_conv)
qed (auto simp: TimeoutWaitingExecutions_def timeout_loop_ok executor_ok_pause executor_ok_stop machines_ok_add,
    auto simp: machines_ok_def SetStateMachineLoader_def)

section \<open>Properties\<close>

definition one_paused :: "(gval db \<times> aq_state) executor" where
  "one_paused = snd (PauseExecution 0 (Some 0) [(''correlation_key'', GString ''order''), (''correlation_value'', GString ''42'')]
     (snd (alloc_execution (start ''M'' order_input) NewBaseExecutor)))"

lemma one_paused_reachable: "executor_step\<^sup>*\<^sup>* (NewBaseExecutor, s) (one_paused, s)"
proof -
  let ?e = "snd (alloc_execution (start ''M'' order_input) NewBaseExecutor)"
  have "executor_step (NewBaseExecutor, s) (?e, s)" by (rule executor_step.create)
  moreover have "executor_step (?e, s) (one_paused, s)" unfolding one_paused_def
    by (rule executor_step.pause) (simp add: alloc_execution_def)
  ultimately show ?thesis by (meson r_into_rtranclp rtranclp_trans)
qed

lemma executor_ok_ids: "executor_ok ex \<Longrightarrow> map (\<lambda>a. ID (exec_at ex a)) (map snd (ex_executions ex)) = map fst (ex_executions ex)"
  by (auto simp: executor_ok_def)

lemma findWaitingExecutions_iff:
  assumes "executor_ok ex"
  shows "a \<in> set (findWaitingExecutions env ex key val) \<longleftrightarrow> (ID (exec_at ex a), a) \<in> set (ex_executions ex) \<and>
    Status (exec_at ex a) = ''PAUSED'' \<and> matchesCorrelation env (exec_at ex a) key val"
proof -
  have "ID (exec_at ex a) = k" if "(k, a) \<in> set (ex_executions ex)" for k
    using assms that by (auto simp: executor_ok_def)
  then have "(\<exists>k. (k, a) \<in> set (ex_executions ex)) \<longleftrightarrow> (ID (exec_at ex a), a) \<in> set (ex_executions ex)" by blast
  moreover have "a \<in> snd ` set (ex_executions ex) \<longleftrightarrow> (\<exists>k. (k, a) \<in> set (ex_executions ex))" by (force simp: image_iff)
  ultimately show ?thesis by (auto simp: findWaitingExecutions_def)
qed

lemma executor_reachable_ok:
  assumes "executor_step\<^sup>*\<^sup>* (NewBaseExecutor, s0) (ex, s)"
  shows "executor_ok ex \<and> machines_ok ex"
proof -
  have "executor_ok (fst q) \<and> machines_ok (fst q)" if "executor_step\<^sup>*\<^sup>* (NewBaseExecutor, s0) q" for q
    using that
  proof (induction rule: rtranclp_induct)
    case base
    show ?case by (simp add: NewBaseExecutor_def executor_ok_def machines_ok_def)
  next
    case (step y z)
    then show ?case using executor_step_ok by blast
  qed
  from this [OF assms] show ?thesis by simp
qed

text \<open>C30: The table of executions stays consistent in every use of the executor, message deliveries, runs and timeouts included: keys are distinct, each leads to an
  existing execution with that identifier, no execution is registered twice, and looking up an identifier gives the execution with
  this identifier or an error.\<close>

theorem executor_table_consistent:
  assumes "executor_step\<^sup>*\<^sup>* (NewBaseExecutor, s0) (ex, s)"
  shows "distinct_keys (ex_executions ex) \<and> distinct (ListExecutions ex) \<and>
    (\<forall>(k, a)\<in>set (ex_executions ex). a < length (ex_heap ex) \<and> ID (exec_at ex a) = k) \<and>
    (\<forall>i. case GetStatus ex i of Ok a \<Rightarrow> ID (exec_at ex a) = i | Err e \<Rightarrow> i \<notin> fst ` set (ex_executions ex) | _ \<Rightarrow> False)"
proof -
  have ok: "executor_ok ex" using executor_reachable_ok [OF assms] ..
  have "distinct (map (\<lambda>a. ID (exec_at ex a)) (ListExecutions ex))"
    unfolding ListExecutions_def executor_ok_ids [OF ok] using ok by (simp add: executor_ok_def)
  then have "distinct (ListExecutions ex)" by (simp add: distinct_map)
  moreover have "case GetStatus ex i of Ok a \<Rightarrow> ID (exec_at ex a) = i | Err e \<Rightarrow> i \<notin> fst ` set (ex_executions ex) | _ \<Rightarrow> False" for i
    using ok by (auto simp: executor_ok_def GetStatus_def map_of_eq_None_iff split: option.split dest: map_of_in_set)
  ultimately show ?thesis using ok by (simp add: executor_ok_def)
qed

theorem executor_table_consistent_witness:
  "ex_executions one_paused = [(''e1'', 0)] \<and> distinct_keys (ex_executions one_paused) \<and> ID (exec_at one_paused 0) = ''e1''"
proof -
  have "ex_executions one_paused = [(''e1'', 0)]" by code_simp
  with executor_table_consistent [OF one_paused_reachable] show ?thesis by simp
qed

text \<open>The executions found, with the records appended that are not there yet.\<close>

lemma add_records_spec:
  assumes "add_records recs found ex = (found', ex')" and "\<forall>a\<in>set found. a < length (ex_heap ex)"
    and "distinct (map (\<lambda>a. ID (exec_at ex a)) found)"
  shows "distinct (map (\<lambda>a. ID (exec_at ex' a)) found') \<and>
    (\<lambda>a. ID (exec_at ex' a)) ` set found' = (\<lambda>a. ID (exec_at ex a)) ` set found \<union> er_ExecutionID ` set recs \<and>
    set found \<subseteq> set found' \<and> (\<forall>a<length (ex_heap ex). exec_at ex' a = exec_at ex a)"
  using assms
proof (induction recs found ex rule: add_records.induct)
  case (2 rec recs found ex)
  show ?case
  proof (cases "\<exists>a\<in>set found. ID (exec_at ex a) = er_ExecutionID rec")
    case True
    then have "er_ExecutionID rec \<in> (\<lambda>a. ID (exec_at ex a)) ` set found" by force
    with 2(1) [OF True] 2(3-5) True show ?thesis by (auto simp: insert_absorb)
  next
    case False
    let ?a = "length (ex_heap ex)" and ?ex = "ex\<lparr>ex_heap := ex_heap ex @ [record_to_execution rec]\<rparr>"
    have old: "exec_at ?ex a = exec_at ex a" if "a < ?a" for a using that by (simp add: nth_append)
    have new: "ID (exec_at ?ex ?a) = er_ExecutionID rec" by (simp add: record_to_execution_def)
    have ids: "map (\<lambda>a. ID (exec_at ?ex a)) found = map (\<lambda>a. ID (exec_at ex a)) found" using 2(4) old by (intro map_cong) auto
    have "distinct (map (\<lambda>a. ID (exec_at ?ex a)) (found @ [?a]))"
      using 2(5) False new unfolding map_append ids by (auto simp: nth_append)
    moreover have "\<forall>a\<in>set (found @ [?a]). a < length (ex_heap ?ex)" using 2(4) by auto
    moreover have "add_records recs (found @ [?a]) ?ex = (found', ex')" using 2(3) False by (simp add: alloc_execution_def)
    ultimately have ih: "distinct (map (\<lambda>a. ID (exec_at ex' a)) found') \<and>
        (\<lambda>a. ID (exec_at ex' a)) ` set found' = (\<lambda>a. ID (exec_at ?ex a)) ` set (found @ [?a]) \<union> er_ExecutionID ` set recs \<and>
        set (found @ [?a]) \<subseteq> set found' \<and> (\<forall>a<length (ex_heap ?ex). exec_at ex' a = exec_at ?ex a)"
      using 2(2) [OF False, of "(?a, ?ex)" ?a ?ex] by (simp add: alloc_execution_def)
    moreover have "(\<lambda>a. ID (exec_at ?ex a)) ` set (found @ [?a]) = insert (er_ExecutionID rec) ((\<lambda>a. ID (exec_at ex a)) ` set found)"
      using arg_cong [OF ids, of set] new by simp
    ultimately show ?thesis using old by auto
  qed
qed simp

text \<open>C29: A message looks for every execution that waits for it, and for each of them once. When the repository answers, the executions found have distinct identifiers;
  these are the identifiers of the paused executions in memory whose correlation matches together with those of the stored executions that the
  repository reports; an execution that is in memory is used as it is there, not as the copy in the repository.\<close>

theorem findAllWaitingExecutions_exact:
  assumes "executor_step\<^sup>*\<^sup>* (NewBaseExecutor, s0) (ex, s)" and "ex_repositoryManager ex = Some manager"
    and "Manager_FindWaitingExecutionsByCorrelation manager key val s = (Ok recs, s1)"
  shows "\<exists>found ex1. findAllWaitingExecutions env ex key val s = (Ok found, ex1, s1) \<and>
    distinct (map (\<lambda>a. ID (exec_at ex1 a)) found) \<and>
    (\<lambda>a. ID (exec_at ex1 a)) ` set found =
      {k. \<exists>a. (k, a) \<in> set (ex_executions ex) \<and> Status (exec_at ex a) = ''PAUSED'' \<and> matchesCorrelation env (exec_at ex a) key val} \<union>
      er_ExecutionID ` set recs \<and>
    (\<forall>(k, a)\<in>set (ex_executions ex). exec_at ex1 a = exec_at ex a \<and>
      (Status (exec_at ex a) = ''PAUSED'' \<longrightarrow> matchesCorrelation env (exec_at ex a) key val \<longrightarrow> a \<in> set found))"
proof -
  let ?mem = "findWaitingExecutions env ex key val"
  have ok: "executor_ok ex" using executor_reachable_ok [OF assms(1)] ..
  have dist: "distinct (map (\<lambda>a. ID (exec_at ex a)) (map snd (ex_executions ex)))"
    unfolding executor_ok_ids [OF ok] using ok by (simp add: executor_ok_def)
  obtain found ex1 where f: "add_records recs ?mem ex = (found, ex1)" by fastforce
  have mem: "distinct (map (\<lambda>a. ID (exec_at ex a)) ?mem)" "\<forall>a\<in>set ?mem. a < length (ex_heap ex)"
    unfolding findWaitingExecutions_def by (rule distinct_map_filter [OF dist]) (use ok in \<open>auto simp: executor_ok_def\<close>)
  note iff = findWaitingExecutions_iff [OF ok, of _ env key val]
  have key: "ID (exec_at ex a) = k \<and> a < length (ex_heap ex)" if "(k, a) \<in> set (ex_executions ex)" for k a
    using ok that by (auto simp: executor_ok_def)
  have "(\<lambda>a. ID (exec_at ex a)) ` set ?mem =
      {k. \<exists>a. (k, a) \<in> set (ex_executions ex) \<and> Status (exec_at ex a) = ''PAUSED'' \<and> matchesCorrelation env (exec_at ex a) key val}"
    unfolding image_def Bex_def iff using key by blast
  moreover have "findAllWaitingExecutions env ex key val s = (Ok found, ex1, s1)"
    using assms(2,3) f by (simp add: findAllWaitingExecutions_def op_wrap_def)
  moreover have "a \<in> set found" if "(k, a) \<in> set (ex_executions ex)" "Status (exec_at ex a) = ''PAUSED''"
      "matchesCorrelation env (exec_at ex a) key val" for k a
    using add_records_spec [OF f mem(2,1)] iff [of a] key [OF that(1)] that by auto
  ultimately show ?thesis using add_records_spec [OF f mem(2,1)] key by (intro exI [of _ found] exI [of _ ex1]) auto
qed

definition with_database :: "(gval db \<times> aq_state) executor" where
  "with_database = SetRepositoryManager (Some (on_database (Postgres_repository plain_pg))) one_paused"

lemma with_database_reachable: "executor_step\<^sup>*\<^sup>* (NewBaseExecutor, s) (with_database, s)"
  unfolding with_database_def using one_paused_reachable executor_step.set_repository by (metis rtranclp.rtrancl_into_rtrancl)

theorem findAllWaitingExecutions_exact_witness:
  "\<exists>ex1 s1. findAllWaitingExecutions quiet_env with_database ''order'' (GString ''42'') (snd pause_outcome) = (Ok [0], ex1, s1)"
proof -
  let ?m = "on_database (Postgres_repository plain_pg) :: (gval db \<times> aq_state) repository"
  have "(case fst (Manager_FindWaitingExecutionsByCorrelation ?m ''order'' (GString ''42'') (snd pause_outcome)) of
      Ok recs \<Rightarrow> map er_ExecutionID recs | _ \<Rightarrow> []) = [''e1'']" by code_simp
  then obtain recs s1 where recs: "Manager_FindWaitingExecutionsByCorrelation ?m ''order'' (GString ''42'') (snd pause_outcome) = (Ok recs, s1)"
      "map er_ExecutionID recs = [''e1'']"
    by (cases "Manager_FindWaitingExecutionsByCorrelation ?m ''order'' (GString ''42'') (snd pause_outcome)") (auto split: res.splits)
  have m: "ex_repositoryManager with_database = Some ?m" by (simp add: with_database_def SetRepositoryManager_def)
  have tab: "ex_executions with_database = [(''e1'', 0)]" by code_simp
  have pausd: "Status (exec_at with_database 0) = ''PAUSED'' \<and> matchesCorrelation quiet_env (exec_at with_database 0) ''order'' (GString ''42'')"
    by code_simp
  from findAllWaitingExecutions_exact [OF with_database_reachable m recs(1), of quiet_env]
  obtain found ex1 where f: "findAllWaitingExecutions quiet_env with_database ''order'' (GString ''42'') (snd pause_outcome) = (Ok found, ex1, s1)"
      "distinct (map (\<lambda>a. ID (exec_at ex1 a)) found)" "(\<lambda>a. ID (exec_at ex1 a)) ` set found \<subseteq> {''e1''}" "0 \<in> set found"
    using pausd recs(2) unfolding tab by (auto simp: map_eq_Cons_conv)
  have "length found = card ((\<lambda>a. ID (exec_at ex1 a)) ` set found)"
    using distinct_card [OF f(2)] by simp
  also have "\<dots> \<le> card {''e1''}" by (rule card_mono [OF _ f(3)]) simp
  finally have "found = [0]" using f(4) by (cases found; cases "tl found") auto
  with f(1) show ?thesis by blast
qed

text \<open>The executions that have waited too long, and what becomes of them.\<close>

definition expired :: "int \<Rightarrow> execution \<Rightarrow> bool" where
  "expired now x \<longleftrightarrow> Status x = ''PAUSED'' \<and> waited_too_long now x \<noteq> None"

definition expire :: "int \<Rightarrow> execution \<Rightarrow> execution" where
  "expire now x = x\<lparr>Status := ''TIMEOUT'', EndTime := Some now,
     ExecError := Some (ErrorNew (''message timeout after '' @ itoa (the (waited_too_long now x)) @ '' seconds''))\<rparr>"

lemma timeout_loop_spec:
  assumes "executor_ok ex" and "set es \<subseteq> set (ex_executions ex)" and "distinct_keys es"
  shows "ex_executions (timeout_loop now es ex) =
      filter (\<lambda>p. \<not> (p \<in> set es \<and> expired now (exec_at ex (snd p)))) (ex_executions ex) \<and>
    length (ex_heap (timeout_loop now es ex)) = length (ex_heap ex) \<and>
    (\<forall>a<length (ex_heap ex). exec_at (timeout_loop now es ex) a =
      (if a \<in> snd ` set es \<and> expired now (exec_at ex a) then expire now (exec_at ex a) else exec_at ex a))"
  using assms
proof (induction es arbitrary: ex)
  case (Cons p rest)
  obtain k a where p: "p = (k, a)" by fastforce
  have mem: "(k, a) \<in> set (ex_executions ex)" and a: "a < length (ex_heap ex)" "ID (exec_at ex a) = k"
    using Cons.prems(1,2) p by (auto simp: executor_ok_def)
  have live: "map_of (ex_executions ex) k = Some a" using mem Cons.prems(1) by (simp add: executor_ok_def)
  show ?case
  proof (cases "expired now (exec_at ex a)")
    case False
    then have "timeout_loop now (p # rest) ex = timeout_loop now rest ex"
      using live by (auto simp: p expired_def)
    moreover have "set rest \<subseteq> set (ex_executions ex)" "distinct_keys rest" using Cons.prems by auto
    ultimately show ?thesis using Cons.IH [OF Cons.prems(1)] False p by (auto intro!: filter_cong)
  next
    case True
    let ?ex = "(put_execution a (expire now (exec_at ex a)) ex)\<lparr>ex_executions := AList.delete k (ex_executions ex)\<rparr>"
    have step: "timeout_loop now (p # rest) ex = timeout_loop now rest ?ex"
      using True live a by (auto simp: p expired_def expire_def Let_def)
    have other: "k' \<noteq> k \<and> a' \<noteq> a" if "(k', a') \<in> set rest" for k' a'
    proof -
      have "k' \<noteq> k" using Cons.prems(3) p that by (auto simp: image_iff)
      moreover have "ID (exec_at ex a') = k'" using Cons.prems(1,2) that by (auto simp: executor_ok_def)
      ultimately show ?thesis using a(2) by auto
    qed
    have ok: "executor_ok ?ex"
      using executor_ok_delete [OF executor_ok_put [OF Cons.prems(1), of "expire now (exec_at ex a)" a], of k] by (simp add: expire_def)
    have sub: "set rest \<subseteq> set (ex_executions ?ex)" using Cons.prems(2) other by (auto simp: AList.delete_eq)
    note ih = Cons.IH [OF ok sub]
    have keys: "(k', a') \<in> set (ex_executions ex) \<Longrightarrow> a' = a \<longleftrightarrow> k' = k" for k' a'
      using Cons.prems(1) mem a by (auto simp: executor_ok_def dest: eq_key_imp_eq_value)
    have "ex_executions (timeout_loop now rest ?ex) =
        filter (\<lambda>q. \<not> (q \<in> set rest \<and> expired now (exec_at ?ex (snd q)))) (AList.delete k (ex_executions ex))"
      using ih Cons.prems(3) by simp
    also have "\<dots> = filter (\<lambda>q. \<not> (q \<in> set (p # rest) \<and> expired now (exec_at ex (snd q)))) (ex_executions ex)"
    proof -
      have "((case q of (k', _) \<Rightarrow> k \<noteq> k') \<and> \<not> (q \<in> set rest \<and> expired now (exec_at ?ex (snd q)))) \<longleftrightarrow>
          \<not> (q \<in> set (p # rest) \<and> expired now (exec_at ex (snd q)))" if "q \<in> set (ex_executions ex)" for q
        using keys [of "fst q" "snd q"] that True p by (cases q; cases "snd q = a") auto
      then show ?thesis unfolding AList.delete_eq filter_filter by (intro filter_cong [OF refl])
    qed
    finally have tab: "ex_executions (timeout_loop now rest ?ex) =
        filter (\<lambda>q. \<not> (q \<in> set (p # rest) \<and> expired now (exec_at ex (snd q)))) (ex_executions ex)" .
    have "a \<notin> snd ` set rest" using other by force
    then show ?thesis using ih Cons.prems(3) True a(1) unfolding step tab by (auto simp: p nth_list_update)
  qed
qed simp

text \<open>Timing out is exact. \<open>TimeoutWaitingExecutions\<close> removes exactly the paused executions that have waited longer than their \<open>timeout_seconds\<close> (the comparison in
  64-bit nanoseconds), marks each of them TIMEOUT with its error, and leaves every other execution and the order of the table as they were.\<close>

theorem TimeoutWaitingExecutions_exact:
  assumes "executor_step\<^sup>*\<^sup>* (NewBaseExecutor, s0) (ex, s)"
  shows "ex_executions (TimeoutWaitingExecutions now ex) = filter (\<lambda>(k, a). \<not> expired now (exec_at ex a)) (ex_executions ex) \<and>
    (\<forall>a<length (ex_heap ex). exec_at (TimeoutWaitingExecutions now ex) a =
      (if a \<in> snd ` set (ex_executions ex) \<and> expired now (exec_at ex a) then expire now (exec_at ex a) else exec_at ex a))"
proof -
  have ok: "executor_ok ex" using executor_reachable_ok [OF assms] ..
  have "filter (\<lambda>p. \<not> (p \<in> set (ex_executions ex) \<and> expired now (exec_at ex (snd p)))) (ex_executions ex) =
      filter (\<lambda>(k, a). \<not> expired now (exec_at ex a)) (ex_executions ex)"
    by (rule filter_cong) auto
  then show ?thesis
    using timeout_loop_spec [OF ok, of "ex_executions ex" now] ok unfolding TimeoutWaitingExecutions_def by (simp add: executor_ok_def)
qed

definition impatient :: "(gval db \<times> aq_state) executor" where
  "impatient = snd (PauseExecution 0 (Some 0) []
     (snd (alloc_execution ((start ''M'' order_input)\<lparr>Metadata := Some [(''timeout_seconds'', GInteger KInt 5)]\<rparr>) NewBaseExecutor)))"

theorem TimeoutWaitingExecutions_exact_witness:
  "ex_executions impatient = [(''e1'', 0)] \<and> ex_executions (TimeoutWaitingExecutions (6000000000) impatient) = [] \<and>
   Status (exec_at (TimeoutWaitingExecutions (6000000000) impatient) 0) = ''TIMEOUT'' \<and>
   ex_executions (TimeoutWaitingExecutions (5000000000) impatient) = [(''e1'', 0)]"
proof -
  let ?x = "(start ''M'' order_input)\<lparr>Metadata := Some [(''timeout_seconds'', GInteger KInt 5)]\<rparr>"
  let ?e = "snd (alloc_execution ?x NewBaseExecutor) :: (gval db \<times> aq_state) executor"
  have "executor_step (NewBaseExecutor, empty_store) (?e, empty_store)" by (rule executor_step.create)
  moreover have "executor_step (?e, empty_store) (impatient, empty_store)" unfolding impatient_def
    by (rule executor_step.pause) (simp add: alloc_execution_def)
  ultimately have reach: "executor_step\<^sup>*\<^sup>* (NewBaseExecutor, empty_store) (impatient, empty_store)" by auto
  have tab: "ex_executions impatient = [(''e1'', 0)]" "length (ex_heap impatient) = 1" by code_simp+
  have late: "expired (6000000000) (exec_at impatient 0)" "\<not> expired (5000000000) (exec_at impatient 0)" by code_simp+
  show ?thesis
    using TimeoutWaitingExecutions_exact [OF reach, of "6000000000"] TimeoutWaitingExecutions_exact [OF reach, of "5000000000"]
    by (simp add: tab late expire_def)
qed

text \<open>A run over any store, with the input it works on.\<close>

lemma run_view:
  "map_option fst (Persistent_RunExecution fuel env pm input x s) =
   map_option fst (Persistent_RunExecution fuel env pm GNil (if input \<noteq> GNil then x\<lparr>Input := input\<rparr> else x) t)"
  unfolding prun_start by (rule prun_loop_view) (simp_all add: pview_def)

text \<open>C28: What a message does to a paused execution of a persistent machine, for every outcome of the run. The executor puts the message into \<open>Input\<close>, but the
  engine resumes a paused execution on \<open>Output\<close>, in which the pause saved the input without the message. So with an \<open>Output\<close> the message is lost: whether the run
  returns, what becomes of the execution and the error are those of the run from the saved state, whatever the message was. Only when \<open>Output\<close> is
  nil, as after a pause on a nil input, the run works on \<open>Input\<close> with the message merged into it. The response says RESUMED exactly when the run returns no
  error, in the first case too; the repository may hold anything when the run starts.\<close>

theorem message_to_persistent_machine_lost:
  assumes "a < length (ex_heap ex)" and "Status (exec_at ex a) = ''PAUSED''"
    and "MergeInputs (Input (exec_at ex a)) (resume_input (exec_at ex a) request) = Ok m"
    and "v = (if Output (exec_at ex a) \<noteq> GNil then Output (exec_at ex a) else m)"
    and "result = map_option fst (Persistent_RunExecution fuel env pm GNil ((exec_at ex a)\<lparr>Status := ''RUNNING'', Input := v\<rparr>) t)"
  shows "case result of
      None \<Rightarrow> resumeExecutionWithMessage fuel env now (persistent_interface pm) a request ex s = None
    | Some (Ok (x2, None)) \<Rightarrow>
        \<exists>response s'. resumeExecutionWithMessage fuel env now (persistent_interface pm) a request ex s = Some (Ok response, put_execution a x2 ex, s') \<and>
          rs_Status response = ''RESUMED'' \<and> rs_ExecutionID response = ID x2
    | Some (Ok (x2, Some e)) \<Rightarrow>
        \<exists>s'. resumeExecutionWithMessage fuel env now (persistent_interface pm) a request ex s =
          Some (Err (Wrapped ''failed to resume execution'' e), put_execution a x2 ex, s')
    | Some r \<Rightarrow>
        \<exists>q ex' s'. resumeExecutionWithMessage fuel env now (persistent_interface pm) a request ex s = Some (q, ex', s') \<and> (\<forall>response. q \<noteq> Ok response)"
proof -
  let ?x = "exec_at ex a"
  let ?x1 = "?x\<lparr>Input := m\<rparr>"
  let ?x2 = "?x1\<lparr>Status := ''RUNNING''\<rparr>"
  let ?run = "Persistent_RunExecution fuel env pm (Output ?x) ?x2 (persistExecution pm ?x2 (settle_correlation pm ?x1 s))"
  have resume: "si_ResumeExecution (persistent_interface pm) fuel env ?x1 s = ?run"
    by (simp add: persistent_interface_def Persistent_ResumeExecution_def assms(2) Let_def)
  have "(if Output ?x \<noteq> GNil then ?x2\<lparr>Input := Output ?x\<rparr> else ?x2) = ?x\<lparr>Status := ''RUNNING'', Input := v\<rparr>" by (simp add: assms(4))
  then have result: "result = map_option fst ?run"
    unfolding assms(5) using run_view [of fuel env pm "Output ?x" ?x2 "persistExecution pm ?x2 (settle_correlation pm ?x1 s)" t] by simp
  have merge: "si_MergeInputs (persistent_interface pm) (Input ?x) (resume_input ?x request) = Ok m"
    using assms(3) by (simp add: persistent_interface_def)
  show ?thesis
    unfolding result by (cases ?run) (auto simp: resumeExecutionWithMessage_def merge resume Let_def split: res.split option.split)
qed

definition delivered :: message_request where
  "delivered = \<lparr>rq_CorrelationKey = ''order'', rq_CorrelationValue = GString ''42'', rq_Data = GString ''paid''\<rparr>"

definition stored_paused :: "(gval db \<times> aq_state) executor" where
  "stored_paused = snd (alloc_execution ((start ''M'' order_input)\<lparr>Status := ''PAUSED'', Output := order_input\<rparr>) NewBaseExecutor)"

lemma stored_paused_heap:
  "ex_heap stored_paused = [(start ''M'' order_input)\<lparr>Status := ''PAUSED'', Output := order_input\<rparr>]"
  by (simp add: stored_paused_def alloc_execution_def NewBaseExecutor_def)

text \<open>The Message state of the example waits again when it runs on the saved state.\<close>

lemma pause_again:
  assumes "CurrentState x = ''M''"
  obtains x' s' where "Persistent_RunExecution 5 quiet_env message_engine order_input x s = Some (Ok (x', None), s')" "Status x' = ''PAUSED''"
proof -
  let ?c = "\<lparr>pc_step = 0, pc_StateName = ''M'', pc_Exec = x\<lparr>Input := order_input\<rparr>, pc_Store = s\<rparr>"
  have "\<exists>x' s'. prun_once 4 quiet_env message_engine ?c = Some (Inr (Ok (x', None), s')) \<and> Status x' = ''PAUSED''"
    using prun_once_state [of quiet_env ?c message_engine message_M 4 pause_result None None] pause_exec message_engine_M
    by (auto simp: pause_result_def quiet_env_simps handleWaitingState_def Let_def)
  then show thesis using that by (auto simp: prun_start assms order_input_def eval_nat_numeral)
qed

theorem message_to_persistent_machine_lost_witness:
  "\<exists>response ex' s'.
    resumeExecutionWithMessage 5 quiet_env 0 (persistent_interface message_engine) 0 delivered stored_paused empty_store =
      Some (Ok response, ex', s') \<and> rs_Status response = ''RESUMED'' \<and> Status (exec_at ex' 0) = ''PAUSED'' \<and>
    map_option fst (Persistent_RunExecution 5 quiet_env message_engine GNil
        ((exec_at stored_paused 0)\<lparr>Status := ''RUNNING'', Input := order_input\<rparr>) empty_store) = Some (Ok (exec_at ex' 0, None))"
proof -
  let ?x = "exec_at stored_paused 0" and ?r = "resumeExecutionWithMessage 5 quiet_env 0 (persistent_interface message_engine) 0 delivered stored_paused empty_store"
  have x: "Status ?x = ''PAUSED''" "Output ?x = order_input" "CurrentState ?x = ''M''" "0 < length (ex_heap stored_paused)"
    by (simp_all add: stored_paused_heap start_def NewContext_def)
  obtain m where m: "MergeInputs (Input ?x) (resume_input ?x delivered) = Ok m" using MergeInputs_Ok by blast
  obtain x' s' where "Persistent_RunExecution 5 quiet_env message_engine order_input (?x\<lparr>Input := m, Status := ''RUNNING''\<rparr>)
      (persistExecution message_engine (?x\<lparr>Input := m, Status := ''RUNNING''\<rparr>) (settle_correlation message_engine (?x\<lparr>Input := m\<rparr>) empty_store))
      = Some (Ok (x', None), s')" "Status x' = ''PAUSED''"
    by (rule pause_again [of "?x\<lparr>Input := m, Status := ''RUNNING''\<rparr>"]) (use x in simp_all)
  then have "\<exists>response. ?r = Some (Ok response, put_execution 0 x' stored_paused, s')"
    using m x by (simp add: resumeExecutionWithMessage_def persistent_interface_def Persistent_ResumeExecution_def Let_def)
  then obtain response where r: "?r = Some (Ok response, put_execution 0 x' stored_paused, s')" by blast
  let ?result = "map_option fst (Persistent_RunExecution 5 quiet_env message_engine GNil (?x\<lparr>Status := ''RUNNING'', Input := order_input\<rparr>) empty_store)"
  have inj: "y = x'" if "put_execution 0 y stored_paused = put_execution 0 x' stored_paused" for y
    using arg_cong [OF that, of "\<lambda>e. exec_at e 0"] x(4) by simp
  have "order_input = (if Output ?x \<noteq> GNil then Output ?x else m)" by (simp add: x order_input_def)
  from message_to_persistent_machine_lost [OF x(4,1) m this refl, where fuel = 5 and env = quiet_env and pm = message_engine and t = empty_store and now = 0 and s = empty_store] r x(4)
  have "?result = Some (Ok (x', None)) \<and> rs_Status response = ''RESUMED''"
    by (auto split: option.splits res.splits prod.splits dest: inj inj [OF sym])
  with r x(4) \<open>Status x' = ''PAUSED''\<close> show ?thesis by auto
qed

lemma run_once_succeeded: "run_once f env sm c = Some (Inr (Ok (x, None))) \<Longrightarrow> History x \<noteq> []"
  by (auto simp: run_once_def Let_def AddStateHistory_def split: if_splits res.splits option.splits)

text \<open>A message for a machine that has to be loaded from the repository starts the execution from the beginning and keeps nothing. Without a machine in memory and without a
  loader, the stored definition is run by the engine without persistence: the first state that runs is \<open>StartAt\<close>, not the state that waited, and
  nothing is written to the repository, so that the stored execution stays as it was and waits for the same message again.\<close>

theorem message_to_loaded_machine_restarts:
  assumes "getOrLoadStateMachine newSM ex i [] s = (Ok (Some m, cache), s1)" and "map_of (ex_stateMachines ex) i = None" and "ex_smLoader ex = None"
    and "resumeExecutionWithMessage fuel env now m a request ex' s1 = Some (Ok response, ex2, s2)"
    and "a < length (ex_heap ex')" and "History (exec_at ex' a) = []"
  shows "s2 = s1 \<and> (\<exists>h hs. History (exec_at ex2 a) = h # hs \<and> sh_StateName h = si_GetStartAt m)"
proof -
  obtain sm where m: "m = repositoryStateMachineAdapter i sm"
    using assms(1-3) unfolding getOrLoadStateMachine_def loadStateMachineFromRepository_def
    by (auto simp: op_bind_eq rbind_eq_Ok eq_commute [of "Ok _" "rbind _ _"] split: option.splits prod.splits res.splits if_splits)
  let ?x = "exec_at ex' a"
  obtain v where v: "MergeInputs (Input ?x) (resume_input ?x request) = Ok v" using MergeInputs_Ok by blast
  with assms(4) m obtain x' where run: "RunExecution fuel env sm (?x\<lparr>Input := v\<rparr>) = Some (Ok (x', None))" "s2 = s1" "ex2 = put_execution a x' ex'"
    by (auto simp: resumeExecutionWithMessage_def repositoryStateMachineAdapter_def ResumeExecution_def Let_def
      split: option.splits res.splits prod.splits)
  have "follows sm v (History x')" using RunExecution_follows [OF run(1)] assms(6) by simp
  moreover have "History x' \<noteq> []"
    by (rule RunExecution_ends [OF run(1)]) (use assms(6) in \<open>auto dest: run_once_succeeded\<close>)
  ultimately show ?thesis using run assms(5) m by (auto simp: follows_def repositoryStateMachineAdapter_def neq_Nil_conv)
qed

definition stored_machine :: state_machine_record where
  "stored_machine = \<lparr>mr_ID = ''m1'', mr_Name = ''m1'', mr_Description = [], mr_Definition = ''definition'', mr_Type = [], mr_Version = ''1.0'',
     mr_CreatedAt = Some 0, mr_UpdatedAt = Some 0, mr_Metadata = None\<rparr>"

definition machine_store :: "gval db \<times> aq_state" where
  "machine_store = snd (rp_SaveStateMachine (on_database (Postgres_repository plain_pg)) stored_machine empty_store)"

abbreviation sample_New :: "string \<Rightarrow> state_machine res" where
  "sample_New \<equiv> New_definition (\<lambda>_. Ok sample_raw) sample_decoder ''id'' 0"

abbreviation loaded_sample :: "(gval db \<times> aq_state) sm_interface" where
  "loaded_sample \<equiv> repositoryStateMachineAdapter ''m1'' (machine ''S'' [(''S'', SucceedState (new_base ''S'' ''Succeed''))])"

lemma sample_New_Ok: "sample_New d = Ok (machine ''S'' [(''S'', SucceedState (new_base ''S'' ''Succeed''))])"
  unfolding New_definition_def by code_simp

lemma stored_machine_found:
  obtains r s1 where "rp_GetStateMachine (on_database (Postgres_repository plain_pg)) ''m1'' machine_store = (Ok r, s1)" "mr_Definition r = ''definition''"
proof -
  have "(case fst (rp_GetStateMachine (on_database (Postgres_repository plain_pg)) ''m1'' machine_store) of Ok r \<Rightarrow> mr_Definition r | _ \<Rightarrow> [])
    = ''definition''" by code_simp
  then show thesis using that
    by (cases "rp_GetStateMachine (on_database (Postgres_repository plain_pg)) ''m1'' machine_store") (auto split: res.splits)
qed

theorem message_to_loaded_machine_restarts_witness:
  "\<exists>s1 response ex2 h. resumeExecutionWithMessage 5 quiet_env 0 loaded_sample 0 delivered stored_paused s1 = Some (Ok response, ex2, s1) \<and>
     CurrentState (exec_at stored_paused 0) = ''M'' \<and> History (exec_at ex2 0) = [h] \<and> sh_StateName h = ''S''"
proof -
  obtain r s1 where r: "rp_GetStateMachine (on_database (Postgres_repository plain_pg)) ''m1'' machine_store = (Ok r, s1)"
      "mr_Definition r = ''definition''" by (rule stored_machine_found)
  let ?ex = "SetRepositoryManager (Some (on_database (Postgres_repository plain_pg))) stored_paused"
  have fields: "ex_stateMachines ?ex = []" "ex_smLoader ?ex = None"
    "ex_repositoryManager ?ex = Some (on_database (Postgres_repository plain_pg))"
    by (simp_all add: SetRepositoryManager_def stored_paused_def alloc_execution_def NewBaseExecutor_def)
  then have load: "getOrLoadStateMachine sample_New ?ex ''m1'' [] machine_store = (Ok (Some loaded_sample, [(''m1'', loaded_sample)]), s1)"
    using r by (simp add: getOrLoadStateMachine_def loadStateMachineFromRepository_def op_bind_def op_return_def sample_New_Ok)
  let ?x = "exec_at stored_paused 0"
  obtain m where m: "MergeInputs (Input ?x) (resume_input ?x delivered) = Ok m" using MergeInputs_Ok by blast
  have "(case MergeInputs (Input ?x) (resume_input ?x delivered) of Ok m \<Rightarrow> observe (\<lambda>x e. (map sh_StateName (History x), e))
      (RunExecution 5 quiet_env (machine ''S'' [(''S'', SucceedState (new_base ''S'' ''Succeed''))]) (?x\<lparr>Input := m\<rparr>)) | _ \<Rightarrow> None)
    = Some ([''S''], None)" by code_simp
  then have "observe (\<lambda>x e. (map sh_StateName (History x), e))
      (RunExecution 5 quiet_env (machine ''S'' [(''S'', SucceedState (new_base ''S'' ''Succeed''))]) (?x\<lparr>Input := m\<rparr>)) = Some ([''S''], None)"
    unfolding m by simp
  then obtain x' where x': "RunExecution 5 quiet_env (machine ''S'' [(''S'', SucceedState (new_base ''S'' ''Succeed''))]) (?x\<lparr>Input := m\<rparr>)
      = Some (Ok (x', None))" "map sh_StateName (History x') = [''S'']" unfolding observe_Some by auto
  then obtain response where run: "resumeExecutionWithMessage 5 quiet_env 0 loaded_sample 0 delivered stored_paused s1 =
      Some (Ok response, put_execution 0 x' stored_paused, s1)"
    using m by (simp add: resumeExecutionWithMessage_def repositoryStateMachineAdapter_def ResumeExecution_def Let_def)
  have x: "0 < length (ex_heap stored_paused)" "History ?x = []" "CurrentState ?x = ''M''"
    by (simp_all add: stored_paused_heap start_def NewContext_def)
  have start: "si_GetStartAt loaded_sample = ''S''" by (simp add: repositoryStateMachineAdapter_def machine_def)
  have "exec_at (put_execution 0 x' stored_paused) 0 = x'" using x(1) by simp
  with message_to_loaded_machine_restarts [OF load _ fields(2) run x(1,2)] fields(1) start x'(2)
  obtain h where "History (exec_at (put_execution 0 x' stored_paused) 0) = [h]" "sh_StateName h = ''S''" by auto
  with run x(3) show ?thesis by blast
qed

end
