(* ===== verification/Batch.thy ===== *)
theory Batch
  imports GoValue
begin

text \<open>
  The Redis-backed synchronisation of micro-batches (\<open>pkg/batch/keys.go\<close>, \<open>barrier.go\<close>, \<open>metrics.go\<close>, \<open>evaluator.go\<close>,
  \<open>resume.go\<close>).

  Redis is not part of the repository: a record \<open>redis\<close> of its commands over an abstract store is a parameter of every
  operation, and the locale \<open>redis_store\<close> states the documented behaviour of the commands that the code relies on. The two
  Lua scripts are part of \<open>barrier.go\<close> and are modelled as programs over the commands; Redis runs a script atomically, so
  concurrent workers are interleavings of whole scripts. Keys are given expiry times but time does not pass in the
  model: the results hold within the lifetime of the keys (24 hours for a barrier).

  A call to Redis can fail. A \<open>fault\<close> is the error the client reports, with a flag telling whether the command took effect before
  the reply was lost.
\<close>

section \<open>Redis\<close>

type_synonym fault = "(err \<times> bool) option"

record 's redis =
  rd_exists :: "'s \<Rightarrow> string \<Rightarrow> bool"
  rd_decr :: "'s \<Rightarrow> string \<Rightarrow> int \<times> 's"
  rd_incr :: "'s \<Rightarrow> string \<Rightarrow> int \<times> 's"
  rd_expire :: "'s \<Rightarrow> string \<Rightarrow> int \<Rightarrow> 's"
  rd_del :: "'s \<Rightarrow> string \<Rightarrow> 's"
  rd_setnx :: "'s \<Rightarrow> string \<Rightarrow> int \<Rightarrow> int \<Rightarrow> bool \<times> 's"
  rd_get_int :: "'s \<Rightarrow> string \<Rightarrow> int option"
  rd_set_float :: "'s \<Rightarrow> string \<Rightarrow> f64 \<Rightarrow> int \<Rightarrow> 's"
  rd_get_float :: "'s \<Rightarrow> string \<Rightarrow> f64 option"
  rd_set :: "'s \<Rightarrow> string \<Rightarrow> string \<Rightarrow> int \<Rightarrow> 's"
  rd_getdel :: "'s \<Rightarrow> string \<Rightarrow> string option \<times> 's"
  rd_rpush :: "'s \<Rightarrow> string \<Rightarrow> string \<Rightarrow> 's"
  rd_ltrim :: "'s \<Rightarrow> string \<Rightarrow> int \<Rightarrow> int \<Rightarrow> 's"
  rd_lrange_all :: "'s \<Rightarrow> string \<Rightarrow> string list"
  rd_setnx_str :: "'s \<Rightarrow> string \<Rightarrow> string \<Rightarrow> int \<Rightarrow> bool \<times> 's"
  rd_get :: "'s \<Rightarrow> string \<Rightarrow> string option"
  rd_set_int :: "'s \<Rightarrow> string \<Rightarrow> int \<Rightarrow> int \<Rightarrow> 's"
  rd_lrange :: "'s \<Rightarrow> string \<Rightarrow> int \<Rightarrow> int \<Rightarrow> string list"
  rd_scan :: "'s \<Rightarrow> string \<Rightarrow> string list list"

text \<open>\<open>rd_scan s pattern\<close> are the pages that an iteration with \<open>SCAN\<close> returns, from the cursor 0 until the cursor is 0 again.\<close>

text \<open>A call that returns a value and may change the store, under a fault.\<close>

definition rd_call :: "fault \<Rightarrow> 's \<Rightarrow> 'r \<times> 's \<Rightarrow> 'r res \<times> 's" where
  "rd_call fault s result =
    (case fault of
       None \<Rightarrow> (Ok (fst result), snd result)
     | Some (e, took_effect) \<Rightarrow> (Err e, if took_effect then snd result else s))"

section \<open>Keys\<close>

definition keyIDsList :: "string \<Rightarrow> string" where
  "keyIDsList batchID = ''batch:'' @ batchID @ '':ids''"

definition keyCursor :: "string \<Rightarrow> string" where
  "keyCursor batchID = ''batch:'' @ batchID @ '':cursor''"

definition keyBarrier :: "string \<Rightarrow> string" where
  "keyBarrier mbID = ''barrier:'' @ mbID"

definition keyMetricsWindow :: "string \<Rightarrow> string" where
  "keyMetricsWindow batchID = ''metrics:'' @ batchID @ '':window''"

definition keyMicroBatchRate :: "string \<Rightarrow> int \<Rightarrow> string" where
  "keyMicroBatchRate batchID mbIndex = ''metrics:'' @ batchID @ '':mb:'' @ itoa mbIndex @ '':rate''"

definition keyResume :: "string \<Rightarrow> string" where
  "keyResume batchID = ''resume:'' @ batchID"

definition keyTotalProcessed :: "string \<Rightarrow> string" where
  "keyTotalProcessed batchID = ''metrics:'' @ batchID @ '':total_processed''"

definition keyTotalFailed :: "string \<Rightarrow> string" where
  "keyTotalFailed batchID = ''metrics:'' @ batchID @ '':total_failed''"

definition microBatchID :: "string \<Rightarrow> int \<Rightarrow> string" where
  "microBatchID batchID index = batchID @ '':'' @ itoa index"

abbreviation BarrierTTL :: int where "BarrierTTL \<equiv> 86400"
abbreviation MetricsTTL :: int where "MetricsTTL \<equiv> 604800"
abbreviation ResumeTTL :: int where "ResumeTTL \<equiv> 86400"

section \<open>The barrier\<close>

text \<open>The quotation \<open>%q\<close> of a string in a message, for ASCII strings and printable characters beyond.\<close>

definition hex_digit :: "nat \<Rightarrow> char" where
  "hex_digit n = (if n < 10 then char_of (48 + n) else char_of (87 + n))"

definition quote_char :: "char \<Rightarrow> string" where
  "quote_char c =
    (case map_of [(34::nat, CHR 0x22), (92, CHR 0x5C), (7, CHR ''a''), (8, CHR ''b''), (12, CHR ''f''), (10, CHR ''n''), (13, CHR ''r''),
       (9, CHR ''t''), (11, CHR ''v'')] (of_char c) of
       Some d \<Rightarrow> [CHR 0x5C, d]
     | None \<Rightarrow>
         if (of_char c :: nat) < 32 \<or> (of_char c :: nat) = 127
         then [CHR 0x5C, CHR ''x'', hex_digit (of_char c div 16), hex_digit (of_char c mod 16)]
         else [c])"

definition Quote :: "string \<Rightarrow> string" where
  "Quote s = [CHR 0x22] @ concat (map quote_char s) @ [CHR 0x22]"

record barrier_result =
  Remaining :: int
  IsLastWorker :: bool

definition barrierDecrScript :: "'s redis \<Rightarrow> string \<Rightarrow> int \<Rightarrow> 's \<Rightarrow> int \<times> 's" where
  "barrierDecrScript rd key ttl s =
    (if \<not> rd_exists rd s key then (- 1, s)
     else
       (let (rem, s1) = rd_decr rd s key;
            s2 = (if rem > 0 then rd_expire rd s1 key ttl else s1);
            s3 = (if rem = 0 then rd_del rd s2 key else s2)
        in (rem, s3)))"

definition barrierInitScript :: "'s redis \<Rightarrow> string \<Rightarrow> int \<Rightarrow> int \<Rightarrow> 's \<Rightarrow> int \<times> 's" where
  "barrierInitScript rd key cnt ttl s =
    (let (ok, s1) = rd_setnx rd s key cnt ttl in (if ok then 1 else 0, s1))"

definition Barrier_Init :: "'s redis \<Rightarrow> fault \<Rightarrow> string \<Rightarrow> int \<Rightarrow> 's \<Rightarrow> unit res \<times> 's" where
  "Barrier_Init rd fault mbID sz s =
    (let (r, s1) = rd_call fault s (barrierInitScript rd (keyBarrier mbID) sz BarrierTTL s)
     in (rbind (wrap_err (''batch/barrier: init '' @ Quote mbID) r) (\<lambda>_. Ok ()), s1))"

definition Barrier_Decrement :: "'s redis \<Rightarrow> fault \<Rightarrow> string \<Rightarrow> 's \<Rightarrow> barrier_result res \<times> 's" where
  "Barrier_Decrement rd fault mbID s =
    (let (r, s1) = rd_call fault s (barrierDecrScript rd (keyBarrier mbID) BarrierTTL s)
     in (rbind (wrap_err (''batch/barrier: decrement '' @ Quote mbID) r)
           (\<lambda>rem. Ok \<lparr>Remaining = rem, IsLastWorker = (rem = 0)\<rparr>), s1))"

definition Barrier_Remaining :: "'s redis \<Rightarrow> err option \<Rightarrow> string \<Rightarrow> 's \<Rightarrow> int res" where
  "Barrier_Remaining rd fault mbID s =
    (case fault of
       Some e \<Rightarrow> Err (Wrapped (''batch/barrier: remaining '' @ Quote mbID) e)
     | None \<Rightarrow> (case rd_get_int rd s (keyBarrier mbID) of None \<Rightarrow> Ok 0 | Some v \<Rightarrow> Ok v))"

section \<open>Metrics\<close>

record metrics_recorder =
  windowN :: int

definition NewMetricsRecorder :: "int \<Rightarrow> metrics_recorder" where
  "NewMetricsRecorder n = \<lparr>windowN = (if n \<le> 0 then 500 else n)\<rparr>"

record task_outcome =
  to_BatchID :: string
  to_MicroBatchID :: string
  to_TaskID :: string
  to_Success :: bool
  to_Error :: string
  to_Duration :: int
  to_CompletedAt :: int

text \<open>The commands of the pipeline in their order. When the pipeline fails with an error, some number of them may have taken effect.\<close>

definition outcome_commands :: "'s redis \<Rightarrow> metrics_recorder \<Rightarrow> task_outcome \<Rightarrow> ('s \<Rightarrow> 's) list" where
  "outcome_commands rd m out =
    (let wk = keyMetricsWindow (to_BatchID out) in
     [\<lambda>s. rd_rpush rd s wk (if \<not> to_Success out then ''1'' else ''0''),
      \<lambda>s. rd_ltrim rd s wk (- windowN m) (- 1),
      \<lambda>s. rd_expire rd s wk MetricsTTL,
      \<lambda>s. snd (rd_incr rd s (keyTotalProcessed (to_BatchID out)))] @
     (if \<not> to_Success out then [\<lambda>s. snd (rd_incr rd s (keyTotalFailed (to_BatchID out)))] else []))"

definition RecordOutcome ::
  "'s redis \<Rightarrow> (err \<times> nat) option \<Rightarrow> metrics_recorder \<Rightarrow> task_outcome \<Rightarrow> 's \<Rightarrow> unit res \<times> 's" where
  "RecordOutcome rd fault m out s =
    (case fault of
       None \<Rightarrow> (Ok (), fold (\<lambda>c. c) (outcome_commands rd m out) s)
     | Some (e, n) \<Rightarrow>
         (Err (Wrapped (''batch/metrics: RecordOutcome '' @ to_BatchID out) e), fold (\<lambda>c. c) (take n (outcome_commands rd m out)) s))"

text \<open>Division by a positive count.\<close>

definition f64_div_count :: "f64 \<Rightarrow> nat \<Rightarrow> f64" where
  "f64_div_count a n = (case a of Fin x \<Rightarrow> round_f64 (x / of_nat n) | _ \<Rightarrow> a)"

text \<open>\<open>parse\<close> is the first result of \<open>strconv.ParseFloat\<close>, which the code adds up without looking at the error.\<close>

definition computeFailureRate :: "(string \<Rightarrow> f64) \<Rightarrow> string list \<Rightarrow> f64" where
  "computeFailureRate parse entries =
    (if entries = [] then Fin 0
     else f64_div_count (fold (\<lambda>e failures. f64_add failures (parse e)) entries (Fin 0)) (length entries))"

definition InstantaneousFailureRate ::
  "'s redis \<Rightarrow> err option \<Rightarrow> (string \<Rightarrow> f64) \<Rightarrow> string \<Rightarrow> 's \<Rightarrow> f64 res" where
  "InstantaneousFailureRate rd fault parse batchID s =
    (case fault of
       Some e \<Rightarrow> Err (Wrapped (''batch/metrics: instant rate '' @ batchID) e)
     | None \<Rightarrow> Ok (computeFailureRate parse (rd_lrange_all rd s (keyMetricsWindow batchID))))"

definition SnapshotMicroBatchRate ::
  "'s redis \<Rightarrow> err option \<Rightarrow> fault \<Rightarrow> (string \<Rightarrow> f64) \<Rightarrow> string \<Rightarrow> int \<Rightarrow> 's \<Rightarrow> f64 res \<times> 's" where
  "SnapshotMicroBatchRate rd fault1 fault2 parse batchID mbIndex s =
    (case fault1 of
       Some e \<Rightarrow> (Err (Wrapped (''batch/metrics: snapshot lrange '' @ batchID) e), s)
     | None \<Rightarrow>
         (let rate = computeFailureRate parse (rd_lrange_all rd s (keyMetricsWindow batchID));
              (r, s1) = rd_call fault2 s (rate, rd_set_float rd s (keyMicroBatchRate batchID mbIndex) rate MetricsTTL)
          in (wrap_err (''batch/metrics: snapshot set '' @ batchID @ ''/'' @ itoa mbIndex) r, s1)))"

text \<open>The sum and the number of the rates stored for the given indices; a missing key is skipped.\<close>

fun sum_rates :: "'s redis \<Rightarrow> (int \<Rightarrow> err option) \<Rightarrow> string \<Rightarrow> 's \<Rightarrow> int list \<Rightarrow> f64 \<Rightarrow> nat \<Rightarrow> (f64 \<times> nat) res" where
  "sum_rates rd fault batchID s [] tot cnt = Ok (tot, cnt)"
| "sum_rates rd fault batchID s (i # is) tot cnt =
     (case fault i of
        Some e \<Rightarrow> Err (Wrapped (''batch/metrics: rolling rate '' @ batchID @ ''/'' @ itoa i) e)
      | None \<Rightarrow>
          (case rd_get_float rd s (keyMicroBatchRate batchID i) of
             None \<Rightarrow> sum_rates rd fault batchID s is tot cnt
           | Some v \<Rightarrow> sum_rates rd fault batchID s is (f64_add tot v) (Suc cnt)))"

definition RollingAverageFailureRate ::
  "'s redis \<Rightarrow> (int \<Rightarrow> err option) \<Rightarrow> string \<Rightarrow> int \<Rightarrow> int \<Rightarrow> 's \<Rightarrow> f64 res" where
  "RollingAverageFailureRate rd fault batchID currentMBIndex windowM s =
    (let m = (if windowM \<le> 0 then 5 else windowM); start = max 0 (wrap64 (currentMBIndex - m + 1)) in
     rbind (sum_rates rd fault batchID s [start..currentMBIndex] (Fin 0) 0) (\<lambda>(tot, cnt).
       if cnt = 0 then Ok (Fin 0) else Ok (f64_div_count tot cnt)))"

definition CumulativeCounters :: "'s redis \<Rightarrow> err option \<Rightarrow> string \<Rightarrow> 's \<Rightarrow> (int \<times> int) res" where
  "CumulativeCounters rd fault batchID s =
    (case fault of
       Some e \<Rightarrow> Err (Wrapped (''batch/metrics: cumulative counters '' @ batchID) e)
     | None \<Rightarrow> Ok (case rd_get_int rd s (keyTotalProcessed batchID) of Some v \<Rightarrow> v | None \<Rightarrow> 0,
                   case rd_get_int rd s (keyTotalFailed batchID) of Some v \<Rightarrow> v | None \<Rightarrow> 0))"

section \<open>The evaluator\<close>

record failure_policy =
  fp_WindowN :: int
  fp_WindowM :: int
  SevereFailureThreshold :: f64
  SoftFailureThreshold :: f64

record evaluation_result =
  SevereFailure :: bool
  BelowThreshold :: bool
  ev_InstantaneousFailureRate :: f64
  ev_RollingAverageFailureRate :: f64
  TotalProcessed :: int
  TotalFailed :: int

text \<open>The constant \<open>0.2\<close> is the double nearest to one fifth.\<close>

definition applyDefaults :: "failure_policy \<Rightarrow> failure_policy" where
  "applyDefaults p =
    \<lparr>fp_WindowN = (if fp_WindowN p \<le> 0 then 500 else fp_WindowN p),
     fp_WindowM = (if fp_WindowM p \<le> 0 then 5 else fp_WindowM p),
     SevereFailureThreshold = (if SevereFailureThreshold p \<le> Fin 0 then Fin (1 / 2) else SevereFailureThreshold p),
     SoftFailureThreshold = (if SoftFailureThreshold p \<le> Fin 0 then round_f64 (1 / 5) else SoftFailureThreshold p)\<rparr>"

definition Evaluate ::
  "'s redis \<Rightarrow> err option \<Rightarrow> (int \<Rightarrow> err option) \<Rightarrow> err option \<Rightarrow> (string \<Rightarrow> f64) \<Rightarrow> string \<Rightarrow> int \<Rightarrow> failure_policy \<Rightarrow>
   's \<Rightarrow> evaluation_result res" where
  "Evaluate rd fault1 fault2 fault3 parse batchID completedIndex policy s =
    (let p = applyDefaults policy in
     rbind (wrap_err ''evaluator: instantaneous rate'' (InstantaneousFailureRate rd fault1 parse batchID s)) (\<lambda>instantRate.
     rbind (wrap_err ''evaluator: rolling avg rate''
              (RollingAverageFailureRate rd fault2 batchID completedIndex (fp_WindowM p) s)) (\<lambda>rollingRate.
     rbind (wrap_err ''evaluator: cumulative counters'' (CumulativeCounters rd fault3 batchID s)) (\<lambda>(processed, failed).
     (let severeFailure = instantRate \<ge> SevereFailureThreshold p;
          belowThreshold = (\<not> severeFailure \<and> rollingRate \<ge> SoftFailureThreshold p)
      in Ok \<lparr>SevereFailure = severeFailure, BelowThreshold = belowThreshold, ev_InstantaneousFailureRate = instantRate,
             ev_RollingAverageFailureRate = rollingRate, TotalProcessed = processed, TotalFailed = failed\<rparr>)))))"

section \<open>Resume signals\<close>

record resume_signal =
  rs_ResumedAt :: int
  rs_ResumedBy :: string
  rs_Notes :: string

record resume_check_result =
  ShouldResume :: bool
  ResumedAt :: "int option"
  ResumedBy :: string

definition Resume_Signal ::
  "'s redis \<Rightarrow> fault \<Rightarrow> (resume_signal \<Rightarrow> string res) \<Rightarrow> int \<Rightarrow> string \<Rightarrow> string \<Rightarrow> string \<Rightarrow> 's \<Rightarrow> unit res \<times> 's" where
  "Resume_Signal rd fault marshal now batchID operator notes s =
    (case wrap_err ''resume: marshal'' (marshal \<lparr>rs_ResumedAt = now, rs_ResumedBy = operator, rs_Notes = notes\<rparr>) of
       Ok data \<Rightarrow> rd_call fault s ((), rd_set rd s (keyResume batchID) data ResumeTTL)
     | Err e \<Rightarrow> (Err e, s)
     | Panic m \<Rightarrow> (Panic m, s)
     | Crash m \<Rightarrow> (Crash m, s))"

definition Resume_Revoke :: "'s redis \<Rightarrow> fault \<Rightarrow> string \<Rightarrow> 's \<Rightarrow> unit res \<times> 's" where
  "Resume_Revoke rd fault batchID s = rd_call fault s ((), rd_del rd s (keyResume batchID))"

definition no_resume :: resume_check_result where
  "no_resume = \<lparr>ShouldResume = False, ResumedAt = None, ResumedBy = []\<rparr>"

definition Resume_Check ::
  "'s redis \<Rightarrow> fault \<Rightarrow> (string \<Rightarrow> resume_signal res) \<Rightarrow> string \<Rightarrow> 's \<Rightarrow> resume_check_result res \<times> 's" where
  "Resume_Check rd fault unmarshal batchID s =
    (case rd_call fault s (rd_getdel rd s (keyResume batchID)) of
       (Ok None, s1) \<Rightarrow> (Ok no_resume, s1)
     | (Ok (Some data), s1) \<Rightarrow>
         (Ok (case unmarshal data of
                Ok sig \<Rightarrow> \<lparr>ShouldResume = True, ResumedAt = Some (rs_ResumedAt sig), ResumedBy = rs_ResumedBy sig\<rparr>
              | _ \<Rightarrow> no_resume), s1)
     | (Err e, s1) \<Rightarrow> (Err (Wrapped ''resume: getdel'' e), s1)
     | (Panic m, s1) \<Rightarrow> (Panic m, s1)
     | (Crash m, s1) \<Rightarrow> (Crash m, s1))"

section \<open>What the code relies on of Redis\<close>

text \<open>
  \<open>num\<close>, \<open>str\<close> and \<open>lst\<close> read a store: the integer or string under a key, and the list under a key (empty when
  missing). The code uses each family of keys with one kind of value, and a law that depends on the kind is stated for the
  keys of that family. Expiry times are positive and lie in the future.
\<close>

locale redis_store =
  fixes rd :: "'s redis" and num :: "'s \<Rightarrow> string \<Rightarrow> int option" and str :: "'s \<Rightarrow> string \<Rightarrow> string option"
    and lst :: "'s \<Rightarrow> string \<Rightarrow> string list"
  assumes exists_num: "rd_exists rd s (keyBarrier m) \<longleftrightarrow> num s (keyBarrier m) \<noteq> None"
    and decr_num: "num s k = Some n \<Longrightarrow> 1 \<le> n \<Longrightarrow> fst (rd_decr rd s k) = n - 1 \<and> num (snd (rd_decr rd s k)) k = Some (n - 1)"
    and decr_other: "k \<noteq> k' \<Longrightarrow> num (snd (rd_decr rd s k)) k' = num s k'"
    and expire_num: "0 < t \<Longrightarrow> num (rd_expire rd s k t) = num s"
    and del_num: "num (rd_del rd s k) = (num s)(k := None)"
    and setnx_num: "0 < t \<Longrightarrow> k \<noteq> k' \<Longrightarrow> num (snd (rd_setnx rd s k n t)) k' = num s k'"
    and setnx_barrier: "0 < t \<Longrightarrow> k = keyBarrier m \<Longrightarrow>
      num (snd (rd_setnx rd s k n t)) k = (case num s k of None \<Rightarrow> Some n | Some n' \<Rightarrow> Some n')"
    and set_str: "0 < t \<Longrightarrow> str (rd_set rd s k v t) = (str s)(k \<mapsto> v)"
    and del_str: "str (rd_del rd s k) = (str s)(k := None)"
    and getdel_str: "k = keyResume b \<Longrightarrow> fst (rd_getdel rd s k) = str s k \<and> str (snd (rd_getdel rd s k)) = (str s)(k := None)"
    and rpush_lst: "k = keyMetricsWindow b \<Longrightarrow> lst (rd_rpush rd s k v) = (lst s)(k := lst s k @ [v])"
    and ltrim_lst: "0 < w \<Longrightarrow> w < 2 ^ 63 \<Longrightarrow> lst (rd_ltrim rd s k (- int w) (- 1)) =
      (lst s)(k := drop (length (lst s k) - w) (lst s k))"
    and expire_lst: "0 < t \<Longrightarrow> lst (rd_expire rd s k t) = lst s"
    and incr_lst: "lst (snd (rd_incr rd s k)) = lst s"
    and lrange_lst: "k = keyMetricsWindow b \<Longrightarrow> rd_lrange_all rd s k = lst s k"
begin

lemma decr_script:
  assumes "k = keyBarrier m" and "num s k = Some n" and "1 \<le> n"
  shows "fst (barrierDecrScript rd k BarrierTTL s) = n - 1 \<and>
     num (snd (barrierDecrScript rd k BarrierTTL s)) k = (if n = 1 then None else Some (n - 1))"
  using decr_num [OF assms(2,3)] assms
  by (auto simp: barrierDecrScript_def exists_num expire_num del_num Let_def split: prod.splits)

lemma decr_script_missing: "k = keyBarrier m \<Longrightarrow> num s k = None \<Longrightarrow> barrierDecrScript rd k t s = (- 1, s)"
  by (simp add: barrierDecrScript_def exists_num)

lemma decr_script_other: "k \<noteq> k' \<Longrightarrow> num (snd (barrierDecrScript rd k BarrierTTL s)) k' = num s k'"
  using decr_other [of k k' s] by (auto simp: barrierDecrScript_def expire_num del_num Let_def split: prod.splits)

lemma init_script: "k \<noteq> k' \<Longrightarrow> num (snd (barrierInitScript rd k n BarrierTTL s)) k' = num s k'"
  using setnx_num [of BarrierTTL k k' s n] by (auto simp: barrierInitScript_def Let_def split: prod.splits)

lemma init_script_barrier: "k = keyBarrier m \<Longrightarrow>
    num (snd (barrierInitScript rd k n BarrierTTL s)) k = (case num s k of None \<Rightarrow> Some n | Some n' \<Rightarrow> Some n')"
  using setnx_barrier [of BarrierTTL k m s n] by (auto simp: barrierInitScript_def Let_def split: prod.splits)

end

text \<open>A store as a map for each kind of value, and the commands on it.\<close>

record kv =
  kv_num :: "string \<Rightarrow> int option"
  kv_str :: "string \<Rightarrow> string option"
  kv_lst :: "string \<Rightarrow> string list"
  kv_flt :: "string \<Rightarrow> f64 option"

definition empty_kv :: kv where
  "empty_kv = \<lparr>kv_num = (\<lambda>_. None), kv_str = (\<lambda>_. None), kv_lst = (\<lambda>_. []), kv_flt = (\<lambda>_. None)\<rparr>"

definition add_num :: "int \<Rightarrow> kv \<Rightarrow> string \<Rightarrow> int \<times> kv" where
  "add_num d s k = (let n = (case kv_num s k of Some n \<Rightarrow> n | None \<Rightarrow> 0) + d in (n, s\<lparr>kv_num := (kv_num s)(k \<mapsto> n)\<rparr>))"

text \<open>A range of a list by inclusive positions, negative ones counted from the end.\<close>

definition lrange_of :: "int \<Rightarrow> int \<Rightarrow> 'a list \<Rightarrow> 'a list" where
  "lrange_of a b xs =
    (let n = int (length xs); i = (if a < 0 then max 0 (n + a) else a); j = (if b < 0 then n + b else b)
     in take (nat (j + 1 - i)) (drop (nat i) xs))"

definition kv_redis :: "kv redis" where
  "kv_redis =
    \<lparr>rd_exists = (\<lambda>s k. kv_num s k \<noteq> None), rd_decr = add_num (- 1), rd_incr = add_num 1,
     rd_expire = (\<lambda>s k t. s),
     rd_del = (\<lambda>s k. s\<lparr>kv_num := (kv_num s)(k := None), kv_str := (kv_str s)(k := None), kv_lst := (kv_lst s)(k := []),
                kv_flt := (kv_flt s)(k := None)\<rparr>),
     rd_setnx = (\<lambda>s k n t. if kv_num s k = None then (True, s\<lparr>kv_num := (kv_num s)(k \<mapsto> n)\<rparr>) else (False, s)),
     rd_get_int = kv_num,
     rd_set_float = (\<lambda>s k v t. s\<lparr>kv_flt := (kv_flt s)(k \<mapsto> v)\<rparr>), rd_get_float = kv_flt,
     rd_set = (\<lambda>s k v t. s\<lparr>kv_str := (kv_str s)(k \<mapsto> v)\<rparr>),
     rd_getdel = (\<lambda>s k. (kv_str s k, s\<lparr>kv_str := (kv_str s)(k := None)\<rparr>)),
     rd_rpush = (\<lambda>s k v. s\<lparr>kv_lst := (kv_lst s)(k := kv_lst s k @ [v])\<rparr>),
     rd_ltrim = (\<lambda>s k a b. s\<lparr>kv_lst := (kv_lst s)(k := drop (length (kv_lst s k) - nat (- a)) (kv_lst s k))\<rparr>),
     rd_lrange_all = kv_lst,
     rd_setnx_str = (\<lambda>s k v t. if kv_str s k = None then (True, s\<lparr>kv_str := (kv_str s)(k \<mapsto> v)\<rparr>) else (False, s)),
     rd_get = kv_str,
     rd_set_int = (\<lambda>s k n t. s\<lparr>kv_num := (kv_num s)(k \<mapsto> n)\<rparr>),
     rd_lrange = (\<lambda>s k a b. lrange_of a b (kv_lst s k)),
     rd_scan = (\<lambda>s p. [])\<rparr>"

interpretation kv: redis_store kv_redis kv_num kv_str kv_lst
  by unfold_locales (auto simp: kv_redis_def add_num_def Let_def split: option.split)

section \<open>Workers at the barrier\<close>

datatype barrier_op = OpInit string int fault | OpDecrement string fault

fun barrier_step :: "'s redis \<Rightarrow> barrier_op \<Rightarrow> 's \<Rightarrow> barrier_result option \<times> 's" where
  "barrier_step rd (OpInit mb sz fault) s = (None, snd (Barrier_Init rd fault mb sz s))"
| "barrier_step rd (OpDecrement mb fault) s =
     (case Barrier_Decrement rd fault mb s of
        (Ok r, s1) \<Rightarrow> (Some r, s1)
      | (_, s1) \<Rightarrow> (None, s1))"

text \<open>The number of callers of \<open>Decrement\<close> for \<open>mb\<close> that are told they are the last worker.\<close>

fun winners :: "'s redis \<Rightarrow> string \<Rightarrow> barrier_op list \<Rightarrow> 's \<Rightarrow> nat" where
  "winners rd mb [] s = 0"
| "winners rd mb (op # ops) s =
     (case barrier_step rd op s of
        (r, s1) \<Rightarrow>
          (case (op, r) of
             (OpDecrement mb' _, Some br) \<Rightarrow> if mb' = mb \<and> IsLastWorker br then 1 else 0
           | _ \<Rightarrow> 0) + winners rd mb ops s1)"

fun is_init :: "string \<Rightarrow> barrier_op \<Rightarrow> bool" where
  "is_init mb (OpInit mb' _ _) = (mb' = mb)"
| "is_init mb _ = False"

fun is_decrement :: "string \<Rightarrow> barrier_op \<Rightarrow> bool" where
  "is_decrement mb (OpDecrement mb' _) = (mb' = mb)"
| "is_decrement mb _ = False"

fun positive_init :: "string \<Rightarrow> barrier_op \<Rightarrow> bool" where
  "positive_init mb (OpInit mb' sz _) = (mb' = mb \<longrightarrow> 1 \<le> sz)"
| "positive_init mb _ = True"

text \<open>The number of calls of \<open>Init\<close> for \<open>mb\<close> that find no barrier and leave one behind.\<close>

fun recreations :: "'s redis \<Rightarrow> string \<Rightarrow> barrier_op list \<Rightarrow> 's \<Rightarrow> nat" where
  "recreations rd mb [] s = 0"
| "recreations rd mb (op # ops) s =
     (let s1 = snd (barrier_step rd op s) in
      (if is_init mb op \<and> \<not> rd_exists rd s (keyBarrier mb) \<and> rd_exists rd s1 (keyBarrier mb) then 1 else 0) +
      recreations rd mb ops s1)"

fun fault_of :: "barrier_op \<Rightarrow> fault" where
  "fault_of (OpInit _ _ f) = f"
| "fault_of (OpDecrement _ f) = f"

section \<open>Sequences of recorded outcomes\<close>

abbreviation bit_of :: "bool \<Rightarrow> string" where
  "bit_of ok \<equiv> (if ok then ''0'' else ''1'')"

text \<open>Calls of \<open>RecordOutcome\<close> that succeed, one after the other.\<close>

fun record_all :: "'s redis \<Rightarrow> metrics_recorder \<Rightarrow> task_outcome list \<Rightarrow> 's \<Rightarrow> 's" where
  "record_all rd m [] s = s"
| "record_all rd m (out # outs) s = record_all rd m outs (snd (RecordOutcome rd None m out s))"

lemma keyBarrier_inj [simp]: "keyBarrier a = keyBarrier b \<longleftrightarrow> a = b"
  by (simp add: keyBarrier_def)

context redis_store
begin

lemma step_other:
  assumes "\<not> is_init mb op" and "\<not> is_decrement mb op"
  shows "num (snd (barrier_step rd op s)) (keyBarrier mb) = num s (keyBarrier mb)"
proof (cases op)
  case (OpInit mb' sz f)
  with assms show ?thesis
    by (auto simp: Barrier_Init_def rd_call_def init_script Let_def split: option.split prod.split)
next
  case (OpDecrement mb' f)
  with assms have "num (snd (barrierDecrScript rd (keyBarrier mb') BarrierTTL s)) (keyBarrier mb) = num s (keyBarrier mb)"
    by (intro decr_script_other) simp
  with OpDecrement show ?thesis
    by (auto simp: Barrier_Decrement_def rd_call_def Let_def split: option.splits prod.splits res.splits)
qed

lemma step_decrement:
  assumes "op = OpDecrement mb f" and "\<forall>n. num s (keyBarrier mb) = Some n \<longrightarrow> 1 \<le> n"
  shows "\<exists>r s1. barrier_step rd op s = (r, s1) \<and>
    (\<forall>br. r = Some br \<longrightarrow> f = None \<and> (IsLastWorker br \<longleftrightarrow> num s (keyBarrier mb) = Some 1)) \<and>
    (f = None \<longrightarrow> r \<noteq> None) \<and>
    (num s1 (keyBarrier mb) = num s (keyBarrier mb) \<and> (f \<noteq> None \<or> num s (keyBarrier mb) = None) \<or>
     (\<exists>n. num s (keyBarrier mb) = Some n \<and> num s1 (keyBarrier mb) = (if n = 1 then None else Some (n - 1))))"
proof (cases "num s (keyBarrier mb)")
  case None
  then show ?thesis
    by (auto simp: assms(1) Barrier_Decrement_def rd_call_def decr_script_missing split: option.split prod.split)
next
  case (Some n)
  with decr_script [OF refl Some] assms(2) show ?thesis
    by (auto simp: assms(1) Barrier_Decrement_def rd_call_def Let_def split: option.split prod.split)
qed

lemma step_init:
  assumes "is_init mb op"
  shows "fst (barrier_step rd op s) = None \<and>
    (\<forall>n. num s (keyBarrier mb) = Some n \<longrightarrow> num (snd (barrier_step rd op s)) (keyBarrier mb) = Some n) \<and>
    (\<forall>n. positive_init mb op \<and> num s (keyBarrier mb) = None \<and> num (snd (barrier_step rd op s)) (keyBarrier mb) = Some n \<longrightarrow> 1 \<le> n)"
  using assms
  by (cases op) (auto simp: Barrier_Init_def rd_call_def init_script_barrier Let_def split: option.splits prod.split)

lemma step_positive:
  assumes "\<forall>n. num s (keyBarrier mb) = Some n \<longrightarrow> 1 \<le> n" and "positive_init mb op"
  shows "\<forall>n. num (snd (barrier_step rd op s)) (keyBarrier mb) = Some n \<longrightarrow> 1 \<le> n"
proof (cases "is_decrement mb op")
  case True
  then obtain f where op: "op = OpDecrement mb f" by (cases op) auto
  from step_decrement [OF op assms(1)] assms(1) show ?thesis by (fastforce split: if_splits)
next
  case False
  with step_other [of mb op s] step_init [of mb op s] assms show ?thesis
    by (cases "is_init mb op"; cases "num s (keyBarrier mb)") auto
qed

lemma winners_step: "\<not> is_decrement mb op \<Longrightarrow> winners rd mb (op # ops) s = winners rd mb ops (snd (barrier_step rd op s))"
  by (cases op) (auto split: option.split prod.split)

text \<open>Each barrier has one last worker at most: the one that is there, and every one that is made later.\<close>

lemma winners_bound:
  assumes "\<forall>n. num s (keyBarrier mb) = Some n \<longrightarrow> 1 \<le> n" and "\<forall>op\<in>set ops. positive_init mb op"
  shows "winners rd mb ops s \<le> (if num s (keyBarrier mb) = None then 0 else 1) + recreations rd mb ops s"
  using assms
proof (induction ops arbitrary: s)
  case (Cons op ops)
  obtain r s1 where step: "barrier_step rd op s = (r, s1)" by fastforce
  have "\<forall>n. num s1 (keyBarrier mb) = Some n \<longrightarrow> 1 \<le> n"
    using step_positive [of s mb op] Cons.prems step by simp
  with Cons have IH: "winners rd mb ops s1 \<le> (if num s1 (keyBarrier mb) = None then 0 else 1) + recreations rd mb ops s1" by simp
  show ?case
  proof (cases "is_decrement mb op")
    case True
    then obtain f where op: "op = OpDecrement mb f" by (cases op) auto
    from step_decrement [OF op Cons.prems(1)] step IH op show ?thesis
      by (auto simp: Let_def split: option.split if_splits)
  next
    case False
    with step_other [of mb op s] step_init [of mb op s] step IH show ?thesis
      by (auto simp: winners_step Let_def exists_num simp del: winners.simps split: if_splits)
  qed
qed simp

lemma winners_no_decrement: "filter (is_decrement mb) ops = [] \<Longrightarrow> winners rd mb ops s = 0"
proof (induction ops arbitrary: s)
  case (Cons op ops)
  then show ?case using winners_step [of mb op ops s] by (simp split: if_splits)
qed simp

lemma winners_exact:
  assumes "num s (keyBarrier mb) = Some n" and "1 \<le> n" and "\<forall>op\<in>set ops. positive_init mb op"
    and "\<forall>op\<in>set ops. is_decrement mb op \<longrightarrow> fault_of op = None"
    and "recreations rd mb ops s = 0 \<or> int (length (filter (is_decrement mb) ops)) \<le> n"
  shows "winners rd mb ops s = (if n \<le> int (length (filter (is_decrement mb) ops)) then 1 else 0)"
  using assms
proof (induction ops arbitrary: s n)
  case (Cons op ops)
  obtain r s1 where step: "barrier_step rd op s = (r, s1)" by fastforce
  show ?case
  proof (cases "is_decrement mb op")
    case False
    have "num s1 (keyBarrier mb) = Some n"
      using step_other [of mb op s] step_init [of mb op s] step Cons.prems(1) False by (cases "is_init mb op") auto
    with Cons.IH [of s1 n] Cons.prems step False show ?thesis
      by (auto simp: winners_step Let_def simp del: winners.simps split: if_splits)
  next
    case True
    then obtain f where op: "op = OpDecrement mb f" by (cases op) auto
    with Cons.prems(4) have f: "f = None" by simp
    from step_decrement [OF op, of s] step f Cons.prems(1,2) obtain br where r: "r = Some br"
        "IsLastWorker br \<longleftrightarrow> n = 1" "num s1 (keyBarrier mb) = (if n = 1 then None else Some (n - 1))" by auto
    show ?thesis
    proof (cases "n = 1")
      case True
      with r winners_bound [of s1 mb ops] winners_no_decrement [of mb ops s1] Cons.prems(3,5) step op
      have "winners rd mb ops s1 = 0" by (auto simp: Let_def)
      with True r step op show ?thesis by simp
    next
      case False
      with r Cons.prems Cons.IH [of s1 "n - 1"] step op have "winners rd mb ops s1 =
        (if n - 1 \<le> int (length (filter (is_decrement mb) ops)) then 1 else 0)" by (auto simp: Let_def)
      with False r step op show ?thesis by auto
    qed
  qed
qed simp

lemma drop_window:
  "drop (length (drop (length l - w) l @ m) - w) (drop (length l - w) l @ m) = drop (length (l @ m) - w) (l @ m)"
  by (cases "w \<le> length l") (auto simp: add.commute)

lemma window_record:
  assumes "0 < w" and "w < 2 ^ 63" and "to_BatchID out = b"
  shows "lst (snd (RecordOutcome rd None \<lparr>windowN = int w\<rparr> out s)) =
    (lst s)(keyMetricsWindow b :=
       (let l = lst s (keyMetricsWindow b) @ [bit_of (to_Success out)] in drop (length l - w) l))"
  using assms by (simp add: RecordOutcome_def outcome_commands_def Let_def rpush_lst ltrim_lst expire_lst incr_lst)

lemma window_records:
  assumes "0 < w" and "w < 2 ^ 63" and "\<forall>out\<in>set outs. to_BatchID out = b"
  shows "lst (record_all rd \<lparr>windowN = int w\<rparr> outs s) (keyMetricsWindow b) =
    (if outs = [] then lst s (keyMetricsWindow b)
     else let l = lst s (keyMetricsWindow b) @ map (\<lambda>out. bit_of (to_Success out)) outs in drop (length l - w) l)"
  using assms(3)
proof (induction outs arbitrary: s)
  case (Cons out outs)
  let ?bits = "map (\<lambda>out. bit_of (to_Success out))" and ?l = "lst s (keyMetricsWindow b)"
  let ?s1 = "snd (RecordOutcome rd None \<lparr>windowN = int w\<rparr> out s)"
  have "lst ?s1 (keyMetricsWindow b) = drop (length (?l @ ?bits [out]) - w) (?l @ ?bits [out])"
    using window_record [OF assms(1,2), of out b s] Cons.prems by (simp add: Let_def)
  with Cons.IH [of ?s1] Cons.prems drop_window [of "?l @ ?bits [out]" w "?bits outs"] show ?case
    by (auto simp: Let_def simp del: drop_append)
qed simp

end

section \<open>Failure rates\<close>

text \<open>What the code relies on of \<open>strconv.ParseFloat\<close>: the two strings it stores are read as 0 and 1.\<close>

definition reads_bits :: "(string \<Rightarrow> f64) \<Rightarrow> bool" where
  "reads_bits parse \<longleftrightarrow> parse ''0'' = Fin 0 \<and> parse ''1'' = Fin 1"

lemma f64_add_nat:
  assumes "n + m < 2 ^ 53"
  shows "f64_add (Fin (of_nat n)) (Fin (of_nat m)) = Fin (of_nat (n + m))"
proof -
  have "int (n + m) < int (2 ^ 53)" using assms by (simp only: of_nat_less_iff)
  then have "\<bar>int (n + m)\<bar> < 2 ^ 53" by simp
  from f64_of_int_exact [OF this] show ?thesis by (simp add: f64_of_int_def)
qed

lemma sum_bits:
  assumes "reads_bits parse"
  shows "n + length oks < 2 ^ 53 \<Longrightarrow>
    fold (\<lambda>e failures. f64_add failures (parse e)) (map bit_of oks) (Fin (of_nat n)) =
    Fin (of_nat (n + length (filter Not oks)))"
proof (induction oks arbitrary: n)
  case (Cons ok oks)
  have z: "parse ''0'' = Fin (of_nat 0)" "parse ''1'' = Fin (of_nat 1)"
    using assms by (simp_all add: reads_bits_def)
  have "f64_add (Fin (of_nat n)) (parse (bit_of ok)) = Fin (of_nat (n + (if ok then 0 else 1)))"
  proof (cases ok)
    case True
    with f64_add_nat [of n 0] Cons.prems z(1) show ?thesis by simp
  next
    case False
    with f64_add_nat [of n 1] Cons.prems z(2) show ?thesis by simp
  qed
  with Cons.IH [of "n + (if ok then 0 else 1)"] Cons.prems show ?case by (auto simp del: of_nat_add)
qed simp

lemma computeFailureRate_bits:
  assumes "reads_bits parse" and "length oks < 2 ^ 53" and "oks \<noteq> []"
  shows "computeFailureRate parse (map bit_of oks) =
    round_f64 (of_nat (length (filter Not oks)) / of_nat (length oks))"
  using sum_bits [OF assms(1), of 0 oks] assms(2,3)
  by (simp add: computeFailureRate_def f64_div_count_def)

section \<open>Keys\<close>

lemma colon_itoa_prefix:
  assumes "us @ CHR '':'' # itoa i = CHR '':'' # itoa j"
  shows "us = []"
proof (cases us)
  case (Cons u vs)
  with assms have "vs @ CHR '':'' # itoa i = itoa j" by simp
  then have "CHR '':'' \<in> set (itoa j)" by (metis in_set_conv_decomp)
  with itoa_no_colon show ?thesis by blast
qed

lemma append_itoa_inj:
  assumes "a @ '':'' @ itoa i @ c = b @ '':'' @ itoa j @ c" and "in_int64 i" and "in_int64 j"
  shows "a = b \<and> i = j"
proof -
  have eq: "a @ CHR '':'' # itoa i = b @ CHR '':'' # itoa j" using assms(1) by simp
  then obtain us where us: "a = b @ us \<and> us @ CHR '':'' # itoa i = CHR '':'' # itoa j \<or>
      a @ us = b \<and> CHR '':'' # itoa i = us @ CHR '':'' # itoa j" by (auto simp: append_eq_append_conv2)
  then have "us = []" using colon_itoa_prefix [of us i j] colon_itoa_prefix [of us j i] by metis
  with us eq have "a = b" "itoa i = itoa j" by auto
  with assms(2,3) itoa_inj show ?thesis by blast
qed

section \<open>Properties\<close>

text \<open>C6: Fork-join. Once the barrier of a micro-batch holds \<open>n \<ge> 1\<close>, then in every interleaving of barrier operations of all workers, on
  this and on other micro-batches: whatever calls fail, at most one caller of \<open>Decrement\<close> is told that it is the last worker, and one more
  for each time an \<open>Init\<close> finds that the barrier is gone and makes it anew; an \<open>Init\<close> of a barrier that is there changes nothing. If none
  of the decrements for this micro-batch fails, and either the barrier is never made anew or there are no more decrements than workers, exactly
  one caller is told so as soon as there are \<open>n\<close> of them, and none before. Redis is any store with the stated laws, and every
  \<open>Init\<close> is for at least one worker.\<close>

theorem barrier_one_winner:
  assumes "redis_store rd num str lst" and "num s (keyBarrier mb) = Some n" and "1 \<le> n"
    and "\<forall>op\<in>set ops. positive_init mb op"
  shows "winners rd mb ops s \<le> 1 + recreations rd mb ops s \<and>
    ((\<forall>op\<in>set ops. is_decrement mb op \<longrightarrow> fault_of op = None) \<and>
     (recreations rd mb ops s = 0 \<or> int (length (filter (is_decrement mb) ops)) \<le> n) \<longrightarrow>
       winners rd mb ops s = (if n \<le> int (length (filter (is_decrement mb) ops)) then 1 else 0))"
  using redis_store.winners_bound [OF assms(1) _ assms(4), of s] assms(2,3) redis_store.winners_exact [OF assms(1-4)] by simp

theorem barrier_one_winner_witness:
  "winners kv_redis ''b:0'' [OpDecrement ''b:0'' None, OpInit ''b:0'' 2 None, OpInit ''b:1'' 5 None, OpDecrement ''b:0'' None]
     (empty_kv\<lparr>kv_num := [keyBarrier ''b:0'' \<mapsto> 2]\<rparr>) = 1"
proof -
  let ?s = "empty_kv\<lparr>kv_num := [keyBarrier ''b:0'' \<mapsto> 2]\<rparr>"
    and ?ops = "[OpDecrement ''b:0'' None, OpInit ''b:0'' 2 None, OpInit ''b:1'' 5 None, OpDecrement ''b:0'' None]"
  have "kv_num ?s (keyBarrier ''b:0'') = Some 2" "\<forall>op\<in>set ?ops. positive_init ''b:0'' op" by simp_all
  with barrier_one_winner [of kv_redis kv_num kv_str kv_lst ?s "''b:0''" 2 ?ops, OF kv.redis_store_axioms] show ?thesis
    by simp
qed

text \<open>Micro-batch identifiers and metric keys do not collide: two (batch, index) pairs with the same micro-batch identifier, or with the same
  rate key, are equal, although batch identifiers may contain colons themselves.\<close>

theorem microBatchID_injective:
  assumes "in_int64 i" and "in_int64 j"
  shows "(microBatchID a i = microBatchID b j \<longrightarrow> a = b \<and> i = j) \<and>
    (keyMicroBatchRate a i = keyMicroBatchRate b j \<longrightarrow> a = b \<and> i = j)"
proof (intro conjI impI)
  show "a = b" "i = j" if "microBatchID a i = microBatchID b j"
    using append_itoa_inj [of a i "[]" b j] that assms by (auto simp: microBatchID_def)
  show "a = b" "i = j" if "keyMicroBatchRate a i = keyMicroBatchRate b j"
    using append_itoa_inj [of "a @ '':mb''" i "'':rate''" "b @ '':mb''" j] that assms by (auto simp: keyMicroBatchRate_def)
qed

theorem microBatchID_injective_witness: "microBatchID ''b:1'' 2 \<noteq> microBatchID ''b'' 12"
  using microBatchID_injective [of 2 12 "''b:1''" "''b''"] by (simp add: in_int64_def)

definition bit_parser :: "string \<Rightarrow> f64" where
  "bit_parser e = (if e = ''1'' then Fin 1 else Fin 0)"

definition sample_outcome :: "bool \<Rightarrow> task_outcome" where
  "sample_outcome ok = \<lparr>to_BatchID = ''b'', to_MicroBatchID = ''b:0'', to_TaskID = ''t'', to_Success = ok, to_Error = [],
     to_Duration = 5, to_CompletedAt = 9\<rparr>"

text \<open>The instantaneous failure rate is what it says. After any sequence of outcomes of a batch recorded on a fresh window of
  \<open>w\<close> entries, the rate is the number of failures among the last \<open>min w k\<close> of the \<open>k\<close> outcomes divided by
  their number, rounded once.\<close>

theorem InstantaneousFailureRate_window:
  assumes "redis_store rd num str lst" and "reads_bits parse" and "0 < w" and "w < 2 ^ 53"
    and "lst s (keyMetricsWindow b) = []" and "outs \<noteq> []" and "\<forall>out\<in>set outs. to_BatchID out = b"
    and "recent = drop (length outs - w) (map to_Success outs)"
  shows "InstantaneousFailureRate rd None parse b (record_all rd \<lparr>windowN = int w\<rparr> outs s) =
    Ok (round_f64 (of_nat (length (filter Not recent)) / of_nat (length recent)))"
proof -
  have "rd_lrange_all rd (record_all rd \<lparr>windowN = int w\<rparr> outs s) (keyMetricsWindow b) = map bit_of recent"
    using redis_store.window_records [OF assms(1,3) _ assms(7), of s] assms(4-8) redis_store.lrange_lst [OF assms(1)]
    by (simp add: drop_map Let_def comp_def)
  moreover have "length recent = min w (length outs)" using assms(8) by auto
  then have "0 < length recent \<and> length recent < 2 ^ 53" using assms(3,4,6) by (auto simp: min_def)
  ultimately show ?thesis using computeFailureRate_bits [OF assms(2), of recent] by (simp add: InstantaneousFailureRate_def)
qed

theorem InstantaneousFailureRate_window_witness:
  "InstantaneousFailureRate kv_redis None bit_parser ''b''
     (record_all kv_redis \<lparr>windowN = int 2\<rparr> (map sample_outcome [False, False, True]) empty_kv) = Ok (round_f64 (1 / 2))"
proof -
  have "reads_bits bit_parser" by (simp add: reads_bits_def bit_parser_def)
  with InstantaneousFailureRate_window [of kv_redis kv_num kv_str kv_lst bit_parser 2 empty_kv "''b''"
      "map sample_outcome [False, False, True]" "[False, True]", OF kv.redis_store_axioms] show ?thesis
    by (simp add: empty_kv_def sample_outcome_def)
qed

text \<open>A resume signal is consumed once. After \<open>Signal\<close>, the first \<open>Check\<close> for the batch resumes with the operator's name and the next
  one does not, and a \<open>Check\<close> after \<open>Revoke\<close> does not resume; the JSON codec is any one that reads back what it wrote.\<close>

theorem Resume_once:
  assumes "redis_store rd num str lst"
    and "marshal \<lparr>rs_ResumedAt = now, rs_ResumedBy = who, rs_Notes = notes\<rparr> = Ok d"
    and "unmarshal d = Ok \<lparr>rs_ResumedAt = now, rs_ResumedBy = who, rs_Notes = notes\<rparr>"
    and "Resume_Signal rd None marshal now b who notes s = (Ok (), s1)"
    and "Resume_Check rd None unmarshal b s1 = (r1, s2)" and "Resume_Check rd None unmarshal b s2 = (r2, s3)"
    and "Resume_Revoke rd None b s1 = (Ok (), s4)"
  shows "r1 = Ok \<lparr>ShouldResume = True, ResumedAt = Some now, ResumedBy = who\<rparr> \<and> r2 = Ok no_resume \<and>
    fst (Resume_Check rd None unmarshal b s4) = Ok no_resume"
proof -
  note laws = redis_store.set_str [OF assms(1)] redis_store.getdel_str [OF assms(1)] redis_store.del_str [OF assms(1)]
  have check: "Resume_Check rd None unmarshal b x =
      (Ok (case str x (keyResume b) of None \<Rightarrow> no_resume
           | Some e \<Rightarrow> (case unmarshal e of
                Ok sig \<Rightarrow> \<lparr>ShouldResume = True, ResumedAt = Some (rs_ResumedAt sig), ResumedBy = rs_ResumedBy sig\<rparr>
              | _ \<Rightarrow> no_resume)), snd (rd_getdel rd x (keyResume b)))" for x
    using laws(2) [OF refl, of x b] by (simp add: Resume_Check_def rd_call_def split: option.split)
  have "s1 = rd_set rd s (keyResume b) d ResumeTTL" using assms(2,4) by (simp add: Resume_Signal_def rd_call_def)
  then have s1: "str s1 (keyResume b) = Some d" by (simp add: laws)
  have s2: "str s2 (keyResume b) = None" using assms(5) laws(2) [OF refl, of s1 b] by (auto simp: check)
  have s4: "str s4 (keyResume b) = None" using assms(7) by (auto simp: Resume_Revoke_def rd_call_def laws)
  show ?thesis using assms(3,5,6) s1 s2 s4 by (auto simp: check)
qed

theorem Resume_once_witness:
  "fst (Resume_Check kv_redis None (\<lambda>_. Ok \<lparr>rs_ResumedAt = 7, rs_ResumedBy = ''op'', rs_Notes = []\<rparr>) ''b''
      (snd (Resume_Signal kv_redis None (\<lambda>_. Ok ''x'') 7 ''b'' ''op'' [] empty_kv))) =
   Ok \<lparr>ShouldResume = True, ResumedAt = Some 7, ResumedBy = ''op''\<rparr>"
proof -
  let ?u = "\<lambda>_. Ok \<lparr>rs_ResumedAt = 7, rs_ResumedBy = ''op'', rs_Notes = []\<rparr>"
    and ?s1 = "snd (Resume_Signal kv_redis None (\<lambda>_. Ok ''x'') 7 ''b'' ''op'' [] empty_kv)"
  have "Resume_Signal kv_redis None (\<lambda>_. Ok ''x'') 7 ''b'' ''op'' [] empty_kv = (Ok (), ?s1)"
    by (simp add: Resume_Signal_def rd_call_def)
  moreover obtain r1 s2 where c1: "Resume_Check kv_redis None ?u ''b'' ?s1 = (r1, s2)" by fastforce
  moreover obtain r2 s3 where "Resume_Check kv_redis None ?u ''b'' s2 = (r2, s3)" by fastforce
  moreover have "Resume_Revoke kv_redis None ''b'' ?s1 = (Ok (), rd_del kv_redis ?s1 (keyResume ''b''))"
    by (simp add: Resume_Revoke_def rd_call_def)
  ultimately show ?thesis
    using Resume_once [of kv_redis kv_num kv_str kv_lst "\<lambda>_. Ok ''x''" 7 "''op''" "[]" "''x''" ?u "''b''" empty_kv ?s1 r1 s2 r2 s3,
        OF kv.redis_store_axioms] by simp
qed

end
