(* ===== verification/Orchestrator.thy ===== *)
theory Orchestrator
  imports Executor Batch
begin

text \<open>
  The micro-batch orchestrator (\<open>pkg/batch/orchestrator.go\<close>, \<open>types.go\<close>): the launch of a batch under a lock, the handlers behind the Task
  states of the orchestrator's state machine, which slice the work, initialise the barrier and enqueue one task per item,
  and the signal by which workers report their outcomes and the last one resumes the orchestrator.

  A world holds the store of Redis, the state \<open>'s\<close> of the repository and of the queue together, the number of
  calls to Redis so far and the goroutines started. A call to Redis fails when \<open>or_fault\<close> says so at its number; the
  number in the fault tells how many commands took effect before the reply was lost. A pipeline is not a
  transaction: any prefix of its commands may have taken effect. Keys do not expire in the model. The JSON
  codec is a parameter. Asynq keeps its own keys in the same Redis; the model keeps its state apart.
\<close>

section \<open>Data\<close>

abbreviation ResourceDispatch :: string where "ResourceDispatch \<equiv> ''batch:dispatch''"
abbreviation ResourceEvaluate :: string where "ResourceEvaluate \<equiv> ''batch:evaluate''"
abbreviation ResourceCheckResume :: string where "ResourceCheckResume \<equiv> ''batch:check-resume''"
abbreviation ResourceDispatchBulk :: string where "ResourceDispatchBulk \<equiv> ''batch:dispatch-bulk''"
abbreviation ResourceEvaluateBulk :: string where "ResourceEvaluateBulk \<equiv> ''batch:evaluate-bulk''"
abbreviation ResourceCheckResumeBulk :: string where "ResourceCheckResumeBulk \<equiv> ''batch:check-resume-bulk''"
abbreviation OrchestratorStateMachineID :: string where "OrchestratorStateMachineID \<equiv> ''micro-batch-orchestrator-v1''"
abbreviation BulkOrchestratorStateMachineID :: string where "BulkOrchestratorStateMachineID \<equiv> ''micro-bulk-orchestrator-v1''"
abbreviation MicroBatchCorrelationKey :: string where "MicroBatchCorrelationKey \<equiv> ''micro_batch_id''"
abbreviation MicroBatchInputKey :: string where "MicroBatchInputKey \<equiv> ''__micro_batch_meta__''"
abbreviation DefaultMicroBatchSize :: int where "DefaultMicroBatchSize \<equiv> 1000"
abbreviation IDsListTTL :: int where "IDsListTTL \<equiv> 604800"

record dispatch_result =
  dr_IsBatchComplete :: bool
  dr_MicroBatchID :: string
  dr_MicroBatchIndex :: int
  dr_Size :: int
  dr_DispatchedAt :: int

record orchestrator_input =
  oi_BatchID :: string
  oi_TotalCount :: int
  oi_MicroBatchSize :: int
  oi_SourceStateMachineID :: string
  oi_SourceStateName :: string
  oi_TargetStateMachineID :: string
  oi_OrchestratorSMID :: string
  oi_FailurePolicy :: failure_policy
  oi_UseGroupEnqueue :: bool
  oi_GroupConcurrency :: int
  oi_DispatchResult :: "dispatch_result option"
  oi_Evaluation :: "evaluation_result option"
  oi_ResumeCheck :: "resume_check_result option"

record bulk_orchestrator_input =
  bi_BatchID :: string
  bi_TotalCount :: int
  bi_MicroBatchSize :: int
  bi_TargetStateMachineID :: string
  bi_OrchestratorSMID :: string
  bi_ExecutionNamePrefix :: string
  bi_InputTransformerName :: string
  bi_ApplyUnique :: bool
  bi_UseGroupEnqueue :: bool
  bi_GroupConcurrency :: int
  bi_FailurePolicy :: failure_policy
  bi_DispatchResult :: "dispatch_result option"
  bi_Evaluation :: "evaluation_result option"
  bi_ResumeCheck :: "resume_check_result option"

record micro_batch_meta =
  mm_BatchID :: string
  mm_MicroBatchID :: string
  mm_OrchestratorSMID :: string

text \<open>The JSON codec at the types of the package. \<open>bj_input\<close> and \<open>bj_bulk_input\<close> are \<open>remarshal\<close>; the last four are a struct as
  a dynamic value.\<close>

record batch_json =
  bj_input :: "gval \<Rightarrow> orchestrator_input res"
  bj_bulk_input :: "gval \<Rightarrow> bulk_orchestrator_input res"
  bj_meta :: "micro_batch_meta \<Rightarrow> string"
  bj_dec_meta :: "string \<Rightarrow> micro_batch_meta res"
  bj_marshal :: "gval \<Rightarrow> string res"
  bj_unmarshal :: "string \<Rightarrow> gval res"
  bj_signal :: "resume_signal \<Rightarrow> string res"
  bj_dec_signal :: "string \<Rightarrow> resume_signal res"
  bj_ParseFloat :: "string \<Rightarrow> f64"
  bj_input_value :: "orchestrator_input \<Rightarrow> gval"
  bj_bulk_value :: "bulk_orchestrator_input \<Rightarrow> gval"
  bj_policy_value :: "failure_policy \<Rightarrow> gval"
  bj_evaluation_value :: "evaluation_result \<Rightarrow> gval"
  bj_resume_value :: "resume_check_result \<Rightarrow> gval"

text \<open>A goroutine that has been started: the launch of an orchestrator with its input and first state, or the resumption of an execution. The flag
  tells whether the handlers of the bulk orchestrator are registered.\<close>

datatype 's goroutine =
    Launch bool "'s persistent" string string gval
  | ResumeRun bool "'s persistent" execution

record ('r, 's) world =
  w_redis :: 'r
  w_back :: 's
  w_calls :: nat
  w_started :: "'s goroutine list"

record ('r, 's) orchestrator =
  or_rdb :: "'r redis"
  or_fault :: "nat \<Rightarrow> (err \<times> nat) option"
  or_json :: batch_json
  or_now :: "nat \<Rightarrow> int"
  or_metrics :: metrics_recorder
  or_parentSM :: "'s persistent"
  or_smFactory :: "string \<Rightarrow> ('s, 's persistent) op"

section \<open>Calls\<close>

definition redis_call ::
  "('r, 's) orchestrator \<Rightarrow> (fault \<Rightarrow> 'r \<Rightarrow> 'a res \<times> 'r) \<Rightarrow> (('r, 's) world, 'a) op" where
  "redis_call orc f w =
    (let (r, s) = f (map_option (map_prod id (\<lambda>n. 0 < n)) (or_fault orc (w_calls w))) (w_redis w)
     in (r, w\<lparr>w_redis := s, w_calls := Suc (w_calls w)\<rparr>))"

definition redis_read :: "('r, 's) orchestrator \<Rightarrow> ('r \<Rightarrow> 'a) \<Rightarrow> (('r, 's) world, 'a) op" where
  "redis_read orc f = redis_call orc (\<lambda>fault s. rd_call fault s (f s, s))"

definition redis_pipe :: "('r, 's) orchestrator \<Rightarrow> ('r \<Rightarrow> 'r) list \<Rightarrow> (('r, 's) world, unit) op" where
  "redis_pipe orc commands w =
    (let w1 = w\<lparr>w_calls := Suc (w_calls w)\<rparr> in
     case or_fault orc (w_calls w) of
       None \<Rightarrow> (Ok (), w1\<lparr>w_redis := fold (\<lambda>c. c) commands (w_redis w)\<rparr>)
     | Some (e, n) \<Rightarrow> (Err e, w1\<lparr>w_redis := fold (\<lambda>c. c) (take n commands) (w_redis w)\<rparr>))"

definition on_back :: "('s, 'a) op \<Rightarrow> (('r, 's) world, 'a) op" where
  "on_back f w = (let (r, s) = f (w_back w) in (r, w\<lparr>w_back := s\<rparr>))"

definition go_start :: "'s goroutine \<Rightarrow> (('r, 's) world, unit) op" where
  "go_start g w = (Ok (), w\<lparr>w_started := w_started w @ [g]\<rparr>)"

text \<open>The clock, read at the number of calls so far.\<close>

abbreviation clock :: "('r, 's) orchestrator \<Rightarrow> ('r, 's) world \<Rightarrow> int" where
  "clock orc w \<equiv> or_now orc (w_calls w)"

section \<open>Storing the work\<close>

definition keyBulkInputsList :: "string \<Rightarrow> string" where
  "keyBulkInputsList batchID = ''batch:bulk:inputs:'' @ batchID"

definition keyLock :: "string \<Rightarrow> string" where
  "keyLock batchID = ''batch:lock:'' @ batchID"

definition keyDispatched :: "string \<Rightarrow> int \<Rightarrow> string" where
  "keyDispatched batchID mbIndex = ''batch:dispatched:'' @ batchID @ '':mb'' @ itoa mbIndex"

fun chunks :: "nat \<Rightarrow> 'a list \<Rightarrow> 'a list list" where
  "chunks n xs = (if n = 0 \<or> xs = [] then [] else take n xs # chunks n (drop n xs))"

declare chunks.simps [simp del]

definition storeIDs :: "('r, 's) orchestrator \<Rightarrow> string \<Rightarrow> string list \<Rightarrow> (('r, 's) world, unit) op" where
  "storeIDs orc batchID ids =
    (let rd = or_rdb orc; key = keyIDsList batchID in
     if ids = [] then op_return (Ok ())
     else redis_pipe orc
       (map (\<lambda>slice s. fold (\<lambda>i s. rd_rpush rd s key i) slice s) (chunks 1000 ids) @ [\<lambda>s. rd_expire rd s key IDsListTTL]))"

fun marshal_all :: "(gval \<Rightarrow> string res) \<Rightarrow> gval list \<Rightarrow> string list res" where
  "marshal_all marshal [] = Ok []"
| "marshal_all marshal (v # vs) =
     rbind (wrap_err ''marshal input'' (marshal v)) (\<lambda>j. rbind (marshal_all marshal vs) (\<lambda>js. Ok (j # js)))"

definition storeBulkInputs :: "('r, 's) orchestrator \<Rightarrow> string \<Rightarrow> gval list \<Rightarrow> (('r, 's) world, unit) op" where
  "storeBulkInputs orc batchID inputs =
    (let rd = or_rdb orc; key = keyBulkInputsList batchID in
     if inputs = [] then op_return (Ok ())
     else op_bind (op_return (marshal_all (bj_marshal (or_json orc)) inputs)) (\<lambda>js.
       redis_pipe orc (map (\<lambda>j s. rd_rpush rd s key j) js @ [\<lambda>s. rd_expire rd s key IDsListTTL])))"

section \<open>Launching a batch\<close>

text \<open>The dynamic type of the field \<open>RedisClient\<close>: nil, a value of another type, or a client. Callbacks are not part of the options.\<close>

datatype redis_client = NoClient | OtherClient | RedisClient

record batch_execution_options =
  bo_BatchId :: string
  bo_NamePrefix :: string
  bo_ConcurrentBatches :: int
  bo_StopOnError :: bool
  bo_UseGroupEnqueue :: bool
  bo_GroupConcurrency :: int
  bo_DoMicroBatch :: bool
  bo_MicroBatchSize :: int
  bo_RedisClient :: redis_client
  bo_FailurePolicyConfig :: "failure_policy option"

record bulk_execution_options =
  uo_NamePrefix :: string
  uo_ConcurrentBatches :: int
  uo_StopOnError :: bool
  uo_GroupConcurrency :: int
  uo_DoMicroBatch :: bool
  uo_MicroBatchSize :: int
  uo_RedisClient :: redis_client
  uo_FailurePolicyConfig :: "failure_policy option"
  uo_UseGroupEnqueue :: bool

definition default_policy :: failure_policy where
  "default_policy = \<lparr>fp_WindowN = 500, fp_WindowM = 5, SevereFailureThreshold = Fin (1 / 2), SoftFailureThreshold = round_f64 (1 / 5)\<rparr>"

text \<open>\<open>None\<close> stands for nil and for a value of another type, which the code treats alike.\<close>

definition getFailurePolicy :: "failure_policy option \<Rightarrow> failure_policy" where
  "getFailurePolicy config = (case config of Some policy \<Rightarrow> policy | None \<Rightarrow> default_policy)"

definition acquire_lock :: "('r, 's) orchestrator \<Rightarrow> string \<Rightarrow> string \<Rightarrow> (('r, 's) world, unit) op" where
  "acquire_lock orc prefix batchID =
    op_bind (op_wrap (prefix @ '': acquire lock'')
        (redis_call orc (\<lambda>fault s. rd_call fault s (rd_setnx_str (or_rdb orc) s (keyLock batchID) ''locked'' 86400)))) (\<lambda>locked.
      op_return (if locked then Ok () else Err (ErrorNew (prefix @ '': batch '' @ batchID @ '' is already running''))))"

definition share_queue :: "('r, 's) orchestrator \<Rightarrow> 's persistent \<Rightarrow> 's persistent" where
  "share_queue orc sm =
    (case ps_queueClient (or_parentSM orc) of Some qc \<Rightarrow> sm\<lparr>ps_queueClient := Some qc\<rparr> | None \<Rightarrow> sm)"

definition batch_size :: "int \<Rightarrow> int" where
  "batch_size n = (if n \<le> 0 then DefaultMicroBatchSize else n)"

definition Run ::
  "('r, 's) orchestrator \<Rightarrow> string \<Rightarrow> string \<Rightarrow> string list \<Rightarrow> string \<Rightarrow> string \<Rightarrow> batch_execution_options \<Rightarrow> (('r, 's) world, unit) op" where
  "Run orc batchID sourceMachineId sourceExecutionIDs targetMachineId sourceStateName opts =
    op_bind (acquire_lock orc ''batch:run'' batchID) (\<lambda>_.
    op_bind (storeIDs orc batchID sourceExecutionIDs) (\<lambda>_.
    op_bind (op_wrap ''orchestrator: load definition'' (on_back (or_smFactory orc OrchestratorStateMachineID))) (\<lambda>sm.
      go_start (Launch False (share_queue orc sm) batchID (sm_StartAt (ps_machine sm))
        (bj_input_value (or_json orc)
          \<lparr>oi_BatchID = batchID, oi_TotalCount = int (length sourceExecutionIDs), oi_MicroBatchSize = batch_size (bo_MicroBatchSize opts),
           oi_SourceStateMachineID = sourceMachineId, oi_SourceStateName = sourceStateName,
           oi_TargetStateMachineID = targetMachineId, oi_OrchestratorSMID = OrchestratorStateMachineID,
           oi_FailurePolicy = default_policy, oi_UseGroupEnqueue = bo_UseGroupEnqueue opts,
           oi_GroupConcurrency = bo_GroupConcurrency opts, oi_DispatchResult = None, oi_Evaluation = None,
           oi_ResumeCheck = None\<rparr>)))))"

definition RunBulk ::
  "('r, 's) orchestrator \<Rightarrow> string \<Rightarrow> gval list \<Rightarrow> string \<Rightarrow> bulk_execution_options \<Rightarrow>
   (execution_config \<Rightarrow> execution_config) list \<Rightarrow> (('r, 's) world, unit) op" where
  "RunBulk orc batchID inputs targetMachineID opts execOpts =
    op_bind (acquire_lock orc ''batch:run-bulk'' batchID) (\<lambda>_.
    op_bind (storeBulkInputs orc batchID inputs) (\<lambda>_.
    op_bind (op_wrap ''bulk orchestrator: load definition'' (on_back (or_smFactory orc BulkOrchestratorStateMachineID))) (\<lambda>sm.
      (let config = fold (\<lambda>opt c. opt c) execOpts empty_config in
      go_start (Launch True (share_queue orc sm) batchID ''DispatchBulkMicroBatch''
        (bj_bulk_value (or_json orc)
          \<lparr>bi_BatchID = batchID, bi_TotalCount = int (length inputs), bi_MicroBatchSize = batch_size (uo_MicroBatchSize opts),
           bi_TargetStateMachineID = targetMachineID, bi_OrchestratorSMID = BulkOrchestratorStateMachineID,
           bi_ExecutionNamePrefix = uo_NamePrefix opts, bi_InputTransformerName = ec_InputTransformerName config,
           bi_ApplyUnique = ec_ApplyUnique config, bi_UseGroupEnqueue = uo_UseGroupEnqueue opts,
           bi_GroupConcurrency = uo_GroupConcurrency opts, bi_FailurePolicy = getFailurePolicy (uo_FailurePolicyConfig opts),
           bi_DispatchResult = None, bi_Evaluation = None, bi_ResumeCheck = None\<rparr>))))))"

text \<open>Polling for the end of an execution. \<open>cancelled i\<close> is the error of the context at the i-th turn of the loop, if it is done then.\<close>

fun waitForTermination ::
  "nat \<Rightarrow> (nat \<Rightarrow> err option) \<Rightarrow> 's repository \<Rightarrow> string \<Rightarrow> nat \<Rightarrow> 's \<Rightarrow> (unit res \<times> 's) option" where
  "waitForTermination 0 cancelled rp execID i s = None"
| "waitForTermination (Suc fuel) cancelled rp execID i s =
     (case cancelled i of
        Some e \<Rightarrow> Some (Err e, s)
      | None \<Rightarrow>
          (case rp_GetExecution rp execID s of
             (Ok rec, s1) \<Rightarrow>
               if er_Status rec = ''SUCCEEDED'' then Some (Ok (), s1)
               else if er_Status rec = ''FAILED'' then
                 Some (Err (ErrorNew (''orchestrator execution '' @ execID @ '' FAILED'')), s1)
               else waitForTermination fuel cancelled rp execID (Suc i) s1
           | (Err _, s1) \<Rightarrow> waitForTermination fuel cancelled rp execID (Suc i) s1
           | (Panic m, s1) \<Rightarrow> Some (Panic m, s1)
           | (Crash m, s1) \<Rightarrow> Some (Crash m, s1)))"

section \<open>Cleaning up\<close>

definition string_field :: "string \<Rightarrow> gmap \<Rightarrow> string option" where
  "string_field k m = (case map_of m k of Some (GString v) \<Rightarrow> Some v | _ \<Rightarrow> None)"

definition extractBatchIDFromInput :: "gval \<Rightarrow> string res" where
  "extractBatchIDFromInput input =
    (case input of
       GMap inputMap \<Rightarrow>
         (case (case map_of inputMap ''$'' of Some (GMap nested) \<Rightarrow> string_field ''batch_id'' nested | _ \<Rightarrow> None) of
            Some batchID \<Rightarrow> Ok batchID
          | None \<Rightarrow>
              (case string_field ''batch_id'' inputMap of
                 Some batchID \<Rightarrow> Ok batchID
               | None \<Rightarrow> Err (ErrorNew ''batch_id not found in input'')))
     | _ \<Rightarrow> Err (ErrorNew ''invalid input type: expected map[string]interface{}''))"

definition extractGroupEnqueueInfo :: "gval \<Rightarrow> (string \<times> bool) res" where
  "extractGroupEnqueueInfo input =
    (case input of
       GMap inputMap \<Rightarrow>
         (case (case map_of inputMap ''$'' of Some (GMap nested) \<Rightarrow> Some nested | Some _ \<Rightarrow> None | None \<Rightarrow> Some inputMap) of
            None \<Rightarrow> Err (ErrorNew ''target map not found in input'')
          | Some targetMap \<Rightarrow>
              (let targetSMID = (case string_field ''target_state_machine_id'' targetMap of Some v \<Rightarrow> v | None \<Rightarrow> []);
                   useGroup = (case map_of targetMap ''use_group_enqueue'' of Some (GBool b) \<Rightarrow> b | _ \<Rightarrow> False)
               in if targetSMID = [] then Err (ErrorNew ''target_state_machine_id not found in input'')
                  else Ok (targetSMID, useGroup)))
     | _ \<Rightarrow> Err (ErrorNew ''invalid input type: expected map[string]interface{}''))"

record completion_metrics =
  cm_dispatched :: int
  cm_processed :: int
  cm_succeeded :: int
  cm_failed :: int
  cm_failureRate :: f64

text \<open>What is logged. The pipeline reports an error when one of its keys is missing, and nothing is computed then.\<close>

definition logBatchCompletionMetrics ::
  "('r, 's) orchestrator \<Rightarrow> string \<Rightarrow> ('r, 's) world \<Rightarrow> completion_metrics option \<times> ('r, 's) world" where
  "logBatchCompletionMetrics orc batchID w =
    (let rd = or_rdb orc;
         (r, w1) = redis_read orc (\<lambda>s. (rd_get_int rd s (keyTotalProcessed batchID), rd_get_int rd s (keyTotalFailed batchID),
                                        rd_get_int rd s (keyCursor batchID))) w
     in (case r of
           Ok (Some processed, Some failed, Some cursor) \<Rightarrow>
             Some \<lparr>cm_dispatched = cursor, cm_processed = processed, cm_succeeded = max 0 (wrap64 (processed - failed)), cm_failed = failed,
                   cm_failureRate = (if 0 < processed
                     then f64_mul (case (f64_of_int failed, f64_of_int processed) of (Fin a, Fin b) \<Rightarrow> round_f64 (a / b) | _ \<Rightarrow> NaN) (Fin 100)
                     else Fin 0)\<rparr>
         | _ \<Rightarrow> None, w1))"

definition delete_keys :: "('r, 's) orchestrator \<Rightarrow> string list \<Rightarrow> (('r, 's) world, unit) op" where
  "delete_keys orc keys = redis_pipe orc (map (\<lambda>k s. rd_del (or_rdb orc) s k) keys)"

text \<open>The pages of the scan; a page whose deletion fails is only logged.\<close>

fun delete_pages :: "('r, 's) orchestrator \<Rightarrow> string list list \<Rightarrow> (('r, 's) world, unit) op" where
  "delete_pages orc [] = op_return (Ok ())"
| "delete_pages orc (page # pages) =
     op_bind (op_wrap ''scan for asynq unique keys'' (redis_read orc (\<lambda>_. ()))) (\<lambda>_ w.
       delete_pages orc pages (if page = [] then w else snd (delete_keys orc page w)))"

definition cleanupAsynqUniqueKeys :: "('r, 's) orchestrator \<Rightarrow> gval \<Rightarrow> (('r, 's) world, unit) op" where
  "cleanupAsynqUniqueKeys orc execInput =
    op_bind (op_wrap ''extract group enqueue info'' (op_return (extractGroupEnqueueInfo execInput))) (\<lambda>(targetSMID, useGroupEnqueue) w.
      if \<not> useGroupEnqueue then (Ok (), w)
      else delete_pages orc
        (rd_scan (or_rdb orc) (w_redis w) (''asynq:{'' @ targetSMID @ ''}:unique:statemachine:execution:*'')) w)"

definition batch_keys :: "string \<Rightarrow> string list" where
  "batch_keys batchID =
    [keyIDsList batchID, keyCursor batchID, keyMetricsWindow batchID, keyTotalProcessed batchID, keyTotalFailed batchID, keyResume batchID]"

definition cleanupBatchResources :: "('r, 's) orchestrator \<Rightarrow> gval \<Rightarrow> (('r, 's) world, unit) op" where
  "cleanupBatchResources orc execInput =
    op_bind (op_wrap ''extract batchID for cleanup'' (op_return (extractBatchIDFromInput execInput))) (\<lambda>batchID w.
      op_bind (op_wrap ''delete batch keys'' (delete_keys orc (batch_keys batchID)))
        (\<lambda>_ w1. (Ok (), snd (cleanupAsynqUniqueKeys orc execInput w1)))
        (snd (logBatchCompletionMetrics orc batchID w)))"

section \<open>Slicing\<close>

record dispatch_slice =
  ds_mbIndex :: int
  ds_mbID :: string
  ds_cursorVal :: int

text \<open>Division of the language truncates.\<close>

definition quot :: "int \<Rightarrow> int \<Rightarrow> int" where
  "quot a b = sgn a * sgn b * (\<bar>a\<bar> div \<bar>b\<bar>)"

definition computeDispatchSlice ::
  "('r, 's) orchestrator \<Rightarrow> string \<Rightarrow> int \<Rightarrow> int \<Rightarrow> (('r, 's) world, dispatch_slice option) op" where
  "computeDispatchSlice orc batchID totalCount microBatchSize =
    op_bind (op_wrap (''read cursor for batch '' @ batchID)
        (redis_read orc (\<lambda>s. rd_get_int (or_rdb orc) s (keyCursor batchID)))) (\<lambda>cursor.
      (let cursorVal = (case cursor of Some v \<Rightarrow> v | None \<Rightarrow> 0); mbIndex = quot cursorVal (batch_size microBatchSize) in
       op_return (Ok (if totalCount \<le> cursorVal then None
         else Some \<lparr>ds_mbIndex = mbIndex, ds_mbID = microBatchID batchID mbIndex, ds_cursorVal = cursorVal\<rparr>))))"

definition checkIdempotency :: "('r, 's) orchestrator \<Rightarrow> string \<Rightarrow> int \<Rightarrow> (('r, 's) world, string \<times> bool) op" where
  "checkIdempotency orc batchID mbIndex =
    (let dispatchedKey = keyDispatched batchID mbIndex in
     op_bind (op_wrap ''check dispatched key'' (redis_read orc (\<lambda>s. rd_get (or_rdb orc) s dispatchedKey))) (\<lambda>dispatched.
       op_return (Ok (dispatchedKey, dispatched = Some ''1''))))"

definition markDispatched :: "('r, 's) orchestrator \<Rightarrow> string \<Rightarrow> string \<Rightarrow> int \<Rightarrow> (('r, 's) world, unit) op" where
  "markDispatched orc batchID dispatchedKey newCursor =
    op_wrap ''mark dispatched and advance cursor'' (redis_pipe orc
      [\<lambda>s. rd_set (or_rdb orc) s dispatchedKey ''1'' IDsListTTL,
       \<lambda>s. rd_set_int (or_rdb orc) s (keyCursor batchID) newCursor MetricsTTL])"

abbreviation go_int :: "int \<Rightarrow> gval" where
  "go_int n \<equiv> GInteger KInt n"

definition buildDispatchResult ::
  "int \<Rightarrow> string \<Rightarrow> string \<Rightarrow> int \<Rightarrow> int \<Rightarrow> string \<Rightarrow> int \<Rightarrow> int \<Rightarrow> bool \<Rightarrow> gmap \<Rightarrow> gval" where
  "buildDispatchResult now batchID orchestratorID totalCount mbSize mbID mbIndex actualSize alreadyDispatched extraFields =
    GMap (fold (\<lambda>(k, v) m. AList.update k v m) extraFields
      [(''batchID'', GString batchID), (''orchestratorID'', GString orchestratorID), (''totalCount'', go_int totalCount),
       (''microBatchSize'', go_int mbSize),
       (''dispatchResult'', GMap [(''isBatchComplete'', GBool False), (''microBatchId'', GString mbID),
          (''microBatchIndex'', go_int mbIndex), (''size'', go_int actualSize), (''dispatchedAt'', GTime now),
          (''alreadyDispatched'', GBool alreadyDispatched)])])"

text \<open>The last position of a slice.\<close>

definition slice_end :: "int \<Rightarrow> int \<Rightarrow> int \<Rightarrow> int" where
  "slice_end cursorVal mbSize totalCount =
    (let e = wrap64 (cursorVal + mbSize - 1) in if totalCount \<le> e then wrap64 (totalCount - 1) else e)"

section \<open>Enqueueing\<close>

fun enqueue_each ::
  "'s queue_client \<Rightarrow> (nat \<Rightarrow> execution_task_payload \<Rightarrow> string) \<Rightarrow> nat \<Rightarrow> execution_task_payload list \<Rightarrow> ('s, unit) op" where
  "enqueue_each qc label idx [] = op_return (Ok ())"
| "enqueue_each qc label idx (p # ps) =
     op_bind (op_wrap (label idx p) (EnqueueExecution qc p [])) (\<lambda>_. enqueue_each qc label (Suc idx) ps)"

definition enqueue_payloads ::
  "'s queue_client \<Rightarrow> bool \<Rightarrow> string \<Rightarrow> (nat \<Rightarrow> execution_task_payload \<Rightarrow> string) \<Rightarrow> execution_task_payload list \<Rightarrow> ('s, unit) op" where
  "enqueue_payloads qc useGroup groupID label payloads =
    (if useGroup then op_bind (op_wrap (''enqueue group '' @ groupID) (EnqueueExecutionGroup qc payloads groupID [])) (\<lambda>_. op_return (Ok ()))
     else enqueue_each qc label 0 payloads)"

definition id_payload :: "batch_json \<Rightarrow> orchestrator_input \<Rightarrow> string \<Rightarrow> int \<Rightarrow> nat \<Rightarrow> string \<Rightarrow> execution_task_payload" where
  "id_payload bj inp mbID mbIndex idx sourceExecID =
    \<lparr>ep_StateMachineID = oi_TargetStateMachineID inp, ep_ExecutionID = [], ep_SourceExecutionID = sourceExecID,
     ep_SourceStateName = oi_SourceStateName inp, ep_InputTransformerName = [], ep_ApplyUnique = True,
     ep_ExecutionName = oi_BatchID inp @ ''-mb'' @ itoa mbIndex @ ''-'' @ itoa (int idx), ep_ExecutionIndex = int idx,
     ep_Input = GMap [(MicroBatchInputKey, GString (bj_meta bj \<lparr>mm_BatchID = oi_BatchID inp, mm_MicroBatchID = mbID,
       mm_OrchestratorSMID = oi_OrchestratorSMID inp\<rparr>))],
     ep_Options = None, ep_IsTimeout = False, ep_CorrelationID = [], ep_GroupID = [], ep_GroupConcurrency = oi_GroupConcurrency inp\<rparr>"

definition enqueueIDs ::
  "('r, 's) orchestrator \<Rightarrow> orchestrator_input \<Rightarrow> string list \<Rightarrow> string \<Rightarrow> int \<Rightarrow> (('r, 's) world, unit) op" where
  "enqueueIDs orc inp ids mbID mbIndex =
    (case ps_queueClient (or_parentSM orc) of
       None \<Rightarrow> op_return (Err (ErrorNew ''no queue client configured''))
     | Some qc \<Rightarrow>
         on_back (enqueue_payloads qc (oi_UseGroupEnqueue inp) mbID (\<lambda>idx p. ''enqueue id '' @ ep_SourceExecutionID p)
           (map (\<lambda>(idx, i). id_payload (or_json orc) inp mbID mbIndex idx i) (List.enumerate 0 ids))))"

definition bulk_payload :: "batch_json \<Rightarrow> bulk_orchestrator_input \<Rightarrow> string \<Rightarrow> int \<Rightarrow> nat \<Rightarrow> gval \<Rightarrow> execution_task_payload" where
  "bulk_payload bj inp mbID mbIndex idx inputData =
    (let globalIdx = wrap64 (mbIndex * bi_MicroBatchSize inp + int idx);
         inputMap = (case inputData of GMap m \<Rightarrow> m | _ \<Rightarrow> [])
     in \<lparr>ep_StateMachineID = bi_TargetStateMachineID inp, ep_ExecutionID = [], ep_SourceExecutionID = [], ep_SourceStateName = [],
         ep_InputTransformerName = bi_InputTransformerName inp, ep_ApplyUnique = bi_ApplyUnique inp,
         ep_ExecutionName = bi_ExecutionNamePrefix inp @ ''-'' @ itoa globalIdx, ep_ExecutionIndex = globalIdx,
         ep_Input = GMap (AList.update MicroBatchInputKey (GString (bj_meta bj \<lparr>mm_BatchID = bi_BatchID inp, mm_MicroBatchID = mbID,
           mm_OrchestratorSMID = bi_OrchestratorSMID inp\<rparr>)) inputMap),
         ep_Options = None, ep_IsTimeout = False, ep_CorrelationID = [], ep_GroupID = [], ep_GroupConcurrency = bi_GroupConcurrency inp\<rparr>)"

fun bulk_payloads ::
  "batch_json \<Rightarrow> bulk_orchestrator_input \<Rightarrow> string \<Rightarrow> int \<Rightarrow> nat \<Rightarrow> string list \<Rightarrow> execution_task_payload list res" where
  "bulk_payloads bj inp mbID mbIndex idx [] = Ok []"
| "bulk_payloads bj inp mbID mbIndex idx (j # js) =
     rbind (wrap_err (''unmarshal input '' @ itoa (int idx)) (bj_unmarshal bj j)) (\<lambda>inputData.
     rbind (bulk_payloads bj inp mbID mbIndex (Suc idx) js) (\<lambda>ps. Ok (bulk_payload bj inp mbID mbIndex idx inputData # ps)))"

definition enqueueBulkInputs ::
  "('r, 's) orchestrator \<Rightarrow> bulk_orchestrator_input \<Rightarrow> string list \<Rightarrow> string \<Rightarrow> int \<Rightarrow> (('r, 's) world, unit) op" where
  "enqueueBulkInputs orc inp inputs mbID mbIndex =
    (case ps_queueClient (or_parentSM orc) of
       None \<Rightarrow> op_return (Err (ErrorNew ''no queue client configured''))
     | Some qc \<Rightarrow>
         op_bind (op_return (bulk_payloads (or_json orc) inp mbID mbIndex 0 inputs)) (\<lambda>payloads.
           on_back (enqueue_payloads qc (bi_UseGroupEnqueue inp) mbID (\<lambda>idx p. ''enqueue input '' @ itoa (int idx)) payloads)))"

section \<open>Task handlers\<close>

text \<open>What both dispatch handlers do once everything is dispatched: log, clean up, and log a failure to do so.\<close>

definition finish_batch :: "('r, 's) orchestrator \<Rightarrow> string \<Rightarrow> gval \<Rightarrow> ('r, 's) world \<Rightarrow> ('r, 's) world" where
  "finish_batch orc batchID rawInput w = snd (cleanupBatchResources orc rawInput (snd (logBatchCompletionMetrics orc batchID w)))"

definition dispatch_done :: gval where
  "dispatch_done = GMap [(''isBatchComplete'', GBool True)]"

definition init_barrier :: "('r, 's) orchestrator \<Rightarrow> string \<Rightarrow> string \<Rightarrow> int \<Rightarrow> (('r, 's) world, unit) op" where
  "init_barrier orc prefix mbID sz =
    op_wrap (prefix @ '': init barrier'') (redis_call orc (\<lambda>fault s. Barrier_Init (or_rdb orc) fault mbID sz s))"

definition skip_dispatched :: "('r, 's) orchestrator \<Rightarrow> string \<Rightarrow> string \<Rightarrow> int \<Rightarrow> (('r, 's) world, unit) op" where
  "skip_dispatched orc prefix batchID newCursor =
    op_wrap (prefix @ '': advance cursor (skip dispatched)'')
      (redis_call orc (\<lambda>fault s. rd_call fault s ((), rd_set_int (or_rdb orc) s (keyCursor batchID) newCursor MetricsTTL)))"

text \<open>The handler from the point where the IDs of the slice are known.\<close>

definition dispatch_ids ::
  "('r, 's) orchestrator \<Rightarrow> orchestrator_input \<Rightarrow> dispatch_slice \<Rightarrow> string list \<Rightarrow> (('r, 's) world, gval) op" where
  "dispatch_ids orc inp slice ids =
    (let batchID = oi_BatchID inp; mbID = ds_mbID slice; mbIndex = ds_mbIndex slice;
         actualSize = int (length ids);
         newCursor = wrap64 (ds_cursorVal slice + actualSize);
         dispatch_output = (\<lambda>already w. (Ok (buildDispatchResult (clock orc w) batchID (oi_OrchestratorSMID inp) (oi_TotalCount inp)
           (batch_size (oi_MicroBatchSize inp)) mbID mbIndex actualSize already
           [(''sourceStateMachineID'', GString (oi_SourceStateMachineID inp)), (''sourceStateName'', GString (oi_SourceStateName inp))]), w))
     in
     op_bind (op_wrap ''batch:dispatch'' (checkIdempotency orc batchID mbIndex)) (\<lambda>(dispatchedKey, alreadyDispatched).
     if alreadyDispatched then
       op_bind (skip_dispatched orc ''batch:dispatch'' batchID newCursor) (\<lambda>_. dispatch_output True)
     else
       op_bind (init_barrier orc ''batch:dispatch'' mbID actualSize) (\<lambda>_.
       op_bind (op_wrap ''batch:dispatch: enqueue'' (enqueueIDs orc inp ids mbID mbIndex)) (\<lambda>_.
       op_bind (op_wrap ''batch:dispatch'' (markDispatched orc batchID dispatchedKey newCursor)) (\<lambda>_. dispatch_output False)))))"

definition handleDispatch :: "('r, 's) orchestrator \<Rightarrow> gval \<Rightarrow> (('r, 's) world, gval) op" where
  "handleDispatch orc rawInput =
    op_bind (op_wrap ''batch:dispatch: unmarshal input'' (op_return (bj_input (or_json orc) rawInput))) (\<lambda>inp.
    op_bind (op_wrap ''batch:dispatch: compute slice''
        (computeDispatchSlice orc (oi_BatchID inp) (oi_TotalCount inp) (batch_size (oi_MicroBatchSize inp)))) (\<lambda>slice.
      case slice of
        None \<Rightarrow> (\<lambda>w.
          (Ok (GMap [(''batchID'', GString (oi_BatchID inp)), (''orchestratorID'', GString (oi_OrchestratorSMID inp)),
             (''totalCount'', go_int (oi_TotalCount inp)), (''microBatchSize'', go_int (oi_MicroBatchSize inp)),
             (''sourceStateMachineID'', GString (oi_SourceStateMachineID inp)), (''sourceStateName'', GString (oi_SourceStateName inp)),
             (''dispatchResult'', dispatch_done)]), finish_batch orc (oi_BatchID inp) rawInput w))
      | Some sl \<Rightarrow>
          op_bind (op_wrap ''batch:dispatch: lrange'' (redis_read orc (\<lambda>s. rd_lrange (or_rdb orc) s (keyIDsList (oi_BatchID inp)) (ds_cursorVal sl)
              (slice_end (ds_cursorVal sl) (batch_size (oi_MicroBatchSize inp)) (oi_TotalCount inp))))) (dispatch_ids orc inp sl)))"

definition bulk_fields :: "('r, 's) orchestrator \<Rightarrow> bulk_orchestrator_input \<Rightarrow> gmap" where
  "bulk_fields orc inp =
    [(''targetStateMachineID'', GString (bi_TargetStateMachineID inp)), (''executionNamePrefix'', GString (bi_ExecutionNamePrefix inp)),
     (''inputTransformerName'', GString (bi_InputTransformerName inp)), (''applyUnique'', GBool (bi_ApplyUnique inp)),
     (''failurePolicy'', bj_policy_value (or_json orc) (bi_FailurePolicy inp))]"

definition dispatch_bulk ::
  "('r, 's) orchestrator \<Rightarrow> bulk_orchestrator_input \<Rightarrow> dispatch_slice \<Rightarrow> string list \<Rightarrow> (('r, 's) world, gval) op" where
  "dispatch_bulk orc inp slice inputs =
    (let batchID = bi_BatchID inp; mbID = ds_mbID slice; mbIndex = ds_mbIndex slice;
         actualSize = int (length inputs);
         newCursor = wrap64 (ds_cursorVal slice + actualSize);
         dispatch_output = (\<lambda>already w. (Ok (buildDispatchResult (clock orc w) batchID (bi_OrchestratorSMID inp) (bi_TotalCount inp)
           (batch_size (bi_MicroBatchSize inp)) mbID mbIndex actualSize already (bulk_fields orc inp)), w))
     in
     op_bind (op_wrap ''batch:dispatch-bulk'' (checkIdempotency orc batchID mbIndex)) (\<lambda>(dispatchedKey, alreadyDispatched).
     if alreadyDispatched then
       op_bind (skip_dispatched orc ''batch:dispatch-bulk'' batchID newCursor) (\<lambda>_. dispatch_output True)
     else
       op_bind (init_barrier orc ''batch:dispatch-bulk'' mbID actualSize) (\<lambda>_.
       op_bind (op_wrap ''batch:dispatch-bulk'' (markDispatched orc batchID dispatchedKey newCursor)) (\<lambda>_.
       op_bind (op_wrap ''batch:dispatch-bulk: enqueue'' (enqueueBulkInputs orc inp inputs mbID mbIndex)) (\<lambda>_. dispatch_output False)))))"

definition handleDispatchBulk :: "('r, 's) orchestrator \<Rightarrow> gval \<Rightarrow> (('r, 's) world, gval) op" where
  "handleDispatchBulk orc rawInput =
    op_bind (op_wrap ''batch:dispatch-bulk: unmarshal input'' (op_return (bj_bulk_input (or_json orc) rawInput))) (\<lambda>inp.
    op_bind (op_wrap ''batch:dispatch-bulk: compute slice''
        (computeDispatchSlice orc (bi_BatchID inp) (bi_TotalCount inp) (batch_size (bi_MicroBatchSize inp)))) (\<lambda>slice.
      case slice of
        None \<Rightarrow> (\<lambda>w.
          (Ok (GMap ([(''batchID'', GString (bi_BatchID inp)), (''orchestratorID'', GString (bi_OrchestratorSMID inp)),
             (''totalCount'', go_int (bi_TotalCount inp)), (''microBatchSize'', go_int (batch_size (bi_MicroBatchSize inp)))] @
             bulk_fields orc inp @ [(''dispatchResult'', dispatch_done)])), finish_batch orc (bi_BatchID inp) rawInput w))
      | Some sl \<Rightarrow>
          op_bind (op_wrap ''batch:dispatch-bulk: lrange'' (redis_read orc (\<lambda>s. rd_lrange (or_rdb orc) s (keyBulkInputsList (bi_BatchID inp)) (ds_cursorVal sl)
              (slice_end (ds_cursorVal sl) (batch_size (bi_MicroBatchSize inp)) (bi_TotalCount inp))))) (dispatch_bulk orc inp sl)))"

text \<open>The reads of the evaluator come one after the other; the i-th rate has a call of its own.\<close>

definition evaluate_call ::
  "('r, 's) orchestrator \<Rightarrow> string \<Rightarrow> int \<Rightarrow> failure_policy \<Rightarrow> (('r, 's) world, gval) op" where
  "evaluate_call orc batchID mbIndex policy w =
    (let n = w_calls w; fault_at = (\<lambda>k. map_option fst (or_fault orc k)) in
     (rbind (Evaluate (or_rdb orc) (fault_at n) (\<lambda>i. fault_at (n + 2 + nat i)) (fault_at (n + 1)) (bj_ParseFloat (or_json orc))
          batchID mbIndex policy (w_redis w)) (\<lambda>e. Ok (bj_evaluation_value (or_json orc) e)),
      w\<lparr>w_calls := n + 3 + nat mbIndex\<rparr>))"

definition handleEvaluate :: "('r, 's) orchestrator \<Rightarrow> gval \<Rightarrow> (('r, 's) world, gval) op" where
  "handleEvaluate orc rawInput =
    op_bind (op_wrap ''batch:evaluate: unmarshal'' (op_return (bj_input (or_json orc) rawInput))) (\<lambda>inp.
      case oi_DispatchResult inp of
        None \<Rightarrow> op_return (Err (ErrorNew ''batch:evaluate: missing dispatchResult in input''))
      | Some d \<Rightarrow> evaluate_call orc (oi_BatchID inp) (dr_MicroBatchIndex d) (oi_FailurePolicy inp))"

definition handleEvaluateBulk :: "('r, 's) orchestrator \<Rightarrow> gval \<Rightarrow> (('r, 's) world, gval) op" where
  "handleEvaluateBulk orc rawInput =
    op_bind (op_wrap ''batch:evaluate-bulk: unmarshal'' (op_return (bj_bulk_input (or_json orc) rawInput))) (\<lambda>inp.
      case bi_DispatchResult inp of
        None \<Rightarrow> op_return (Err (ErrorNew ''batch:evaluate-bulk: missing dispatchResult in input''))
      | Some d \<Rightarrow> evaluate_call orc (bi_BatchID inp) (dr_MicroBatchIndex d) (bi_FailurePolicy inp))"

definition handleCheckResume :: "('r, 's) orchestrator \<Rightarrow> gval \<Rightarrow> (('r, 's) world, gval) op" where
  "handleCheckResume orc rawInput =
    op_bind (op_wrap ''batch:check-resume: unmarshal'' (op_return (bj_input (or_json orc) rawInput))) (\<lambda>inp.
    op_bind (redis_call orc (\<lambda>fault s. Resume_Check (or_rdb orc) fault (bj_dec_signal (or_json orc)) (oi_BatchID inp) s)) (\<lambda>c.
      op_return (Ok (bj_resume_value (or_json orc) c))))"

definition RegisterHandlers :: "('r, 's) orchestrator \<Rightarrow> (string \<times> (gval \<Rightarrow> (('r, 's) world, gval) op)) list" where
  "RegisterHandlers orc =
    [(ResourceDispatch, handleDispatch orc), (ResourceEvaluate, handleEvaluate orc), (ResourceCheckResume, handleCheckResume orc)]"

definition RegisterBulkHandlers :: "('r, 's) orchestrator \<Rightarrow> (string \<times> (gval \<Rightarrow> (('r, 's) world, gval) op)) list" where
  "RegisterBulkHandlers orc =
    [(ResourceDispatchBulk, handleDispatchBulk orc), (ResourceEvaluateBulk, handleEvaluateBulk orc),
     (ResourceCheckResumeBulk, handleCheckResume orc)]"

definition Orchestrator_Signal :: "('r, 's) orchestrator \<Rightarrow> string \<Rightarrow> string \<Rightarrow> string \<Rightarrow> (('r, 's) world, unit) op" where
  "Orchestrator_Signal orc batchID operator notes w =
    redis_call orc (\<lambda>fault s. Resume_Signal (or_rdb orc) fault (bj_signal (or_json orc)) (clock orc w) batchID operator notes s) w"

section \<open>Signals of the workers\<close>

definition WorkerExtractMeta :: "batch_json \<Rightarrow> gval \<Rightarrow> micro_batch_meta option" where
  "WorkerExtractMeta bj taskInput =
    (case taskInput of
       GMap inputMap \<Rightarrow>
         (case map_of inputMap MicroBatchInputKey of
            Some (GString raw) \<Rightarrow> (case bj_dec_meta bj raw of Ok meta \<Rightarrow> Some meta | _ \<Rightarrow> None)
          | _ \<Rightarrow> None)
     | _ \<Rightarrow> None)"

text \<open>
  \<open>Sscanf\<close> with the batch ID as the beginning of the format and \<open>%d\<close> at its end: a sign and the longest run of digits. A percent
  sign in the batch ID is read as a directive, which the percent sign of the micro-batch ID never satisfies.
  Batch IDs with blanks are outside the model.
\<close>

definition scan_int :: "string \<Rightarrow> int option" where
  "scan_int str =
    (let (neg, rest) = (case str of c # cs \<Rightarrow> (if c = CHR ''-'' then (True, cs) else if c = CHR ''+'' then (False, cs) else (False, str))
                        | [] \<Rightarrow> (False, []));
         digits = takeWhile is_digit rest
     in case parse_digits digits of
          None \<Rightarrow> None
        | Some n \<Rightarrow> (let v = (if neg then - int n else int n) in if in_int64 v then Some v else None))"

definition parseMicroBatchIndex :: "string \<Rightarrow> string \<Rightarrow> int" where
  "parseMicroBatchIndex batchID mbID =
    (let prefix = batchID @ '':'' in
     if CHR ''%'' \<in> set batchID \<or> take (length prefix) mbID \<noteq> prefix then 0
     else (case scan_int (drop (length prefix) mbID) of Some v \<Rightarrow> v | None \<Rightarrow> 0))"

definition mergeCompletionPayload :: "gval \<Rightarrow> gmap \<Rightarrow> gval" where
  "mergeCompletionPayload existing payload =
    GMap (fold (\<lambda>(k, v) m. AList.update k v m) payload (case existing of GMap base \<Rightarrow> base | _ \<Rightarrow> []))"

definition completion_payload :: "int \<Rightarrow> micro_batch_meta \<Rightarrow> execution_record \<Rightarrow> gmap" where
  "completion_payload now meta rec =
    (let stateData = (case er_Input rec of GMap m \<Rightarrow> (case map_of m ''$'' of Some d \<Rightarrow> d | None \<Rightarrow> er_Input rec) | _ \<Rightarrow> er_Input rec);
         messageStateName = (if mm_OrchestratorSMID meta = BulkOrchestratorStateMachineID then ''WaitForBulkMicroBatchCompletion''
                             else ''WaitForMicroBatchCompletion'')
     in [(''__received_message___'' @ messageStateName,
          GMap [(''correlation_key'', GString MicroBatchCorrelationKey), (''correlation_value'', GString (mm_MicroBatchID meta)),
                (''received_at'', GInteger KInt64 (unix_seconds now)), (''data'', stateData)])])"

definition resume_context :: "int \<Rightarrow> micro_batch_meta \<Rightarrow> execution_record \<Rightarrow> execution" where
  "resume_context now meta rec =
    \<lparr>StateMachineID = er_StateMachineID rec, ID = er_ExecutionID rec, ExecName = er_Name rec, Status = er_Status rec,
     StartTime = (case er_StartTime rec of Some t \<Rightarrow> t | None \<Rightarrow> zero_time), EndTime = None, Input = er_Input rec,
     Output = mergeCompletionPayload (er_Output rec) (completion_payload now meta rec), ExecError = None,
     CurrentState = er_CurrentState rec, History = [], HistorySequenceNumber = 0, Metadata = None, RecoveryMetadata = None\<rparr>"

fun resume_each :: "('r, 's) orchestrator \<Rightarrow> micro_batch_meta \<Rightarrow> execution_record list \<Rightarrow> (('r, 's) world, unit) op" where
  "resume_each orc meta [] = op_return (Ok ())"
| "resume_each orc meta (rec # recs) =
     op_bind (on_back (or_smFactory orc (mm_OrchestratorSMID meta))) (\<lambda>sm.
     op_bind (\<lambda>w. go_start (ResumeRun (mm_OrchestratorSMID meta = BulkOrchestratorStateMachineID) (share_queue orc sm)
         (resume_context (clock orc w) meta rec)) w) (\<lambda>_.
       resume_each orc meta recs))"

definition ResumeOrchestrator :: "('r, 's) orchestrator \<Rightarrow> micro_batch_meta \<Rightarrow> (('r, 's) world, unit) op" where
  "ResumeOrchestrator orc meta =
    op_bind (op_wrap ''signal: find waiting executions''
        (on_back (Manager_FindWaitingExecutionsByCorrelation (ps_repository (or_parentSM orc)) MicroBatchCorrelationKey
           (GString (mm_MicroBatchID meta))))) (resume_each orc meta)"

definition record_outcome :: "('r, 's) orchestrator \<Rightarrow> task_outcome \<Rightarrow> ('r, 's) world \<Rightarrow> ('r, 's) world" where
  "record_outcome orc out w =
    w\<lparr>w_redis := snd (RecordOutcome (or_rdb orc) (or_fault orc (w_calls w)) (or_metrics orc) out (w_redis w)), w_calls := Suc (w_calls w)\<rparr>"

definition snapshot_rate :: "('r, 's) orchestrator \<Rightarrow> string \<Rightarrow> int \<Rightarrow> ('r, 's) world \<Rightarrow> ('r, 's) world" where
  "snapshot_rate orc batchID mbIndex w =
    (let n = w_calls w in
     w\<lparr>w_redis := snd (SnapshotMicroBatchRate (or_rdb orc) (map_option fst (or_fault orc n))
         (map_option (map_prod id (\<lambda>n. 0 < n)) (or_fault orc (Suc n))) (bj_ParseFloat (or_json orc)) batchID mbIndex (w_redis w)),
       w_calls := n + 2\<rparr>)"

definition SignalMicroBatchComplete ::
  "('r, 's) orchestrator \<Rightarrow> micro_batch_meta \<Rightarrow> task_outcome \<Rightarrow> (('r, 's) world, unit) op" where
  "SignalMicroBatchComplete orc meta out w =
    op_bind (op_wrap ''signal: barrier decrement''
        (redis_call orc (\<lambda>fault s. Barrier_Decrement (or_rdb orc) fault (mm_MicroBatchID meta) s))) (\<lambda>result w1.
      if Remaining result = - 1 then (Ok (), w1)
      else if \<not> IsLastWorker result then (Ok (), w1)
      else ResumeOrchestrator orc meta
        (snapshot_rate orc (mm_BatchID meta) (parseMicroBatchIndex (mm_BatchID meta) (mm_MicroBatchID meta)) w1))
      (record_outcome orc out w)"

section \<open>What the code relies on\<close>

text \<open>Further laws of Redis, for the keys of the orchestrator. A command on one key leaves the other keys alone.\<close>

locale batch_store = redis_store rd num str lst
  for rd :: "'r redis" and num :: "'r \<Rightarrow> string \<Rightarrow> int option" and str :: "'r \<Rightarrow> string \<Rightarrow> string option"
    and lst :: "'r \<Rightarrow> string \<Rightarrow> string list" +
  assumes cursor_get: "rd_get_int rd s (keyCursor b) = num s (keyCursor b)"
    and set_int_num: "0 < t \<Longrightarrow> num (rd_set_int rd s k n t) = (num s)(k \<mapsto> n)"
    and set_int_str: "k' \<noteq> k \<Longrightarrow> str (rd_set_int rd s k n t) k' = str s k'"
    and set_int_lst: "k' \<noteq> k \<Longrightarrow> lst (rd_set_int rd s k n t) k' = lst s k'"
    and set_num: "k' \<noteq> k \<Longrightarrow> num (rd_set rd s k v t) k' = num s k'"
    and set_lst: "k' \<noteq> k \<Longrightarrow> lst (rd_set rd s k v t) k' = lst s k'"
    and setnx_str: "k' \<noteq> k \<Longrightarrow> str (snd (rd_setnx rd s k n t)) k' = str s k'"
    and setnx_lst: "k' \<noteq> k \<Longrightarrow> lst (snd (rd_setnx rd s k n t)) k' = lst s k'"
    and dispatched_get: "rd_get rd s (keyDispatched b i) = str s (keyDispatched b i)"
    and lrange_list: "k = keyIDsList b \<or> k = keyBulkInputsList b \<Longrightarrow> 0 \<le> i \<Longrightarrow> 0 \<le> j \<Longrightarrow>
      rd_lrange rd s k i j = take (nat (j + 1 - i)) (drop (nat i) (lst s k))"
    and lock_setnx: "0 < t \<Longrightarrow> fst (rd_setnx_str rd s (keyLock b) v t) = (str s (keyLock b) = None) \<and>
      str (snd (rd_setnx_str rd s (keyLock b) v t)) = (if str s (keyLock b) = None then (str s)(keyLock b \<mapsto> v) else str s)"
    and lock_taken: "str s (keyLock b) \<noteq> None \<Longrightarrow> snd (rd_setnx_str rd s (keyLock b) v t) = s"
    and rpush_num: "k' \<noteq> k \<Longrightarrow> num (rd_rpush rd s k v) k' = num s k'"
    and ltrim_num: "k' \<noteq> k \<Longrightarrow> num (rd_ltrim rd s k i j) k' = num s k'"
    and incr_num: "k' \<noteq> k \<Longrightarrow> num (snd (rd_incr rd s k)) k' = num s k'"
    and set_float_num: "k' \<noteq> k \<Longrightarrow> num (rd_set_float rd s k f t) k' = num s k'"
    and rpush_str: "k' \<noteq> k \<Longrightarrow> str (rd_rpush rd s k v) k' = str s k'"
    and expire_str: "0 < t \<Longrightarrow> str (rd_expire rd s k t) = str s"
    and scan_keys: "page \<in> set (rd_scan rd s (''asynq:{'' @ q)) \<Longrightarrow> k \<in> set page \<Longrightarrow> take 6 k = ''asynq:''"

interpretation kvb: batch_store kv_redis kv_num kv_str kv_lst
  by unfold_locales (auto simp: kv_redis_def lrange_of_def add_num_def Let_def)

text \<open>\<open>sent\<close> are the tasks that Asynq has accepted, in their order. A call that fails may have been accepted.\<close>

locale task_log =
  fixes aq :: "'s asynq" and sent :: "'s \<Rightarrow> asynq_task list"
  assumes enqueue_sent: "sent (snd (aq_Enqueue aq t opts s)) \<in> {sent s, sent s @ [t]}"
    and enqueue_Ok: "fst (aq_Enqueue aq t opts s) = Ok info \<Longrightarrow> sent (snd (aq_Enqueue aq t opts s)) = sent s @ [t]"
begin

abbreviation names :: "'s \<Rightarrow> string option list" where
  "names s \<equiv> map (\<lambda>t. last_of option_id (at_Options t)) (sent s)"

lemma task_name:
  "NewExecutionTask cd p = Ok t \<Longrightarrow> last_of option_id (at_Options t) = Some (ep_ExecutionName p)"
  by (auto simp: NewExecutionTask_def rbind_eq_Ok last_of_def List.map_filter_simps)

end

definition log_asynq :: "asynq_task list asynq" where
  "log_asynq =
    \<lparr>aq_Enqueue = (\<lambda>t opts s. (Ok \<lparr>ti_ID = [], ti_Queue = []\<rparr>, s @ [t])), aq_DeleteTask = (\<lambda>q i s. (Err (ErrorNew ''asynq: task not found''), s)),
     aq_ErrTaskNotFound = ErrorNew ''asynq: task not found''\<rparr>"

interpretation lq: task_log log_asynq "\<lambda>s. s"
  by unfold_locales (auto simp: log_asynq_def)

section \<open>Lemmas on calls\<close>

lemma redis_read_simps [simp]:
  "snd (redis_read orc f w) = w\<lparr>w_calls := Suc (w_calls w)\<rparr>"
  "fst (redis_read orc f w) = Ok a \<longleftrightarrow> or_fault orc (w_calls w) = None \<and> a = f (w_redis w)"
  by (auto simp: redis_read_def redis_call_def rd_call_def Let_def split: option.splits prod.splits)

lemma redis_call_simps [simp]:
  "w_back (snd (redis_call orc f w)) = w_back w" "w_started (snd (redis_call orc f w)) = w_started w"
  "w_calls (snd (redis_call orc f w)) = Suc (w_calls w)"
  by (auto simp: redis_call_def Let_def split: prod.splits)

lemma redis_pipe_simps [simp]:
  "w_back (snd (redis_pipe orc cs w)) = w_back w" "w_started (snd (redis_pipe orc cs w)) = w_started w"
  "w_calls (snd (redis_pipe orc cs w)) = Suc (w_calls w)"
  by (auto simp: redis_pipe_def Let_def split: option.splits prod.splits)

lemma redis_pipe_redis: "\<exists>n. w_redis (snd (redis_pipe orc cs w)) = fold (\<lambda>c. c) (take n cs) (w_redis w)"
proof (cases "or_fault orc (w_calls w)")
  case None
  then have "w_redis (snd (redis_pipe orc cs w)) = fold (\<lambda>c. c) (take (length cs) cs) (w_redis w)"
    by (simp add: redis_pipe_def)
  then show ?thesis ..
next
  case (Some f)
  then have "w_redis (snd (redis_pipe orc cs w)) = fold (\<lambda>c. c) (take (snd f) cs) (w_redis w)"
    by (cases f) (simp add: redis_pipe_def)
  then show ?thesis ..
qed

lemma redis_pipe_Ok:
  "fst (redis_pipe orc cs w) = Ok u \<Longrightarrow> w_redis (snd (redis_pipe orc cs w)) = fold (\<lambda>c. c) cs (w_redis w)"
  by (auto simp: redis_pipe_def Let_def split: option.splits prod.splits)

lemma redis_call_redis:
  "w_redis (snd (redis_call orc (\<lambda>fault s. rd_call fault s (f s)) w)) \<in> {w_redis w, snd (f (w_redis w))}"
  by (auto simp: redis_call_def rd_call_def Let_def split: option.splits prod.splits)

lemma on_back_simps [simp]:
  "w_redis (snd (on_back f w)) = w_redis w" "w_back (snd (on_back f w)) = snd (f (w_back w))"
  "w_started (snd (on_back f w)) = w_started w" "w_calls (snd (on_back f w)) = w_calls w" "fst (on_back f w) = fst (f (w_back w))"
  by (auto simp: on_back_def Let_def split: prod.splits)

lemma fst_op_wrap_Ok [simp]: "fst (op_wrap m f s) = Ok a \<longleftrightarrow> fst (f s) = Ok a"
  by (cases "f s"; cases "fst (f s)") (auto simp: op_wrap_def)

lemma op_bind_Ok:
  "fst (op_bind f g s) = Ok b \<longleftrightarrow> (\<exists>a. fst (f s) = Ok a \<and> fst (g a (snd (f s))) = Ok b)"
  by (cases "f s"; cases "fst (f s)") (auto simp: op_bind_def)

lemma op_bind_run: "fst (f s) = Ok a \<Longrightarrow> op_bind f g s = g a (snd (f s))"
  by (cases "f s") (auto simp: op_bind_def)

section \<open>What is handed to the queue\<close>

context task_log
begin

lemma create_and_enqueue:
  fixes qc :: "'s queue_client" and p :: execution_task_payload and opts :: "asynq_option list" and m m' :: string and s :: 's
  assumes "qc_asynq qc = aq"
  defines "f \<equiv> op_bind (op_wrap m (op_return (NewExecutionTask (qc_codec qc) p))) (\<lambda>task.
      op_wrap m' (aq_Enqueue (qc_asynq qc) task (default_options qc p opts)))"
  shows "names (snd (f s)) \<in> {names s, names s @ [Some (ep_ExecutionName p)]}"
    and "fst (f s) = Ok info \<Longrightarrow> names (snd (f s)) = names s @ [Some (ep_ExecutionName p)]"
proof -
  have 1: "snd (f s) = (case NewExecutionTask (qc_codec qc) p of Ok t \<Rightarrow> snd (aq_Enqueue aq t (default_options qc p opts) s) | _ \<Rightarrow> s)"
    by (cases "NewExecutionTask (qc_codec qc) p") (simp_all add: f_def op_bind_def op_wrap_def op_return_def assms(1) split: prod.split)
  show "names (snd (f s)) \<in> {names s, names s @ [Some (ep_ExecutionName p)]}"
  proof (cases "NewExecutionTask (qc_codec qc) p")
    case (Ok t)
    with enqueue_sent [of t "default_options qc p opts" s] task_name [OF Ok] show ?thesis by (auto simp: 1)
  qed (simp_all add: 1)
  assume "fst (f s) = Ok info"
  then obtain t where t: "NewExecutionTask (qc_codec qc) p = Ok t" "fst (aq_Enqueue aq t (default_options qc p opts) s) = Ok info"
    by (auto simp: f_def op_bind_Ok assms(1))
  then show "names (snd (f s)) = names s @ [Some (ep_ExecutionName p)]"
    using enqueue_Ok [OF t(2)] task_name [OF t(1)] by (simp add: 1)
qed

lemma enqueue_execution_names:
  assumes "qc_asynq qc = aq"
  shows "names (snd (EnqueueExecution qc p opts s)) \<in> {names s, names s @ [Some (ep_ExecutionName p)]}"
    and "fst (EnqueueExecution qc p opts s) = Ok info \<Longrightarrow> names (snd (EnqueueExecution qc p opts s)) = names s @ [Some (ep_ExecutionName p)]"
  using create_and_enqueue [OF assms] unfolding EnqueueExecution_def by blast+

lemma take_step:
  assumes "x \<in> {a, a @ [n]}" and "ok \<Longrightarrow> x = a @ [n]" and "\<not> ok \<Longrightarrow> y = x" and "ok \<Longrightarrow> \<exists>k. y = x @ take k ns"
  shows "\<exists>k. y = a @ take k (n # ns)"
proof (cases ok)
  case True
  then obtain k where "y = a @ [n] @ take k ns" using assms(2,4) by auto
  then have "y = a @ take (Suc k) (n # ns)" by simp
  then show ?thesis ..
next
  case False
  then have "y = a @ take 0 (n # ns) \<or> y = a @ take (Suc 0) (n # ns)" using assms(1,3) by auto
  then show ?thesis by blast
qed

lemma enqueue_each_names:
  assumes "qc_asynq qc = aq"
  shows "\<exists>k. names (snd (enqueue_each qc label i ps s)) = names s @ take k (map (\<lambda>p. Some (ep_ExecutionName p)) ps)"
proof (induction ps arbitrary: i s)
  case (Cons p ps)
  let ?e = "EnqueueExecution qc p [] s"
  show ?case
  proof (simp only: list.map, rule take_step [where ok = "\<exists>info. fst ?e = Ok info"])
    show "names (snd ?e) \<in> {names s, names s @ [Some (ep_ExecutionName p)]}" by (rule enqueue_execution_names [OF assms])
    show "\<exists>info. fst ?e = Ok info \<Longrightarrow> names (snd ?e) = names s @ [Some (ep_ExecutionName p)]"
      using enqueue_execution_names(2) [OF assms] by blast
    show "\<nexists>info. fst ?e = Ok info \<Longrightarrow> names (snd (enqueue_each qc label i (p # ps) s)) = names (snd ?e)"
      by (cases ?e; cases "fst ?e") (auto simp: op_bind_def op_wrap_def)
    assume "\<exists>info. fst ?e = Ok info"
    then obtain info where "fst ?e = Ok info" ..
    then have "enqueue_each qc label i (p # ps) s = enqueue_each qc label (Suc i) ps (snd ?e)"
      by (cases ?e) (simp add: op_bind_def op_wrap_def)
    then show "\<exists>k. names (snd (enqueue_each qc label i (p # ps) s)) = names (snd ?e) @ take k (map (\<lambda>p. Some (ep_ExecutionName p)) ps)"
      using Cons.IH by metis
  qed
qed simp

lemma enqueue_group_names:
  assumes "qc_asynq qc = aq"
  shows "\<exists>k. names (snd (enqueue_group qc ps opts s)) = names s @ take k (map (\<lambda>p. Some (ep_ExecutionName p)) ps)"
proof (induction ps arbitrary: s)
  case (Cons p ps)
  let ?f = "op_bind (op_wrap ''failed to create task'' (op_return (NewExecutionTask (qc_codec qc) p))) (\<lambda>task.
     op_wrap (''failed to enqueue task '' @ ep_ExecutionName p) (aq_Enqueue (qc_asynq qc) task (default_options qc p opts)))"
  have unfold: "snd (enqueue_group qc (p # ps) opts s) =
      (if \<exists>info. fst (?f s) = Ok info then snd (enqueue_group qc ps opts (snd (?f s))) else snd (?f s))"
    by (cases "NewExecutionTask (qc_codec qc) p"; cases "?f s"; cases "fst (?f s)")
      (auto simp: op_bind_def op_wrap_def op_return_def split: prod.splits res.splits)
  show ?case
  proof (simp only: list.map, rule take_step [where ok = "\<exists>info. fst (?f s) = Ok info"])
    show "names (snd (?f s)) \<in> {names s, names s @ [Some (ep_ExecutionName p)]}" by (rule create_and_enqueue [OF assms])
    show "\<exists>info. fst (?f s) = Ok info \<Longrightarrow> names (snd (?f s)) = names s @ [Some (ep_ExecutionName p)]"
      using create_and_enqueue(2) [OF assms] by blast
  qed (use unfold Cons.IH in auto)
qed simp

lemma enqueue_payloads_names:
  assumes "qc_asynq qc = aq"
  shows "\<exists>k. names (snd (enqueue_payloads qc useGroup g label ps s)) = names s @ take k (map (\<lambda>p. Some (ep_ExecutionName p)) ps)"
proof (cases useGroup)
  case True
  show ?thesis
  proof (cases "ps = [] \<or> g = []")
    case True
    then have "names (snd (enqueue_payloads qc useGroup g label ps s)) = names s @ take 0 (map (\<lambda>p. Some (ep_ExecutionName p)) ps)"
      using \<open>useGroup\<close> by (auto simp: enqueue_payloads_def EnqueueExecutionGroup_def)
    then show ?thesis ..
  next
    case False
    then have "snd (enqueue_payloads qc useGroup g label ps s) = snd (enqueue_group qc (map (\<lambda>p. p\<lparr>ep_GroupID := g\<rparr>) ps) [] s)"
      using \<open>useGroup\<close> by (simp add: enqueue_payloads_def EnqueueExecutionGroup_def)
    then show ?thesis using enqueue_group_names [OF assms, of "map (\<lambda>p. p\<lparr>ep_GroupID := g\<rparr>) ps" "[]" s] by (simp add: comp_def)
  qed
next
  case False
  then show ?thesis using enqueue_each_names [OF assms] by (simp add: enqueue_payloads_def)
qed

end

section \<open>Dispatching\<close>

lemma keys_apart [simp]:
  "keyDispatched b i \<noteq> keyCursor b" "keyDispatched b i \<noteq> keyBarrier m" "keyCursor b \<noteq> keyBarrier m"
  "keyIDsList b \<noteq> keyCursor b" "keyIDsList b \<noteq> keyBarrier m" "keyBulkInputsList b \<noteq> keyBarrier m"
  by (simp_all add: keyDispatched_def keyCursor_def keyBarrier_def keyIDsList_def keyBulkInputsList_def)

lemmas keys_apart_symmetric [simp] = keys_apart [symmetric]

lemma dispatched_key_last: "last (keyDispatched b i) \<noteq> CHR ''r'' \<and> last (keyDispatched b i) \<noteq> CHR ''s''"
proof -
  have "is_digit (last (show_nat n))" for n
    using show_nat_digits [of n] last_in_set [of "show_nat n"] by (auto simp: list_all_iff)
  moreover have "\<not> is_digit CHR ''r''" "\<not> is_digit CHR ''s''" by (simp_all add: is_digit_def)
  ultimately have "last (show_nat n) \<noteq> CHR ''r'' \<and> last (show_nat n) \<noteq> CHR ''s''" for n by metis
  then show ?thesis by (simp add: keyDispatched_def itoa_def)
qed

lemma dispatched_not_batch_key: "keyDispatched b i \<notin> set (batch_keys b')"
proof -
  have "last (keyCursor b') = CHR ''r''" "last (keyIDsList b') = CHR ''s''" by (simp_all add: keyCursor_def keyIDsList_def)
  then have "keyDispatched b i \<noteq> keyCursor b'" "keyDispatched b i \<noteq> keyIDsList b'" using dispatched_key_last [of b i] by metis+
  then show ?thesis
    by (simp add: batch_keys_def keyDispatched_def keyMetricsWindow_def keyTotalProcessed_def keyTotalFailed_def keyResume_def)
qed

definition bulk_name :: "bulk_orchestrator_input \<Rightarrow> int \<Rightarrow> string" where
  "bulk_name inp i = bi_ExecutionNamePrefix inp @ ''-'' @ itoa i"

lemma bulk_payloads_names:
  "bulk_payloads bj inp mbID mb idx js = Ok ps \<Longrightarrow>
     map ep_ExecutionName ps = map (\<lambda>i. bulk_name inp (wrap64 (mb * bi_MicroBatchSize inp + int i))) [idx..<idx + length js]"
proof (induction js arbitrary: idx ps)
  case (Cons j js)
  then obtain v ps' where "bulk_payloads bj inp mbID mb (Suc idx) js = Ok ps'" "ps = bulk_payload bj inp mbID mb idx v # ps'"
    by (auto simp: rbind_eq_Ok)
  moreover have "[idx..<idx + length (j # js)] = idx # [Suc idx..<Suc idx + length js]" by (simp add: upt_conv_Cons del: upt_Suc)
  ultimately show ?case using Cons.IH [of "Suc idx" ps'] by (simp add: bulk_payload_def bulk_name_def Let_def del: upt_Suc)
qed simp

text \<open>A position in the batch from the index of its micro-batch and the offset in it.\<close>

lemma position_inj:
  fixes size :: int
  assumes "m * size + i = m' * size + j" and "0 \<le> i" "i < size" "0 \<le> j" "j < size"
  shows "m = m'"
proof -
  have "(m * size + i) div size = m" "(m' * size + j) div size = m'" using assms(2-) by (simp_all add: div_pos_pos_trivial)
  with assms(1) show ?thesis by metis
qed

text \<open>What the end of a batch leaves alone: the marks of dispatched micro-batches and the queue; a cursor may go.\<close>

definition batch_kept ::
  "('r \<Rightarrow> string \<Rightarrow> int option) \<Rightarrow> ('r \<Rightarrow> string \<Rightarrow> string option) \<Rightarrow> ('r, 's) world \<Rightarrow> ('r, 's) world \<Rightarrow> bool" where
  "batch_kept num str w w' \<longleftrightarrow>
    (\<forall>b i. str (w_redis w') (keyDispatched b i) = str (w_redis w) (keyDispatched b i)) \<and>
    (\<forall>b. num (w_redis w') (keyCursor b) \<in> {num (w_redis w) (keyCursor b), None}) \<and> w_back w' = w_back w"

lemma batch_kept_refl [simp]: "batch_kept num str w w"
  by (simp add: batch_kept_def)

lemma batch_kept_trans: "batch_kept num str w w1 \<Longrightarrow> batch_kept num str w1 w2 \<Longrightarrow> batch_kept num str w w2"
  by (auto simp: batch_kept_def) (metis option.distinct(1))

lemma log_world: "snd (logBatchCompletionMetrics orc b w) = w\<lparr>w_calls := Suc (w_calls w)\<rparr>"
  by (simp add: logBatchCompletionMetrics_def Let_def case_prod_beta)

text \<open>The invariant of bulk dispatch: the cursor is not negative, and what has been handed to the queue since the start are tasks of
  micro-batches that are marked as dispatched, each at most once.\<close>

definition bulk_inv ::
  "('r \<Rightarrow> string \<Rightarrow> int option) \<Rightarrow> ('r \<Rightarrow> string \<Rightarrow> string option) \<Rightarrow> bulk_orchestrator_input \<Rightarrow> string option list \<Rightarrow> 'r \<Rightarrow>
   string option list \<Rightarrow> bool" where
  "bulk_inv num str inp old s ns \<longleftrightarrow>
    (\<forall>c. num s (keyCursor (bi_BatchID inp)) = Some c \<longrightarrow> 0 \<le> c) \<and>
    (\<exists>new. ns = old @ new \<and> distinct new \<and>
      (\<forall>x\<in>set new. \<exists>mb i. x = Some (bulk_name inp (mb * bi_MicroBatchSize inp + i)) \<and> 0 \<le> i \<and> i < bi_MicroBatchSize inp \<and>
         in_int64 (mb * bi_MicroBatchSize inp + i) \<and> str s (keyDispatched (bi_BatchID inp) mb) = Some ''1''))"

lemma bulk_inv_mono:
  assumes "bulk_inv num str inp old s ns" and "\<And>c. num s' (keyCursor (bi_BatchID inp)) = Some c \<Longrightarrow> 0 \<le> c"
    and "\<And>i. str s (keyDispatched (bi_BatchID inp) i) = Some ''1'' \<Longrightarrow> str s' (keyDispatched (bi_BatchID inp) i) = Some ''1''"
  shows "bulk_inv num str inp old s' ns"
proof -
  obtain new where "ns = old @ new" "distinct new"
    "\<forall>x\<in>set new. \<exists>mb i. x = Some (bulk_name inp (mb * bi_MicroBatchSize inp + i)) \<and> 0 \<le> i \<and> i < bi_MicroBatchSize inp \<and>
       in_int64 (mb * bi_MicroBatchSize inp + i) \<and> str s (keyDispatched (bi_BatchID inp) mb) = Some ''1''"
    using assms(1) unfolding bulk_inv_def by blast
  then show ?thesis unfolding bulk_inv_def using assms(2,3) by (intro conjI exI [of _ new]) (auto, metis)
qed

lemma bulk_inv_cursor: "bulk_inv num str inp old s ns \<Longrightarrow> num s (keyCursor (bi_BatchID inp)) = Some c \<Longrightarrow> 0 \<le> c"
  by (simp add: bulk_inv_def)

lemma bulk_inv_enqueue:
  assumes inv: "bulk_inv num str inp old s ns" and fresh: "str s (keyDispatched (bi_BatchID inp) mb) \<noteq> Some ''1''"
    and inv': "bulk_inv num str inp old s' ns" and marked: "str s' (keyDispatched (bi_BatchID inp) mb) = Some ''1''"
    and len: "int len \<le> bi_MicroBatchSize inp" and range: "\<And>i. i < len \<Longrightarrow> in_int64 (mb * bi_MicroBatchSize inp + int i)"
  shows "bulk_inv num str inp old s' (ns @ take k (map (\<lambda>i. Some (bulk_name inp (wrap64 (mb * bi_MicroBatchSize inp + int i)))) [0..<len]))"
proof -
  let ?size = "bi_MicroBatchSize inp"
  let ?f = "\<lambda>i. Some (bulk_name inp (wrap64 (mb * ?size + int i)))"
  have wrap: "wrap64 (mb * ?size + int i) = mb * ?size + int i" if "i < len" for i using range [OF that] by (simp add: in_int64_def wrap64_id)
  obtain new where new: "ns = old @ new" "distinct new"
    "\<forall>x\<in>set new. \<exists>mb i. x = Some (bulk_name inp (mb * ?size + i)) \<and> 0 \<le> i \<and> i < ?size \<and> in_int64 (mb * ?size + i) \<and>
       str s (keyDispatched (bi_BatchID inp) mb) = Some ''1''"
    using inv unfolding bulk_inv_def by blast
  have name: "bulk_name inp x = bulk_name inp y \<Longrightarrow> in_int64 x \<Longrightarrow> in_int64 y \<Longrightarrow> x = y" for x y
    using itoa_inj [of x y] by (simp add: bulk_name_def)
  have "inj_on ?f {0..<len}"
    by (rule inj_onI) (use name range wrap in \<open>fastforce\<close>)
  then have "distinct (map ?f [0..<len])" by (simp add: distinct_map)
  moreover have "?f i \<notin> set new" if i: "i < len" for i
  proof
    assume "?f i \<in> set new"
    then obtain mb' j where j: "bulk_name inp (mb * ?size + int i) = bulk_name inp (mb' * ?size + j)" "0 \<le> j" "j < ?size"
      "in_int64 (mb' * ?size + j)" "str s (keyDispatched (bi_BatchID inp) mb') = Some ''1''"
      using new(3) wrap [OF i] by force
    then have "mb = mb'" using position_inj [of mb ?size "int i" mb' j] name [OF j(1) range [OF i] j(4)] i len by linarith
    with j(5) fresh show False by simp
  qed
  ultimately have dist: "distinct (new @ take k (map ?f [0..<len]))" using new(2) by (force dest: in_set_takeD)
  obtain new' where new': "ns = old @ new'" "\<forall>x\<in>set new'. \<exists>mb i. x = Some (bulk_name inp (mb * ?size + i)) \<and> 0 \<le> i \<and> i < ?size \<and>
      in_int64 (mb * ?size + i) \<and> str s' (keyDispatched (bi_BatchID inp) mb) = Some ''1''"
    using inv' unfolding bulk_inv_def by blast
  have "\<exists>mb i. x = Some (bulk_name inp (mb * ?size + i)) \<and> 0 \<le> i \<and> i < ?size \<and>
      in_int64 (mb * ?size + i) \<and> str s' (keyDispatched (bi_BatchID inp) mb) = Some ''1''" if x: "x \<in> set (take k (map ?f [0..<len]))" for x
  proof -
    obtain i where "i < len" "x = ?f i" using in_set_takeD [OF x] by auto
    then show ?thesis using wrap range marked len by (intro exI [of _ mb] exI [of _ "int i"]) auto
  qed
  with new' dist new(1) inv' show ?thesis unfolding bulk_inv_def by (auto intro!: exI [of _ "new @ take k (map ?f [0..<len])"])
qed

lemma slice_end_min:
  assumes "0 \<le> c" "c < tot" "0 < sz" "tot + sz < 2 ^ 63"
  shows "slice_end c sz tot = min (c + sz - 1) (tot - 1)"
proof -
  have "in_int64 (c + sz - 1)" "in_int64 (tot - 1)" using assms by (auto simp: in_int64_def)
  then show ?thesis by (simp add: slice_end_def Let_def min_def)
qed

locale batch_dispatch = batch_store rd num str lst + task_log aq sent
  for rd :: "'r redis" and num :: "'r \<Rightarrow> string \<Rightarrow> int option" and str :: "'r \<Rightarrow> string \<Rightarrow> string option"
    and lst :: "'r \<Rightarrow> string \<Rightarrow> string list" and aq :: "'s asynq" and sent :: "'s \<Rightarrow> asynq_task list" +
  fixes orc :: "('r, 's) orchestrator"
  assumes rdb: "or_rdb orc = rd" and client: "ps_queueClient (or_parentSM orc) = Some qc \<Longrightarrow> qc_asynq qc = aq"
begin

lemma delete_str: "k \<notin> set ks \<Longrightarrow> str (fold (\<lambda>c. c) (map (\<lambda>k s. rd_del rd s k) ks) s) k = str s k"
  by (induction ks arbitrary: s) (auto simp: del_str)

lemma delete_num: "num (fold (\<lambda>c. c) (map (\<lambda>k s. rd_del rd s k) ks) s) k \<in> {num s k, None}"
proof (induction ks arbitrary: s)
  case (Cons k' ks)
  show ?case using Cons.IH [of "rd_del rd s k'"] by (auto simp: del_num split: if_splits)
qed simp

lemma delete_keys_kept:
  "k \<notin> set ks \<Longrightarrow> str (w_redis (snd (delete_keys orc ks w))) k = str (w_redis w) k"
  "num (w_redis (snd (delete_keys orc ks w))) c \<in> {num (w_redis w) c, None}"
proof -
  obtain n where n: "w_redis (snd (delete_keys orc ks w)) = fold (\<lambda>c. c) (map (\<lambda>k s. rd_del rd s k) (take n ks)) (w_redis w)"
    using redis_pipe_redis [of orc "map (\<lambda>k s. rd_del rd s k) ks" w] by (auto simp: delete_keys_def rdb take_map)
  show "k \<notin> set ks \<Longrightarrow> str (w_redis (snd (delete_keys orc ks w))) k = str (w_redis w) k"
    unfolding n by (rule delete_str) (blast dest: in_set_takeD)
  show "num (w_redis (snd (delete_keys orc ks w))) c \<in> {num (w_redis w) c, None}" unfolding n by (rule delete_num)
qed

lemma delete_pages_kept:
  "((\<forall>page\<in>set pages. k \<notin> set page) \<longrightarrow> str (w_redis (snd (delete_pages orc pages w))) k = str (w_redis w) k) \<and>
   num (w_redis (snd (delete_pages orc pages w))) c \<in> {num (w_redis w) c, None} \<and> w_back (snd (delete_pages orc pages w)) = w_back w"
proof (induction pages arbitrary: w)
  case (Cons page pages)
  let ?w = "w\<lparr>w_calls := Suc (w_calls w)\<rparr>"
  let ?w1 = "if page = [] then ?w else snd (delete_keys orc page ?w)"
  have w1: "k \<notin> set page \<Longrightarrow> str (w_redis ?w1) k = str (w_redis w) k" "num (w_redis ?w1) c \<in> {num (w_redis w) c, None}" "w_back ?w1 = w_back w"
    using delete_keys_kept(1) [of k page ?w] delete_keys_kept(2) [of page ?w c] by (auto simp: delete_keys_def)
  have "snd (delete_pages orc (page # pages) w) = ?w \<or> snd (delete_pages orc (page # pages) w) = snd (delete_pages orc pages ?w1)"
    by (cases "redis_read orc (\<lambda>_. ()) w"; cases "fst (redis_read orc (\<lambda>_. ()) w)")
      (use redis_read_simps(1) [of orc "\<lambda>_. ()" w] in \<open>auto simp: op_bind_def op_wrap_def\<close>)
  then show ?case
  proof
    assume "snd (delete_pages orc (page # pages) w) = ?w"
    then show ?thesis by (simp del: delete_pages.simps)
  next
    assume "snd (delete_pages orc (page # pages) w) = snd (delete_pages orc pages ?w1)"
    then show ?thesis using w1 Cons.IH [of ?w1] by (auto simp del: delete_pages.simps)
  qed
qed simp

lemma scan_kept: "\<forall>page\<in>set (rd_scan rd s (''asynq:{'' @ q)). keyDispatched b i \<notin> set page"
  using scan_keys [of _ s q "keyDispatched b i"] by (auto simp: keyDispatched_def)

lemma delete_keys_batch: "batch_kept num str w (snd (delete_keys orc (batch_keys b) w))"
  using delete_keys_kept(1) [OF dispatched_not_batch_key] delete_keys_kept(2) [of "batch_keys b" w]
  by (simp add: batch_kept_def delete_keys_def)

lemma unique_keys_kept: "batch_kept num str w (snd (cleanupAsynqUniqueKeys orc raw w))"
  unfolding cleanupAsynqUniqueKeys_def
proof (rule snd_op_bind)
  fix a :: "string \<times> bool"
  obtain t g where a: "a = (t, g)" by (cases a)
  let ?w = "snd (op_wrap ''extract group enqueue info'' (op_return (extractGroupEnqueueInfo raw)) w)"
  have "batch_kept num str w (snd (delete_pages orc (rd_scan rd (w_redis w) (''asynq:{'' @ (t @ ''}:unique:statemachine:execution:*''))) w))"
    using delete_pages_kept [of "rd_scan rd (w_redis w) (''asynq:{'' @ (t @ ''}:unique:statemachine:execution:*''))"]
      scan_kept [of "w_redis w" "t @ ''}:unique:statemachine:execution:*''"] unfolding batch_kept_def by blast
  then show "batch_kept num str w (snd ((case a of (targetSMID, useGroupEnqueue) \<Rightarrow> \<lambda>w. if \<not> useGroupEnqueue then (Ok (), w)
      else delete_pages orc (rd_scan (or_rdb orc) (w_redis w) (''asynq:{'' @ targetSMID @ ''}:unique:statemachine:execution:*'')) w) ?w))"
    by (simp add: a rdb)
qed simp

lemma cleanup_kept: "batch_kept num str w (snd (cleanupBatchResources orc raw w))"
  unfolding cleanupBatchResources_def
proof (rule snd_op_bind)
  fix batchID
  let ?w = "snd (logBatchCompletionMetrics orc batchID (snd (op_wrap ''extract batchID for cleanup'' (op_return (extractBatchIDFromInput raw)) w)))"
  have w: "batch_kept num str w ?w" by (simp add: log_world batch_kept_def)
  show "batch_kept num str w (snd (op_bind (op_wrap ''delete batch keys'' (delete_keys orc (batch_keys batchID)))
        (\<lambda>_ w1. (Ok (), snd (cleanupAsynqUniqueKeys orc raw w1))) ?w))"
  proof (rule snd_op_bind)
    show "batch_kept num str w (snd (op_wrap ''delete batch keys'' (delete_keys orc (batch_keys batchID)) ?w))"
      using batch_kept_trans [OF w delete_keys_batch] by simp
    then show "batch_kept num str w (snd (Ok (), snd (cleanupAsynqUniqueKeys orc raw (snd (op_wrap ''delete batch keys'' (delete_keys orc (batch_keys batchID)) ?w)))))"
      using batch_kept_trans [OF _ unique_keys_kept] by (metis snd_conv)
  qed
qed simp

lemma finish_batch_kept: "batch_kept num str w (snd (r, finish_batch orc b raw w))"
  using batch_kept_trans [OF _ cleanup_kept, of w "w\<lparr>w_calls := Suc (w_calls w)\<rparr>"] by (simp add: finish_batch_def log_world) (simp add: batch_kept_def)

lemma bulk_inv_kept:
  assumes "bulk_inv num str inp old (w_redis w) ns" and "batch_kept num str w w'"
  shows "bulk_inv num str inp old (w_redis w') ns"
  using assms(1)
proof (rule bulk_inv_mono)
  fix c
  assume "num (w_redis w') (keyCursor (bi_BatchID inp)) = Some c"
  then have "num (w_redis w) (keyCursor (bi_BatchID inp)) = Some c" using assms(2) unfolding batch_kept_def by (metis insert_iff option.distinct(1) singletonD)
  then show "0 \<le> c" by (rule bulk_inv_cursor [OF assms(1)])
qed (use assms(2) in \<open>simp add: batch_kept_def\<close>)

lemma mark_inv:
  fixes mb c :: int
  assumes "bulk_inv num str inp old s ns" and "0 \<le> c"
  defines "cs \<equiv> [\<lambda>s. rd_set rd s (keyDispatched (bi_BatchID inp) mb) ''1'' IDsListTTL, \<lambda>s. rd_set_int rd s (keyCursor (bi_BatchID inp)) c MetricsTTL]"
  shows "bulk_inv num str inp old (fold (\<lambda>c. c) (take n cs) s) ns"
    and "str (fold (\<lambda>c. c) cs s) (keyDispatched (bi_BatchID inp) mb) = Some ''1''"
proof -
  let ?s1 = "rd_set rd s (keyDispatched (bi_BatchID inp) mb) ''1'' IDsListTTL"
  have 1: "bulk_inv num str inp old ?s1 ns"
    by (rule bulk_inv_mono [OF assms(1)]) (use bulk_inv_cursor [OF assms(1)] in \<open>auto simp: set_num set_str\<close>)
  have 2: "bulk_inv num str inp old (rd_set_int rd ?s1 (keyCursor (bi_BatchID inp)) c MetricsTTL) ns"
    by (rule bulk_inv_mono [OF 1]) (use assms(2) in \<open>auto simp: set_int_num set_int_str\<close>)
  have "n = 0 \<or> n = 1 \<or> n \<ge> 2" by linarith
  then have "fold (\<lambda>c. c) (take n cs) s \<in> {s, ?s1, rd_set_int rd ?s1 (keyCursor (bi_BatchID inp)) c MetricsTTL}"
    by (auto simp: cs_def)
  then show "bulk_inv num str inp old (fold (\<lambda>c. c) (take n cs) s) ns" using assms(1) 1 2 by auto
  show "str (fold (\<lambda>c. c) cs s) (keyDispatched (bi_BatchID inp) mb) = Some ''1''"
    by (simp add: cs_def set_str set_int_str)
qed

lemma range_length:
  assumes "k = keyIDsList b \<or> k = keyBulkInputsList b" and "0 \<le> c" "c < tot" "0 < sz" "tot + sz < 2 ^ 63"
  shows "rd_lrange rd s k c (slice_end c sz tot) = take (nat (min sz (tot - c))) (drop (nat c) (lst s k))"
proof -
  have e: "slice_end c sz tot = min (c + sz - 1) (tot - 1)" by (rule slice_end_min [OF assms(2-)])
  then have "0 \<le> slice_end c sz tot" "slice_end c sz tot + 1 - c = min sz (tot - c)" using assms(2-4) by auto
  then show ?thesis using lrange_list [OF assms(1,2)] by metis
qed

lemma init_barrier_kept:
  assumes "mbID = microBatchID b mb"
  shows "batch_kept num str w (snd (init_barrier orc prefix mbID n w))"
proof -
  have "w_redis (snd (init_barrier orc prefix mbID n w)) \<in> {w_redis w, snd (barrierInitScript rd (keyBarrier mbID) n BarrierTTL (w_redis w))}"
    by (auto simp: init_barrier_def redis_call_def Barrier_Init_def rd_call_def Let_def rdb split: option.splits prod.splits)
  moreover have "str (snd (barrierInitScript rd (keyBarrier mbID) n BarrierTTL s)) (keyDispatched b' i) = str s (keyDispatched b' i)" for b' i s
    using setnx_str [of "keyDispatched b' i" "keyBarrier mbID"] by (simp add: barrierInitScript_def Let_def case_prod_beta)
  moreover have "num (snd (barrierInitScript rd (keyBarrier mbID) n BarrierTTL s)) (keyCursor b') = num s (keyCursor b')" for b' s
    by (rule init_script) simp
  ultimately show ?thesis by (auto simp: batch_kept_def init_barrier_def)
qed

lemma skip_inv:
  assumes "bulk_inv num str inp old (w_redis w) ns" and "0 \<le> c"
  shows "bulk_inv num str inp old (w_redis (snd (skip_dispatched orc prefix (bi_BatchID inp) c w))) ns"
proof -
  have "w_redis (snd (skip_dispatched orc prefix (bi_BatchID inp) c w)) \<in> {w_redis w, rd_set_int rd (w_redis w) (keyCursor (bi_BatchID inp)) c MetricsTTL}"
    using redis_call_redis [of orc "\<lambda>s. ((), rd_set_int rd s (keyCursor (bi_BatchID inp)) c MetricsTTL)" w] by (simp add: skip_dispatched_def rdb)
  moreover have "bulk_inv num str inp old (rd_set_int rd (w_redis w) (keyCursor (bi_BatchID inp)) c MetricsTTL) ns"
    by (rule bulk_inv_mono [OF assms(1)]) (use assms(2) in \<open>auto simp: set_int_num set_int_str\<close>)
  ultimately show ?thesis using assms(1) by auto
qed

lemma enqueueBulk_names:
  "\<exists>k. names (w_back (snd (enqueueBulkInputs orc inp inputs mbID mb w))) = names (w_back w) @
     take k (map (\<lambda>i. Some (bulk_name inp (wrap64 (mb * bi_MicroBatchSize inp + int i)))) [0..<length inputs]) \<and>
     w_redis (snd (enqueueBulkInputs orc inp inputs mbID mb w)) = w_redis w"
proof (cases "ps_queueClient (or_parentSM orc)")
  case None
  then show ?thesis by (simp add: enqueueBulkInputs_def)
next
  case (Some qc)
  show ?thesis
  proof (cases "bulk_payloads (or_json orc) inp mbID mb 0 inputs")
    case (Ok ps)
    have "map (\<lambda>p. Some (ep_ExecutionName p)) ps = map Some (map ep_ExecutionName ps)" by simp
    also have "\<dots> = map (\<lambda>i. Some (bulk_name inp (wrap64 (mb * bi_MicroBatchSize inp + int i)))) [0..<length inputs]"
      using bulk_payloads_names [OF Ok] by simp
    finally show ?thesis
      using enqueue_payloads_names [OF client [OF Some], of "bi_UseGroupEnqueue inp" mbID "\<lambda>idx p. ''enqueue input '' @ itoa (int idx)" ps "w_back w"] Some Ok
      by (simp add: enqueueBulkInputs_def)
  qed (use Some in \<open>simp_all add: enqueueBulkInputs_def\<close>)
qed

lemma checkIdempotency_simps:
  "snd (checkIdempotency orc b i w) = w\<lparr>w_calls := Suc (w_calls w)\<rparr>"
  "fst (checkIdempotency orc b i w) = Ok a \<Longrightarrow> a = (keyDispatched b i, str (w_redis w) (keyDispatched b i) = Some ''1'')"
  by (auto simp: checkIdempotency_def Let_def op_bind_Ok rdb dispatched_get)

lemma dispatch_bulk_inv:
  fixes w :: "('r, 's) world"
  assumes inv: "bulk_inv num str inp old (w_redis w) (names (w_back w))"
    and len: "int (length inputs) \<le> bi_MicroBatchSize inp" "ds_cursorVal sl + int (length inputs) < 2 ^ 63"
    and sl: "0 \<le> ds_cursorVal sl" "ds_mbIndex sl * bi_MicroBatchSize inp \<le> ds_cursorVal sl" "0 \<le> ds_mbIndex sl * bi_MicroBatchSize inp"
      "ds_mbID sl = microBatchID (bi_BatchID inp) (ds_mbIndex sl)"
  shows "bulk_inv num str inp old (w_redis (snd (dispatch_bulk orc inp sl inputs w))) (names (w_back (snd (dispatch_bulk orc inp sl inputs w))))"
proof -
  let ?P = "\<lambda>w :: ('r, 's) world. bulk_inv num str inp old (w_redis w) (names (w_back w))"
  let ?b = "bi_BatchID inp" and ?mb = "ds_mbIndex sl"
  let ?n = "wrap64 (ds_cursorVal sl + int (length inputs))" and ?w1 = "w\<lparr>w_calls := Suc (w_calls w)\<rparr>"
  have n: "0 \<le> ?n" using len(2) sl(1) by (simp add: in_int64_def)
  have skip: "?P (snd (op_bind (skip_dispatched orc m ?b ?n) (\<lambda>_ w. (Ok (r w), w)) ?w1))" for m and r :: "('r, 's) world \<Rightarrow> gval"
    by (rule snd_op_bind) (use skip_inv [of inp old ?w1 "names (w_back w)" ?n m] inv n in \<open>simp_all add: skip_dispatched_def\<close>)
  have go: "?P (snd (op_bind (init_barrier orc m (ds_mbID sl) (int (length inputs))) (\<lambda>_.
      op_bind (op_wrap m (markDispatched orc ?b (keyDispatched ?b ?mb) ?n)) (\<lambda>_.
      op_bind (op_wrap m' (enqueueBulkInputs orc inp inputs (ds_mbID sl) ?mb)) (\<lambda>_ w. (Ok (r w), w)))) ?w1))"
    if fresh: "str (w_redis w) (keyDispatched ?b ?mb) \<noteq> Some ''1''" for m m' and r :: "('r, 's) world \<Rightarrow> gval"
  proof (rule snd_op_bind)
    let ?w2 = "snd (init_barrier orc m (ds_mbID sl) (int (length inputs)) ?w1)"
    have k2: "batch_kept num str ?w1 ?w2" by (rule init_barrier_kept [OF sl(4)])
    then show P2: "?P ?w2" using bulk_inv_kept [of inp old ?w1 "names (w_back w)" ?w2] inv by (simp add: batch_kept_def)
    have fresh2: "str (w_redis ?w2) (keyDispatched ?b ?mb) \<noteq> Some ''1''" using k2 fresh by (simp add: batch_kept_def)
    let ?cs = "[\<lambda>s. rd_set rd s (keyDispatched ?b ?mb) ''1'' IDsListTTL, \<lambda>s. rd_set_int rd s (keyCursor ?b) ?n MetricsTTL]"
    let ?mark = "redis_pipe orc ?cs ?w2"
    have mark: "markDispatched orc ?b (keyDispatched ?b ?mb) ?n = op_wrap ''mark dispatched and advance cursor'' (redis_pipe orc ?cs)"
      by (simp add: markDispatched_def rdb)
    obtain j where "w_redis (snd ?mark) = fold (\<lambda>c. c) (take j ?cs) (w_redis ?w2)" using redis_pipe_redis by blast
    then have P3: "?P (snd ?mark)" using mark_inv(1) [OF P2 n, of j ?mb] by simp
    show "?P (snd (op_bind (op_wrap m (markDispatched orc ?b (keyDispatched ?b ?mb) ?n)) (\<lambda>_.
      op_bind (op_wrap m' (enqueueBulkInputs orc inp inputs (ds_mbID sl) ?mb)) (\<lambda>_ w. (Ok (r w), w))) ?w2))"
    proof (rule snd_op_bind)
      show "?P (snd (op_wrap m (markDispatched orc ?b (keyDispatched ?b ?mb) ?n) ?w2))" using P3 by (simp add: mark)
      fix u
      assume "fst (op_wrap m (markDispatched orc ?b (keyDispatched ?b ?mb) ?n) ?w2) = Ok u"
      then have "w_redis (snd ?mark) = fold (\<lambda>c. c) ?cs (w_redis ?w2)" using redis_pipe_Ok [of orc ?cs ?w2] by (simp add: mark)
      then have marked: "str (w_redis (snd ?mark)) (keyDispatched ?b ?mb) = Some ''1''" using mark_inv(2) [OF P2 n, of ?mb] by simp
      obtain k where k: "names (w_back (snd (enqueueBulkInputs orc inp inputs (ds_mbID sl) ?mb (snd ?mark)))) = names (w_back (snd ?mark)) @
          take k (map (\<lambda>i. Some (bulk_name inp (wrap64 (?mb * bi_MicroBatchSize inp + int i)))) [0..<length inputs])"
        "w_redis (snd (enqueueBulkInputs orc inp inputs (ds_mbID sl) ?mb (snd ?mark))) = w_redis (snd ?mark)"
        using enqueueBulk_names [of inp inputs "ds_mbID sl" ?mb "snd ?mark"] by blast
      have "?P (snd (enqueueBulkInputs orc inp inputs (ds_mbID sl) ?mb (snd ?mark)))"
        unfolding k redis_pipe_simps using bulk_inv_enqueue [OF P2 fresh2 _ marked len(1), of k] P3 len(2) sl(1-3)
        by (simp only: redis_pipe_simps in_int64_def) simp
      then show "?P (snd (op_bind (op_wrap m' (enqueueBulkInputs orc inp inputs (ds_mbID sl) ?mb)) (\<lambda>_ w. (Ok (r w), w))
          (snd (op_wrap m (markDispatched orc ?b (keyDispatched ?b ?mb) ?n) ?w2))))"
        by (rule_tac snd_op_bind) (simp_all add: mark)
    qed
  qed
  show ?thesis
    unfolding dispatch_bulk_def Let_def
  proof (rule snd_op_bind, goal_cases)
    case (2 a)
    then have a: "a = (keyDispatched ?b ?mb, str (w_redis w) (keyDispatched ?b ?mb) = Some ''1'')"
      using checkIdempotency_simps(2) by simp
    show ?case
    proof (cases "str (w_redis w) (keyDispatched ?b ?mb) = Some ''1''")
      case True
      show ?thesis unfolding a prod.case snd_op_wrap checkIdempotency_simps(1) if_P [OF True] by (rule skip)
    next
      case False
      then show ?thesis unfolding a prod.case snd_op_wrap checkIdempotency_simps(1) if_not_P [OF False] by (rule go)
    qed
  qed (simp add: checkIdempotency_simps inv)
qed

lemma computeDispatchSlice_simps:
  "snd (computeDispatchSlice orc b tot sz w) = w\<lparr>w_calls := Suc (w_calls w)\<rparr>"
  "fst (computeDispatchSlice orc b tot sz w) = Ok sl \<longleftrightarrow> or_fault orc (w_calls w) = None \<and>
     (let c = (case num (w_redis w) (keyCursor b) of Some v \<Rightarrow> v | None \<Rightarrow> 0); mb = quot c (batch_size sz) in
      sl = (if tot \<le> c then None else Some \<lparr>ds_mbIndex = mb, ds_mbID = microBatchID b mb, ds_cursorVal = c\<rparr>))"
  by (auto simp: computeDispatchSlice_def Let_def op_bind_Ok rdb cursor_get)

lemma handleDispatchBulk_inv:
  fixes w :: "('r, 's) world"
  assumes inv: "bulk_inv num str inp old (w_redis w) (names (w_back w))" and raw: "bj_bulk_input (or_json orc) raw = Ok inp"
    and sz: "0 < bi_MicroBatchSize inp" "bi_TotalCount inp + bi_MicroBatchSize inp < 2 ^ 63"
  shows "bulk_inv num str inp old (w_redis (snd (handleDispatchBulk orc raw w))) (names (w_back (snd (handleDispatchBulk orc raw w))))"
proof -
  let ?P = "\<lambda>w :: ('r, 's) world. bulk_inv num str inp old (w_redis w) (names (w_back w))"
  let ?w1 = "w\<lparr>w_calls := Suc (w_calls w)\<rparr>" and ?sz = "bi_MicroBatchSize inp" and ?b = "bi_BatchID inp"
  have bs: "batch_size ?sz = ?sz" using sz by (simp add: batch_size_def)
  have kept: "?P v \<Longrightarrow> batch_kept num str v v' \<Longrightarrow> ?P v'" for v v'
    using bulk_inv_kept [of inp old v "names (w_back v)" v'] by (simp add: batch_kept_def)
  show ?thesis
    unfolding handleDispatchBulk_def raw
  proof (rule snd_op_bind, goal_cases)
    case (2 a)
    then have a: "a = inp" by simp
    show ?case
      unfolding a bs
    proof (rule snd_op_bind, goal_cases)
      case (2 slice)
      show ?case
      proof (cases slice)
        case None
        have "?P (snd (r, finish_batch orc ?b raw ?w1))" for r :: "gval res"
          by (rule kept [OF _ finish_batch_kept]) (simp add: inv)
        then show ?thesis by (simp add: None computeDispatchSlice_simps)
      next
        case (Some sl)
        let ?c = "case num (w_redis w) (keyCursor ?b) of Some v \<Rightarrow> v | None \<Rightarrow> 0"
        have c: "0 \<le> ?c" using bulk_inv_cursor [OF inv] by (simp split: option.split)
        have sl: "ds_cursorVal sl = ?c" "?c < bi_TotalCount inp" "ds_mbIndex sl = ?c div ?sz" "ds_mbID sl = microBatchID ?b (ds_mbIndex sl)"
          using 2 c sz by (auto simp: Some computeDispatchSlice_simps Let_def bs quot_def zdiv_int sgn_if split: if_splits)
        have mb: "ds_mbIndex sl * ?sz \<le> ?c" "0 \<le> ds_mbIndex sl * ?sz" unfolding sl(3)
          using c sz(1) by (simp_all add: pos_imp_zdiv_nonneg_iff) (metis div_mult_mod_eq le_add_same_cancel1 pos_mod_sign)
        let ?w2 = "?w1\<lparr>w_calls := Suc (w_calls ?w1)\<rparr>"
        have found: "?P (snd (dispatch_bulk orc inp sl inputs ?w2))"
          if "inputs = take (nat (min ?sz (bi_TotalCount inp - ?c))) xs" for inputs xs
        proof (rule dispatch_bulk_inv)
          show "int (length inputs) \<le> ?sz" "ds_cursorVal sl + int (length inputs) < 2 ^ 63" using that sz c sl(1,2) by auto
        qed (use inv c sl mb in auto)
        show ?thesis
          unfolding Some option.case
        proof (rule snd_op_bind, goal_cases)
          case (2 inputs)
          then have "inputs = take (nat (min ?sz (bi_TotalCount inp - ?c))) (drop (nat ?c) (lst (w_redis w) (keyBulkInputsList ?b)))"
            using range_length [OF disjI2 [OF refl] c sl(2) sz, of "w_redis w"] by (simp add: rdb sl(1) computeDispatchSlice_simps)
          then show ?case using found by (simp add: computeDispatchSlice_simps)
        qed (simp add: computeDispatchSlice_simps inv)
      qed
    qed (simp add: computeDispatchSlice_simps inv)
  qed (simp add: inv)
qed

end

text \<open>Steps of the system around a bulk batch: a call of the handler, or anything else that keeps what the handler relies on, such as the
  signals of workers.\<close>

inductive bulk_step ::
  "('r \<Rightarrow> string \<Rightarrow> int option) \<Rightarrow> ('r \<Rightarrow> string \<Rightarrow> string option) \<Rightarrow> ('s \<Rightarrow> asynq_task list) \<Rightarrow> ('r, 's) orchestrator \<Rightarrow> gval \<Rightarrow>
   string \<Rightarrow> ('r, 's) world \<Rightarrow> ('r, 's) world \<Rightarrow> bool" for num str sent orc raw b where
  dispatch: "bulk_step num str sent orc raw b w (snd (handleDispatchBulk orc raw w))"
| other: "(\<And>i. str (w_redis w) (keyDispatched b i) = Some ''1'' \<Longrightarrow> str (w_redis w') (keyDispatched b i) = Some ''1'') \<Longrightarrow>
    (\<And>c. num (w_redis w') (keyCursor b) = Some c \<Longrightarrow> 0 \<le> c) \<Longrightarrow> sent (w_back w') = sent (w_back w) \<Longrightarrow>
    bulk_step num str sent orc raw b w w'"

context batch_dispatch
begin

lemma bulk_steps_inv:
  assumes "(bulk_step num str sent orc raw (bi_BatchID inp))\<^sup>*\<^sup>* w0 w" and "bj_bulk_input (or_json orc) raw = Ok inp"
    and "0 < bi_MicroBatchSize inp" "bi_TotalCount inp + bi_MicroBatchSize inp < 2 ^ 63"
    and "bulk_inv num str inp old (w_redis w0) (names (w_back w0))"
  shows "bulk_inv num str inp old (w_redis w) (names (w_back w))"
  using assms(1)
proof (induction rule: rtranclp_induct)
  case (step w1 w2)
  from step.hyps(2) show ?case
  proof cases
    case dispatch
    then show ?thesis using handleDispatchBulk_inv [OF step.IH assms(2-4)] by simp
  next
    case other
    then show ?thesis using bulk_inv_mono [OF step.IH] by simp
  qed
qed (rule assms(5))

end

section \<open>Dispatching without faults\<close>

definition task_for :: "payload_codec \<Rightarrow> execution_task_payload \<Rightarrow> asynq_task" where
  "task_for cd p = (case NewExecutionTask cd p of Ok t \<Rightarrow> t | _ \<Rightarrow> \<lparr>at_Type = [], at_Payload = [], at_Options = []\<rparr>)"

text \<open>The tasks of the k-th micro-batch.\<close>

definition ids_tasks :: "payload_codec \<Rightarrow> batch_json \<Rightarrow> orchestrator_input \<Rightarrow> nat \<Rightarrow> string list \<Rightarrow> asynq_task list" where
  "ids_tasks cd bj inp k ids =
    (let mbID = microBatchID (oi_BatchID inp) (int k) in
     map (\<lambda>(i, x). task_for cd ((id_payload bj inp mbID (int k) i x)\<lparr>ep_GroupID := if oi_UseGroupEnqueue inp then mbID else []\<rparr>))
       (List.enumerate 0 ids))"

text \<open>The answer of the handler when it has dispatched the k-th micro-batch.\<close>

definition dispatch_reply :: "orchestrator_input \<Rightarrow> int \<Rightarrow> nat \<Rightarrow> string list \<Rightarrow> gval" where
  "dispatch_reply inp now k ids =
    buildDispatchResult now (oi_BatchID inp) (oi_OrchestratorSMID inp) (oi_TotalCount inp) (oi_MicroBatchSize inp)
      (microBatchID (oi_BatchID inp) (int k)) (int k) (int (length ids)) False
      [(''sourceStateMachineID'', GString (oi_SourceStateMachineID inp)), (''sourceStateName'', GString (oi_SourceStateName inp))]"

definition dispatch_calls :: "('r, 's) orchestrator \<Rightarrow> gval \<Rightarrow> nat \<Rightarrow> ('r, 's) world \<Rightarrow> ('r, 's) world" where
  "dispatch_calls orc raw k w = ((\<lambda>w. snd (handleDispatch orc raw w)) ^^ k) w"

lemma chunks_step: "n \<noteq> 0 \<Longrightarrow> xs \<noteq> [] \<Longrightarrow> chunks n xs = take n xs # chunks n (drop n xs)"
  by (subst chunks.simps) simp

lemma chunks_Nil [simp]: "chunks n [] = []" "chunks 0 xs = []"
  by (subst chunks.simps, simp)+

lemma concat_chunks: "n \<noteq> 0 \<Longrightarrow> concat (chunks n xs) = xs"
proof (induction n xs rule: chunks.induct)
  case (1 n xs)
  then show ?case by (cases "xs = []") (simp_all add: chunks_step)
qed

lemma length_chunks: "n \<noteq> 0 \<Longrightarrow> length (chunks n xs) * n < length xs + n \<and> length xs \<le> length (chunks n xs) * n"
proof (induction n xs rule: chunks.induct)
  case (1 n xs)
  then show ?case by (cases "xs = []"; cases "length xs \<le> n") (auto simp: chunks_step)
qed

lemma chunks_nth: "n \<noteq> 0 \<Longrightarrow> k * n < length xs \<Longrightarrow> k < length (chunks n xs) \<and> chunks n xs ! k = take n (drop (k * n) xs)"
proof (induction k arbitrary: xs)
  case 0
  then show ?case by (simp add: chunks_step)
next
  case (Suc k)
  then have "xs \<noteq> []" "k * n < length (drop n xs)" by auto
  with Suc.IH [of "drop n xs"] Suc.prems show ?case by (simp add: chunks_step [of n xs] add.commute)
qed

lemma fault_free_calls:
  assumes "\<And>n. or_fault orc n = None"
  shows "redis_read orc f w = (Ok (f (w_redis w)), w\<lparr>w_calls := Suc (w_calls w)\<rparr>)"
    and "redis_pipe orc cs w = (Ok (), w\<lparr>w_redis := fold (\<lambda>c. c) cs (w_redis w), w_calls := Suc (w_calls w)\<rparr>)"
    and "redis_call orc g w = (fst (g None (w_redis w)), w\<lparr>w_redis := snd (g None (w_redis w)), w_calls := Suc (w_calls w)\<rparr>)"
  by (simp_all add: redis_read_def redis_pipe_def redis_call_def rd_call_def assms Let_def case_prod_beta)

locale reliable_dispatch = batch_dispatch rd num str lst aq sent orc
  for rd :: "'r redis" and num :: "'r \<Rightarrow> string \<Rightarrow> int option" and str :: "'r \<Rightarrow> string \<Rightarrow> string option"
    and lst :: "'r \<Rightarrow> string \<Rightarrow> string list" and aq :: "'s asynq" and sent :: "'s \<Rightarrow> asynq_task list" and orc :: "('r, 's) orchestrator" +
  fixes qc :: "'s queue_client"
  assumes no_fault: "or_fault orc n = None" and has_client: "ps_queueClient (or_parentSM orc) = Some qc"
    and accepts: "\<exists>info. fst (aq_Enqueue aq t opts s) = Ok info" and encodes: "\<exists>d. enc_execution (qc_codec qc) p = Ok d"
begin

lemma new_task: "NewExecutionTask (qc_codec qc) p = Ok (task_for (qc_codec qc) p)"
  using encodes [of p] by (auto simp: task_for_def NewExecutionTask_def)

lemma enqueue_one:
  "\<exists>info s'. op_wrap m (aq_Enqueue (qc_asynq qc) t opts) s = (Ok info, s') \<and> sent s' = sent s @ [t]"
  using accepts [of t opts s] enqueue_Ok [of t opts s] client [OF has_client]
  by (cases "aq_Enqueue aq t opts s") (auto simp: op_wrap_def)

lemma enqueue_each_sent:
  "\<exists>s'. enqueue_each qc label i ps s = (Ok (), s') \<and> sent s' = sent s @ map (task_for (qc_codec qc)) ps"
proof (induction ps arbitrary: i s)
  case (Cons p ps)
  obtain info s' where s': "op_wrap ''failed to enqueue task'' (aq_Enqueue (qc_asynq qc) (task_for (qc_codec qc) p) (default_options qc p [])) s = (Ok info, s')"
    "sent s' = sent s @ [task_for (qc_codec qc) p]" using enqueue_one by blast
  then have "enqueue_each qc label i (p # ps) s = enqueue_each qc label (Suc i) ps s'"
    by (simp add: EnqueueExecution_def new_task op_bind_def op_wrap_def op_return_def)
  then show ?case using Cons.IH [of "Suc i" s'] s'(2) by auto
qed (simp add: op_return_def)

lemma enqueue_group_sent:
  "\<exists>infos s'. enqueue_group qc ps opts s = (Ok infos, s') \<and> sent s' = sent s @ map (task_for (qc_codec qc)) ps"
proof (induction ps arbitrary: s)
  case (Cons p ps)
  obtain info s' where s': "op_wrap (''failed to enqueue task '' @ ep_ExecutionName p)
      (aq_Enqueue (qc_asynq qc) (task_for (qc_codec qc) p) (default_options qc p opts)) s = (Ok info, s')"
    "sent s' = sent s @ [task_for (qc_codec qc) p]" using enqueue_one by blast
  moreover obtain infos s'' where "enqueue_group qc ps opts s' = (Ok infos, s'')" "sent s'' = sent s' @ map (task_for (qc_codec qc)) ps"
    using Cons.IH by blast
  ultimately show ?case by (simp add: new_task op_bind_def op_wrap_def op_return_def)
qed (simp add: op_return_def)

lemma enqueue_payloads_sent:
  assumes "ps \<noteq> []" "g \<noteq> []"
  shows "\<exists>s'. enqueue_payloads qc useGroup g label ps s = (Ok (), s') \<and>
    sent s' = sent s @ map (task_for (qc_codec qc)) (if useGroup then map (\<lambda>p. p\<lparr>ep_GroupID := g\<rparr>) ps else ps)"
proof (cases useGroup)
  case True
  obtain infos s' where "enqueue_group qc (map (\<lambda>p. p\<lparr>ep_GroupID := g\<rparr>) ps) [] s = (Ok infos, s')"
    "sent s' = sent s @ map (task_for (qc_codec qc)) (map (\<lambda>p. p\<lparr>ep_GroupID := g\<rparr>) ps)"
    using enqueue_group_sent by blast
  with True assms show ?thesis by (simp add: enqueue_payloads_def EnqueueExecutionGroup_def op_bind_def op_wrap_def op_return_def)
qed (use enqueue_each_sent in \<open>simp add: enqueue_payloads_def\<close>)

lemma enqueueIDs_sent:
  assumes "ids \<noteq> []"
  shows "\<exists>bk. enqueueIDs orc inp ids (microBatchID (oi_BatchID inp) (int k)) (int k) w = (Ok (), w\<lparr>w_back := bk\<rparr>) \<and>
    sent bk = sent (w_back w) @ ids_tasks (qc_codec qc) (or_json orc) inp k ids"
proof -
  let ?mb = "microBatchID (oi_BatchID inp) (int k)"
  let ?ps = "map (\<lambda>(idx, i). id_payload (or_json orc) inp ?mb (int k) idx i) (List.enumerate 0 ids)"
  have "?ps \<noteq> []" using assms by (cases ids) simp_all
  moreover have "?mb \<noteq> []" by (simp add: microBatchID_def)
  ultimately obtain s' where s': "enqueue_payloads qc (oi_UseGroupEnqueue inp) ?mb (\<lambda>idx p. ''enqueue id '' @ ep_SourceExecutionID p) ?ps (w_back w) = (Ok (), s')"
    "sent s' = sent (w_back w) @ map (task_for (qc_codec qc)) (if oi_UseGroupEnqueue inp then map (\<lambda>p. p\<lparr>ep_GroupID := ?mb\<rparr>) ?ps else ?ps)"
    using enqueue_payloads_sent by blast
  have "(id_payload bj inp ?mb (int k) i x)\<lparr>ep_GroupID := []\<rparr> = id_payload bj inp ?mb (int k) i x" for bj i x
    by (simp add: id_payload_def)
  then have "sent s' = sent (w_back w) @ ids_tasks (qc_codec qc) (or_json orc) inp k ids"
    using s'(2) by (auto simp: ids_tasks_def Let_def case_prod_beta comp_def)
  then show ?thesis using s'(1) by (auto simp: enqueueIDs_def has_client on_back_def)
qed

text \<open>One call of the handler at the k-th micro-batch.\<close>

lemma handleDispatch_step:
  fixes w :: "('r, 's) world"
  assumes raw: "bj_input (or_json orc) raw = Ok inp" and sz: "oi_MicroBatchSize inp = int n" "n \<noteq> 0"
    and ids: "lst (w_redis w) (keyIDsList (oi_BatchID inp)) = ids" and tot: "oi_TotalCount inp = int (length ids)" "length ids + n < 2 ^ 63"
    and cursor: "(case num (w_redis w) (keyCursor (oi_BatchID inp)) of Some v \<Rightarrow> v | None \<Rightarrow> 0) = int (k * n)" and k: "k * n < length ids"
    and fresh: "\<And>i. k \<le> i \<Longrightarrow> str (w_redis w) (keyDispatched (oi_BatchID inp) (int i)) = None"
  defines "w' \<equiv> snd (handleDispatch orc raw w)"
  shows "\<exists>now. fst (handleDispatch orc raw w) = Ok (dispatch_reply inp now k (take n (drop (k * n) ids)))"
    and "sent (w_back w') = sent (w_back w) @ ids_tasks (qc_codec qc) (or_json orc) inp k (take n (drop (k * n) ids))"
    and "lst (w_redis w') (keyIDsList (oi_BatchID inp)) = ids"
    and "num (w_redis w') (keyCursor (oi_BatchID inp)) = Some (int (min (Suc k * n) (length ids)))"
    and "Suc k \<le> i \<Longrightarrow> str (w_redis w') (keyDispatched (oi_BatchID inp) (int i)) = None"
proof -
  let ?b = "oi_BatchID inp" and ?c = "int (k * n)"
  define X where "X = take n (drop (k * n) ids)"
  let ?mb = "microBatchID ?b (int k)" and ?key = "keyDispatched ?b (int k)"
  note calls = fault_free_calls [of orc, OF no_fault]
  have quot: "quot ?c (batch_size (int n)) = int k" using sz(2) by (cases "k = 0") (simp_all add: quot_def batch_size_def sgn_if)
  have slice: "computeDispatchSlice orc ?b (oi_TotalCount inp) (batch_size (oi_MicroBatchSize inp)) w =
      (Ok (Some \<lparr>ds_mbIndex = int k, ds_mbID = ?mb, ds_cursorVal = ?c\<rparr>), w\<lparr>w_calls := Suc (w_calls w)\<rparr>)"
  proof -
    have "int k * int n < int (length ids)" using k by (metis of_nat_less_iff of_nat_mult)
    then show ?thesis using cursor tot sz quot
      by (simp add: computeDispatchSlice_def op_bind_def op_wrap_def calls rdb cursor_get batch_size_def op_return_def Let_def)
  qed
  have range: "rd_lrange rd (w_redis w) (keyIDsList ?b) ?c (slice_end ?c (int n) (int (length ids))) = X"
  proof -
    have "int (length ids) - ?c = int (length (drop (k * n) ids))" using k by (simp add: of_nat_diff del: of_nat_mult)
    then have "nat (min (int n) (int (length ids) - ?c)) = min n (length (drop (k * n) ids))" by (simp only: of_nat_min [symmetric] nat_int)
    moreover have "?c < int (length ids)" "int (length ids) + int n < 2 ^ 63" using k tot(2) by (simp only: of_nat_less_iff, simp)
    ultimately have "rd_lrange rd (w_redis w) (keyIDsList ?b) ?c (slice_end ?c (int n) (int (length ids))) =
        take (min n (length (drop (k * n) ids))) (drop (nat ?c) ids)"
      using range_length [OF disjI1 [OF refl], of ?c "int (length ids)" "int n" "w_redis w" ?b] sz(2) by (simp add: ids del: of_nat_mult length_drop)
    then show ?thesis by (simp only: nat_int) (metis X_def take_all_iff take_take min.commute order_refl)
  qed
  then have range': "rd_lrange rd (w_redis w) (keyIDsList ?b) ?c (slice_end ?c (batch_size (oi_MicroBatchSize inp)) (oi_TotalCount inp)) = X"
    using sz tot by (simp add: batch_size_def)
  let ?s1 = "snd (barrierInitScript rd (keyBarrier ?mb) (int (length X)) BarrierTTL (w_redis w))"
  let ?w1 = "w\<lparr>w_redis := ?s1, w_calls := w_calls w + 4\<rparr>"
  have "X \<noteq> []" using k sz(2) by (simp add: X_def)
  then obtain bk where bk: "enqueueIDs orc inp X ?mb (int k) ?w1 = (Ok (), ?w1\<lparr>w_back := bk\<rparr>)"
    "sent bk = sent (w_back w) @ ids_tasks (qc_codec qc) (or_json orc) inp k X"
    using enqueueIDs_sent [of X inp k ?w1] by auto
  let ?n = "wrap64 (?c + int (length X))"
  let ?s2 = "rd_set_int rd (rd_set rd ?s1 ?key ''1'' IDsListTTL) (keyCursor ?b) ?n MetricsTTL"
  have init: "init_barrier orc m ?mb (int (length X)) v = (Ok (), v\<lparr>w_redis := snd (barrierInitScript rd (keyBarrier ?mb) (int (length X)) BarrierTTL (w_redis v)), w_calls := Suc (w_calls v)\<rparr>)" for m v
    by (simp add: init_barrier_def op_wrap_def calls Barrier_Init_def rd_call_def rdb Let_def case_prod_beta)
  have "handleDispatch orc raw w = dispatch_ids orc inp \<lparr>ds_mbIndex = int k, ds_mbID = ?mb, ds_cursorVal = ?c\<rparr> X (w\<lparr>w_calls := w_calls w + 2\<rparr>)"
    by (simp add: handleDispatch_def raw op_bind_def op_wrap_def op_return_def slice calls rdb range' del: of_nat_mult)
  moreover have "\<exists>now. dispatch_ids orc inp \<lparr>ds_mbIndex = int k, ds_mbID = ?mb, ds_cursorVal = ?c\<rparr> X (w\<lparr>w_calls := w_calls w + 2\<rparr>) =
      (Ok (dispatch_reply inp now k X), w\<lparr>w_redis := ?s2, w_back := bk, w_calls := w_calls w + 5\<rparr>)"
    using fresh [of k] bk(1) sz
    by (intro exI [of _ "or_now orc (w_calls w + 5)"]) (simp add: dispatch_reply_def batch_size_def dispatch_ids_def op_bind_def op_wrap_def op_return_def calls rdb checkIdempotency_def dispatched_get init
        markDispatched_def Let_def numeral_eq_Suc del: of_nat_mult)
  ultimately have run: "\<exists>now. handleDispatch orc raw w = (Ok (dispatch_reply inp now k X), w\<lparr>w_redis := ?s2, w_back := bk, w_calls := w_calls w + 5\<rparr>)" by simp
  then have w': "w' = w\<lparr>w_redis := ?s2, w_back := bk, w_calls := w_calls w + 5\<rparr>" by (auto simp: w'_def)
  show "\<exists>now. fst (handleDispatch orc raw w) = Ok (dispatch_reply inp now k (take n (drop (k * n) ids)))" using run by (auto simp: X_def)
  show "sent (w_back w') = sent (w_back w) @ ids_tasks (qc_codec qc) (or_json orc) inp k X" using bk(2) by (simp add: w' X_def)
  have s1: "lst ?s1 (keyIDsList ?b) = ids" "str ?s1 (keyDispatched ?b i) = str (w_redis w) (keyDispatched ?b i)" for i
    using setnx_lst [of "keyIDsList ?b" "keyBarrier ?mb"] setnx_str [of "keyDispatched ?b i" "keyBarrier ?mb"] ids
    by (simp_all add: barrierInitScript_def Let_def case_prod_beta)
  have "keyIDsList ?b \<noteq> ?key" using dispatched_not_batch_key [of ?b "int k" ?b] by (auto simp: batch_keys_def)
  then show "lst (w_redis w') (keyIDsList ?b) = ids" by (simp add: w' set_int_lst set_lst s1)
  have len: "k * n + length X = min (Suc k * n) (length ids)" using k by (simp add: X_def)
  then have "k * n + length X < 2 ^ 63" using tot(2) by linarith
  then have "int (k * n + length X) < 2 ^ 63" by (metis of_nat_less_iff of_nat_numeral of_nat_power)
  then have "in_int64 (int (k * n + length X))" by (simp add: in_int64_def del: of_nat_add of_nat_mult)
  then have "wrap64 (int (k * n + length X)) = int (min (Suc k * n) (length ids))" by (simp only: wrap64_id len)
  then have "?n = int (min (Suc k * n) (length ids))" by (simp only: of_nat_add)
  then show "num (w_redis w') (keyCursor ?b) = Some (int (min (Suc k * n) (length ids)))" by (simp add: w' set_int_num)
  assume i: "Suc k \<le> i"
  have "keyDispatched ?b (int i) \<noteq> ?key"
    using i show_nat_inj [of i k] by (auto simp: keyDispatched_def itoa_def)
  then show "str (w_redis w') (keyDispatched ?b (int i)) = None" using fresh i by (simp add: w' set_int_str set_str s1)
qed

lemma dispatch_prefix:
  fixes w :: "('r, 's) world"
  assumes raw: "bj_input (or_json orc) raw = Ok inp" and sz: "oi_MicroBatchSize inp = int n" "n \<noteq> 0"
    and ids: "lst (w_redis w) (keyIDsList (oi_BatchID inp)) = ids" and tot: "oi_TotalCount inp = int (length ids)" "length ids + n < 2 ^ 63"
    and new: "num (w_redis w) (keyCursor (oi_BatchID inp)) = None" "\<And>i. str (w_redis w) (keyDispatched (oi_BatchID inp) i) = None"
    and k: "k \<le> length (chunks n ids)"
  defines "wat \<equiv> \<lambda>k. dispatch_calls orc raw k w"
  shows "sent (w_back (wat k)) = sent (w_back w) @ concat (map (\<lambda>(i, c). ids_tasks (qc_codec qc) (or_json orc) inp i c) (List.enumerate 0 (take k (chunks n ids)))) \<and>
    lst (w_redis (wat k)) (keyIDsList (oi_BatchID inp)) = ids \<and>
    (case num (w_redis (wat k)) (keyCursor (oi_BatchID inp)) of Some v \<Rightarrow> v | None \<Rightarrow> 0) = int (min (k * n) (length ids)) \<and>
    (\<forall>i\<ge>k. str (w_redis (wat k)) (keyDispatched (oi_BatchID inp) (int i)) = None) \<and>
    (\<forall>j<k. \<exists>now. fst (handleDispatch orc raw (wat j)) = Ok (dispatch_reply inp now j (chunks n ids ! j)))"
  using k
proof (induction k)
  case 0
  then show ?case using ids new by (simp add: wat_def dispatch_calls_def)
next
  case (Suc k)
  have "Suc k * n \<le> length (chunks n ids) * n" using Suc.prems by (rule mult_le_mono1)
  then have k: "k * n < length ids" using length_chunks [of n ids] sz(2) by (simp add: algebra_simps)
  have chunk: "chunks n ids ! k = take n (drop (k * n) ids)" using chunks_nth [OF sz(2) k] by simp
  have IH: "sent (w_back (wat k)) = sent (w_back w) @ concat (map (\<lambda>(i, c). ids_tasks (qc_codec qc) (or_json orc) inp i c) (List.enumerate 0 (take k (chunks n ids))))"
    "lst (w_redis (wat k)) (keyIDsList (oi_BatchID inp)) = ids"
    "(case num (w_redis (wat k)) (keyCursor (oi_BatchID inp)) of Some v \<Rightarrow> v | None \<Rightarrow> 0) = int (k * n)"
    "\<And>i. k \<le> i \<Longrightarrow> str (w_redis (wat k)) (keyDispatched (oi_BatchID inp) (int i)) = None"
    "\<forall>j<k. \<exists>now. fst (handleDispatch orc raw (wat j)) = Ok (dispatch_reply inp now j (chunks n ids ! j))"
    using Suc.IH Suc.prems k by (auto simp: min_def simp del: of_nat_mult)
  have step: "wat (Suc k) = snd (handleDispatch orc raw (wat k))" by (simp add: wat_def dispatch_calls_def)
  note result = handleDispatch_step [OF raw sz IH(2) tot IH(3) k IH(4), folded step]
  have "take (Suc k) (chunks n ids) = take k (chunks n ids) @ [chunks n ids ! k]" using Suc.prems by (simp add: take_Suc_conv_app_nth)
  then have "List.enumerate 0 (take (Suc k) (chunks n ids)) = List.enumerate 0 (take k (chunks n ids)) @ [(k, chunks n ids ! k)]"
    using Suc.prems by (simp add: enumerate_append_eq)
  then have "sent (w_back (wat (Suc k))) = sent (w_back w) @ concat (map (\<lambda>(i, c). ids_tasks (qc_codec qc) (or_json orc) inp i c)
      (List.enumerate 0 (take (Suc k) (chunks n ids))))"
    using result(2) IH(1) by (simp add: chunk)
  moreover have "\<forall>j<Suc k. \<exists>now. fst (handleDispatch orc raw (wat j)) = Ok (dispatch_reply inp now j (chunks n ids ! j))"
    using IH(5) result(1) by (auto simp: less_Suc_eq chunk)
  ultimately show ?case using result(3,4,5) by (simp del: of_nat_mult mult_Suc)
qed

lemma handleDispatch_complete:
  fixes w :: "('r, 's) world"
  assumes "bj_input (or_json orc) raw = Ok inp"
    and "oi_TotalCount inp \<le> (case num (w_redis w) (keyCursor (oi_BatchID inp)) of Some v \<Rightarrow> v | None \<Rightarrow> 0)"
  shows "\<exists>m. fst (handleDispatch orc raw w) = Ok (GMap m) \<and> map_of m ''dispatchResult'' = Some dispatch_done"
proof -
  have "computeDispatchSlice orc (oi_BatchID inp) (oi_TotalCount inp) sz w = (Ok None, w\<lparr>w_calls := Suc (w_calls w)\<rparr>)" for sz
    using assms(2) by (simp add: computeDispatchSlice_def op_bind_def op_wrap_def fault_free_calls [of orc, OF no_fault] rdb cursor_get op_return_def Let_def)
  then show ?thesis by (simp add: handleDispatch_def assms(1) op_bind_def op_wrap_def op_return_def)
qed

end

section \<open>Signals\<close>

definition signals :: "('r, 's) orchestrator \<Rightarrow> micro_batch_meta \<Rightarrow> task_outcome list \<Rightarrow> ('r, 's) world \<Rightarrow> ('r, 's) world" where
  "signals orc meta outs w = fold (\<lambda>out w. snd (SignalMicroBatchComplete orc meta out w)) outs w"

lemma resume_each_started:
  assumes "\<And>s. or_smFactory orc (mm_OrchestratorSMID meta) s = (Ok sm, s)"
  shows "resume_each orc meta recs w = (Ok (), w\<lparr>w_started := w_started w @
    map (\<lambda>rec. ResumeRun (mm_OrchestratorSMID meta = BulkOrchestratorStateMachineID) (share_queue orc sm) (resume_context (clock orc w) meta rec)) recs\<rparr>)"
proof (induction recs arbitrary: w)
  case (Cons rec recs)
  then show ?case by (simp add: op_bind_def on_back_def assms go_start_def)
qed (simp add: op_return_def)

context batch_store
begin

lemma record_outcome_barrier:
  assumes "or_rdb orc = rd"
  shows "num (w_redis (record_outcome orc out w)) (keyBarrier m) = num (w_redis w) (keyBarrier m)"
proof -
  let ?k = "keyBarrier m"
  have keys: "?k \<noteq> keyMetricsWindow b" "?k \<noteq> keyTotalProcessed b" "?k \<noteq> keyTotalFailed b" for b
    by (simp_all add: keyBarrier_def keyMetricsWindow_def keyTotalProcessed_def keyTotalFailed_def)
  have "num (fold (\<lambda>c. c) cs s) ?k = num s ?k" if "\<And>c s. c \<in> set cs \<Longrightarrow> num (c s) ?k = num s ?k" for cs s
    using that by (induction cs arbitrary: s) simp_all
  moreover have "num (c s) ?k = num s ?k" if "c \<in> set (outcome_commands rd (or_metrics orc) out)" for c s
    using that keys by (auto simp: outcome_commands_def Let_def rpush_num ltrim_num incr_num expire_num split: if_splits)
  ultimately have "num (fold (\<lambda>c. c) (take n (outcome_commands rd (or_metrics orc) out)) s) ?k = num s ?k"
    "num (fold (\<lambda>c. c) (outcome_commands rd (or_metrics orc) out) s) ?k = num s ?k" for n s
    by (meson in_set_takeD)+
  then show ?thesis by (auto simp: record_outcome_def RecordOutcome_def assms split: option.split prod.split)
qed

lemma snapshot_barrier:
  assumes "or_rdb orc = rd"
  shows "num (w_redis (snapshot_rate orc b i w)) (keyBarrier m) = num (w_redis w) (keyBarrier m)"
proof -
  have "keyBarrier m \<noteq> keyMicroBatchRate b i" by (simp add: keyBarrier_def keyMicroBatchRate_def)
  then show ?thesis
    by (auto simp: snapshot_rate_def SnapshotMicroBatchRate_def rd_call_def Let_def assms set_float_num split: option.split prod.split)
qed

text \<open>One signal, by the number that the barrier holds.\<close>

lemma signal_step:
  fixes orc :: "('r, 's) orchestrator" and w :: "('r, 's) world" and meta :: micro_batch_meta and out :: task_outcome
  assumes "or_rdb orc = rd" and "\<And>n. or_fault orc n = None"
  defines "k \<equiv> keyBarrier (mm_MicroBatchID meta)" and "w' \<equiv> snd (SignalMicroBatchComplete orc meta out w)"
  shows "num (w_redis w) k = None \<Longrightarrow> w_started w' = w_started w \<and> w_back w' = w_back w \<and> num (w_redis w') k = None"
    and "num (w_redis w) k = Some n \<Longrightarrow> 1 < n \<Longrightarrow> w_started w' = w_started w \<and> w_back w' = w_back w \<and> num (w_redis w') k = Some (n - 1)"
    and "num (w_redis w) k = Some 1 \<Longrightarrow>
      Manager_FindWaitingExecutionsByCorrelation (ps_repository (or_parentSM orc)) MicroBatchCorrelationKey (GString (mm_MicroBatchID meta)) (w_back w) = (Ok recs, s1) \<Longrightarrow>
      (\<And>s. or_smFactory orc (mm_OrchestratorSMID meta) s = (Ok sm, s)) \<Longrightarrow>
      (\<exists>now. w_started w' = w_started w @ map (\<lambda>rec. ResumeRun (mm_OrchestratorSMID meta = BulkOrchestratorStateMachineID) (share_queue orc sm) (resume_context now meta rec)) recs) \<and>
      num (w_redis w') k = None"
proof -
  have k_def': "k = keyBarrier (mm_MicroBatchID meta)" by (simp add: k_def)
  let ?w1 = "record_outcome orc out w"
  let ?d = "barrierDecrScript rd k BarrierTTL (w_redis ?w1)"
  let ?w2 = "?w1\<lparr>w_redis := snd ?d, w_calls := Suc (w_calls ?w1)\<rparr>"
  let ?rest = "\<lambda>w1. ResumeOrchestrator orc meta (snapshot_rate orc (mm_BatchID meta) (parseMicroBatchIndex (mm_BatchID meta) (mm_MicroBatchID meta)) w1)"
  note calls = fault_free_calls [of orc, OF assms(2)]
  have run: "SignalMicroBatchComplete orc meta out w = (if fst ?d = - 1 then (Ok (), ?w2) else if fst ?d \<noteq> 0 then (Ok (), ?w2) else ?rest ?w2)"
    by (simp add: SignalMicroBatchComplete_def op_bind_def op_wrap_def calls Barrier_Decrement_def rd_call_def assms(1) k_def Let_def case_prod_beta)
  have same: "w_started ?w1 = w_started w" "w_back ?w1 = w_back w" "num (w_redis ?w1) k = num (w_redis w) k"
    using record_outcome_barrier [OF assms(1)] by (simp_all add: record_outcome_def k_def)
  show "w_started w' = w_started w \<and> w_back w' = w_back w \<and> num (w_redis w') k = None" if "num (w_redis w) k = None"
    using decr_script_missing [OF k_def', of "w_redis ?w1" BarrierTTL] that same by (simp add: w'_def run)
  show "w_started w' = w_started w \<and> w_back w' = w_back w \<and> num (w_redis w') k = Some (n - 1)" if "num (w_redis w) k = Some n" "1 < n"
    using decr_script [OF k_def', of "w_redis ?w1" n] that same by (simp add: w'_def run)
  assume one: "num (w_redis w) k = Some 1" and find: "Manager_FindWaitingExecutionsByCorrelation (ps_repository (or_parentSM orc)) MicroBatchCorrelationKey
      (GString (mm_MicroBatchID meta)) (w_back w) = (Ok recs, s1)" and sm: "\<And>s. or_smFactory orc (mm_OrchestratorSMID meta) s = (Ok sm, s)"
  let ?w3 = "snapshot_rate orc (mm_BatchID meta) (parseMicroBatchIndex (mm_BatchID meta) (mm_MicroBatchID meta)) ?w2"
  have d: "fst ?d = 0" "num (snd ?d) k = None" using decr_script [OF k_def', of "w_redis ?w1" 1] one same by simp_all
  have w3: "w_started ?w3 = w_started w" "w_back ?w3 = w_back w" "num (w_redis ?w3) k = None"
    using same d(2) snapshot_barrier [OF assms(1), of _ _ ?w2] by (simp_all add: snapshot_rate_def k_def Let_def)
  have "w' = snd (resume_each orc meta recs (?w3\<lparr>w_back := s1\<rparr>))"
    using find w3(2) by (simp add: w'_def run d(1) ResumeOrchestrator_def op_bind_def op_wrap_def on_back_def)
  then have "w' = ?w3\<lparr>w_back := s1, w_started := w_started w @
      map (\<lambda>rec. ResumeRun (mm_OrchestratorSMID meta = BulkOrchestratorStateMachineID) (share_queue orc sm) (resume_context (clock orc ?w3) meta rec)) recs\<rparr>"
    by (simp add: resume_each_started [OF sm] w3(1))
  then show "(\<exists>now. w_started w' = w_started w @ map (\<lambda>rec. ResumeRun (mm_OrchestratorSMID meta = BulkOrchestratorStateMachineID)
      (share_queue orc sm) (resume_context now meta rec)) recs) \<and> num (w_redis w') k = None"
    using w3(3) by auto
qed

end

section \<open>Launching under the lock\<close>

lemma start_redis: "w_redis (snd (op_bind (op_wrap m (on_back f)) (\<lambda>sm. go_start (g sm)) w)) = w_redis w"
  by (cases "on_back f w"; cases "fst (on_back f w)") (use on_back_simps(1) [of f w] in \<open>auto simp: op_bind_def op_wrap_def go_start_def\<close>)

lemma lock_apart [simp]: "keyLock b \<noteq> keyIDsList b" "keyLock b \<noteq> keyBulkInputsList b'"
proof -
  have "length (keyLock b) \<noteq> length (keyIDsList b)" by (simp add: keyLock_def keyIDsList_def)
  then show "keyLock b \<noteq> keyIDsList b" by metis
qed (simp add: keyLock_def keyBulkInputsList_def)

context batch_store
begin

lemma acquire_lock_taken:
  assumes "or_rdb orc = rd" and "str (w_redis w) (keyLock b) \<noteq> None"
  shows "\<exists>e. acquire_lock orc prefix b w = (Err e, w\<lparr>w_calls := Suc (w_calls w)\<rparr>) \<and>
    (or_fault orc (w_calls w) = None \<longrightarrow> e = ErrorNew (prefix @ '': batch '' @ b @ '' is already running''))"
  using lock_setnx [of 86400 "w_redis w" b "''locked''"] lock_taken [of "w_redis w" b "''locked''" 86400] assms
  by (cases w; cases "rd_setnx_str rd (w_redis w) (keyLock b) ''locked'' 86400")
    (auto simp: acquire_lock_def redis_call_def rd_call_def op_bind_def op_wrap_def op_return_def Let_def split: option.split prod.split)

lemma pipe_lock:
  assumes "\<And>c s. c \<in> set cs \<Longrightarrow> str (c s) k = str s k"
  shows "str (w_redis (snd (redis_pipe orc cs w))) k = str (w_redis w) k"
proof -
  have "str (fold (\<lambda>c. c) cs s) k = str s k" if "\<And>c s. c \<in> set cs \<Longrightarrow> str (c s) k = str s k" for cs s
    using that by (induction cs arbitrary: s) simp_all
  moreover obtain n where "w_redis (snd (redis_pipe orc cs w)) = fold (\<lambda>c. c) (take n cs) (w_redis w)" using redis_pipe_redis by blast
  ultimately show ?thesis using assms by (metis in_set_takeD)
qed

lemma rpush_fold_str: "k \<noteq> key \<Longrightarrow> str (fold (\<lambda>i s. rd_rpush rd s key i) xs s) k = str s k"
  by (induction xs arbitrary: s) (simp_all add: rpush_str)

lemma storeIDs_lock:
  assumes "or_rdb orc = rd"
  shows "str (w_redis (snd (storeIDs orc b ids w))) (keyLock b) = str (w_redis w) (keyLock b)"
proof (cases "ids = []")
  case False
  have "str (w_redis (snd (redis_pipe orc (map (\<lambda>slice s. fold (\<lambda>i s. rd_rpush rd s (keyIDsList b) i) slice s) (chunks 1000 ids) @
      [\<lambda>s. rd_expire rd s (keyIDsList b) IDsListTTL]) w))) (keyLock b) = str (w_redis w) (keyLock b)"
    by (rule pipe_lock) (auto simp: rpush_fold_str expire_str)
  then show ?thesis using False by (simp add: storeIDs_def assms Let_def)
qed (simp add: storeIDs_def)

lemma storeBulkInputs_lock:
  assumes "or_rdb orc = rd"
  shows "str (w_redis (snd (storeBulkInputs orc b inputs w))) (keyLock b) = str (w_redis w) (keyLock b)"
proof (cases "inputs = []")
  case False
  have "str (w_redis (snd (redis_pipe orc (map (\<lambda>j s. rd_rpush rd s (keyBulkInputsList b) j) js @
      [\<lambda>s. rd_expire rd s (keyBulkInputsList b) IDsListTTL]) w))) (keyLock b) = str (w_redis w) (keyLock b)" for js
    by (rule pipe_lock) (auto simp: rpush_str expire_str)
  then show ?thesis using False by (simp add: storeBulkInputs_def assms Let_def split: res.split)
qed (simp add: storeBulkInputs_def)

lemma acquire_lock_sets:
  assumes "or_rdb orc = rd" and "or_fault orc (w_calls w) = None"
  shows "str (w_redis (snd (acquire_lock orc prefix b w))) (keyLock b) \<noteq> None"
  using lock_setnx [of 86400 "w_redis w" b "''locked''"] assms
  by (auto simp: acquire_lock_def redis_call_def rd_call_def op_bind_def op_wrap_def op_return_def Let_def split: prod.split)

lemma Run_locks:
  assumes "or_rdb orc = rd" and "or_fault orc (w_calls w) = None"
  shows "str (w_redis (snd (Run orc b src ids tgt st opts w))) (keyLock b) \<noteq> None"
  unfolding Run_def
proof (rule snd_op_bind)
  let ?w1 = "snd (acquire_lock orc ''batch:run'' b w)"
  show w1: "str (w_redis ?w1) (keyLock b) \<noteq> None" by (rule acquire_lock_sets [OF assms])
  then have w2: "str (w_redis (snd (storeIDs orc b ids ?w1))) (keyLock b) \<noteq> None" using storeIDs_lock [OF assms(1)] by simp
  fix u
  show "str (w_redis (snd (op_bind (storeIDs orc b ids) (\<lambda>_.
    op_bind (op_wrap ''orchestrator: load definition'' (on_back (or_smFactory orc OrchestratorStateMachineID))) (\<lambda>sm.
      go_start (Launch False (share_queue orc sm) b (sm_StartAt (ps_machine sm)) (v sm)))) ?w1))) (keyLock b) \<noteq> None" for v
    by (rule snd_op_bind) (use w2 in \<open>simp_all add: start_redis\<close>)
qed

lemma RunBulk_locks:
  assumes "or_rdb orc = rd" and "or_fault orc (w_calls w) = None"
  shows "str (w_redis (snd (RunBulk orc b inputs tgt opts execOpts w))) (keyLock b) \<noteq> None"
  unfolding RunBulk_def Let_def
proof (rule snd_op_bind)
  let ?w1 = "snd (acquire_lock orc ''batch:run-bulk'' b w)"
  show w1: "str (w_redis ?w1) (keyLock b) \<noteq> None" by (rule acquire_lock_sets [OF assms])
  then have w2: "str (w_redis (snd (storeBulkInputs orc b inputs ?w1))) (keyLock b) \<noteq> None" using storeBulkInputs_lock [OF assms(1)] by simp
  fix u
  show "str (w_redis (snd (op_bind (storeBulkInputs orc b inputs) (\<lambda>_.
    op_bind (op_wrap ''bulk orchestrator: load definition'' (on_back (or_smFactory orc BulkOrchestratorStateMachineID))) (\<lambda>sm.
      go_start (Launch True (share_queue orc sm) b ''DispatchBulkMicroBatch'' v))) ?w1))) (keyLock b) \<noteq> None" for v
    by (rule snd_op_bind) (use w2 in \<open>simp_all add: start_redis\<close>)
qed

lemma launch_refused:
  assumes "or_rdb orc = rd" and "str (w_redis w) (keyLock b) \<noteq> None"
  shows "(\<exists>e. Run orc b src ids tgt st opts w = (Err e, w\<lparr>w_calls := Suc (w_calls w)\<rparr>) \<and>
      (or_fault orc (w_calls w) = None \<longrightarrow> e = ErrorNew (''batch:run: batch '' @ b @ '' is already running''))) \<and>
    (\<exists>e. RunBulk orc b inputs tgt bopts execOpts w = (Err e, w\<lparr>w_calls := Suc (w_calls w)\<rparr>) \<and>
      (or_fault orc (w_calls w) = None \<longrightarrow> e = ErrorNew (''batch:run-bulk: batch '' @ b @ '' is already running'')))"
  using acquire_lock_taken [OF assms, of "''batch:run''"] acquire_lock_taken [OF assms, of "''batch:run-bulk''"]
  by (auto simp: Run_def RunBulk_def op_bind_def)

end

section \<open>Properties\<close>

definition zero_policy :: failure_policy where
  "zero_policy = \<lparr>fp_WindowN = 0, fp_WindowM = 0, SevereFailureThreshold = Fin 0, SoftFailureThreshold = Fin 0\<rparr>"

definition sample_bulk :: bulk_orchestrator_input where
  "sample_bulk = \<lparr>bi_BatchID = ''b'', bi_TotalCount = 3, bi_MicroBatchSize = 2, bi_TargetStateMachineID = ''m'',
     bi_OrchestratorSMID = BulkOrchestratorStateMachineID, bi_ExecutionNamePrefix = ''run'', bi_InputTransformerName = [], bi_ApplyUnique = False,
     bi_UseGroupEnqueue = False, bi_GroupConcurrency = 0, bi_FailurePolicy = zero_policy, bi_DispatchResult = None,
     bi_Evaluation = None, bi_ResumeCheck = None\<rparr>"

definition sample_input :: orchestrator_input where
  "sample_input = \<lparr>oi_BatchID = ''b'', oi_TotalCount = 3, oi_MicroBatchSize = 2, oi_SourceStateMachineID = ''src'', oi_SourceStateName = [],
     oi_TargetStateMachineID = ''m'', oi_OrchestratorSMID = OrchestratorStateMachineID, oi_FailurePolicy = zero_policy,
     oi_UseGroupEnqueue = False, oi_GroupConcurrency = 0, oi_DispatchResult = None, oi_Evaluation = None, oi_ResumeCheck = None\<rparr>"

definition sample_meta :: micro_batch_meta where
  "sample_meta = \<lparr>mm_BatchID = ''b'', mm_MicroBatchID = ''b:0'', mm_OrchestratorSMID = OrchestratorStateMachineID\<rparr>"

definition sample_json :: batch_json where
  "sample_json = \<lparr>bj_input = (\<lambda>_. Ok sample_input), bj_bulk_input = (\<lambda>_. Ok sample_bulk), bj_meta = mm_MicroBatchID,
     bj_dec_meta = (\<lambda>_. Ok sample_meta), bj_marshal = (\<lambda>_. Ok ''{}''), bj_unmarshal = (\<lambda>_. Ok (GMap [])), bj_signal = (\<lambda>_. Ok ''{}''),
     bj_dec_signal = (\<lambda>_. Err (ErrorNew ''bad'')), bj_ParseFloat = (\<lambda>_. Fin 0), bj_input_value = (\<lambda>_. GNil), bj_bulk_value = (\<lambda>_. GNil),
     bj_policy_value = (\<lambda>_. GNil), bj_evaluation_value = (\<lambda>_. GNil), bj_resume_value = (\<lambda>_. GNil)\<rparr>"

text \<open>An orchestrator over the store of maps, PostgreSQL and the given Asynq, whose Redis fails as told.\<close>

definition orchestrator_on :: "(nat \<Rightarrow> (err \<times> nat) option) \<Rightarrow> 'q asynq \<Rightarrow> (kv, gval db \<times> 'q) orchestrator" where
  "orchestrator_on faults aq =
    (let pm = \<lparr>ps_machine = machine ''S'' [], ps_repository = on_database (Postgres_repository plain_pg), ps_stateMachineID = ''m'',
               ps_queueClient = Some \<lparr>qc_asynq = on_queue aq, qc_codec = sample_codec, qc_retryPolicy = None\<rparr>\<rparr>
     in \<lparr>or_rdb = kv_redis, or_fault = faults, or_json = sample_json, or_now = (\<lambda>_. 0), or_metrics = NewMetricsRecorder 500,
         or_parentSM = pm, or_smFactory = (\<lambda>_. op_return (Ok pm))\<rparr>)"

interpretation kvd: batch_dispatch kv_redis kv_num kv_str kv_lst "on_queue log_asynq" snd "orchestrator_on faults log_asynq" for faults
  by unfold_locales (auto simp: orchestrator_on_def Let_def on_queue_def op_snd_def log_asynq_def)

definition world_on :: "kv \<Rightarrow> 's \<Rightarrow> (kv, 's) world" where
  "world_on s bk = \<lparr>w_redis = s, w_back = bk, w_calls = 0, w_started = []\<rparr>"

text \<open>The call with the number \<open>n\<close> fails after its first command.\<close>

definition fails_at :: "nat \<Rightarrow> nat \<Rightarrow> (err \<times> nat) option" where
  "fails_at n k = (if k = n then Some (ErrorNew ''connection lost'', 1) else None)"

abbreviation task_names :: "asynq_task list \<Rightarrow> string option list" where
  "task_names ts \<equiv> map (\<lambda>t. last_of option_id (at_Options t)) ts"

text \<open>C7: At most once. Along every run in which the bulk dispatch handler is called any number of times, with Redis and the queue failing
  in any of these calls and with steps of others in between, no two tasks handed to the queue since the start carry the same identifier: no input of
  a bulk batch is enqueued twice.\<close>

theorem bulk_dispatch_at_most_once:
  assumes "batch_dispatch rd num str lst aq sent orc" and "bj_bulk_input (or_json orc) raw = Ok inp"
    and "0 < bi_MicroBatchSize inp" and "bi_TotalCount inp + bi_MicroBatchSize inp < 2 ^ 63"
    and "num (w_redis w0) (keyCursor (bi_BatchID inp)) = None"
    and "(bulk_step num str sent orc raw (bi_BatchID inp))\<^sup>*\<^sup>* w0 w"
  shows "\<exists>new. task_names (sent (w_back w)) = task_names (sent (w_back w0)) @ new \<and> distinct new"
proof -
  have "bulk_inv num str inp (task_names (sent (w_back w0))) (w_redis w0) (task_names (sent (w_back w0)))"
    using assms(5) by (simp add: bulk_inv_def)
  then have "bulk_inv num str inp (task_names (sent (w_back w0))) (w_redis w) (task_names (sent (w_back w)))"
    by (rule batch_dispatch.bulk_steps_inv [OF assms(1,6,2-4)])
  then show ?thesis unfolding bulk_inv_def by blast
qed

abbreviation bulk_world :: "(kv, gval db \<times> asynq_task list) world" where
  "bulk_world \<equiv> world_on (empty_kv\<lparr>kv_lst := (\<lambda>_. [])(keyBulkInputsList ''b'' := [''1'', ''2'', ''3''])\<rparr>) (empty_db, [])"

abbreviation bulk_calls :: "nat \<Rightarrow> (kv, gval db \<times> asynq_task list) world" where
  "bulk_calls n \<equiv> ((\<lambda>w. snd (handleDispatchBulk (orchestrator_on (fails_at 4) log_asynq) GNil w)) ^^ n) bulk_world"

lemma bulk_calls_steps:
  "(bulk_step kv_num kv_str snd (orchestrator_on (fails_at 4) log_asynq) GNil ''b'')\<^sup>*\<^sup>* bulk_world (bulk_calls n)"
proof (induction n)
  case (Suc n)
  show ?case unfolding funpow.simps comp_def by (rule rtranclp.rtrancl_into_rtrancl [OF Suc bulk_step.dispatch])
qed simp

theorem bulk_dispatch_at_most_once_witness: "distinct (task_names (snd (w_back (bulk_calls 3))))"
proof -
  let ?orc = "orchestrator_on (fails_at 4) log_asynq"
  have "bj_bulk_input (or_json ?orc) GNil = Ok sample_bulk" by (simp add: orchestrator_on_def Let_def sample_json_def)
  moreover have "0 < bi_MicroBatchSize sample_bulk" "bi_TotalCount sample_bulk + bi_MicroBatchSize sample_bulk < 2 ^ 63"
    "bi_BatchID sample_bulk = ''b''" by (simp_all add: sample_bulk_def)
  moreover have "kv_num (w_redis bulk_world) (keyCursor ''b'') = None" by (simp add: world_on_def empty_kv_def)
  ultimately have "\<exists>new. task_names (snd (w_back (bulk_calls 3))) = task_names (snd (w_back bulk_world)) @ new \<and> distinct new"
    using bulk_dispatch_at_most_once [OF kvd.batch_dispatch_axioms, of "fails_at 4" GNil sample_bulk bulk_world "bulk_calls 3"]
      bulk_calls_steps [of 3] by (simp only:)
  then show ?thesis by (auto simp: world_on_def)
qed

interpretation kvr: reliable_dispatch kv_redis kv_num kv_str kv_lst "on_queue log_asynq" snd "orchestrator_on (\<lambda>_. None) log_asynq"
  "\<lparr>qc_asynq = on_queue log_asynq, qc_codec = sample_codec, qc_retryPolicy = None\<rparr>"
  by unfold_locales (auto simp: orchestrator_on_def Let_def on_queue_def op_snd_def log_asynq_def sample_codec_def)

text \<open>C8: Exact partition. Take a fresh batch whose list holds the IDs, with no failure of Redis and a queue that accepts. The first calls of the
  dispatch handler, one for each of the consecutive chunks of the micro-batch size, answer with the index and the size of their chunk and
  hand to the queue one task for each ID of it; all calls together hand over the tasks of all IDs, in their order and each once; the next call answers that the
  batch is complete.\<close>

theorem dispatch_partition:
  assumes "reliable_dispatch rd num str lst aq sent orc qc" and "bj_input (or_json orc) raw = Ok inp"
    and "oi_MicroBatchSize inp = int n" "n \<noteq> 0" and "lst (w_redis w) (keyIDsList (oi_BatchID inp)) = ids"
    and "oi_TotalCount inp = int (length ids)" "length ids + n < 2 ^ 63"
    and "num (w_redis w) (keyCursor (oi_BatchID inp)) = None" "\<And>i. str (w_redis w) (keyDispatched (oi_BatchID inp) i) = None"
  shows "let N = length (chunks n ids); w' = dispatch_calls orc raw N w in
    concat (chunks n ids) = ids \<and>
    (\<forall>k<N. \<exists>now. fst (handleDispatch orc raw (dispatch_calls orc raw k w)) = Ok (dispatch_reply inp now k (chunks n ids ! k))) \<and>
    sent (w_back w') = sent (w_back w) @
      concat (map (\<lambda>(k, c). ids_tasks (qc_codec qc) (or_json orc) inp k c) (List.enumerate 0 (chunks n ids))) \<and>
    (\<exists>m. fst (handleDispatch orc raw w') = Ok (GMap m) \<and> map_of m ''dispatchResult'' = Some dispatch_done)"
proof -
  let ?N = "length (chunks n ids)"
  note prefix = reliable_dispatch.dispatch_prefix [OF assms order_refl]
  have "min (?N * n) (length ids) = length ids" using length_chunks [OF assms(4), of ids] by simp
  then have "oi_TotalCount inp \<le> (case num (w_redis (dispatch_calls orc raw ?N w)) (keyCursor (oi_BatchID inp)) of Some v \<Rightarrow> v | None \<Rightarrow> 0)"
    using prefix assms(6) by (metis order_refl)
  from reliable_dispatch.handleDispatch_complete [OF assms(1,2) this] prefix concat_chunks [OF assms(4)] show ?thesis
    by (auto simp: Let_def)
qed

theorem dispatch_partition_witness:
  "\<exists>w. snd (w_back (dispatch_calls (orchestrator_on (\<lambda>_. None) log_asynq) GNil 2 w)) =
     ids_tasks sample_codec sample_json sample_input 0 [''x'', ''y''] @ ids_tasks sample_codec sample_json sample_input 1 [''z'']"
proof -
  let ?orc = "orchestrator_on (\<lambda>_. None) log_asynq" and ?ids = "[''x'', ''y'', ''z'']"
  let ?w = "world_on (empty_kv\<lparr>kv_lst := (\<lambda>_. [])(keyIDsList ''b'' := ?ids)\<rparr>) (empty_db, [])"
  have chunks: "chunks 2 ?ids = [[''x'', ''y''], [''z'']]" by (simp add: chunks_step)
  have "sample_json = or_json ?orc" "bj_input (or_json ?orc) GNil = Ok sample_input" "oi_MicroBatchSize sample_input = int 2" "oi_BatchID sample_input = ''b''"
    "oi_TotalCount sample_input = int (length ?ids)" by (simp_all add: orchestrator_on_def Let_def sample_json_def sample_input_def)
  then have "snd (w_back (dispatch_calls ?orc GNil (Suc (Suc 0)) ?w)) =
     ids_tasks sample_codec sample_json sample_input 0 [''x'', ''y''] @ ids_tasks sample_codec sample_json sample_input 1 [''z'']"
    using dispatch_partition [OF kvr.reliable_dispatch_axioms, of GNil sample_input 2 ?w ?ids]
    by (simp add: chunks Let_def world_on_def empty_kv_def)
  then show ?thesis unfolding numeral_2_eq_2 by blast
qed

text \<open>C9: The join of a micro-batch. The barrier holds \<open>n\<close>, Redis does not fail, and \<open>recs\<close> are the executions that wait for the micro-batch. After fewer
  than \<open>n\<close> signals of workers, whatever their outcomes, nothing is resumed; from the \<open>n\<close>-th signal on, each waiting execution has been resumed exactly
  once, with the completion payload merged into its output, and no further signal resumes anything. In particular, when the workers are
  done before the orchestrator is stored as waiting (\<open>recs\<close> is empty), the wake-up is lost: no signal will ever resume it.\<close>

theorem micro_batch_join:
  assumes "batch_store rd num str lst" and "or_rdb orc = rd" and "\<And>i. or_fault orc i = None"
    and "num (w_redis w) (keyBarrier (mm_MicroBatchID meta)) = Some (int n)" and "1 \<le> n"
    and "Manager_FindWaitingExecutionsByCorrelation (ps_repository (or_parentSM orc)) MicroBatchCorrelationKey (GString (mm_MicroBatchID meta))
      (w_back w) = (Ok recs, s1)"
    and "\<And>s. or_smFactory orc (mm_OrchestratorSMID meta) s = (Ok sm, s)"
  shows "\<exists>now. w_started (signals orc meta outs w) = w_started w @
    (if n \<le> length outs then map (\<lambda>rec. ResumeRun (mm_OrchestratorSMID meta = BulkOrchestratorStateMachineID) (share_queue orc sm)
       (resume_context now meta rec)) recs else [])"
proof -
  note step = batch_store.signal_step [OF assms(1-3), where meta = meta]
  have gone: "w_started (signals orc meta outs v) = w_started v" if "num (w_redis v) (keyBarrier (mm_MicroBatchID meta)) = None" for outs v
    using that
  proof (induction outs arbitrary: v)
    case (Cons out outs)
    note s = step(1) [OF Cons.prems, where out = out]
    then show ?case using Cons.IH [of "snd (SignalMicroBatchComplete orc meta out v)"] by (simp add: signals_def)
  qed (simp add: signals_def)
  show ?thesis
    using assms(4-6)
  proof (induction outs arbitrary: w n)
    case (Cons out outs)
    let ?w1 = "snd (SignalMicroBatchComplete orc meta out w)"
    have unfold: "signals orc meta (out # outs) w = signals orc meta outs ?w1" by (simp add: signals_def)
    show ?case
    proof (cases "n = 1")
      case True
      then have one: "num (w_redis w) (keyBarrier (mm_MicroBatchID meta)) = Some 1" using Cons.prems(1) by simp
      from step(3) [OF one Cons.prems(3) assms(7), where out = out] gone [of ?w1 outs] show ?thesis by (auto simp: unfold True)
    next
      case False
      with Cons.prems have "1 < int n" "1 \<le> n - 1" by simp_all
      from step(2) [OF Cons.prems(1) this(1), where out = out] this(2) Cons.prems(3) Cons.IH [of ?w1 "n - 1"] show ?thesis
        by (auto simp: unfold of_nat_diff not_le Suc_le_eq less_diff_conv2 split: if_splits)
    qed
  qed (simp add: signals_def)
qed

definition good_outcome :: task_outcome where
  "good_outcome = \<lparr>to_BatchID = ''b'', to_MicroBatchID = ''b:0'', to_TaskID = ''x'', to_Success = True, to_Error = [], to_Duration = 0,
     to_CompletedAt = 0\<rparr>"

theorem micro_batch_join_witness:
  "\<exists>w. kv_num (w_redis w) (keyBarrier ''b:0'') = Some 2 \<and>
     w_started (signals (orchestrator_on (\<lambda>_. None) log_asynq) sample_meta (replicate 5 good_outcome) w) = []"
proof -
  let ?orc = "orchestrator_on (\<lambda>_. None) log_asynq" and ?w = "world_on (empty_kv\<lparr>kv_num := [keyBarrier ''b:0'' \<mapsto> 2]\<rparr>) (empty_db, [])"
  have orc: "or_rdb ?orc = kv_redis" "or_fault ?orc i = None" "\<exists>sm. \<forall>s. or_smFactory ?orc k s = (Ok sm, s)"
    "ps_repository (or_parentSM ?orc) = on_database (Postgres_repository plain_pg)" for i k
    by (simp_all add: orchestrator_on_def Let_def op_return_def)
  have "fst (Manager_FindWaitingExecutionsByCorrelation (on_database (Postgres_repository plain_pg)) MicroBatchCorrelationKey (GString ''b:0'')
      (empty_db, [] :: asynq_task list)) = Ok []" by code_simp
  then obtain s1 where "Manager_FindWaitingExecutionsByCorrelation (on_database (Postgres_repository plain_pg)) MicroBatchCorrelationKey (GString ''b:0'')
      (empty_db, [] :: asynq_task list) = (Ok [], s1)" by (metis prod.collapse)
  then have find: "Manager_FindWaitingExecutionsByCorrelation (ps_repository (or_parentSM ?orc)) MicroBatchCorrelationKey
      (GString (mm_MicroBatchID sample_meta)) (w_back ?w) = (Ok [], s1)" by (auto simp: orc(4) sample_meta_def world_on_def)
  obtain sm where sm: "\<And>s. or_smFactory ?orc (mm_OrchestratorSMID sample_meta) s = (Ok sm, s)" using orc(3) by blast
  have num: "kv_num (w_redis ?w) (keyBarrier (mm_MicroBatchID sample_meta)) = Some (int 2)" by (simp add: world_on_def sample_meta_def)
  have "w_started (signals ?orc sample_meta (replicate 5 good_outcome) ?w) = w_started ?w"
    using micro_batch_join [OF kvb.batch_store_axioms orc(1,2) num _ find sm, of "replicate 5 good_outcome"] by simp
  then show ?thesis by (intro exI [of _ ?w]) (simp add: world_on_def)
qed

text \<open>C10: One launch per batch. A launch whose \<open>SETNX\<close> was answered leaves the lock of its batch behind, whether it succeeded or failed later on. As
  long as the lock is there (Redis drops it 24 hours after it was set), every further launch of the batch, of either kind and by any orchestrator on the same
  Redis, fails and leaves everything as it was: the stored lists, the repository, the queue and the started goroutines; only a call was made. Without a failure of
  Redis the error says that the batch is already running. So a batch is not orchestrated twice; but a launch that failed after taking the lock cannot be
  repeated either.\<close>

theorem launch_once:
  assumes "batch_store rd num str lst" and "or_rdb orc = rd" and "or_fault orc (w_calls w) = None"
    and "w1 = snd (Run orc b src ids tgt st opts w) \<or> w1 = snd (RunBulk orc b inputs tgt bopts execOpts w)"
    and "str (w_redis w2) (keyLock b) = str (w_redis w1) (keyLock b)" and "or_rdb orc' = rd"
  shows "str (w_redis w1) (keyLock b) \<noteq> None \<and>
    (\<exists>e. Run orc' b src' ids' tgt' st' opts' w2 = (Err e, w2\<lparr>w_calls := Suc (w_calls w2)\<rparr>) \<and>
      (or_fault orc' (w_calls w2) = None \<longrightarrow> e = ErrorNew (''batch:run: batch '' @ b @ '' is already running''))) \<and>
    (\<exists>e. RunBulk orc' b inputs' tgt' bopts' execOpts' w2 = (Err e, w2\<lparr>w_calls := Suc (w_calls w2)\<rparr>) \<and>
      (or_fault orc' (w_calls w2) = None \<longrightarrow> e = ErrorNew (''batch:run-bulk: batch '' @ b @ '' is already running'')))"
proof -
  have w1: "str (w_redis w1) (keyLock b) \<noteq> None"
    using assms(4) batch_store.Run_locks [OF assms(1-3)] batch_store.RunBulk_locks [OF assms(1-3)] by blast
  then have "str (w_redis w2) (keyLock b) \<noteq> None" using assms(5) by simp
  from w1 batch_store.launch_refused [OF assms(1,6) this] show ?thesis by blast
qed

definition sample_options :: batch_execution_options where
  "sample_options = \<lparr>bo_BatchId = [], bo_NamePrefix = [], bo_ConcurrentBatches = 0, bo_StopOnError = False, bo_UseGroupEnqueue = False,
     bo_GroupConcurrency = 0, bo_DoMicroBatch = True, bo_MicroBatchSize = 2, bo_RedisClient = RedisClient, bo_FailurePolicyConfig = None\<rparr>"

text \<open>The IDs could not be stored, and the launch cannot be repeated.\<close>

theorem launch_once_witness:
  "\<exists>w. snd (Run (orchestrator_on (fails_at 1) log_asynq) ''b'' ''src'' [''x''] ''m'' [] sample_options
     (snd (Run (orchestrator_on (fails_at 1) log_asynq) ''b'' ''src'' [''x''] ''m'' [] sample_options (world_on empty_kv (empty_db, []))))) =
     w\<lparr>w_calls := Suc (w_calls w)\<rparr> \<and>
     w = snd (Run (orchestrator_on (fails_at 1) log_asynq) ''b'' ''src'' [''x''] ''m'' [] sample_options (world_on empty_kv (empty_db, [])))"
proof -
  let ?orc = "orchestrator_on (fails_at 1) log_asynq"
  have o: "or_rdb ?orc = kv_redis" "or_fault ?orc (w_calls (world_on empty_kv (empty_db, []))) = None"
    by (simp_all add: orchestrator_on_def Let_def fails_at_def world_on_def)
  from launch_once [OF kvb.batch_store_axioms o disjI1 [OF refl] refl o(1)] show ?thesis by (metis snd_conv)
qed

end
