(* ===== verification/BatchExecution.thy ===== *)
theory BatchExecution
  imports Orchestrator
begin

text \<open>
  Batches on the persistent engine (\<open>persistent.go\<close> from \<open>NewFromDefnId\<close> to \<open>executeBulkMicroBatch\<close>, \<open>persistent_microbatch.go\<close>, and the
  goroutines that the orchestrator starts): loading and saving definitions, and the three ways in which \<open>ExecuteBatch\<close> and \<open>ExecuteBulk\<close> run
  their executions: through the micro-batch orchestrator, through the queue, or on goroutines of this process.

  The goroutines of a local batch move one at a time, in any order: a schedule is a list of moves. A goroutine takes a slot
  of the semaphore and looks at the stop flag in one move, and runs its execution, stores its result and gives the slot back in
  another, so that executions that hold a slot at the same time finish in any order. Callbacks of the options are left out. The embedded definition files, the JSON codec and
  the clock are parameters.
\<close>

section \<open>Definitions in the repository\<close>

definition New_from_definition ::
  "(string \<Rightarrow> state_machine res) \<Rightarrow> int \<Rightarrow> 's repository \<Rightarrow> string \<Rightarrow> string \<Rightarrow> 's persistent res" where
  "New_from_definition newSM now manager definition stateMachineId =
    rbind (wrap_err ''failed to create state machine'' (newSM definition)) (\<lambda>sm.
      Ok \<lparr>ps_machine = sm, ps_repository = manager,
          ps_stateMachineID = (if stateMachineId = [] then ''sm-'' @ itoa (unix_seconds now) else stateMachineId),
          ps_queueClient = None\<rparr>)"

definition NewFromDefnId ::
  "(string \<Rightarrow> state_machine res) \<Rightarrow> int \<Rightarrow> 's repository \<Rightarrow> string \<Rightarrow> ('s, 's persistent) op" where
  "NewFromDefnId newSM now manager stateMachineID =
    op_bind (op_wrap ''failed to fetch state machine definition'' (rp_GetStateMachine manager stateMachineID)) (\<lambda>rec.
      op_return (New_from_definition newSM now manager (mr_Definition rec) (mr_ID rec)))"

definition ToRecord :: "(state_machine \<Rightarrow> string res) \<Rightarrow> int \<Rightarrow> state_machine \<Rightarrow> state_machine_record res" where
  "ToRecord marshal now sm =
    rbind (wrap_err ''failed to marshal state machine definition'' (marshal sm)) (\<lambda>definition.
      Ok \<lparr>mr_ID = sm_ID sm, mr_Name = (if sm_Name sm = [] then sm_ID sm else sm_Name sm), mr_Description = sm_Comment sm,
          mr_Definition = definition, mr_Type = [], mr_Version = sm_Version sm, mr_CreatedAt = Some (sm_createdAt sm),
          mr_UpdatedAt = Some now, mr_Metadata = None\<rparr>)"

definition SaveDefinition :: "(state_machine \<Rightarrow> string res) \<Rightarrow> int \<Rightarrow> 's persistent \<Rightarrow> ('s, unit) op" where
  "SaveDefinition marshal now pm =
    op_bind (op_return (ToRecord marshal now (ps_machine pm))) (\<lambda>rec.
      (let rec1 = (if ps_stateMachineID pm \<noteq> [] then rec\<lparr>mr_ID := ps_stateMachineID pm\<rparr> else rec);
           rec2 = (if sm_Name (ps_machine pm) \<noteq> [] then rec1\<lparr>mr_Name := sm_Name (ps_machine pm)\<rparr> else rec1)
       in Manager_SaveStateMachine (ps_repository pm) now now rec2))"

section \<open>Building an orchestrator\<close>

text \<open>Where the program runs: the Redis client with its faults, codec and clock (the other fields of \<open>st_orc\<close> are set by \<open>NewOrchestrator\<close>), the front end of \<open>New\<close>, the
  marshaler of machines, and the embedded definitions.\<close>

record ('r, 's) site =
  st_orc :: "('r, 's) orchestrator"
  st_newSM :: "string \<Rightarrow> state_machine res"
  st_marshal :: "state_machine \<Rightarrow> string res"
  st_OrchestratorDefinitionJSON :: string
  st_BulkOrchestratorDefinitionJSON :: string

text \<open>Loading a script changes nothing that the model shows, but it may fail.\<close>

definition NewBarrier :: "('r, 's) orchestrator \<Rightarrow> (('r, 's) world, unit) op" where
  "NewBarrier orc =
    op_bind (op_wrap ''batch/barrier: load decr script'' (redis_read orc (\<lambda>_. ()))) (\<lambda>_.
      op_wrap ''batch/barrier: load init script'' (redis_read orc (\<lambda>_. ())))"

definition NewOrchestrator :: "('r, 's) site \<Rightarrow> 's persistent \<Rightarrow> (('r, 's) world, ('r, 's) orchestrator) op" where
  "NewOrchestrator site pm =
    op_bind (op_wrap ''orchestrator'' (NewBarrier (st_orc site))) (\<lambda>_ w.
      (Ok ((st_orc site)\<lparr>or_metrics := NewMetricsRecorder 500, or_parentSM := pm,
          or_smFactory := NewFromDefnId (st_newSM site) (clock (st_orc site) w) (ps_repository pm)\<rparr>), w))"

definition EnsureDefinition :: "('r, 's) site \<Rightarrow> ('r, 's) orchestrator \<Rightarrow> string \<Rightarrow> string \<Rightarrow> (('r, 's) world, unit) op" where
  "EnsureDefinition site orc definitionJSON defnId w =
    op_bind (op_wrap ''orchestrator: parse definition''
        (op_return (New_from_definition (st_newSM site) (clock orc w) (ps_repository (or_parentSM orc)) definitionJSON defnId))) (\<lambda>sm.
      on_back (SaveDefinition (st_marshal site) (clock orc w) sm)) w"

section \<open>The goroutines of the orchestrator\<close>

text \<open>What the goroutine of a launch sends to \<open>doneCh\<close>. The environment answers the calls of the machine's handlers.\<close>

definition launched_execution :: "int \<Rightarrow> string \<Rightarrow> bool \<Rightarrow> string \<Rightarrow> string \<Rightarrow> gval \<Rightarrow> execution" where
  "launched_execution now newID bulk batchID startAt input =
    (let smID = (if bulk then BulkOrchestratorStateMachineID else OrchestratorStateMachineID) in
     (NewContext newID now ((if bulk then ''bulk-orch-'' else ''mb-orch-'') @ batchID @ ''-'' @ itoa now) startAt input)
       \<lparr>ID := smID @ ''-baseExecutor-'' @ itoa now, StateMachineID := smID\<rparr>)"

definition await_orchestrator ::
  "nat \<Rightarrow> (nat \<Rightarrow> err option) \<Rightarrow> 's persistent \<Rightarrow> run_result \<Rightarrow> 's \<Rightarrow> (unit res \<times> 's) option" where
  "await_orchestrator fuel cancelled sm r s =
    (case r of
       Ok (result, None) \<Rightarrow>
         if Status result = ''PAUSED'' then waitForTermination fuel cancelled (ps_repository sm) (ID result) 0 s else Some (Ok (), s)
     | Ok (result, Some e) \<Rightarrow> Some (Err e, s)
     | Err e \<Rightarrow> Some (Err e, s)
     | Panic m \<Rightarrow> Some (Crash m, s)
     | Crash m \<Rightarrow> Some (Crash m, s))"

fun run_goroutine ::
  "nat \<Rightarrow> env \<Rightarrow> int \<Rightarrow> string \<Rightarrow> (nat \<Rightarrow> err option) \<Rightarrow> 's goroutine \<Rightarrow> 's \<Rightarrow> (unit res \<times> 's) option" where
  "run_goroutine fuel env now newID cancelled (Launch bulk sm batchID startAt input) s =
     (case Persistent_Execute fuel env newID sm (InputExecution (launched_execution now newID bulk batchID startAt input)) [] s of
        None \<Rightarrow> None
      | Some (r, s1) \<Rightarrow> await_orchestrator fuel cancelled sm r s1)"
| "run_goroutine fuel env now newID cancelled (ResumeRun bulk sm x) s =
     (case Persistent_ResumeExecution fuel env sm x s of
        None \<Rightarrow> None
      | Some (Panic m, s1) \<Rightarrow> Some (Crash m, s1)
      | Some (Crash m, s1) \<Rightarrow> Some (Crash m, s1)
      | Some (_, s1) \<Rightarrow> Some (Ok (), s1))"

section \<open>Results\<close>

record batch_result =
  br_SourceExecutionID :: string
  br_Execution :: "execution option"
  br_Error :: "err option"
  br_Index :: int

text \<open>A slice of pointers to results, nil where nothing was stored, with the error returned beside it.\<close>

type_synonym batch_results = "batch_result option list \<times> err option"

section \<open>Through the orchestrator\<close>

definition launch_result :: "string \<Rightarrow> err option option \<Rightarrow> batch_results" where
  "launch_result batchID deadline =
    ([Some \<lparr>br_SourceExecutionID = batchID, br_Execution = None, br_Error = (case deadline of Some e \<Rightarrow> e | None \<Rightarrow> None), br_Index = 0\<rparr>], None)"

text \<open>\<open>deadline\<close> is what \<open>doneCh\<close> delivers when the context has a deadline; without one nobody waits for it.\<close>

definition executeMicroBatch ::
  "('r, 's) site \<Rightarrow> err option option \<Rightarrow> 's persistent \<Rightarrow> string \<Rightarrow> string list \<Rightarrow> string \<Rightarrow> string \<Rightarrow> batch_execution_options \<Rightarrow>
   (('r, 's) world, batch_results) op" where
  "executeMicroBatch site deadline pm sourceStateMachineId sourceExecutionIDs targetMachineId sourceStateName opts =
    (case bo_RedisClient opts of
       NoClient \<Rightarrow> op_return (Err (ErrorNew ''executeMicroBatch: opts.RedisClient must be set when DoMicroBatch=true''))
     | OtherClient \<Rightarrow> op_return (Err (ErrorNew ''executeMicroBatch: opts.RedisClient must be *redis.Client''))
     | RedisClient \<Rightarrow>
         op_bind (op_wrap ''executeMicroBatch: new orchestrator'' (NewOrchestrator site pm)) (\<lambda>orc.
         op_bind (op_wrap ''executeMicroBatch: ensure definition''
             (EnsureDefinition site orc (st_OrchestratorDefinitionJSON site) OrchestratorStateMachineID)) (\<lambda>_ w.
           (let batchID = ''mb-'' @ ps_stateMachineID pm @ ''-'' @ itoa (clock orc w) in
            op_bind (op_wrap ''executeMicroBatch: launch''
                (Run orc batchID sourceStateMachineId sourceExecutionIDs targetMachineId sourceStateName opts)) (\<lambda>_.
              op_return (Ok (launch_result batchID deadline))) w))))"

definition executeBulkMicroBatch ::
  "('r, 's) site \<Rightarrow> err option option \<Rightarrow> 's persistent \<Rightarrow> gval list \<Rightarrow> bulk_execution_options \<Rightarrow>
   (execution_config \<Rightarrow> execution_config) list \<Rightarrow> (('r, 's) world, batch_results) op" where
  "executeBulkMicroBatch site deadline pm inputs opts execOpts =
    (case uo_RedisClient opts of
       NoClient \<Rightarrow> op_return (Err (ErrorNew ''executeBulkMicroBatch: opts.RedisClient must be set when DoMicroBatch=true''))
     | OtherClient \<Rightarrow> op_return (Err (ErrorNew ''executeBulkMicroBatch: opts.RedisClient must be *redis.Client''))
     | RedisClient \<Rightarrow>
         op_bind (op_wrap ''executeBulkMicroBatch: new orchestrator'' (NewOrchestrator site pm)) (\<lambda>orc.
         op_bind (op_wrap ''executeBulkMicroBatch: ensure definition''
             (EnsureDefinition site orc (st_BulkOrchestratorDefinitionJSON site) BulkOrchestratorStateMachineID)) (\<lambda>_ w.
           (let batchID = ''bulk-mb-'' @ ps_stateMachineID pm @ ''-'' @ itoa (clock orc w) in
            op_bind (op_wrap ''executeBulkMicroBatch: launch'' (RunBulk orc batchID inputs (ps_stateMachineID pm) opts execOpts)) (\<lambda>_.
              op_return (Ok (launch_result batchID deadline))) w))))"

section \<open>Through the queue\<close>

definition execution_name :: "string \<Rightarrow> nat \<Rightarrow> string" where
  "execution_name prefix i = prefix @ ''-'' @ itoa (int i)"

text \<open>The loop over the payloads: the result of each call is stored at its index, and the first error ends the loop when \<open>stopOnError\<close> is set.\<close>

fun enqueue_batch ::
  "'s queue_client \<Rightarrow> string \<Rightarrow> bool \<Rightarrow> nat \<Rightarrow> execution_task_payload list \<Rightarrow> batch_result option list \<Rightarrow> ('s, batch_results) op" where
  "enqueue_batch c what stopOnError i [] results = op_return (Ok (results, None))"
| "enqueue_batch c what stopOnError i (p # ps) results = (\<lambda>s.
     case EnqueueExecution c p [] s of
       (Panic m, s1) \<Rightarrow> (Panic m, s1)
     | (Crash m, s1) \<Rightarrow> (Crash m, s1)
     | (r, s1) \<Rightarrow>
         (let e = (case r of Err e \<Rightarrow> Some e | _ \<Rightarrow> None);
              results1 = results[i := Some \<lparr>br_SourceExecutionID = ep_SourceExecutionID p, br_Execution = None, br_Error = e,
                                            br_Index = int i\<rparr>]
          in case e of
               Some err \<Rightarrow>
                 if stopOnError then (Ok (results1, Some (Wrapped (what @ itoa (int i)) err)), s1)
                 else enqueue_batch c what stopOnError (Suc i) ps results1 s1
             | None \<Rightarrow> enqueue_batch c what stopOnError (Suc i) ps results1 s1))"

definition batch_payloads ::
  "'s persistent \<Rightarrow> string list \<Rightarrow> string \<Rightarrow> string \<Rightarrow> (execution_config \<Rightarrow> execution_config) list \<Rightarrow> execution_task_payload list" where
  "batch_payloads pm ids sourceStateName prefix execOpts =
    map (\<lambda>(i, sourceExecID).
      \<lparr>ep_StateMachineID = ps_stateMachineID pm, ep_ExecutionID = [], ep_SourceExecutionID = sourceExecID,
       ep_SourceStateName = sourceStateName,
       ep_InputTransformerName = ec_InputTransformerName (fold (\<lambda>opt c. opt c) execOpts empty_config), ep_ApplyUnique = False,
       ep_ExecutionName = execution_name prefix i, ep_ExecutionIndex = int i, ep_Input = GNil, ep_Options = None,
       ep_IsTimeout = False, ep_CorrelationID = [], ep_GroupID = [], ep_GroupConcurrency = 0\<rparr>)
    (enumerate 0 ids)"

definition executeBatchViaQueue ::
  "'s persistent \<Rightarrow> 's queue_client \<Rightarrow> string list \<Rightarrow> string \<Rightarrow> batch_execution_options \<Rightarrow>
   (execution_config \<Rightarrow> execution_config) list \<Rightarrow> ('s, batch_results) op" where
  "executeBatchViaQueue pm c ids sourceStateName opts execOpts =
    enqueue_batch c ''failed to enqueue task at index '' (bo_StopOnError opts) 0
      (batch_payloads pm ids sourceStateName (bo_NamePrefix opts) execOpts) (replicate (length ids) None)"

definition bulk_queue_payloads ::
  "'s persistent \<Rightarrow> gval list \<Rightarrow> string \<Rightarrow> (execution_config \<Rightarrow> execution_config) list \<Rightarrow> execution_task_payload list" where
  "bulk_queue_payloads pm inputs prefix execOpts =
    (let config = fold (\<lambda>opt c. opt c) execOpts empty_config in
     map (\<lambda>(i, input).
      \<lparr>ep_StateMachineID = ps_stateMachineID pm, ep_ExecutionID = [], ep_SourceExecutionID = [], ep_SourceStateName = [],
       ep_InputTransformerName = ec_InputTransformerName config, ep_ApplyUnique = ec_ApplyUnique config,
       ep_ExecutionName = execution_name prefix i, ep_ExecutionIndex = int i, ep_Input = input, ep_Options = None,
       ep_IsTimeout = False, ep_CorrelationID = [], ep_GroupID = [], ep_GroupConcurrency = 0\<rparr>)
     (enumerate 0 inputs))"

definition executeBulkViaQueue ::
  "'s persistent \<Rightarrow> 's queue_client \<Rightarrow> gval list \<Rightarrow> bulk_execution_options \<Rightarrow>
   (execution_config \<Rightarrow> execution_config) list \<Rightarrow> ('s, batch_results) op" where
  "executeBulkViaQueue pm c inputs opts execOpts =
    enqueue_batch c ''failed to enqueue bulk task at index '' (uo_StopOnError opts) 0
      (bulk_queue_payloads pm inputs (uo_NamePrefix opts) execOpts) (replicate (length inputs) None)"

section \<open>On goroutines of this process\<close>

datatype phase = Blocked | Holding | Finished

datatype move = Spawn | Acquire nat | Finish nat

text \<open>The state of a local batch: the goroutines started so far, the flag \<open>stopProcessing\<close>, the one-element buffer of \<open>errChan\<close>, the results, the store, and
  the panic of a goroutine, which ends the process.\<close>

record 's local_batch =
  lb_phases :: "phase list"
  lb_stop :: bool
  lb_error :: "err option"
  lb_results :: "batch_result option list"
  lb_store :: 's
  lb_crash :: "string option"

text \<open>What a local batch runs: the number of items, the size of the semaphore, whether to stop on an error and with what text, the source of an item and its execution.\<close>

record 's local_job =
  lj_count :: nat
  lj_slots :: int
  lj_stopOnError :: bool
  lj_what :: string
  lj_source :: "nat \<Rightarrow> string"
  lj_execute :: "nat \<Rightarrow> 's \<Rightarrow> (run_result \<times> 's) option"

definition init_batch :: "'s local_job \<Rightarrow> 's \<Rightarrow> 's local_batch" where
  "init_batch j s = \<lparr>lb_phases = [], lb_stop = False, lb_error = None, lb_results = replicate (lj_count j) None, lb_store = s, lb_crash = None\<rparr>"

definition holders :: "'s local_batch \<Rightarrow> nat" where
  "holders b = length (filter (\<lambda>p. p = Holding) (lb_phases b))"

definition goroutine_result :: "'s local_job \<Rightarrow> nat \<Rightarrow> run_result \<Rightarrow> batch_result" where
  "goroutine_result j i r =
    \<lparr>br_SourceExecutionID = lj_source j i, br_Execution = (case r of Ok (x, e) \<Rightarrow> Some x | _ \<Rightarrow> None),
     br_Error = (case r of Ok (x, e) \<Rightarrow> e | Err e \<Rightarrow> Some e | _ \<Rightarrow> None), br_Index = int i\<rparr>"

definition finish_goroutine :: "'s local_job \<Rightarrow> nat \<Rightarrow> run_result \<Rightarrow> 's \<Rightarrow> 's local_batch \<Rightarrow> 's local_batch" where
  "finish_goroutine j i r s b =
    (case r of
       Panic m \<Rightarrow> b\<lparr>lb_store := s, lb_crash := Some m\<rparr>
     | Crash m \<Rightarrow> b\<lparr>lb_store := s, lb_crash := Some m\<rparr>
     | _ \<Rightarrow>
         (let q = goroutine_result j i r;
              b1 = b\<lparr>lb_phases := (lb_phases b)[i := Finished], lb_store := s, lb_results := (lb_results b)[i := Some q]\<rparr>
          in case br_Error q of
               Some e \<Rightarrow>
                 if lj_stopOnError j \<and> lb_error b = None
                 then b1\<lparr>lb_error := Some (Wrapped (lj_what j @ itoa (int i)) e), lb_stop := True\<rparr> else b1
             | None \<Rightarrow> b1))"

definition local_move :: "'s local_job \<Rightarrow> move \<Rightarrow> 's local_batch \<Rightarrow> 's local_batch option" where
  "local_move j mv b =
    (if lb_crash b \<noteq> None then None
     else case mv of
       Spawn \<Rightarrow>
         if length (lb_phases b) < lj_count j \<and> \<not> lb_stop b then Some (b\<lparr>lb_phases := lb_phases b @ [Blocked]\<rparr>) else None
     | Acquire i \<Rightarrow>
         if i < length (lb_phases b) \<and> lb_phases b ! i = Blocked \<and> int (holders b) < lj_slots j
         then Some (b\<lparr>lb_phases := (lb_phases b)[i := (if lb_stop b then Finished else Holding)]\<rparr>) else None
     | Finish i \<Rightarrow>
         if i < length (lb_phases b) \<and> lb_phases b ! i = Holding
         then map_option (\<lambda>(r, s). finish_goroutine j i r s b) (lj_execute j i (lb_store b)) else None)"

fun local_moves :: "'s local_job \<Rightarrow> move list \<Rightarrow> 's local_batch \<Rightarrow> 's local_batch option" where
  "local_moves j [] b = Some b"
| "local_moves j (mv # mvs) b = (case local_move j mv b of None \<Rightarrow> None | Some b1 \<Rightarrow> local_moves j mvs b1)"

text \<open>The loop has ended and \<open>wg.Wait\<close> returns.\<close>

definition local_done :: "'s local_job \<Rightarrow> 's local_batch \<Rightarrow> bool" where
  "local_done j b \<longleftrightarrow> lb_crash b = None \<and> (length (lb_phases b) = lj_count j \<or> lb_stop b) \<and> (\<forall>p\<in>set (lb_phases b). p = Finished)"

text \<open>A local batch under a schedule; \<open>None\<close> when the schedule does not take it to its end.\<close>

definition run_local :: "'s local_job \<Rightarrow> move list \<Rightarrow> 's \<Rightarrow> (batch_results res \<times> 's) option" where
  "run_local j schedule s =
    (if lj_slots j < 0 then Some (Panic ''makechan: size out of range'', s)
     else case local_moves j schedule (init_batch j s) of
       None \<Rightarrow> None
     | Some b \<Rightarrow>
         (case lb_crash b of
            Some m \<Rightarrow> Some (Crash m, lb_store b)
          | None \<Rightarrow> if local_done j b then Some (Ok (lb_results b, lb_error b), lb_store b) else None))"

text \<open>\<open>runs i\<close> are the environment and the generated identifier of the i-th execution.\<close>

definition batch_job ::
  "nat \<Rightarrow> (nat \<Rightarrow> env \<times> string) \<Rightarrow> 's persistent \<Rightarrow> string list \<Rightarrow> string \<Rightarrow> batch_execution_options \<Rightarrow>
   (execution_config \<Rightarrow> execution_config) list \<Rightarrow> 's local_job" where
  "batch_job fuel runs pm ids sourceStateName opts execOpts =
    \<lparr>lj_count = length ids, lj_slots = bo_ConcurrentBatches opts, lj_stopOnError = bo_StopOnError opts,
     lj_what = ''batch execution failed at index '', lj_source = (!) ids,
     lj_execute = (\<lambda>i. Persistent_Execute fuel (fst (runs i)) (snd (runs i)) pm (InputValue GNil)
       (execOpts @ [WithExecutionName (execution_name (bo_NamePrefix opts) i), WithSourceExecution (ids ! i) [sourceStateName]]))\<rparr>"

definition executeBatchLocal ::
  "move list \<Rightarrow> nat \<Rightarrow> (nat \<Rightarrow> env \<times> string) \<Rightarrow> 's persistent \<Rightarrow> string list \<Rightarrow> string \<Rightarrow> batch_execution_options \<Rightarrow>
   (execution_config \<Rightarrow> execution_config) list \<Rightarrow> 's \<Rightarrow> (batch_results res \<times> 's) option" where
  "executeBatchLocal schedule fuel runs pm ids sourceStateName opts execOpts =
    run_local (batch_job fuel runs pm ids sourceStateName opts execOpts) schedule"

definition bulk_job ::
  "nat \<Rightarrow> (nat \<Rightarrow> env \<times> string) \<Rightarrow> 's persistent \<Rightarrow> gval list \<Rightarrow> bulk_execution_options \<Rightarrow>
   (execution_config \<Rightarrow> execution_config) list \<Rightarrow> 's local_job" where
  "bulk_job fuel runs pm inputs opts execOpts =
    \<lparr>lj_count = length inputs, lj_slots = uo_ConcurrentBatches opts, lj_stopOnError = uo_StopOnError opts,
     lj_what = ''bulk execution failed at index '', lj_source = (\<lambda>_. []),
     lj_execute = (\<lambda>i. Persistent_Execute fuel (fst (runs i)) (snd (runs i)) pm (InputValue (inputs ! i))
       (execOpts @ [WithExecutionName (execution_name (uo_NamePrefix opts) i)]))\<rparr>"

definition executeBulkLocal ::
  "move list \<Rightarrow> nat \<Rightarrow> (nat \<Rightarrow> env \<times> string) \<Rightarrow> 's persistent \<Rightarrow> gval list \<Rightarrow> bulk_execution_options \<Rightarrow>
   (execution_config \<Rightarrow> execution_config) list \<Rightarrow> 's \<Rightarrow> (batch_results res \<times> 's) option" where
  "executeBulkLocal schedule fuel runs pm inputs opts execOpts = run_local (bulk_job fuel runs pm inputs opts execOpts) schedule"

section \<open>Choosing the way\<close>

definition local_on_back :: "('s \<Rightarrow> ('a res \<times> 's) option) \<Rightarrow> ('r, 's) world \<Rightarrow> ('a res \<times> ('r, 's) world) option" where
  "local_on_back f w = map_option (\<lambda>(r, s). (r, w\<lparr>w_back := s\<rparr>)) (f (w_back w))"

definition executeBatchConcurrent ::
  "('r, 's) site \<Rightarrow> err option option \<Rightarrow> move list \<Rightarrow> nat \<Rightarrow> (nat \<Rightarrow> env \<times> string) \<Rightarrow> 's persistent \<Rightarrow> string \<Rightarrow> string list \<Rightarrow> string \<Rightarrow> string \<Rightarrow>
   batch_execution_options \<Rightarrow> (execution_config \<Rightarrow> execution_config) list \<Rightarrow> ('r, 's) world \<Rightarrow> (batch_results res \<times> ('r, 's) world) option" where
  "executeBatchConcurrent site deadline schedule fuel runs pm sourceStateMachineId ids targetMachineID sourceStateName opts execOpts w =
    (if bo_DoMicroBatch opts \<and> 0 < bo_MicroBatchSize opts then
       Some (executeMicroBatch site deadline pm sourceStateMachineId ids targetMachineID sourceStateName opts w)
     else case ps_queueClient pm of
       Some c \<Rightarrow> Some (on_back (executeBatchViaQueue pm c ids sourceStateName opts execOpts) w)
     | None \<Rightarrow> local_on_back (executeBatchLocal schedule fuel runs pm ids sourceStateName opts execOpts) w)"

definition default_batch_options :: "int \<Rightarrow> batch_execution_options" where
  "default_batch_options now =
    \<lparr>bo_BatchId = [], bo_NamePrefix = ''batch-exec-'' @ itoa (unix_seconds now), bo_ConcurrentBatches = 1, bo_StopOnError = False,
     bo_UseGroupEnqueue = False, bo_GroupConcurrency = 0, bo_DoMicroBatch = False, bo_MicroBatchSize = 0, bo_RedisClient = NoClient,
     bo_FailurePolicyConfig = None\<rparr>"

text \<open>The source executions of a batch. A nil filter is dereferenced.\<close>

definition batch_sources ::
  "'s persistent \<Rightarrow> execution_filter option \<Rightarrow> string \<Rightarrow> execution_config \<Rightarrow> ('s, string list) op" where
  "batch_sources pm f sourceStateName config =
    (case f of
       None \<Rightarrow> op_return (Panic ''runtime error: invalid memory address or nil pointer dereference'')
     | Some ef \<Rightarrow>
         if ec_ApplyUnique config then
           op_bind (op_wrap ''failed to list non-linked-source executions''
             (rp_ListNonLinkedExecutions (ps_repository pm) f (Some
               \<lparr>lf_SourceStateMachineID = ef_StateMachineID ef, lf_SourceExecutionID = [], lf_SourceStateName = sourceStateName,
                lf_SourceExecutionStatus = [], lf_InputTransformerName = ec_InputTransformerName config, lf_TargetStateMachineName = [],
                lf_TargetExecutionID = [], lf_CreatedAfter = None, lf_CreatedBefore = None, lf_Limit = 0, lf_Offset = 0\<rparr>)))
             (\<lambda>recs. op_return (Ok (map er_ExecutionID recs)))
         else op_wrap ''failed to list source-executions'' (rp_ListExecutionIDs (ps_repository pm) f))"

definition ExecuteBatch ::
  "('r, 's) site \<Rightarrow> err option option \<Rightarrow> move list \<Rightarrow> nat \<Rightarrow> (nat \<Rightarrow> env \<times> string) \<Rightarrow> 's persistent \<Rightarrow> execution_filter option \<Rightarrow> string \<Rightarrow>
   batch_execution_options option \<Rightarrow> (execution_config \<Rightarrow> execution_config) list \<Rightarrow> ('r, 's) world \<Rightarrow>
   (batch_results res \<times> ('r, 's) world) option" where
  "ExecuteBatch site deadline schedule fuel runs pm f sourceStateName opts0 execOpts w =
    (let opts = (case opts0 of Some opts \<Rightarrow> opts | None \<Rightarrow> default_batch_options (clock (st_orc site) w));
         config = fold (\<lambda>opt c. opt c) execOpts empty_config
     in case on_back (batch_sources pm f sourceStateName config) w of
          (Err e, w1) \<Rightarrow> Some (Err e, w1)
        | (Panic m, w1) \<Rightarrow> Some (Panic m, w1)
        | (Crash m, w1) \<Rightarrow> Some (Crash m, w1)
        | (Ok ids, w1) \<Rightarrow>
            if ids = [] then Some (Ok ([], None), w1)
            else executeBatchConcurrent site deadline schedule fuel runs pm (ef_StateMachineID (the f)) ids (ps_stateMachineID pm)
                   sourceStateName opts execOpts w1)"

definition default_bulk_options :: "int \<Rightarrow> bulk_execution_options" where
  "default_bulk_options now =
    \<lparr>uo_NamePrefix = ''bulk-exec-'' @ itoa (unix_seconds now), uo_ConcurrentBatches = 1, uo_StopOnError = False, uo_GroupConcurrency = 0,
     uo_DoMicroBatch = False, uo_MicroBatchSize = 0, uo_RedisClient = NoClient, uo_FailurePolicyConfig = None,
     uo_UseGroupEnqueue = False\<rparr>"

definition ExecuteBulk ::
  "('r, 's) site \<Rightarrow> err option option \<Rightarrow> move list \<Rightarrow> nat \<Rightarrow> (nat \<Rightarrow> env \<times> string) \<Rightarrow> 's persistent \<Rightarrow> gval list \<Rightarrow>
   bulk_execution_options option \<Rightarrow> (execution_config \<Rightarrow> execution_config) list \<Rightarrow> ('r, 's) world \<Rightarrow>
   (batch_results res \<times> ('r, 's) world) option" where
  "ExecuteBulk site deadline schedule fuel runs pm inputs opts0 execOpts w =
    (let opts = (case opts0 of Some opts \<Rightarrow> opts | None \<Rightarrow> default_bulk_options (clock (st_orc site) w)) in
     if inputs = [] then Some (Ok ([], None), w)
     else if uo_DoMicroBatch opts \<and> 0 < uo_MicroBatchSize opts then Some (executeBulkMicroBatch site deadline pm inputs opts execOpts w)
     else case ps_queueClient pm of
       Some c \<Rightarrow> Some (on_back (executeBulkViaQueue pm c inputs opts execOpts) w)
     | None \<Rightarrow> local_on_back (executeBulkLocal schedule fuel runs pm inputs opts execOpts) w)"

definition PostTaskMicroBatchHook ::
  "('r, 's) orchestrator \<Rightarrow> micro_batch_meta \<Rightarrow> task_outcome \<Rightarrow> (('r, 's) world, unit) op" where
  "PostTaskMicroBatchHook orc meta out = SignalMicroBatchComplete orc meta out"

section \<open>Local batches: lemmas\<close>

text \<open>An execution that returned or failed, as opposed to one that panicked.\<close>

definition returned :: "run_result \<Rightarrow> bool" where
  "returned r \<longleftrightarrow> (case r of Ok _ \<Rightarrow> True | Err _ \<Rightarrow> True | _ \<Rightarrow> False)"

text \<open>The invariant: the semaphore holds; a stored result comes from an execution of its item; every goroutine that finished before the flag was
  raised left a result; and the error that is kept comes from a stored result and, with \<open>StopOnError\<close>, is there as soon as one of them has an error.\<close>

definition slots_ok :: "'s local_job \<Rightarrow> 's local_batch \<Rightarrow> bool" where
  "slots_ok j b \<longleftrightarrow> length (lb_phases b) \<le> lj_count j \<and> (0 \<le> lj_slots j \<longrightarrow> int (holders b) \<le> lj_slots j)"

definition results_ok :: "'s local_job \<Rightarrow> 's local_batch \<Rightarrow> bool" where
  "results_ok j b \<longleftrightarrow> length (lb_results b) = lj_count j \<and>
    (\<forall>i q. i < lj_count j \<and> lb_results b ! i = Some q \<longrightarrow>
       (\<exists>s r s'. lj_execute j i s = Some (r, s') \<and> returned r \<and> q = goroutine_result j i r))"

definition finished_ok :: "'s local_batch \<Rightarrow> bool" where
  "finished_ok b \<longleftrightarrow> lb_stop b \<or> (\<forall>i<length (lb_phases b). lb_phases b ! i = Finished \<longrightarrow> lb_results b ! i \<noteq> None)"

definition error_ok :: "'s local_job \<Rightarrow> 's local_batch \<Rightarrow> bool" where
  "error_ok j b \<longleftrightarrow> (lb_stop b \<longleftrightarrow> lb_error b \<noteq> None) \<and>
    (case lb_error b of
       Some e \<Rightarrow> lj_stopOnError j \<and> (\<exists>i<lj_count j. \<exists>q x. lb_results b ! i = Some q \<and> br_Error q = Some x \<and>
         e = Wrapped (lj_what j @ itoa (int i)) x)
     | None \<Rightarrow> lj_stopOnError j \<longrightarrow> (\<forall>i<lj_count j. \<forall>q. lb_results b ! i = Some q \<longrightarrow> br_Error q = None))"

text \<open>A goroutine that is not finished has no result yet, so that a result is never overwritten.\<close>

definition fresh_ok :: "'s local_job \<Rightarrow> 's local_batch \<Rightarrow> bool" where
  "fresh_ok j b \<longleftrightarrow> (\<forall>i<lj_count j. (i < length (lb_phases b) \<longrightarrow> lb_phases b ! i \<noteq> Finished) \<longrightarrow> lb_results b ! i = None)"

definition local_inv :: "'s local_job \<Rightarrow> 's local_batch \<Rightarrow> bool" where
  "local_inv j b \<longleftrightarrow> slots_ok j b \<and> results_ok j b \<and> finished_ok b \<and> fresh_ok j b \<and> error_ok j b"

lemmas local_inv_defs = slots_ok_def results_ok_def finished_ok_def fresh_ok_def error_ok_def

lemma local_inv_init: "local_inv j (init_batch j s)"
  by (auto simp: local_inv_def local_inv_defs init_batch_def holders_def)

lemma sum_list_map_update:
  fixes f :: "'a \<Rightarrow> nat"
  shows "i < length xs \<Longrightarrow> sum_list (map f (xs[i := y])) + f (xs ! i) = sum_list (map f xs) + f y"
  using member_le_sum_list [of "f (xs ! i)" "map f xs"] by (simp add: map_update sum_list_update)

lemma holders_sum: "holders b = sum_list (map (\<lambda>p. if p = Holding then 1 else 0) (lb_phases b))"
proof -
  have "length (filter (\<lambda>p. p = Holding) ps) = sum_list (map (\<lambda>p. if p = Holding then 1 else 0) ps)" for ps
    by (induction ps) auto
  then show ?thesis by (simp add: holders_def)
qed

lemma holders_update:
  assumes "i < length (lb_phases b)"
  shows "int (holders (b\<lparr>lb_phases := (lb_phases b)[i := p]\<rparr>)) =
    int (holders b) + (if p = Holding then 1 else 0) - (if lb_phases b ! i = Holding then 1 else 0)"
  using sum_list_map_update [OF assms, of "\<lambda>p. if p = Holding then 1 else 0" p] by (auto simp: holders_sum split: if_splits)

lemma holders_cong: "lb_phases b = lb_phases c \<Longrightarrow> holders b = holders c"
  by (simp add: holders_def)

lemma inv_phases [simp]:
  "results_ok j (b\<lparr>lb_phases := ps\<rparr>) = results_ok j b" "error_ok j (b\<lparr>lb_phases := ps\<rparr>) = error_ok j b"
  by (simp_all add: results_ok_def error_ok_def split: option.split)

lemma local_inv_crash: "local_inv j (b\<lparr>lb_store := s, lb_crash := c\<rparr>) = local_inv j b"
  by (simp add: local_inv_def local_inv_defs holders_def split: option.split)

lemma local_inv_spawn:
  assumes "local_inv j b" and "length (lb_phases b) < lj_count j"
  shows "local_inv j (b\<lparr>lb_phases := lb_phases b @ [Blocked]\<rparr>)"
  using assms unfolding local_inv_def by (auto simp: local_inv_defs holders_def nth_append)

lemma local_inv_acquire:
  assumes inv: "local_inv j b" and i: "i < length (lb_phases b)" "lb_phases b ! i = Blocked" and slots: "int (holders b) < lj_slots j"
    and p: "p = (if lb_stop b then Finished else Holding)"
  shows "local_inv j (b\<lparr>lb_phases := (lb_phases b)[i := p]\<rparr>)"
proof -
  have "slots_ok j (b\<lparr>lb_phases := (lb_phases b)[i := p]\<rparr>)"
    using inv slots holders_update [OF i(1), of p] i(2) by (auto simp: local_inv_def slots_ok_def split: if_splits)
  moreover have "finished_ok (b\<lparr>lb_phases := (lb_phases b)[i := p]\<rparr>)"
    using inv p i(1) by (cases "lb_stop b") (auto simp: local_inv_def finished_ok_def nth_list_update)
  moreover have "fresh_ok j (b\<lparr>lb_phases := (lb_phases b)[i := p]\<rparr>)"
    using inv i by (auto simp: local_inv_def fresh_ok_def nth_list_update split: if_splits)
  ultimately show ?thesis using inv by (simp add: local_inv_def)
qed

lemma finish_returned:
  assumes "returned r"
  shows "finish_goroutine j i r s b =
    (let b1 = b\<lparr>lb_phases := (lb_phases b)[i := Finished], lb_store := s, lb_results := (lb_results b)[i := Some (goroutine_result j i r)]\<rparr>
     in case br_Error (goroutine_result j i r) of
          Some e \<Rightarrow>
            if lj_stopOnError j \<and> lb_error b = None
            then b1\<lparr>lb_error := Some (Wrapped (lj_what j @ itoa (int i)) e), lb_stop := True\<rparr> else b1
        | None \<Rightarrow> b1)"
  using assms by (cases r) (simp_all add: finish_goroutine_def returned_def Let_def)

lemma finish_simps:
  assumes "returned r"
  shows "lb_phases (finish_goroutine j i r s b) = (lb_phases b)[i := Finished]"
    and "lb_results (finish_goroutine j i r s b) = (lb_results b)[i := Some (goroutine_result j i r)]"
    and "lb_error (finish_goroutine j i r s b) =
      (case br_Error (goroutine_result j i r) of
         Some e \<Rightarrow> if lj_stopOnError j \<and> lb_error b = None then Some (Wrapped (lj_what j @ itoa (int i)) e) else lb_error b
       | None \<Rightarrow> lb_error b)"
    and "lb_stop (finish_goroutine j i r s b) \<longleftrightarrow>
      lb_stop b \<or> br_Error (goroutine_result j i r) \<noteq> None \<and> lj_stopOnError j \<and> lb_error b = None"
    and "lb_crash (finish_goroutine j i r s b) = lb_crash b"
  unfolding finish_returned [OF assms] by (auto simp: Let_def split: option.split)

lemma finish_panic:
  assumes "\<not> returned r"
  obtains m where "finish_goroutine j i r s b = b\<lparr>lb_store := s, lb_crash := Some m\<rparr>"
  using assms by (auto simp: finish_goroutine_def returned_def split: res.splits)

lemma results_ok_finish:
  assumes "results_ok j b" and run: "lj_execute j i (lb_store b) = Some (r, s)" "returned r"
  shows "results_ok j (finish_goroutine j i r s b)"
  unfolding results_ok_def finish_simps [OF run(2)]
proof (intro conjI allI impI)
  show "length ((lb_results b)[i := Some (goroutine_result j i r)]) = lj_count j" using assms(1) by (simp add: results_ok_def)
next
  fix k q
  assume k: "k < lj_count j \<and> (lb_results b)[i := Some (goroutine_result j i r)] ! k = Some q"
  show "\<exists>s r s'. lj_execute j k s = Some (r, s') \<and> returned r \<and> q = goroutine_result j k r"
  proof (cases "k = i")
    case True
    with k assms(1) have "q = goroutine_result j k r" by (auto simp: results_ok_def)
    with True run show ?thesis by blast
  next
    case False
    with k assms(1) show ?thesis by (simp add: results_ok_def)
  qed
qed

lemma error_ok_finish:
  assumes "error_ok j b" and "i < lj_count j" and "length (lb_results b) = lj_count j" and "lb_results b ! i = None" and "returned r"
  shows "error_ok j (finish_goroutine j i r s b)"
proof (cases "br_Error (goroutine_result j i r) \<noteq> None \<and> lj_stopOnError j \<and> lb_error b = None")
  case True
  then obtain e where "br_Error (goroutine_result j i r) = Some e" by blast
  then show ?thesis using True assms by (auto simp: error_ok_def finish_simps nth_list_update)
next
  case False
  then have same: "lb_error (finish_goroutine j i r s b) = lb_error b" "lb_stop (finish_goroutine j i r s b) = lb_stop b"
    using assms(5) by (auto simp: finish_simps split: option.split)
  show ?thesis
  proof (cases "lb_error b")
    case None
    then show ?thesis using False assms same by (auto simp: error_ok_def finish_simps nth_list_update)
  next
    case (Some e)
    then obtain k q x where k: "k < lj_count j" "lb_results b ! k = Some q" "br_Error q = Some x" "e = Wrapped (lj_what j @ itoa (int k)) x"
      and stop: "lj_stopOnError j" "lb_stop b"
      using assms(1) by (auto simp: error_ok_def)
    then have "k \<noteq> i" using assms(4) by auto
    with k have "lb_results (finish_goroutine j i r s b) ! k = Some q" using assms(5) by (simp add: finish_simps)
    then show ?thesis using k stop Some same by (auto simp: error_ok_def)
  qed
qed

lemma local_inv_finish:
  assumes inv: "local_inv j b" and i: "i < length (lb_phases b)" "lb_phases b ! i = Holding"
    and run: "lj_execute j i (lb_store b) = Some (r, s)"
  shows "local_inv j (finish_goroutine j i r s b)"
proof (cases "returned r")
  case True
  let ?b = "finish_goroutine j i r s b"
  have "int (holders ?b) = int (holders b) - 1"
    using holders_update [OF i(1), of Finished] i(2) finish_simps(1) [OF True, of j i s b] by (simp add: holders_def)
  then have "slots_ok j ?b" using inv by (auto simp: local_inv_def slots_ok_def finish_simps [OF True])
  moreover have len: "i < lj_count j" "length (lb_results b) = lj_count j" using inv i by (auto simp: local_inv_def slots_ok_def results_ok_def)
  moreover have "results_ok j ?b" using inv by (intro results_ok_finish [OF _ run True]) (simp add: local_inv_def)
  moreover have "finished_ok ?b" using inv len by (auto simp: local_inv_def finished_ok_def finish_simps [OF True] nth_list_update)
  moreover have "fresh_ok j ?b" using inv i by (auto simp: local_inv_def fresh_ok_def finish_simps [OF True] nth_list_update)
  moreover have "error_ok j ?b" using inv i len by (intro error_ok_finish [OF _ _ _ _ True]) (auto simp: local_inv_def fresh_ok_def)
  ultimately show ?thesis by (simp add: local_inv_def)
next
  case False
  then obtain m where "finish_goroutine j i r s b = b\<lparr>lb_store := s, lb_crash := Some m\<rparr>" by (rule finish_panic)
  then show ?thesis using inv by (simp add: local_inv_crash)
qed

lemma local_inv_move:
  assumes "local_inv j b" and "local_move j mv b = Some b'"
  shows "local_inv j b'"
  using assms local_inv_spawn [OF assms(1)] local_inv_acquire [OF assms(1) _ _ _ refl] local_inv_finish [OF assms(1)]
  by (auto simp: local_move_def split: if_splits move.splits)

lemma local_inv_moves: "local_moves j mvs b = Some b' \<Longrightarrow> local_inv j b \<Longrightarrow> local_inv j b'"
  by (induction mvs arbitrary: b) (auto split: option.splits dest: local_inv_move)

lemma local_moves_append:
  "local_moves j (xs @ ys) b = (case local_moves j xs b of None \<Rightarrow> None | Some b1 \<Rightarrow> local_moves j ys b1)"
  by (induction xs arbitrary: b) (auto split: option.split)

text \<open>The moves that are left: three for an item not yet started, then two, then one.\<close>

definition moves_left :: "'s local_job \<Rightarrow> 's local_batch \<Rightarrow> nat" where
  "moves_left j b = 3 * (lj_count j - length (lb_phases b)) +
    sum_list (map (\<lambda>p. case p of Blocked \<Rightarrow> 2 | Holding \<Rightarrow> 1 | Finished \<Rightarrow> 0) (lb_phases b))"

definition executions_return :: "'s local_job \<Rightarrow> bool" where
  "executions_return j \<longleftrightarrow> (\<forall>i<lj_count j. \<forall>s. \<exists>r s'. lj_execute j i s = Some (r, s') \<and> returned r)"

lemma local_move_decreases:
  assumes "executions_return j" and "local_inv j b" and "local_move j mv b = Some b'"
  shows "moves_left j b' < moves_left j b \<and> lb_crash b' = None"
proof (cases mv)
  case Spawn
  then show ?thesis using assms(3) by (auto simp: local_move_def moves_left_def split: if_splits)
next
  case (Acquire i)
  with assms(3) have i: "i < length (lb_phases b)" "lb_phases b ! i = Blocked" "lb_crash b = None"
      "b' = b\<lparr>lb_phases := (lb_phases b)[i := (if lb_stop b then Finished else Holding)]\<rparr>"
    by (auto simp: local_move_def split: if_splits)
  then show ?thesis
    using sum_list_map_update [OF i(1), of "\<lambda>p. case p of Blocked \<Rightarrow> 2 | Holding \<Rightarrow> 1 | Finished \<Rightarrow> 0" "if lb_stop b then Finished else Holding"]
    by (auto simp: moves_left_def split: if_splits)
next
  case (Finish i)
  with assms(3) obtain r s where i: "i < length (lb_phases b)" "lb_phases b ! i = Holding" "lb_crash b = None"
      "lj_execute j i (lb_store b) = Some (r, s)" "b' = finish_goroutine j i r s b"
    by (auto simp: local_move_def split: if_splits)
  moreover have "i < lj_count j" using assms(2) i(1) by (simp add: local_inv_def slots_ok_def)
  ultimately have "returned r" using assms(1) unfolding executions_return_def by (metis option.inject prod.inject)
  then show ?thesis
    using i sum_list_map_update [OF i(1), of "\<lambda>p. case p of Blocked \<Rightarrow> 2 | Holding \<Rightarrow> 1 | Finished \<Rightarrow> 0" Finished]
    by (simp add: moves_left_def finish_simps)
qed

lemma local_moves_bound:
  assumes "executions_return j"
  shows "local_inv j b \<Longrightarrow> lb_crash b = None \<Longrightarrow> local_moves j mvs b = Some b' \<Longrightarrow>
    length mvs + moves_left j b' \<le> moves_left j b \<and> lb_crash b' = None"
proof (induction mvs arbitrary: b)
  case (Cons mv mvs)
  then obtain b1 where b1: "local_move j mv b = Some b1" "local_moves j mvs b1 = Some b'" by (auto split: option.splits)
  with Cons.IH [of b1] local_move_decreases [OF assms Cons.prems(1) b1(1)] local_inv_move [OF Cons.prems(1) b1(1)] show ?case by auto
qed simp

lemma local_progress:
  assumes "executions_return j" and "0 < lj_slots j" and inv: "local_inv j b" and "lb_crash b = None" and "\<not> local_done j b"
  obtains mv b' where "local_move j mv b = Some b'"
proof -
  consider (holding) i where "i < length (lb_phases b)" "lb_phases b ! i = Holding"
    | (blocked) i where "i < length (lb_phases b)" "lb_phases b ! i = Blocked" "Holding \<notin> set (lb_phases b)"
    | (finished) "\<forall>p\<in>set (lb_phases b). p = Finished"
    by (metis in_set_conv_nth phase.exhaust)
  then show thesis
  proof cases
    case holding
    moreover have "i < lj_count j" using inv holding(1) by (simp add: local_inv_def slots_ok_def)
    ultimately show thesis using assms(1,4) that [of "Finish i"] by (fastforce simp: executions_return_def local_move_def)
  next
    case blocked
    then have "holders b = 0" by (auto simp: holders_def filter_empty_conv)
    then show thesis using blocked assms(2,4) that [of "Acquire i"] by (simp add: local_move_def)
  next
    case finished
    moreover have "length (lb_phases b) \<le> lj_count j" using inv by (simp add: local_inv_def slots_ok_def)
    ultimately show thesis using assms(4,5) that [of Spawn] by (simp add: local_move_def local_done_def)
  qed
qed

lemma local_completes:
  assumes "executions_return j" and "0 < lj_slots j"
  shows "local_inv j b \<Longrightarrow> lb_crash b = None \<Longrightarrow> \<exists>mvs b'. local_moves j mvs b = Some b' \<and> local_done j b'"
proof (induction "moves_left j b" arbitrary: b rule: less_induct)
  case less
  show ?case
  proof (cases "local_done j b")
    case True
    then show ?thesis by (intro exI [of _ "[]"]) simp
  next
    case False
    then obtain mv b1 where b1: "local_move j mv b = Some b1" using local_progress [OF assms less.prems] by blast
    with local_move_decreases [OF assms(1) less.prems(1) b1] local_inv_move [OF less.prems(1) b1] less.hyps
    obtain mvs b' where "local_moves j mvs b1 = Some b'" "local_done j b'" by blast
    with b1 show ?thesis by (intro exI [of _ "mv # mvs"]) simp
  qed
qed

text \<open>Without a slot no goroutine gets past the semaphore.\<close>

lemma no_slots_blocked:
  assumes "lj_slots j = 0"
  shows "local_moves j mvs b = Some b' \<Longrightarrow> set (lb_phases b) \<subseteq> {Blocked} \<Longrightarrow> \<not> lb_stop b \<Longrightarrow> lb_crash b = None \<Longrightarrow>
    set (lb_phases b') \<subseteq> {Blocked} \<and> \<not> lb_stop b' \<and> lb_crash b' = None"
proof (induction mvs arbitrary: b)
  case (Cons mv mvs)
  then obtain b1 where b1: "local_move j mv b = Some b1" "local_moves j mvs b1 = Some b'" by (auto split: option.splits)
  from b1(1) Cons.prems(2-4) assms have "set (lb_phases b1) \<subseteq> {Blocked} \<and> \<not> lb_stop b1 \<and> lb_crash b1 = None"
    by (auto simp: local_move_def split: if_splits move.splits dest: nth_mem)
  with Cons.IH b1(2) show ?case by blast
qed simp

lemma run_local_Ok:
  assumes "run_local j schedule s = Some (Ok (results, e), s')"
  obtains b where "local_inv j b" "local_done j b" "results = lb_results b" "e = lb_error b"
  using assms local_inv_moves [OF _ local_inv_init] that by (fastforce simp: run_local_def split: if_splits option.splits)

text \<open>Bookkeeping of a local batch that has ended, whatever its items are.\<close>

lemma run_local_results:
  assumes "run_local j schedule s = Some (Ok (results, e), s')"
  shows "length results = lj_count j"
    and "i < lj_count j \<Longrightarrow> results ! i = Some q \<Longrightarrow> \<exists>s1 r s2. lj_execute j i s1 = Some (r, s2) \<and> returned r \<and> q = goroutine_result j i r"
    and "e = None \<Longrightarrow> None \<notin> set results"
    and "e \<noteq> None \<longleftrightarrow> lj_stopOnError j \<and> (\<exists>i<lj_count j. \<exists>q x. results ! i = Some q \<and> br_Error q = Some x)"
    and "e = Some err \<Longrightarrow> \<exists>i<lj_count j. \<exists>q x. results ! i = Some q \<and> br_Error q = Some x \<and> err = Wrapped (lj_what j @ itoa (int i)) x"
proof -
  obtain b where b: "local_inv j b" "local_done j b" "results = lb_results b" "e = lb_error b" using assms by (rule run_local_Ok)
  show len: "length results = lj_count j"
    and "i < lj_count j \<Longrightarrow> results ! i = Some q \<Longrightarrow> \<exists>s1 r s2. lj_execute j i s1 = Some (r, s2) \<and> returned r \<and> q = goroutine_result j i r"
    and "e = Some err \<Longrightarrow> \<exists>i<lj_count j. \<exists>q x. results ! i = Some q \<and> br_Error q = Some x \<and> err = Wrapped (lj_what j @ itoa (int i)) x"
    using b by (auto simp: local_inv_def results_ok_def error_ok_def)
  show "e \<noteq> None \<longleftrightarrow> lj_stopOnError j \<and> (\<exists>i<lj_count j. \<exists>q x. results ! i = Some q \<and> br_Error q = Some x)"
    using b by (cases "lb_error b") (auto simp: local_inv_def error_ok_def)
  show "None \<notin> set results" if "e = None"
  proof -
    have "length (lb_phases b) = lj_count j" "\<not> lb_stop b" using b that by (auto simp: local_inv_def error_ok_def local_done_def)
    then have "\<forall>i<lj_count j. lb_results b ! i \<noteq> None" using b by (auto simp: local_inv_def finished_ok_def local_done_def)
    then show ?thesis using len b(3) by (metis in_set_conv_nth)
  qed
qed

section \<open>Properties of local batches\<close>

text \<open>A repository without records, whose executions have empty outputs, and an engine on it without a queue.\<close>

definition blank_repository :: "unit repository" where
  "blank_repository =
    \<lparr>rp_SaveExecution = (\<lambda>_. op_return (Ok ())), rp_GetExecution = (\<lambda>_. op_return (Err (ErrorNew ''not found''))),
     rp_GetExecutionByName = (\<lambda>_ _. op_return (Err (ErrorNew ''not found''))), rp_SaveStateHistory = (\<lambda>_. op_return (Ok ())),
     rp_GetStateHistory = (\<lambda>_. op_return (Ok [])), rp_GetExecutionOutput = (\<lambda>_ _. op_return (Ok GNil)),
     rp_SaveLinkedExecution = (\<lambda>_. op_return (Ok ())), rp_SaveStateMachine = (\<lambda>_. op_return (Ok ())),
     rp_GetStateMachine = (\<lambda>_. op_return (Err (ErrorNew ''not found''))), rp_ListExecutionIDs = (\<lambda>_. op_return (Ok [])),
     rp_ListNonLinkedExecutions = (\<lambda>_ _. op_return (Ok [])), rp_FindOrphanedExecutions = (\<lambda>_ _. op_return (Ok [])), rp_messages = False,
     rp_SaveMessageCorrelation = (\<lambda>_. op_return (Ok ())), rp_GetMessageCorrelation = (\<lambda>_. op_return (Err (ErrorNew ''not found''))),
     rp_FindWaitingCorrelations = (\<lambda>_. op_return (Ok [])), rp_UpdateCorrelationStatus = (\<lambda>_ _. op_return (Ok ())),
     rp_DeleteMessageCorrelation = (\<lambda>_. op_return (Ok ())), rp_ListTimedOutCorrelations = (\<lambda>_. op_return (Ok []))\<rparr>"

definition blank_engine :: "unit persistent" where
  "blank_engine = \<lparr>ps_machine = machine ''A'' pass_machine, ps_repository = blank_repository, ps_stateMachineID = ''m1'', ps_queueClient = None\<rparr>"

definition slots_options :: "int \<Rightarrow> batch_execution_options" where
  "slots_options n = (default_batch_options 0)\<lparr>bo_NamePrefix := ''b'', bo_ConcurrentBatches := n, bo_StopOnError := True\<rparr>"

abbreviation sample_runs :: "nat \<Rightarrow> env \<times> string" where
  "sample_runs i \<equiv> (quiet_env, execution_name ''x'' i)"

text \<open>C13: The results of a local batch, for every schedule of its goroutines. There is a slot per source execution; a result that is stored names its source
  and its index, and is what the engine returned for that source under the name with that index; without an error of the batch none is
  missing; the batch has an error exactly with \<open>StopOnError\<close> and an execution that failed, and it is the error of one of these.\<close>

theorem executeBatchLocal_results:
  assumes "executeBatchLocal schedule fuel runs pm ids sourceStateName opts execOpts s = Some (Ok (results, e), s')"
  shows "length results = length ids \<and>
    (\<forall>i<length ids. \<forall>q. results ! i = Some q \<longrightarrow> br_SourceExecutionID q = ids ! i \<and> br_Index q = int i \<and>
       (\<exists>s1 r s2. Persistent_Execute fuel (fst (runs i)) (snd (runs i)) pm (InputValue GNil)
           (execOpts @ [WithExecutionName (execution_name (bo_NamePrefix opts) i), WithSourceExecution (ids ! i) [sourceStateName]]) s1 = Some (r, s2) \<and>
         (r = Err (the (br_Error q)) \<and> br_Execution q = None \<and> br_Error q \<noteq> None \<or>
          r = Ok (the (br_Execution q), br_Error q) \<and> br_Execution q \<noteq> None))) \<and>
    (e = None \<longrightarrow> None \<notin> set results) \<and>
    (e \<noteq> None \<longleftrightarrow> bo_StopOnError opts \<and> (\<exists>i<length ids. \<exists>q x. results ! i = Some q \<and> br_Error q = Some x)) \<and>
    (\<forall>err. e = Some err \<longrightarrow> (\<exists>i<length ids. \<exists>q x. results ! i = Some q \<and> br_Error q = Some x \<and>
       err = Wrapped (''batch execution failed at index '' @ itoa (int i)) x))"
proof -
  let ?j = "batch_job fuel runs pm ids sourceStateName opts execOpts"
  note ran = run_local_results [OF assms [unfolded executeBatchLocal_def]]
  note job = batch_job_def [of fuel runs pm ids sourceStateName opts execOpts]
  show ?thesis
  proof (intro conjI allI impI)
    fix i q
    assume i: "i < length ids" "results ! i = Some q"
    then obtain s1 r s2 where r: "lj_execute ?j i s1 = Some (r, s2)" "returned r" "q = goroutine_result ?j i r"
      using ran(2) [of i q] by (auto simp: job)
    then show "br_SourceExecutionID q = ids ! i" "br_Index q = int i" by (simp_all add: goroutine_result_def job)
    have "r = Err (the (br_Error q)) \<and> br_Execution q = None \<and> br_Error q \<noteq> None \<or>
        r = Ok (the (br_Execution q), br_Error q) \<and> br_Execution q \<noteq> None"
      using r(2,3) by (auto simp: returned_def goroutine_result_def split: res.splits)
    with r(1) show "\<exists>s1 r s2. Persistent_Execute fuel (fst (runs i)) (snd (runs i)) pm (InputValue GNil)
        (execOpts @ [WithExecutionName (execution_name (bo_NamePrefix opts) i), WithSourceExecution (ids ! i) [sourceStateName]]) s1 = Some (r, s2) \<and>
      (r = Err (the (br_Error q)) \<and> br_Execution q = None \<and> br_Error q \<noteq> None \<or>
       r = Ok (the (br_Execution q), br_Error q) \<and> br_Execution q \<noteq> None)" by (auto simp: job)
  qed (use ran(1,3,4,5) in \<open>simp_all add: job\<close>)
qed

definition result_summary :: "(batch_results res \<times> 's) option \<Rightarrow> ((int \<times> string) option list \<times> bool) option" where
  "result_summary r =
    (case r of
       Some (Ok (results, e), _) \<Rightarrow>
         Some (map (map_option (\<lambda>q. (br_Index q, case br_Execution q of Some x \<Rightarrow> Status x | None \<Rightarrow> []))) results, e = None)
     | _ \<Rightarrow> None)"

lemma sample_batch_run:
  "result_summary (executeBatchLocal [Spawn, Spawn, Acquire 1, Acquire 0, Finish 1, Finish 0] 5 sample_runs blank_engine [''s0'', ''s1''] []
     (slots_options 2) [] ()) = Some ([Some (0, ''SUCCEEDED''), Some (1, ''SUCCEEDED'')], True)"
  by code_simp

theorem executeBatchLocal_results_witness:
  "\<exists>results s'. executeBatchLocal [Spawn, Spawn, Acquire 1, Acquire 0, Finish 1, Finish 0] 5 sample_runs blank_engine [''s0'', ''s1''] []
     (slots_options 2) [] () = Some (Ok (results, None), s') \<and> length results = 2 \<and> None \<notin> set results"
proof -
  obtain results s' where run: "executeBatchLocal [Spawn, Spawn, Acquire 1, Acquire 0, Finish 1, Finish 0] 5 sample_runs blank_engine
      [''s0'', ''s1''] [] (slots_options 2) [] () = Some (Ok (results, None), s')"
    using sample_batch_run by (auto simp: result_summary_def split: option.splits res.splits)
  with executeBatchLocal_results [OF run] show ?thesis by simp
qed

text \<open>C12: When a local batch ends. If every execution returns, then with at least one slot the goroutines cannot block each other: every sequence of moves
  has at most three per source execution and can be continued to the end of the batch. With no slot, which the options describe as sequential
  execution, no sequence of moves ends it; only a negative number panics at once.\<close>

theorem executeBatchLocal_terminates:
  fixes fuel runs pm ids sourceStateName opts execOpts
  defines "j \<equiv> batch_job fuel runs pm ids sourceStateName opts execOpts"
  assumes "executions_return j" and "ids \<noteq> []"
  shows "(0 < bo_ConcurrentBatches opts \<longrightarrow> (\<forall>mvs b. local_moves j mvs (init_batch j s) = Some b \<longrightarrow> length mvs \<le> 3 * length ids \<and>
      (\<exists>rest results e s'. executeBatchLocal (mvs @ rest) fuel runs pm ids sourceStateName opts execOpts s = Some (Ok (results, e), s')))) \<and>
    (bo_ConcurrentBatches opts = 0 \<longrightarrow> (\<forall>schedule. executeBatchLocal schedule fuel runs pm ids sourceStateName opts execOpts s = None)) \<and>
    (bo_ConcurrentBatches opts < 0 \<longrightarrow> (\<forall>schedule. executeBatchLocal schedule fuel runs pm ids sourceStateName opts execOpts s =
      Some (Panic ''makechan: size out of range'', s)))"
proof -
  have j: "lj_slots j = bo_ConcurrentBatches opts" "lj_count j = length ids" by (simp_all add: j_def batch_job_def)
  have run: "executeBatchLocal schedule fuel runs pm ids sourceStateName opts execOpts s = run_local j schedule s" for schedule
    by (simp add: executeBatchLocal_def j_def)
  have "length mvs \<le> 3 * length ids \<and> (\<exists>rest results e s'. run_local j (mvs @ rest) s = Some (Ok (results, e), s'))"
    if slots: "0 < lj_slots j" and mvs: "local_moves j mvs (init_batch j s) = Some b" for mvs b
  proof
    have bound: "length mvs + moves_left j b \<le> moves_left j (init_batch j s) \<and> lb_crash b = None"
      using local_moves_bound [OF assms(2) local_inv_init _ mvs] by (simp add: init_batch_def)
    then show "length mvs \<le> 3 * length ids" by (simp add: moves_left_def init_batch_def j(2))
    have "\<exists>rest b'. local_moves j rest b = Some b' \<and> local_done j b'"
      using bound by (intro local_completes [OF assms(2) slots local_inv_moves [OF mvs local_inv_init]]) simp
    then obtain rest b' where "local_moves j rest b = Some b'" "local_done j b'" by blast
    then show "\<exists>rest results e s'. run_local j (mvs @ rest) s = Some (Ok (results, e), s')"
      using slots mvs by (intro exI [of _ rest]) (simp add: run_local_def local_moves_append local_done_def)
  qed
  moreover have "run_local j schedule s = None" if slots: "lj_slots j = 0" for schedule
  proof (cases "local_moves j schedule (init_batch j s)")
    case (Some b)
    from no_slots_blocked [OF slots this] have b: "set (lb_phases b) \<subseteq> {Blocked}" "\<not> lb_stop b" "lb_crash b = None"
      by (simp_all add: init_batch_def)
    then have "\<not> local_done j b" using assms(3) j(2) by (cases "lb_phases b") (auto simp: local_done_def)
    then show ?thesis using Some b(3) slots by (simp add: run_local_def)
  qed (simp add: run_local_def slots)
  moreover have "run_local j schedule s = Some (Panic ''makechan: size out of range'', s)" if "lj_slots j < 0" for schedule
    using that by (simp add: run_local_def)
  ultimately show ?thesis unfolding run j(1) by blast
qed

lemma sample_executions_return: "executions_return (batch_job 5 sample_runs blank_engine [''s0''] [] (slots_options n) [])"
proof -
  have "map_option (returned \<circ> fst) (lj_execute (batch_job 5 sample_runs blank_engine [''s0''] [] (slots_options 1) []) 0 ()) = Some True"
    by code_simp
  moreover have "lj_execute (batch_job 5 sample_runs blank_engine [''s0''] [] (slots_options n) []) =
      lj_execute (batch_job 5 sample_runs blank_engine [''s0''] [] (slots_options 1) [])"
    by (simp add: batch_job_def slots_options_def)
  ultimately show ?thesis by (auto simp: executions_return_def batch_job_def)
qed

theorem executeBatchLocal_terminates_witness:
  "(\<forall>schedule. executeBatchLocal schedule 5 sample_runs blank_engine [''s0''] [] (slots_options 0) [] () = None) \<and>
   (\<exists>schedule results e s'. executeBatchLocal schedule 5 sample_runs blank_engine [''s0''] [] (slots_options 1) [] () = Some (Ok (results, e), s'))"
  using executeBatchLocal_terminates [OF sample_executions_return [of 0], of "()"]
    executeBatchLocal_terminates [OF sample_executions_return [of 1], of "()"]
  by (fastforce simp: slots_options_def dest: spec [of _ "[]"])

section \<open>A batch that was halted\<close>

text \<open>The states that a run has left are not ends.\<close>

definition left_states :: "state_machine \<Rightarrow> execution \<Rightarrow> 's pconfig \<Rightarrow> bool" where
  "left_states sm x0 c \<longleftrightarrow> (\<exists>h. History (pc_Exec c) = History x0 @ h \<and>
    (\<forall>a\<in>set h. \<exists>st. map_of (sm_States sm) (sh_StateName a) = Some st \<and> \<not> IsEnd st))"

lemma left_states_step:
  assumes "left_states (ps_machine pm) x0 c" and "prun_once f env pm c = Some (Inl c')"
  shows "left_states (ps_machine pm) x0 c'"
  using assms(2,1) by (elim prun_once_Inl) (auto simp: left_states_def)

lemma Persistent_RunExecution_left:
  assumes "Persistent_RunExecution fuel env pm input x0 s = Some r"
  obtains c g where "left_states (ps_machine pm) x0 c" "prun_once g env pm c = Some (Inr r)"
proof -
  let ?c = "\<lparr>pc_step = 0, pc_StateName = CurrentState x0, pc_Exec = (if input \<noteq> GNil then x0\<lparr>Input := input\<rparr> else x0), pc_Store = s\<rparr>"
  from assms obtain c g where c: "(\<lambda>a b. \<exists>n. prun_once n env pm a = Some (Inl b))\<^sup>*\<^sup>* ?c c" "prun_once g env pm c = Some (Inr r)"
    unfolding prun_start using prun.loop_trace by blast
  have "left_states (ps_machine pm) x0 ?c" by (simp add: left_states_def)
  with c(1) have "left_states (ps_machine pm) x0 c" by (induction rule: rtranclp_induct) (auto intro: left_states_step)
  with c(2) that show thesis by blast
qed

lemma Fail_state_ends:
  assumes "Persistent_RunExecution fuel env pm input x0 s = Some (Ok (x, e), s')" and "History x = History x0 @ h @ [a]"
    and "map_of (sm_States (ps_machine pm)) (sh_StateName a) = Some (FailState f)" and "Status x \<noteq> ''PAUSED''"
  shows "e = None \<and> Status x = ''SUCCEEDED'' \<and> (\<exists>s1. s' = persistExecution pm x s1)"
proof -
  obtain c g where c: "left_states (ps_machine pm) x0 c" "prun_once g env pm c = Some (Inr (Ok (x, e), s'))"
    using assms(1) by (rule Persistent_RunExecution_left)
  have "IsEnd (FailState f)" by (simp add: FailState_IsEnd_def)
  then have new: "History x \<noteq> History (pc_Exec c)" using c(1) assms(2,3) by (auto simp: left_states_def)
  from c(2) show ?thesis
  proof (cases rule: prun_once_Inr)
    case (cancelled err)
    with new show ?thesis by simp
  next
    case (missing err)
    with new show ?thesis by (auto simp: fail_execution_def MarkFailed_def Let_def)
  next
    case (waiting st out nx err)
    with assms(4) show ?thesis by (auto simp: handleWaitingState_def Let_def)
  next
    case (stopped st out nx err)
    have "sh_StateName a = pc_StateName c"
      using stopped(3) assms(2) c(1) by (auto simp: advance_def fail_execution_def MarkFailed_def Let_def left_states_def split: option.splits if_splits res.splits)
    with stopped assms(3) show ?thesis
      by (auto simp: executeStateWithRecovery_def state_defs advance_def Let_def FailState_IsEnd_def)
  qed
qed

text \<open>C14: A batch that was halted counts as a success. The orchestrator stops a batch, for a severe failure rate or an error, by going to a Fail state. A run of
  the persistent engine whose last state is a Fail state ends SUCCEEDED without an error, stores this, and both ways in which the goroutine of the launch
  learns of the end report success: from the run itself, and from polling the stored record.\<close>

theorem halted_batch_reported_complete:
  assumes "Persistent_RunExecution fuel env pm input x0 s = Some (Ok (x, e), s')" and "History x = History x0 @ h @ [a]"
    and "map_of (sm_States (ps_machine pm)) (sh_StateName a) = Some (FailState f)" and "Status x \<noteq> ''PAUSED''"
  shows "e = None \<and> Status x = ''SUCCEEDED'' \<and> (\<exists>s1. s' = persistExecution pm x s1) \<and>
    await_orchestrator n cancelled pm (Ok (x, e)) s' = Some (Ok (), s') \<and>
    (\<forall>rec t t1. rp_GetExecution (ps_repository pm) (ID x) t = (Ok rec, t1) \<and> er_Status rec = Status x \<longrightarrow>
       cancelled 0 = None \<longrightarrow> waitForTermination (Suc n) cancelled (ps_repository pm) (ID x) 0 t = Some (Ok (), t1))"
  using Fail_state_ends [OF assms] by (simp add: await_orchestrator_def)

definition halting_engine :: "(gval db \<times> aq_state) persistent" where
  "halting_engine = (engine plain_pg ''F'' [])\<lparr>ps_machine := fail_machine\<rparr>"

lemma halting_run:
  "pobserve (\<lambda>x e s. (map sh_StateName (History x), Status x, map xr_status (db_executions (fst s))))
     (Persistent_RunExecution 5 quiet_env halting_engine GNil (start ''F'' GNil) empty_store) = Some ([''F''], ''SUCCEEDED'', [''SUCCEEDED''])"
  by code_simp

theorem halted_batch_reported_complete_witness:
  "\<exists>x s. Persistent_RunExecution 5 quiet_env halting_engine GNil (start ''F'' GNil) empty_store = Some (Ok (x, None), s) \<and>
     await_orchestrator 0 (\<lambda>_. None) halting_engine (Ok (x, None)) s = Some (Ok (), s)"
proof -
  obtain x e s where run: "Persistent_RunExecution 5 quiet_env halting_engine GNil (start ''F'' GNil) empty_store = Some (Ok (x, e), s)"
    and x: "map sh_StateName (History x) = [''F'']" "Status x = ''SUCCEEDED''"
    using halting_run by (auto simp: pobserve_Some)
  then obtain a where "History x = History (start ''F'' GNil) @ [] @ [a]" "sh_StateName a = ''F''" by (auto simp: start_def NewContext_def)
  then show ?thesis
    using halted_batch_reported_complete [OF run, where n = 0 and cancelled = "\<lambda>_. None"] run x(2)
    by (auto simp: halting_engine_def fail_machine_def machine_def)
qed

end
