(* ===== verification/Handler.thy ===== *)
theory Handler
  imports BatchExecution
begin

text \<open>
  The handler behind the queue's worker (\<open>pkg/handler/execution_handler.go\<close>): it loads the machine of a task, runs or resumes an execution on the
  persistent engine, and reports the outcome of a micro-batch task to the barrier. The execution context that the
  handler adds to the Go context is the part of the environment that answers task handlers. An operation is \<open>None\<close> when
  the run of an execution does not end within the fuel. A batch task runs its tasks on goroutines; the model runs them one after
  the other, in the order in which they finish. A payload never holds a byte slice, which only a caller inside the process could put there.
\<close>

section \<open>The handler\<close>

record ('r, 's) handler =
  hn_newSM :: "string \<Rightarrow> state_machine res"
  hn_now :: int
  hn_json :: batch_json
  hn_repositoryManager :: "'s repository"
  hn_queueClient :: "'s queue_client option"
  hn_orchestrator :: "('r, 's) orchestrator option"

text \<open>Operations that may not end.\<close>

type_synonym ('w, 'a) run_op = "'w \<Rightarrow> ('a res \<times> 'w) option"

definition run_bind :: "('w, 'a) op \<Rightarrow> ('a \<Rightarrow> ('w, 'b) run_op) \<Rightarrow> ('w, 'b) run_op" where
  "run_bind f g w =
    (case f w of
       (Ok a, w1) \<Rightarrow> g a w1
     | (Err e, w1) \<Rightarrow> Some (Err e, w1)
     | (Panic m, w1) \<Rightarrow> Some (Panic m, w1)
     | (Crash m, w1) \<Rightarrow> Some (Crash m, w1))"

definition run_done :: "('w, 'a) op \<Rightarrow> ('w, 'a) run_op" where
  "run_done f w = Some (f w)"

definition load_machine :: "('r, 's) handler \<Rightarrow> string \<Rightarrow> (('r, 's) world, 's persistent) op" where
  "load_machine h stateMachineID =
    op_bind (op_wrap ''failed to load state machine''
        (on_back (NewFromDefnId (hn_newSM h) (hn_now h) (hn_repositoryManager h) stateMachineID))) (\<lambda>sm.
      op_return (Ok (sm\<lparr>ps_queueClient := hn_queueClient h\<rparr>)))"

text \<open>A method of a nil \<open>*Orchestrator\<close> dereferences it.\<close>

definition processBatchBarrier ::
  "('r, 's) handler \<Rightarrow> execution_task_payload \<Rightarrow> err option \<Rightarrow> (('r, 's) world, unit) op" where
  "processBatchBarrier h payload err =
    (case WorkerExtractMeta (hn_json h) (ep_Input payload) of
       None \<Rightarrow> op_return (Ok ())
     | Some meta \<Rightarrow>
         (case hn_orchestrator h of
            None \<Rightarrow> op_return (Panic ''runtime error: invalid memory address or nil pointer dereference'')
          | Some orc \<Rightarrow>
              SignalMicroBatchComplete orc meta
                \<lparr>to_BatchID = mm_BatchID meta, to_MicroBatchID = mm_MicroBatchID meta, to_TaskID = ep_SourceExecutionID payload,
                 to_Success = (err = None), to_Error = [], to_Duration = 0, to_CompletedAt = hn_now h\<rparr>))"

definition task_options :: "execution_task_payload \<Rightarrow> (execution_config \<Rightarrow> execution_config) list" where
  "task_options payload =
    [WithExecutionName (ep_ExecutionName payload)] @
    (if ep_SourceExecutionID payload \<noteq> [] then
       [WithSourceExecution (ep_SourceExecutionID payload) [ep_SourceStateName payload], WithUniqueness (ep_ApplyUnique payload),
        WithInputTransformerName (ep_InputTransformerName payload)]
     else [])"

text \<open>The input of the execution: the output of the source execution, or the input in the payload.\<close>

definition source_input :: "('r, 's) handler \<Rightarrow> execution_task_payload \<Rightarrow> (('r, 's) world, gval) op" where
  "source_input h payload =
    (if ep_SourceExecutionID payload \<noteq> []
     then on_back (rp_GetExecutionOutput (hn_repositoryManager h) (ep_SourceExecutionID payload) (ep_SourceStateName payload))
     else op_return (Ok (ep_Input payload)))"

definition execute_task ::
  "nat \<Rightarrow> env \<times> string \<Rightarrow> 's persistent \<Rightarrow> gval \<Rightarrow> execution_task_payload \<Rightarrow> ('r, 's) world \<Rightarrow> (run_result \<times> ('r, 's) world) option" where
  "execute_task fuel run sm input payload w =
    map_option (\<lambda>(r, s). (r, w\<lparr>w_back := s\<rparr>))
      (Persistent_Execute fuel (fst run) (snd run) sm (InputValue input) (task_options payload) (w_back w))"

text \<open>The error that \<open>Execute\<close> returns, and what the handler makes of the execution once the barrier is done.\<close>

definition execute_error :: "run_result \<Rightarrow> err option" where
  "execute_error r = (case r of Ok (x, e) \<Rightarrow> e | Err e \<Rightarrow> Some e | _ \<Rightarrow> None)"

definition task_verdict :: "run_result \<Rightarrow> unit res" where
  "task_verdict r =
    (case r of
       Err e \<Rightarrow> Err (Wrapped ''execution failed'' e)
     | Ok (x, Some e) \<Rightarrow> Err (Wrapped ''execution failed'' e)
     | Ok (x, None) \<Rightarrow>
         if Status x = ''FAILED''
         then Err (ErrorNew (''execution completed with FAILED status: '' @ (case ExecError x of Some e \<Rightarrow> Error e | None \<Rightarrow> ''<nil>'')))
         else Ok ()
     | Panic m \<Rightarrow> Panic m
     | Crash m \<Rightarrow> Crash m)"

definition handleRegularExecution ::
  "nat \<Rightarrow> env \<times> string \<Rightarrow> ('r, 's) handler \<Rightarrow> 's persistent \<Rightarrow> execution_task_payload \<Rightarrow> (('r, 's) world, unit) run_op" where
  "handleRegularExecution fuel run h sm payload w =
    (case source_input h payload w of
       (Err e, w1) \<Rightarrow>
         run_bind (op_wrap ''failed to processBatch Barrier'' (processBatchBarrier h payload (Some e)))
           (\<lambda>_. run_done (op_return (Err (Wrapped ''failed to get source execution output'' e)))) w1
     | (Panic m, w1) \<Rightarrow> Some (Panic m, w1)
     | (Crash m, w1) \<Rightarrow> Some (Crash m, w1)
     | (Ok input, w1) \<Rightarrow>
         (case execute_task fuel run sm input payload w1 of
            None \<Rightarrow> None
          | Some (Panic m, w2) \<Rightarrow> Some (Panic m, w2)
          | Some (Crash m, w2) \<Rightarrow> Some (Crash m, w2)
          | Some (r, w2) \<Rightarrow>
              run_bind (processBatchBarrier h payload (execute_error r)) (\<lambda>_. run_done (op_return (task_verdict r))) w2))"

section \<open>Timeouts\<close>

definition trigger_timeout :: "nat \<Rightarrow> env \<Rightarrow> 's persistent \<Rightarrow> string \<Rightarrow> (('r, 's) world, unit) run_op" where
  "trigger_timeout fuel env sm correlationID w =
    map_option (\<lambda>(r, s). (r, w\<lparr>w_back := s\<rparr>)) (ProcessTimeoutTrigger fuel env sm correlationID (w_back w))"

definition waiting_correlation :: "('r, 's) handler \<Rightarrow> string \<Rightarrow> (('r, 's) world, unit) op" where
  "waiting_correlation h correlationID =
    op_bind (op_wrap ''failed to get correlation record''
        (on_back (Manager_GetMessageCorrelation (hn_repositoryManager h) correlationID))) (\<lambda>corr.
      op_return (if mc_Status corr \<noteq> ''WAITING'' then Err (ErrorNew ''correlation already processed'') else Ok ()))"

definition handleTimeoutExecution ::
  "nat \<Rightarrow> env \<Rightarrow> ('r, 's) handler \<Rightarrow> 's persistent \<Rightarrow> execution_task_payload \<Rightarrow> (('r, 's) world, unit) run_op" where
  "handleTimeoutExecution fuel env h sm payload =
    (if ep_CorrelationID payload = [] then run_done (op_return (Err (ErrorNew ''correlation ID is required for timeout execution'')))
     else run_bind (waiting_correlation h (ep_CorrelationID payload)) (\<lambda>_.
       run_bind (op_wrap ''failed to get execution'' (on_back (rp_GetExecution (hn_repositoryManager h) (ep_ExecutionID payload)))) (\<lambda>_.
         trigger_timeout fuel env sm (ep_CorrelationID payload))))"

definition HandleTimeout ::
  "nat \<Rightarrow> env \<Rightarrow> ('r, 's) handler \<Rightarrow> timeout_task_payload \<Rightarrow> (('r, 's) world, unit) run_op" where
  "HandleTimeout fuel env h payload =
    run_bind (load_machine h (tp_StateMachineID payload)) (\<lambda>sm.
    run_bind (waiting_correlation h (tp_CorrelationID payload)) (\<lambda>_.
    run_bind (op_wrap ''failed to get execution'' (on_back (rp_GetExecution (hn_repositoryManager h) (tp_ExecutionID payload)))) (\<lambda>rec.
      if er_Status rec \<noteq> ''PAUSED'' then run_done (op_return (Err (ErrorNew ''execution not in PAUSED state'')))
      else trigger_timeout fuel env sm (tp_CorrelationID payload))))"

section \<open>Tasks\<close>

definition HandleExecution ::
  "nat \<Rightarrow> env \<times> string \<Rightarrow> ('r, 's) handler \<Rightarrow> execution_task_payload \<Rightarrow> (('r, 's) world, unit) run_op" where
  "HandleExecution fuel run h payload =
    run_bind (load_machine h (ep_StateMachineID payload)) (\<lambda>sm.
      if ep_IsTimeout payload then handleTimeoutExecution fuel (fst run) h sm payload
      else handleRegularExecution fuel run h sm payload)"

text \<open>In a batch an error of the barrier is logged and dropped.\<close>

definition batch_barrier :: "('r, 's) handler \<Rightarrow> execution_task_payload \<Rightarrow> err option \<Rightarrow> (('r, 's) world, unit) op" where
  "batch_barrier h payload err w =
    (case processBatchBarrier h payload err w of (Err _, w1) \<Rightarrow> (Ok (), w1) | r \<Rightarrow> r)"

definition processBatchTask ::
  "nat \<Rightarrow> env \<times> string \<Rightarrow> ('r, 's) handler \<Rightarrow> execution_task_payload \<Rightarrow> (('r, 's) world, unit) run_op" where
  "processBatchTask fuel run h payload =
    run_bind (load_machine h (ep_StateMachineID payload)) (\<lambda>sm w.
    (case source_input h payload w of
       (Err e, w1) \<Rightarrow>
         run_bind (batch_barrier h payload (Some e))
           (\<lambda>_. run_done (op_return (Err (Wrapped ''failed to get source execution output'' e)))) w1
     | (Panic m, w1) \<Rightarrow> Some (Panic m, w1)
     | (Crash m, w1) \<Rightarrow> Some (Crash m, w1)
     | (Ok input, w1) \<Rightarrow>
         (case execute_task fuel run sm input payload w1 of
            None \<Rightarrow> None
          | Some (Panic m, w2) \<Rightarrow> Some (Panic m, w2)
          | Some (Crash m, w2) \<Rightarrow> Some (Crash m, w2)
          | Some (r, w2) \<Rightarrow>
              run_bind (batch_barrier h payload (execute_error r)) (\<lambda>_. run_done (op_return (task_verdict r))) w2)))"

section \<open>Batch tasks\<close>

definition groupConcurrency :: "int \<Rightarrow> int" where
  "groupConcurrency n = (let m = (if n > 500 then 500 else n) in if m \<le> 10 then 10 else m)"

text \<open>The payloads up to the first that does not decode, with its error.\<close>

fun decode_tasks :: "payload_codec \<Rightarrow> string list \<Rightarrow> execution_task_payload list \<times> err option" where
  "decode_tasks cd [] = ([], None)"
| "decode_tasks cd (d # ds) =
     (case dec_execution cd d of
        Ok p \<Rightarrow> (let (ps, e) = decode_tasks cd ds in (p # ps, e))
      | Err e \<Rightarrow> ([], Some e)
      | Panic m \<Rightarrow> ([], Some (ErrorNew m))
      | Crash m \<Rightarrow> ([], Some (ErrorNew m)))"

text \<open>The goroutines in the order in which they finish: the indices of those that failed. A panic in one of them ends the process.\<close>

fun run_tasks ::
  "nat \<Rightarrow> (nat \<Rightarrow> env \<times> string) \<Rightarrow> ('r, 's) handler \<Rightarrow> execution_task_payload list \<Rightarrow> nat list \<Rightarrow> (('r, 's) world, nat list) run_op" where
  "run_tasks fuel runs h ps [] w = Some (Ok [], w)"
| "run_tasks fuel runs h ps (i # order) w =
     (case processBatchTask fuel (runs i) h (ps ! i) w of
        None \<Rightarrow> None
      | Some (Panic m, w1) \<Rightarrow> Some (Crash m, w1)
      | Some (Crash m, w1) \<Rightarrow> Some (Crash m, w1)
      | Some (r, w1) \<Rightarrow>
          map_option (\<lambda>(q, w2). (rbind q (\<lambda>failures. Ok (if r = Ok () then failures else i # failures)), w2))
            (run_tasks fuel runs h ps order w1))"

text \<open>A payload that does not decode ends the handler at once; the goroutines started before run on.\<close>

definition HandleBatchExecution ::
  "payload_codec \<Rightarrow> nat \<Rightarrow> (nat \<Rightarrow> env \<times> string) \<Rightarrow> nat list \<Rightarrow> ('r, 's) handler \<Rightarrow> batch_task_payload \<Rightarrow> (('r, 's) world, unit) run_op" where
  "HandleBatchExecution cd fuel runs order h payload w =
    (let (ps, bad) = decode_tasks cd (bp_Tasks payload) in
     map_option (\<lambda>(q, w1). (rbind q (\<lambda>failures.
         case bad of
           Some e \<Rightarrow> Err (Wrapped (''failed to unmarshal task '' @ itoa (int (length ps)) @ '' in batch '' @ bp_GroupID payload) e)
         | None \<Rightarrow>
             if failures = [] then Ok ()
             else Err (ErrorNew (''batch execution completed with '' @ itoa (int (length failures)) @ ''/'' @ itoa (bp_TaskCount payload) @
               '' failures in group '' @ bp_GroupID payload))), w1))
       (run_tasks fuel runs h ps (filter (\<lambda>i. i < length ps) order) w))"

section \<open>The registry of orchestrators\<close>

type_synonym ('r, 's) orchestrator_registry = "(string \<times> ('r, 's) orchestrator) list"

definition Registry_New :: "('r, 's) orchestrator_registry" where
  "Registry_New = []"

definition Registry_Register :: "string \<Rightarrow> ('r, 's) orchestrator \<Rightarrow> ('r, 's) orchestrator_registry \<Rightarrow> ('r, 's) orchestrator_registry" where
  "Registry_Register i orc store = AList.update i orc store"

definition Registry_Get :: "('r, 's) orchestrator_registry \<Rightarrow> string \<Rightarrow> ('r, 's) orchestrator res" where
  "Registry_Get store i =
    (case map_of store i of
       Some orc \<Rightarrow> Ok orc
     | None \<Rightarrow> Err (ErrorNew (''registry: no orchestrator registered for id '' @ quoted i)))"

definition Registry_Remove :: "string \<Rightarrow> ('r, 's) orchestrator_registry \<Rightarrow> ('r, 's) orchestrator_registry" where
  "Registry_Remove i store = AList.delete i store"

lemma Registry_Get_Register:
  "Registry_Get (Registry_Register i orc store) k = (if k = i then Ok orc else Registry_Get store k)"
  by (simp add: Registry_Get_def Registry_Register_def update_conv')

lemma Registry_Get_Remove:
  "Registry_Get (Registry_Remove i store) k =
    (if k = i then Err (ErrorNew (''registry: no orchestrator registered for id '' @ quoted i)) else Registry_Get store k)"
  by (simp add: Registry_Get_def Registry_Remove_def delete_conv')

section \<open>Retries\<close>

text \<open>Attempts at one task, as Asynq repeats a task whose handler returns an error.\<close>

fun task_attempts ::
  "nat \<Rightarrow> (nat \<Rightarrow> env \<times> string) \<Rightarrow> ('r, 's) handler \<Rightarrow> execution_task_payload \<Rightarrow> nat \<Rightarrow> ('r, 's) world \<Rightarrow> (unit res list \<times> ('r, 's) world) option" where
  "task_attempts fuel runs h payload 0 w = Some ([], w)"
| "task_attempts fuel runs h payload (Suc n) w =
     (case HandleExecution fuel (runs n) h payload w of
        None \<Rightarrow> None
      | Some (r, w1) \<Rightarrow> map_option (\<lambda>(rs, w2). (r # rs, w2)) (task_attempts fuel runs h payload n w1))"

text \<open>A store in which the machine of a task can be loaded, an execution with the name of the task is stored, and the executions \<open>recs\<close> wait for the micro-batch; reading
  keeps it so. Reading the output of any execution, which a chained task does, may succeed or fail.\<close>

locale stored_task =
  fixes rp :: "'s repository" and newSM :: "string \<Rightarrow> state_machine res" and smID execName microBatchID :: string
    and recs :: "execution_record list" and stored :: "'s \<Rightarrow> bool"
  assumes machine_id: "smID \<noteq> []" and name_given: "execName \<noteq> []"
    and machine_found: "stored s \<Longrightarrow> \<exists>mrec m s1. rp_GetStateMachine rp smID s = (Ok mrec, s1) \<and> mr_ID mrec = smID \<and>
      newSM (mr_Definition mrec) = Ok m \<and> stored s1"
    and name_taken: "stored s \<Longrightarrow> \<exists>rec s1. rp_GetExecutionByName rp smID execName s = (Ok rec, s1) \<and> stored s1"
    and output_read: "stored s \<Longrightarrow> \<exists>r s1. rp_GetExecutionOutput rp i k s = (r, s1) \<and> ((\<exists>v. r = Ok v) \<or> (\<exists>e. r = Err e)) \<and> stored s1"
    and waiting_found: "stored s \<Longrightarrow> \<exists>s1. Manager_FindWaitingExecutionsByCorrelation rp MicroBatchCorrelationKey (GString microBatchID) s = (Ok recs, s1)"
begin

lemma loaded:
  assumes "stored (w_back w)" and "hn_repositoryManager h = rp" and "hn_newSM h = newSM"
  obtains m s1 where "load_machine h smID w = (Ok \<lparr>ps_machine = m, ps_repository = rp, ps_stateMachineID = smID,
      ps_queueClient = hn_queueClient h\<rparr>, w\<lparr>w_back := s1\<rparr>)" "stored s1"
proof -
  obtain mrec m s1 where "rp_GetStateMachine rp smID (w_back w) = (Ok mrec, s1)" "mr_ID mrec = smID" "newSM (mr_Definition mrec) = Ok m" "stored s1"
    using machine_found [OF assms(1)] by blast
  with that assms(2,3) machine_id show thesis
    by (simp add: load_machine_def op_bind_def op_wrap_def on_back_def NewFromDefnId_def New_from_definition_def op_return_def)
qed

text \<open>The name of the task is taken, so the engine refuses before it runs anything: with any fuel, none included, and in any environment. A chained task
  derives its input before that, which may fail.\<close>

lemma name_refused:
  assumes "stored s" and "ec_Name config = execName" and "ps_repository sm = rp" and "ps_stateMachineID sm = smID"
  obtains e s1 where "\<And>fuel env newID. start_execution fuel env newID sm config (InputValue v) s = Some (Err e, s1)" "stored s1"
proof -
  obtain rec s1 where "rp_GetExecutionByName rp smID execName s = (Ok rec, s1)" "stored s1" using name_taken [OF assms(1)] by blast
  then have "start_execution fuel env newID sm config (InputValue v) s = Some (Err (ErrorNew (''execution with name '' @ quoted execName @
      '' already exists for state machine '' @ quoted smID)), s1)" for fuel env newID
    using assms(2-4) name_given by (simp add: start_execution_def initial_execution_def NewContext_def Let_def)
  with that \<open>stored s1\<close> show thesis by blast
qed

lemma task_config:
  "ec_Name (fold (\<lambda>opt c. opt c) (task_options payload) empty_config) = ep_ExecutionName payload"
  "ec_SourceExecutionID (fold (\<lambda>opt c. opt c) (task_options payload) empty_config) = ep_SourceExecutionID payload"
  "ec_InputTransformer (fold (\<lambda>opt c. opt c) (task_options payload) empty_config) = None"
  by (simp_all add: task_options_def WithExecutionName_def WithSourceExecution_def WithUniqueness_def WithInputTransformerName_def empty_config_def Let_def)

lemma refused:
  assumes "stored s" and "ep_ExecutionName payload = execName" and "ps_repository sm = rp" and "ps_stateMachineID sm = smID"
  obtains e s1 where "\<And>fuel env newID. Persistent_Execute fuel env newID sm (InputValue v) (task_options payload) s = Some (Err e, s1)" "stored s1"
proof (cases "ep_SourceExecutionID payload = []")
  case True
  let ?config = "fold (\<lambda>opt c. opt c) (task_options payload) empty_config"
  have "ec_Name ?config = execName" by (simp add: task_config assms(2))
  from name_refused [OF assms(1) this assms(3,4)] obtain e s1 where
    "\<And>fuel env newID. start_execution fuel env newID sm ?config (InputValue v) s = Some (Err e, s1)" "stored s1" by blast
  with True that show thesis by (simp add: Persistent_Execute_def task_config Let_def)
next
  case False
  let ?config = "fold (\<lambda>opt c. opt c) (task_options payload) empty_config"
  obtain r s1 where r: "rp_GetExecutionOutput rp (ec_SourceExecutionID ?config) (ec_SourceStateName ?config) s = (r, s1)"
      "(\<exists>v. r = Ok v) \<or> (\<exists>e. r = Err e)" "stored s1"
    using output_read [OF assms(1)] by blast
  from r(2) show thesis
  proof (elim disjE exE)
    fix out assume "r = Ok out"
    have "ec_Name ?config = execName" by (simp add: task_config assms(2))
    from name_refused [OF r(3) this assms(3,4)] obtain e s2 where
      "\<And>fuel env newID. start_execution fuel env newID sm ?config (InputValue out) s1 = Some (Err e, s2)" "stored s2" by blast
    with False r(1) \<open>r = Ok out\<close> that show thesis
      by (simp add: Persistent_Execute_def task_config deriveInputFromExecution_def assms(3) op_bind_def op_wrap_def op_return_def Let_def)
  next
    fix e assume "r = Err e"
    with False r(1,3) that show thesis
      by (simp add: Persistent_Execute_def task_config deriveInputFromExecution_def assms(3) op_bind_def op_wrap_def op_return_def Let_def)
  qed
qed

lemma attempt_signals:
  assumes "stored (w_back w)" and "hn_repositoryManager h = rp" and "hn_newSM h = newSM" and "hn_orchestrator h = Some orc"
    and "ep_StateMachineID payload = smID" and "ep_ExecutionName payload = execName"
    and "\<not> ep_IsTimeout payload" and "WorkerExtractMeta (hn_json h) (ep_Input payload) = Some meta"
  obtains r out s1 where
    "\<And>fuel run. HandleExecution fuel run h payload w = Some (r, snd (SignalMicroBatchComplete orc meta out (w\<lparr>w_back := s1\<rparr>)))"
    "r \<noteq> Ok ()" "stored s1"
proof -
  obtain m s1 where load: "load_machine h smID w = (Ok \<lparr>ps_machine = m, ps_repository = rp, ps_stateMachineID = smID,
      ps_queueClient = hn_queueClient h\<rparr>, w\<lparr>w_back := s1\<rparr>)" "stored s1"
    using loaded [OF assms(1-3)] by blast
  let ?sm = "\<lparr>ps_machine = m, ps_repository = rp, ps_stateMachineID = smID, ps_queueClient = hn_queueClient h\<rparr>"
  let ?out = "\<lparr>to_BatchID = mm_BatchID meta, to_MicroBatchID = mm_MicroBatchID meta, to_TaskID = ep_SourceExecutionID payload, to_Success = False,
      to_Error = [], to_Duration = 0, to_CompletedAt = hn_now h\<rparr>"
  obtain q s2 where q: "source_input h payload (w\<lparr>w_back := s1\<rparr>) = (q, w\<lparr>w_back := s2\<rparr>)" "(\<exists>v. q = Ok v) \<or> (\<exists>e. q = Err e)" "stored s2"
  proof (cases "ep_SourceExecutionID payload = []")
    case True
    with that [of "Ok (ep_Input payload)" s1] load(2) show thesis by (simp add: source_input_def op_return_def)
  next
    case False
    with that output_read [OF load(2), of "ep_SourceExecutionID payload" "ep_SourceStateName payload"] assms(2) show thesis
      by (auto simp: source_input_def on_back_def)
  qed
  let ?signal = "\<lambda>s. SignalMicroBatchComplete orc meta ?out (w\<lparr>w_back := s\<rparr>)"
  from q(2) show thesis
  proof (elim disjE exE)
    fix v assume v: "q = Ok v"
    obtain e s3 where run: "\<And>fuel env newID. Persistent_Execute fuel env newID ?sm (InputValue v) (task_options payload) s2 = Some (Err e, s3)" "stored s3"
      by (rule refused [OF q(3) assms(6), of ?sm v]) auto
    have "HandleExecution fuel run h payload w =
        run_bind (SignalMicroBatchComplete orc meta ?out) (\<lambda>_. run_done (op_return (Err (Wrapped ''execution failed'' e)))) (w\<lparr>w_back := s3\<rparr>)" for fuel run
      using load(1) run(1) assms(4,5,7,8) q(1)
      by (simp add: v HandleExecution_def run_bind_def handleRegularExecution_def op_return_def execute_task_def execute_error_def
          processBatchBarrier_def task_verdict_def)
    with that [where out = ?out, OF _ _ run(2)] show thesis
      by (cases "?signal s3"; cases "fst (?signal s3)") (auto simp: run_bind_def run_done_def op_return_def)
  next
    fix e assume e: "q = Err e"
    have "HandleExecution fuel run h payload w =
        run_bind (op_wrap ''failed to processBatch Barrier'' (SignalMicroBatchComplete orc meta ?out))
          (\<lambda>_. run_done (op_return (Err (Wrapped ''failed to get source execution output'' e)))) (w\<lparr>w_back := s2\<rparr>)" for fuel run
      using load(1) assms(4,5,7,8) q(1)
      by (simp add: e HandleExecution_def run_bind_def handleRegularExecution_def op_return_def processBatchBarrier_def)
    with that [where out = ?out, OF _ _ q(3)] show thesis
      by (cases "?signal s2"; cases "fst (?signal s2)") (auto simp: run_bind_def run_done_def op_return_def op_wrap_def)
  qed
qed

end

section \<open>Properties\<close>

text \<open>C11: Retries release the barrier of the others. Take a micro-batch task (of a list of identifiers, whose input is read from a source execution,
  or of a bulk of inputs) whose named execution is stored already, because its first attempt failed. Every further attempt fails before anything runs: the
  results are the same with any fuel, none included, and in any environment of the executed machine, because the source cannot be read or the engine finds the
  name taken. Each attempt counts at the barrier all the same. So when the barrier of the micro-batch holds \<open>n\<close>, then \<open>n\<close> attempts of
  this one task use it up and resume the executions that wait for the micro-batch, although no other task of it has been processed. Redis answers every call.\<close>

theorem retries_release_barrier:
  assumes "stored_task rp newSM smID execName (mm_MicroBatchID meta) recs stored" and "batch_store rd num str lst"
    and "or_rdb orc = rd" and "\<And>i. or_fault orc i = None" and "ps_repository (or_parentSM orc) = rp"
    and "\<And>s. or_smFactory orc (mm_OrchestratorSMID meta) s = (Ok sm, s)"
    and "hn_repositoryManager h = rp" and "hn_newSM h = newSM" and "hn_orchestrator h = Some orc"
    and "ep_StateMachineID payload = smID" and "ep_ExecutionName payload = execName"
    and "\<not> ep_IsTimeout payload" and "WorkerExtractMeta (hn_json h) (ep_Input payload) = Some meta"
    and "stored (w_back w)" and "num (w_redis w) (keyBarrier (mm_MicroBatchID meta)) = Some (int n)" and "1 \<le> n"
  shows "\<exists>rs w' now. (\<forall>fuel runs. task_attempts fuel runs h payload n w = Some (rs, w')) \<and> length rs = n \<and> Ok () \<notin> set rs \<and>
    w_started w' = w_started w @ map (\<lambda>rec. ResumeRun (mm_OrchestratorSMID meta = BulkOrchestratorStateMachineID) (share_queue orc sm)
      (resume_context now meta rec)) recs"
  using assms(14-16)
proof (induction n arbitrary: w)
  case (Suc n)
  note step = batch_store.signal_step [OF assms(2-4), where meta = meta]
  obtain r out s1 where r: "\<And>fuel run. HandleExecution fuel run h payload w = Some (r, snd (SignalMicroBatchComplete orc meta out (w\<lparr>w_back := s1\<rparr>)))"
      "r \<noteq> Ok ()" "stored s1"
    by (rule stored_task.attempt_signals [OF assms(1) Suc.prems(1) assms(7-13)]) blast
  let ?w = "w\<lparr>w_back := s1\<rparr>" and ?w1 = "snd (SignalMicroBatchComplete orc meta out (w\<lparr>w_back := s1\<rparr>))"
  have num: "num (w_redis ?w) (keyBarrier (mm_MicroBatchID meta)) = Some (int (Suc n))" using Suc.prems(2) by simp
  show ?case
  proof (cases "n = 0")
    case True
    obtain s2 where find: "Manager_FindWaitingExecutionsByCorrelation (ps_repository (or_parentSM orc)) MicroBatchCorrelationKey
        (GString (mm_MicroBatchID meta)) (w_back ?w) = (Ok recs, s2)"
      using stored_task.waiting_found [OF assms(1) r(3)] assms(5) by auto
    have "num (w_redis ?w) (keyBarrier (mm_MicroBatchID meta)) = Some 1" using num True by simp
    from step(3) [OF this find assms(6), where out = out] r(1,2) True show ?thesis by auto
  next
    case False
    then have "1 < int (Suc n)" by simp
    note w1 = step(2) [OF num this, where out = out]
    have "\<exists>rs w' now. (\<forall>fuel runs. task_attempts fuel runs h payload n ?w1 = Some (rs, w')) \<and> length rs = n \<and> Ok () \<notin> set rs \<and>
        w_started w' = w_started ?w1 @ map (\<lambda>rec. ResumeRun (mm_OrchestratorSMID meta = BulkOrchestratorStateMachineID) (share_queue orc sm)
          (resume_context now meta rec)) recs"
      using w1 r(3) False by (intro Suc.IH) auto
    then obtain rs w' now where rest: "\<And>fuel runs. task_attempts fuel runs h payload n ?w1 = Some (rs, w')" "length rs = n" "Ok () \<notin> set rs"
        "w_started w' = w_started ?w1 @ map (\<lambda>rec. ResumeRun (mm_OrchestratorSMID meta = BulkOrchestratorStateMachineID) (share_queue orc sm)
          (resume_context now meta rec)) recs" by blast
    with w1 r(1,2) show ?thesis by (intro exI [of _ "r # rs"] exI [of _ w'] exI [of _ now]) auto
  qed
qed simp

text \<open>A database with the machine, the execution that failed, and an orchestrator that waits for the micro-batch.\<close>

definition waiting_orchestrator :: execution_record where
  "waiting_orchestrator = (sample_record ''PAUSED'' GNil)\<lparr>er_ExecutionID := ''o1'', er_StateMachineID := OrchestratorStateMachineID, er_Name := ''orch'',
     er_HistorySequenceNumber := 0\<rparr>"

definition retry_db :: "gval db" where
  "retry_db = empty_db
    \<lparr>db_machines := [machine_row_of plain_pg stored_machine GNil],
     db_executions := [execution_row_of plain_pg 0 (sample_record ''FAILED'' GNil) 5000 (GNil, GNil, GNil),
       execution_row_of plain_pg 0 waiting_orchestrator 5000 (GNil, GNil, GNil)],
     db_correlations := [\<lparr>cr_id = ''c1'', cr_execution_id = ''o1'', cr_execution_start_time = 5000, cr_state_machine_id = OrchestratorStateMachineID,
       cr_state_name = ''WaitForMicroBatchCompletion'', cr_correlation_key = MicroBatchCorrelationKey, cr_correlation_value = GString ''b:0'',
       cr_created_at = 0, cr_timeout_at = None, cr_status = ''WAITING''\<rparr>]\<rparr>"

definition retry_store :: "gval db \<times> asynq_task list \<Rightarrow> bool" where
  "retry_store s \<longleftrightarrow> (\<exists>k. fst s = retry_db\<lparr>db_tick := k\<rparr>)"

lemmas read_simps = op_bind_def op_wrap_def op_return_def sql_def op_fst_def on_database_def Postgres_repository_def Let_def

interpretation retry: stored_task "on_database (Postgres_repository plain_pg)" sample_New "''m1''" "''run''" "''b:0''" "[waiting_orchestrator]" retry_store
proof (unfold_locales, goal_cases)
  case (3 s)
  then show ?case
    by (auto simp: retry_store_def read_simps Postgres_GetStateMachine_def retry_db_def empty_db_def machine_row_of_def stored_machine_def sample_New_Ok)
next
  case (4 s)
  then show ?case
    by (auto simp: retry_store_def read_simps Postgres_GetExecutionByName_def retry_db_def empty_db_def execution_row_of_def sample_record_def
        waiting_orchestrator_def processJson_def unmarshal_value_def unmarshal_metadata_def newest_singleton)
next
  case (5 s i k)
  then show ?case
    by (cases "rp_GetExecutionOutput (on_database (Postgres_repository plain_pg)) i k s")
      (auto simp: retry_store_def read_simps Postgres_GetExecutionOutput_def unmarshal_value_def split: if_splits option.splits)
next
  case (6 s)
  then show ?case
    by (auto simp: retry_store_def read_simps Manager_FindWaitingExecutionsByCorrelation_def Postgres_FindWaitingCorrelations_def Postgres_GetExecution_def
        retry_db_def empty_db_def execution_row_of_def sample_record_def correlation_matches_def scan_correlation_def paginate_def
        waiting_orchestrator_def processJson_def unmarshal_value_def unmarshal_metadata_def newest_singleton)
qed simp_all

definition retry_handler :: "(kv, gval db \<times> asynq_task list) handler" where
  "retry_handler = \<lparr>hn_newSM = sample_New, hn_now = 0, hn_json = sample_json, hn_repositoryManager = on_database (Postgres_repository plain_pg),
     hn_queueClient = None, hn_orchestrator = Some (orchestrator_on (\<lambda>_. None) log_asynq)\<rparr>"

definition retry_payload :: execution_task_payload where
  "retry_payload = sample_payload\<lparr>ep_StateMachineID := ''m1'', ep_ExecutionName := ''run'', ep_SourceExecutionID := ''e0'', ep_IsTimeout := False,
     ep_Input := GMap [(MicroBatchInputKey, GString ''meta'')]\<rparr>"

text \<open>Two attempts at one chained task resume the orchestrator of a micro-batch of two.\<close>

theorem retries_release_barrier_witness:
  "\<exists>rs w' sm x. task_attempts 0 (\<lambda>_. (quiet_env, ''x'')) retry_handler retry_payload 2
     (world_on (empty_kv\<lparr>kv_num := [keyBarrier ''b:0'' \<mapsto> 2]\<rparr>) (retry_db, [])) = Some (rs, w') \<and> Ok () \<notin> set rs \<and> w_started w' = [ResumeRun False sm x]"
proof -
  let ?orc = "orchestrator_on (\<lambda>_. None) log_asynq" and ?w = "world_on (empty_kv\<lparr>kv_num := [keyBarrier ''b:0'' \<mapsto> 2]\<rparr>) (retry_db, [])"
  have meta: "mm_MicroBatchID sample_meta = ''b:0''" by (simp add: sample_meta_def)
  have orc: "or_rdb ?orc = kv_redis" "or_fault ?orc i = None" "ps_repository (or_parentSM ?orc) = on_database (Postgres_repository plain_pg)"
    "\<exists>sm. \<forall>s. or_smFactory ?orc k s = (Ok sm, s)" for i k
    by (simp_all add: orchestrator_on_def Let_def op_return_def)
  obtain sm where sm: "\<And>s. or_smFactory ?orc (mm_OrchestratorSMID sample_meta) s = (Ok sm, s)" using orc(4) by blast
  have h: "hn_repositoryManager retry_handler = on_database (Postgres_repository plain_pg)" "hn_newSM retry_handler = sample_New"
    "hn_orchestrator retry_handler = Some ?orc" by (simp_all add: retry_handler_def)
  have p: "ep_StateMachineID retry_payload = ''m1''" "ep_ExecutionName retry_payload = ''run''"
    "\<not> ep_IsTimeout retry_payload" "WorkerExtractMeta (hn_json retry_handler) (ep_Input retry_payload) = Some sample_meta"
    by (simp_all add: retry_payload_def retry_handler_def WorkerExtractMeta_def sample_json_def)
  have w: "retry_store (w_back ?w)" "kv_num (w_redis ?w) (keyBarrier (mm_MicroBatchID sample_meta)) = Some (int 2)" "w_started ?w = []"
    by (auto simp: world_on_def retry_store_def retry_db_def empty_db_def meta)
  from retries_release_barrier [OF retry.stored_task_axioms [folded meta] kvb.batch_store_axioms orc(1-3) sm h p w(1,2)] w(3)
  have "\<exists>rs w' now. (\<forall>fuel runs. task_attempts fuel runs retry_handler retry_payload 2 ?w = Some (rs, w')) \<and> Ok () \<notin> set rs \<and>
      w_started w' = [ResumeRun (mm_OrchestratorSMID sample_meta = BulkOrchestratorStateMachineID) (share_queue ?orc sm)
        (resume_context now sample_meta waiting_orchestrator)]" by fastforce
  then show ?thesis by (auto simp: sample_meta_def)
qed

end
