(* ===== verification/PostgresQueries.thy ===== *)
theory PostgresQueries
  imports Postgres
begin

text \<open>
  The remaining queries of the PostgreSQL backend (\<open>pkg/repository/postgres.go\<close>): listing of state machines, of links between executions and of
  executions without links, statistics and health. A query is the text that the code builds, as its conditions with their numbered
  placeholders and the list of arguments; what the server answers is read off the tables of \<open>Postgres\<close>. The rows of a join are pairs, one for
  each match, so that an execution with several rows shows as often as it does in the database.

  The lemmas compare each query with the rows that its filter describes, the count of links with their list, and the listing of executions
  without links before and after a link is saved.
\<close>

section \<open>State machines\<close>

record definition_filter =
  df_StateMachineID :: string
  df_Name :: string

definition definition_conditions :: "definition_filter option \<Rightarrow> condition list \<times> sql_arg list" where
  "definition_conditions f =
    (case f of
       None \<Rightarrow> ([], [])
     | Some df \<Rightarrow> snd (add_condition (df_Name df \<noteq> []) ''name'' ''ILIKE'' (AString (''%'' @ df_Name df @ ''%''))
         (add_condition (df_StateMachineID df \<noteq> []) ''id'' ''='' (AString (df_StateMachineID df)) (1, [], []))))"

definition machine_holds :: "'j postgres \<Rightarrow> sql_arg list \<Rightarrow> 'j machine_row \<Rightarrow> condition \<Rightarrow> bool" where
  "machine_holds pg args r c =
    (case args ! (cond_arg c - 1) of
       AString v \<Rightarrow> if cond_op c = ''ILIKE'' then pg_ilike pg (zr_name r) v else zr_id r = v
     | ATime t \<Rightarrow> False)"

definition scan_machine :: "'j postgres \<Rightarrow> 'j machine_row \<Rightarrow> state_machine_record res" where
  "scan_machine pg row =
    rbind (if pg_null pg (zr_metadata row) then Ok None
           else wrap_err ''failed to unmarshal metadata''
                  (rbind (pg_unmarshal pg (zr_metadata row)) (\<lambda>v. case v of GNil \<Rightarrow> Ok None | _ \<Rightarrow> rbind (as_map v) (\<lambda>m. Ok (Some m))))) (\<lambda>m.
      Ok \<lparr>mr_ID = zr_id row, mr_Name = zr_name row, mr_Description = zr_description row, mr_Definition = zr_definition row,
          mr_Type = zr_type row, mr_Version = zr_version row, mr_CreatedAt = value_time (zr_created_at row),
          mr_UpdatedAt = value_time (zr_updated_at row), mr_Metadata = m\<rparr>)"

definition Postgres_ListStateMachines :: "'j postgres \<Rightarrow> definition_filter option \<Rightarrow> ('j db, state_machine_record list) op" where
  "Postgres_ListStateMachines pg f =
    (let (conditions, args) = definition_conditions f in
     op_bind (op_wrap ''failed to list state machines'' (sql pg (\<lambda>d.
         Ok (sort_key (\<lambda>r. - zr_created_at r) (filter (\<lambda>r. \<forall>c\<in>set conditions. machine_holds pg args r c) (db_machines d)), d))))
       (\<lambda>rows. op_return (all_rows (scan_machine pg) rows)))"

section \<open>Health, maintenance and statistics\<close>

definition Postgres_HealthCheck :: "'j postgres \<Rightarrow> ('j db, unit) op" where
  "Postgres_HealthCheck pg =
    op_bind (op_wrap ''database ping failed'' (sql pg (\<lambda>d. Ok ((), d)))) (\<lambda>_.
    op_bind (op_wrap ''database query failed'' (sql pg (\<lambda>d. Ok (1 :: int, d)))) (\<lambda>result.
      op_return (if result \<noteq> 1 then Err (ErrorNew ''database health check returned unexpected result'') else Ok ())))"

text \<open>\<open>VACUUM ANALYZE\<close> leaves the contents of a table as they are.\<close>

fun vacuum_each :: "'j postgres \<Rightarrow> string list \<Rightarrow> ('j db, unit) op" where
  "vacuum_each pg [] = op_return (Ok ())"
| "vacuum_each pg (table # tables) =
    op_bind (op_wrap (''failed to vacuum table '' @ table) (sql pg (\<lambda>d. Ok ((), d)))) (\<lambda>_. vacuum_each pg tables)"

definition Postgres_VacuumTables :: "'j postgres \<Rightarrow> ('j db, unit) op" where
  "Postgres_VacuumTables pg = vacuum_each pg [''executions'', ''state_history'']"

text \<open>
  The averages of the server are the parameter \<open>avg\<close>, over the durations of a group. The groups come in the order in which their statuses
  first occur; the answer is a map, in which the order does not show.
\<close>

definition status_stats :: "(int list \<Rightarrow> f64 option) \<Rightarrow> 'j execution_row list \<Rightarrow> string \<Rightarrow> string \<times> gval" where
  "status_stats avg rows status =
    (let grp = filter (\<lambda>r. xr_status r = status) rows; starts = map xr_start_time grp in
     (status, GMap ([(''count'', GInteger KInt (int (length grp))), (''first_execution'', GTime (Min (set starts))),
        (''last_execution'', GTime (Max (set starts)))] @
       (case avg (map (\<lambda>r. the (xr_end_time r) - xr_start_time r) grp) of
          Some x \<Rightarrow> [(''avg_duration_seconds'', GFloat64 x)] | None \<Rightarrow> []))))"

definition Postgres_GetExecutionStats :: "'j postgres \<Rightarrow> (int list \<Rightarrow> f64 option) \<Rightarrow> string \<Rightarrow> ('j db, gmap) op" where
  "Postgres_GetExecutionStats pg avg stateMachineID =
    op_wrap ''failed to get execution stats'' (sql pg (\<lambda>d.
      let rows = filter (\<lambda>r. xr_state_machine_id r = stateMachineID \<and> xr_end_time r \<noteq> None) (db_executions d) in
      Ok ([(''by_status'', GMap (map (status_stats avg rows) (remdups (map xr_status rows))))], d)))"

section \<open>Links\<close>

definition link_times ::
  "linked_execution_filter \<Rightarrow> nat \<times> condition list \<times> sql_arg list \<Rightarrow> nat \<times> condition list \<times> sql_arg list" where
  "link_times f q =
    (let q1 = (case lf_CreatedAfter f of Some t \<Rightarrow> add_condition True ''le.created_at'' ''>='' (ATime t) q | None \<Rightarrow> q)
     in case lf_CreatedBefore f of Some t \<Rightarrow> add_condition True ''le.created_at'' ''<='' (ATime t) q1 | None \<Rightarrow> q1)"

definition link_fields :: "linked_execution_filter \<Rightarrow> nat \<times> condition list \<times> sql_arg list" where
  "link_fields f =
      add_condition (lf_TargetExecutionID f \<noteq> []) ''le.target_execution_id'' ''='' (AString (lf_TargetExecutionID f))
      (add_condition (lf_TargetStateMachineName f \<noteq> []) ''le.target_state_machine_name'' ''='' (AString (lf_TargetStateMachineName f))
      (add_condition (lf_InputTransformerName f \<noteq> []) ''le.input_transformer_name'' ''='' (AString (lf_InputTransformerName f))
      (add_condition (lf_SourceExecutionStatus f \<noteq> []) ''e.status'' ''='' (AString (lf_SourceExecutionStatus f))
      (add_condition (lf_SourceStateName f \<noteq> []) ''le.source_state_name'' ''='' (AString (lf_SourceStateName f))
      (add_condition (lf_SourceExecutionID f \<noteq> []) ''le.source_execution_id'' ''='' (AString (lf_SourceExecutionID f))
      (add_condition (lf_SourceStateMachineID f \<noteq> []) ''le.source_state_machine_id'' ''='' (AString (lf_SourceStateMachineID f))
        (1, [], [])))))))"

definition linked_conditions :: "linked_execution_filter \<Rightarrow> condition list \<times> sql_arg list" where
  "linked_conditions f = snd (link_times f (link_fields f))"

definition link_column :: "linked_execution_record \<times> string \<Rightarrow> string \<Rightarrow> string" where
  "link_column = (\<lambda>(l, status) column.
    if column = ''le.source_state_machine_id'' then le_SourceStateMachineID l
    else if column = ''le.source_execution_id'' then le_SourceExecutionID l
    else if column = ''le.source_state_name'' then le_SourceStateName l
    else if column = ''e.status'' then status
    else if column = ''le.input_transformer_name'' then le_InputTransformerName l
    else if column = ''le.target_state_machine_name'' then le_TargetStateMachineName l
    else le_TargetExecutionID l)"

definition link_holds :: "'j postgres \<Rightarrow> sql_arg \<Rightarrow> linked_execution_record \<times> string \<Rightarrow> condition \<Rightarrow> bool" where
  "link_holds pg arg r c =
    (case arg of
       AString v \<Rightarrow> link_column r (cond_column c) = v
     | ATime t \<Rightarrow>
         if cond_op c = ''>='' then pg_timestamp pg t \<le> le_CreatedAt (fst r) else le_CreatedAt (fst r) \<le> pg_timestamp pg t)"

definition needsJoin :: "linked_execution_filter option \<Rightarrow> bool" where
  "needsJoin f = (case f of None \<Rightarrow> False | Some lf \<Rightarrow> lf_SourceExecutionStatus lf \<noteq> [])"

text \<open>The rows of \<open>FROM\<close>: a link with the status of the execution it is joined with, one for every row of the execution.\<close>

definition from_links :: "linked_execution_filter option \<Rightarrow> 'j db \<Rightarrow> (linked_execution_record \<times> string) list" where
  "from_links f d =
    (if needsJoin f
     then concat (map (\<lambda>l. map (\<lambda>e. (l, xr_status e)) (filter (\<lambda>e. le_SourceExecutionID l = xr_execution_id e) (db_executions d))) (db_linked d))
     else map (\<lambda>l. (l, [])) (db_linked d))"

definition select_links :: "'j postgres \<Rightarrow> linked_execution_filter option \<Rightarrow> 'j db \<Rightarrow> linked_execution_record list" where
  "select_links pg f d =
    (let (conditions, args) = (case f of None \<Rightarrow> ([], []) | Some lf \<Rightarrow> linked_conditions lf)
     in map fst (filter (\<lambda>r. \<forall>c\<in>set conditions. link_holds pg (args ! (cond_arg c - 1)) r c) (from_links f d)))"

definition Postgres_ListLinkedExecutions ::
  "'j postgres \<Rightarrow> linked_execution_filter option \<Rightarrow> ('j db, linked_execution_record list) op" where
  "Postgres_ListLinkedExecutions pg f =
    op_wrap ''failed to list linked executions'' (sql pg (\<lambda>d.
      let rows = sort_key (\<lambda>l. - le_CreatedAt l) (select_links pg f d) in
      Ok (case f of None \<Rightarrow> rows | Some lf \<Rightarrow> paginate (lf_Limit lf) (lf_Offset lf) rows, d)))"

definition Postgres_CountLinkedExecutions :: "'j postgres \<Rightarrow> linked_execution_filter option \<Rightarrow> ('j db, int) op" where
  "Postgres_CountLinkedExecutions pg f =
    op_wrap ''failed to count linked executions'' (sql pg (\<lambda>d. Ok (int (length (select_links pg f d)), d)))"

section \<open>Executions without links\<close>

text \<open>
  The builder of the query, with its arguments: those of conditions, and the integers of \<open>LIMIT\<close> and \<open>OFFSET\<close>. The query is kept as its parts:
  the conditions of the subquery of links, the placeholder in the join with \<open>state_history\<close>, the conditions on the execution, the
  placeholders of the page, and the conditions that are appended to the text \<^emph>\<open>after\<close> \<open>ORDER BY\<close>, \<open>LIMIT\<close> and \<open>OFFSET\<close>.
\<close>

record nonLinkedExecutionsQueryBuilder =
  nb_linkedFilter :: "linked_execution_filter option"
  nb_execFilter :: "execution_filter option"
  nb_args :: "(sql_arg + int) list"
  nb_argPos :: nat

record non_linked_query =
  nq_links :: "condition list"
  nq_state :: "nat option"
  nq_where :: "condition list"
  nq_limit :: "nat option"
  nq_offset :: "nat option"
  nq_trailing :: "condition list"

definition newNonLinkedExecutionsQueryBuilder ::
  "execution_filter option \<Rightarrow> linked_execution_filter option \<Rightarrow> nonLinkedExecutionsQueryBuilder" where
  "newNonLinkedExecutionsQueryBuilder executionFilter linkedExecutionFilter =
    \<lparr>nb_linkedFilter = linkedExecutionFilter, nb_execFilter = executionFilter, nb_args = [], nb_argPos = 1\<rparr>"

definition push_arg :: "sql_arg + int \<Rightarrow> nonLinkedExecutionsQueryBuilder \<Rightarrow> nonLinkedExecutionsQueryBuilder" where
  "push_arg a b = b\<lparr>nb_args := nb_args b @ [a], nb_argPos := Suc (nb_argPos b)\<rparr>"

definition addSubqueryCondition ::
  "bool \<Rightarrow> string \<Rightarrow> string \<Rightarrow> sql_arg \<Rightarrow> nonLinkedExecutionsQueryBuilder \<times> condition list
    \<Rightarrow> nonLinkedExecutionsQueryBuilder \<times> condition list" where
  "addSubqueryCondition add column operator v =
    (\<lambda>(b, conditions). if add then (push_arg (Inl v) b, conditions @ [Condition column operator (nb_argPos b)]) else (b, conditions))"

definition addExecutionCondition ::
  "bool \<Rightarrow> string \<Rightarrow> string \<Rightarrow> sql_arg \<Rightarrow> nonLinkedExecutionsQueryBuilder \<times> condition list
    \<Rightarrow> nonLinkedExecutionsQueryBuilder \<times> condition list" where
  "addExecutionCondition add column operator v =
    (\<lambda>(b, conditions). if add then (push_arg (Inl v) b, conditions @ [Condition column operator (nb_argPos b)]) else (b, conditions))"

definition buildSubquery :: "nonLinkedExecutionsQueryBuilder \<Rightarrow> nonLinkedExecutionsQueryBuilder \<times> condition list" where
  "buildSubquery b =
    (case nb_linkedFilter b of
       None \<Rightarrow> (b, [])
     | Some f \<Rightarrow>
         addSubqueryCondition (lf_CreatedBefore f \<noteq> None) ''le.created_at'' ''<='' (ATime (the (lf_CreatedBefore f)))
        (addSubqueryCondition (lf_CreatedAfter f \<noteq> None) ''le.created_at'' ''>='' (ATime (the (lf_CreatedAfter f)))
        (addSubqueryCondition (lf_TargetStateMachineName f \<noteq> []) ''le.target_state_machine_name'' ''='' (AString (lf_TargetStateMachineName f))
        (addSubqueryCondition (lf_InputTransformerName f \<noteq> []) ''le.input_transformer_name'' ''='' (AString (lf_InputTransformerName f))
        (addSubqueryCondition (lf_SourceStateName f \<noteq> []) ''le.source_state_name'' ''='' (AString (lf_SourceStateName f))
          (b, []))))))"

definition addStateHistoryFilter :: "nonLinkedExecutionsQueryBuilder \<Rightarrow> nonLinkedExecutionsQueryBuilder \<times> nat option" where
  "addStateHistoryFilter b =
    (case nb_linkedFilter b of
       None \<Rightarrow> (b, None)
     | Some f \<Rightarrow>
         if lf_SourceStateName f \<noteq> [] then (push_arg (Inl (AString (lf_SourceStateName f))) b, Some (nb_argPos b)) else (b, None))"

definition addExecutionFilters :: "nonLinkedExecutionsQueryBuilder \<Rightarrow> nonLinkedExecutionsQueryBuilder \<times> condition list" where
  "addExecutionFilters b =
    (case nb_linkedFilter b of
       None \<Rightarrow> (b, [])
     | Some f \<Rightarrow>
         addExecutionCondition (lf_SourceExecutionStatus f \<noteq> []) ''e.status'' ''='' (AString (lf_SourceExecutionStatus f))
        (addExecutionCondition (lf_SourceExecutionID f \<noteq> []) ''e.execution_id'' ''='' (AString (lf_SourceExecutionID f))
        (addExecutionCondition (lf_SourceStateMachineID f \<noteq> []) ''e.state_machine_id'' ''='' (AString (lf_SourceStateMachineID f))
          (b, []))))"

definition addExecutionFilterConditions ::
  "nonLinkedExecutionsQueryBuilder \<Rightarrow> nonLinkedExecutionsQueryBuilder \<times> condition list" where
  "addExecutionFilterConditions b =
    (case nb_execFilter b of
       None \<Rightarrow> (b, [])
     | Some f \<Rightarrow>
         (let append = (\<lambda>given column operator v (b, conditions).
                if given then (push_arg (Inl v) b, conditions @ [Condition column operator (nb_argPos b)]) else (b, conditions))
          in append (ef_StartBefore f \<noteq> None) ''e.start_time'' ''<='' (ATime (the (ef_StartBefore f)))
            (append (ef_StartAfter f \<noteq> None) ''e.start_time'' ''>='' (ATime (the (ef_StartAfter f)))
            (append (ef_Name f \<noteq> []) ''e.name'' ''ILIKE'' (AString (''%'' @ ef_Name f @ ''%'')) (b, [])))))"

definition addPagination ::
  "nonLinkedExecutionsQueryBuilder \<Rightarrow> nonLinkedExecutionsQueryBuilder \<times> nat option \<times> nat option \<times> condition list" where
  "addPagination b =
    (case nb_execFilter b of
       None \<Rightarrow> (b, None, None, [])
     | Some f \<Rightarrow>
         (let (b1, limit) = (if 0 < ef_Limit f then (push_arg (Inr (ef_Limit f)) b, Some (nb_argPos b)) else (b, None));
              (b2, offset) = (if 0 < ef_Offset f then (push_arg (Inr (ef_Offset f)) b1, Some (nb_argPos b1)) else (b1, None));
              (b3, trailing) = addExecutionFilterConditions b2
          in (b3, limit, offset, trailing)))"

definition build :: "nonLinkedExecutionsQueryBuilder \<Rightarrow> non_linked_query \<times> (sql_arg + int) list" where
  "build b0 =
    (let b = b0\<lparr>nb_argPos := 1, nb_args := []\<rparr>;
         (b1, links) = buildSubquery b;
         (b2, state) = addStateHistoryFilter b1;
         (b3, conditions) = addExecutionFilters b2;
         (b4, limit, offset, trailing) = addPagination b3
     in (\<lparr>nq_links = links, nq_state = state, nq_where = conditions, nq_limit = limit, nq_offset = offset, nq_trailing = trailing\<rparr>, nb_args b4))"

text \<open>
  What the server does with the query. A condition after \<open>ORDER BY\<close>, \<open>LIMIT\<close> or \<open>OFFSET\<close> is refused, and so is the column
  \<open>recovery_metadata\<close> when it is missing. \<open>INNER JOIN state_history\<close> repeats an execution for every entry that matches, \<open>LEFT JOIN\<close> with the links and
  \<open>IS NULL\<close> keep those without one, and \<open>DISTINCT ON\<close> keeps the latest row of each.
\<close>

definition arg_at :: "(sql_arg + int) list \<Rightarrow> nat \<Rightarrow> sql_arg" where
  "arg_at args n = projl (args ! (n - 1))"

definition int_at :: "(sql_arg + int) list \<Rightarrow> nat option \<Rightarrow> int" where
  "int_at args n = (case n of None \<Rightarrow> 0 | Some k \<Rightarrow> projr (args ! (k - 1)))"

definition source_holds :: "sql_arg \<Rightarrow> 'j execution_row \<Rightarrow> condition \<Rightarrow> bool" where
  "source_holds arg e c =
    (arg = AString (if cond_column c = ''e.state_machine_id'' then xr_state_machine_id e
       else if cond_column c = ''e.execution_id'' then xr_execution_id e else xr_status e))"

definition history_joins :: "non_linked_query \<Rightarrow> (sql_arg + int) list \<Rightarrow> 'j execution_row \<Rightarrow> 'j history_row \<Rightarrow> bool" where
  "history_joins q args e h \<longleftrightarrow>
    xr_execution_id e = yr_execution_id h \<and> (case nq_state q of None \<Rightarrow> True | Some n \<Rightarrow> arg_at args n = AString (yr_state_name h))"

definition link_joins :: "'j postgres \<Rightarrow> non_linked_query \<Rightarrow> (sql_arg + int) list \<Rightarrow> 'j execution_row \<Rightarrow> linked_execution_record \<Rightarrow> bool" where
  "link_joins pg q args e l \<longleftrightarrow>
    xr_execution_id e = le_SourceExecutionID l \<and> (\<forall>c\<in>set (nq_links q). link_holds pg (arg_at args (cond_arg c)) (l, []) c)"

definition select_non_linked ::
  "'j postgres \<Rightarrow> non_linked_query \<times> (sql_arg + int) list \<Rightarrow> 'j db \<Rightarrow> 'j execution_row list res" where
  "select_non_linked pg = (\<lambda>(q, args) d.
    if pg_recovery_column pg = None \<or> nq_trailing q \<noteq> [] then Err (pg_reject pg ''query'')
    else
      (let joined = concat (map (\<lambda>e. map (\<lambda>h. e) (filter (history_joins q args e) (db_history d))) (db_executions d));
           kept = filter (\<lambda>e. filter (link_joins pg q args e) (db_linked d) = [] \<and>
                              (\<forall>c\<in>set (nq_where q). source_holds (arg_at args (cond_arg c)) e c)) joined
       in Ok (paginate (int_at args (nq_limit q)) (int_at args (nq_offset q)) (latest_rows pg kept))))"

definition unmarshalExecutionJSON :: "'j postgres \<Rightarrow> 'j execution_row \<Rightarrow> (gval \<times> gval \<times> gmap option) res" where
  "unmarshalExecutionJSON pg row =
    rbind (wrap_err ''failed to unmarshal input'' (pg_unmarshal pg (xr_input row))) (\<lambda>input.
    rbind (wrap_err ''failed to unmarshal output'' (pg_unmarshal pg (xr_output row))) (\<lambda>output.
    rbind (wrap_err ''failed to unmarshal metadata'' (rbind (pg_unmarshal pg (xr_metadata row)) (\<lambda>v.
        case v of GNil \<Rightarrow> Ok None | _ \<Rightarrow> rbind (as_map v) (\<lambda>m. Ok (Some m))))) (\<lambda>metadata.
      Ok (input, output, metadata))))"

text \<open>The value in the column \<open>recovery_metadata\<close> of a row; \<open>NULL\<close> gives no bytes, and the field stays nil.\<close>

definition unmarshal_recovery :: "'j postgres \<Rightarrow> repo_recovery_metadata option res" where
  "unmarshal_recovery pg =
    (case pg_recovery_column pg of
       Some (Some recoveryMetadataJSON) \<Rightarrow>
         wrap_err ''failed to unmarshal recovery metadata'' (rbind (pg_unmarshal_recovery pg recoveryMetadataJSON) (\<lambda>m. Ok (Some m)))
     | _ \<Rightarrow> Ok None)"

definition scanSingleExecution :: "'j postgres \<Rightarrow> 'j execution_row \<Rightarrow> execution_record res" where
  "scanSingleExecution pg row =
    rbind (unmarshalExecutionJSON pg row) (\<lambda>(input, output, metadata).
    rbind (unmarshal_recovery pg) (\<lambda>recoveryMeta.
      Ok \<lparr>er_ExecutionID = xr_execution_id row, er_StateMachineID = xr_state_machine_id row, er_Name = xr_name row,
          er_Input = input, er_Output = output, er_Status = xr_status row, er_StartTime = Some (xr_start_time row),
          er_EndTime = xr_end_time row, er_CurrentState = xr_current_state row, er_Error = xr_error row,
          er_Metadata = metadata, er_HistorySequenceNumber = xr_history_sequence_number row, er_RecoveryMetadata = recoveryMeta,
          er_CreatedAt = Some (xr_created_at row), er_UpdatedAt = Some (xr_updated_at row)\<rparr>))"

definition executeNonLinkedExecutionsQuery ::
  "'j postgres \<Rightarrow> non_linked_query \<times> (sql_arg + int) list \<Rightarrow> ('j db, execution_record list) op" where
  "executeNonLinkedExecutionsQuery pg q =
    op_bind (op_wrap ''failed to list non-linked executions'' (sql pg (\<lambda>d. rbind (select_non_linked pg q d) (\<lambda>rows. Ok (rows, d)))))
      (\<lambda>rows. op_return (all_rows (scanSingleExecution pg) rows))"

definition Postgres_ListNonLinkedExecutionsAnyState ::
  "'j postgres \<Rightarrow> execution_filter option \<Rightarrow> linked_execution_filter option \<Rightarrow> ('j db, execution_record list) op" where
  "Postgres_ListNonLinkedExecutionsAnyState pg executionFilter linkedExecutionFilter =
    executeNonLinkedExecutionsQuery pg (build (newNonLinkedExecutionsQueryBuilder executionFilter linkedExecutionFilter))"

section \<open>Lemmas on queries\<close>

text \<open>The newest row is the first one that no other exceeds; copies of a row do not change it.\<close>

lemma find_filter: "find P xs = (case filter P xs of [] \<Rightarrow> None | x # _ \<Rightarrow> Some x)"
  by (induction xs) auto

lemma newest_find: "newest f rows = find (\<lambda>r. \<forall>x\<in>set rows. f x \<le> f r) rows"
proof (cases "rows = []")
  case False
  obtain r rs where s: "sort_key (\<lambda>r. - f r) rows = r # rs" using False by (metis length_0_conv length_sort neq_Nil_conv)
  from newest_Some [OF False] have r: "newest f rows = Some r" "r \<in> set rows" "\<forall>x\<in>set rows. f x \<le> f r"
    by (metis s newest_def list.simps(5) option.inject)+
  have "filter (\<lambda>y. - f y = - f r) rows = filter (\<lambda>y. - f y = - f r) (r # rs)"
    by (metis s sort_key_stable)
  moreover have "filter (\<lambda>y. - f y = - f r) rows = filter (\<lambda>y. \<forall>x\<in>set rows. f x \<le> f y) rows"
    using r(2,3) by (intro filter_cong) (auto intro: order.antisym)
  ultimately have "filter (\<lambda>y. \<forall>x\<in>set rows. f x \<le> f y) rows = r # filter (\<lambda>y. - f y = - f r) rs" by simp
  then show ?thesis unfolding r(1) find_filter by simp
qed simp

definition copies :: "('a \<Rightarrow> 'b list) \<Rightarrow> 'a list \<Rightarrow> 'a list" where
  "copies hs xs = concat (map (\<lambda>e. map (\<lambda>h. e) (hs e)) xs)"

lemma copies_simps [simp]: "copies hs [] = []" "copies hs (x # xs) = map (\<lambda>h. x) (hs x) @ copies hs xs"
  by (simp_all add: copies_def)

lemma set_copies [simp]: "set (copies hs xs) = set (filter (\<lambda>e. hs e \<noteq> []) xs)"
  by (induction xs) (auto simp: image_constant_conv)

lemma filter_copies: "filter P (copies hs xs) = copies hs (filter P xs)"
  by (induction xs) (auto simp: filter_empty_conv)

lemma find_repeat: "find P (map (\<lambda>h. x) ys @ zs) = (if P x \<and> ys \<noteq> [] then Some x else find P zs)"
  by (induction ys) auto

lemma remdups_repeat:
  "remdups (map (\<lambda>h. y) ys @ zs) = (if ys = [] then remdups zs else remdups (y # zs))"
  by (induction ys) (auto simp: image_constant_conv)

lemma find_copies: "find P (copies hs xs) = find P (filter (\<lambda>e. hs e \<noteq> []) xs)"
  by (induction xs) (auto simp: find_repeat)

lemma newest_copies: "newest f (copies hs xs) = newest f (filter (\<lambda>e. hs e \<noteq> []) xs)"
  by (simp add: newest_find find_copies)

lemma remdups_copies: "remdups (map g (copies hs xs)) = remdups (map g (filter (\<lambda>e. hs e \<noteq> []) xs))"
  by (induction xs) (auto simp: remdups_repeat comp_def)

lemma latest_rows_copies: "latest_rows pg (copies hs xs) = latest_rows pg (filter (\<lambda>e. hs e \<noteq> []) xs)"
  by (simp add: latest_rows_def Let_def remdups_copies filter_copies newest_copies filter_filter conj_commute)

text \<open>What is left out of the rows by their identifier is left out of the latest ones.\<close>

lemma latest_rows_filter:
  "latest_rows pg (filter (\<lambda>e. Q (xr_execution_id e)) rows) = filter (\<lambda>e. Q (xr_execution_id e)) (latest_rows pg rows)"
proof -
  have ids: "map xr_execution_id (filter (\<lambda>e. Q (xr_execution_id e)) rows) = filter Q (map xr_execution_id rows)"
    by (simp add: filter_map comp_def)
  have newest: "newest xr_start_time (filter (\<lambda>r. xr_execution_id r = i) (filter (\<lambda>e. Q (xr_execution_id e)) rows)) =
      newest xr_start_time (filter (\<lambda>r. xr_execution_id r = i) rows)" if "Q i" for i
    using that by (auto simp: filter_filter intro!: arg_cong [where f = "newest xr_start_time"] filter_cong)
  have same: "xr_execution_id (the (newest xr_start_time (filter (\<lambda>r. xr_execution_id r = i) rows))) = i"
    if "i \<in> xr_execution_id ` set rows" for i
    using newest_Some [of "filter (\<lambda>r. xr_execution_id r = i) rows" xr_start_time] that by (force simp: filter_empty_conv)
  let ?g = "\<lambda>i. the (newest xr_start_time (filter (\<lambda>r. xr_execution_id r = i) rows))"
  let ?ids = "sort_key (pg_collate pg) (remdups (map xr_execution_id rows))"
  have "latest_rows pg (filter (\<lambda>e. Q (xr_execution_id e)) rows) = map ?g (filter Q ?ids)"
    unfolding latest_rows_def Let_def ids remdups_filter filter_sort using newest by (intro map_cong) auto
  also have "\<dots> = map ?g (filter (\<lambda>i. Q (xr_execution_id (?g i))) ?ids)"
    using same by (intro arg_cong [where f = "map ?g"] filter_cong) auto
  also have "\<dots> = filter (\<lambda>e. Q (xr_execution_id e)) (latest_rows pg rows)"
    by (simp add: latest_rows_def Let_def filter_map comp_def)
  finally show ?thesis .
qed

section \<open>Links and their count\<close>

text \<open>What the fields of a filter ask of a link, apart from the status of its source.\<close>

definition link_matches :: "'j postgres \<Rightarrow> linked_execution_filter \<Rightarrow> linked_execution_record \<Rightarrow> bool" where
  "link_matches pg f l \<longleftrightarrow>
    (lf_SourceStateMachineID f \<noteq> [] \<longrightarrow> le_SourceStateMachineID l = lf_SourceStateMachineID f) \<and>
    (lf_SourceExecutionID f \<noteq> [] \<longrightarrow> le_SourceExecutionID l = lf_SourceExecutionID f) \<and>
    (lf_SourceStateName f \<noteq> [] \<longrightarrow> le_SourceStateName l = lf_SourceStateName f) \<and>
    (lf_InputTransformerName f \<noteq> [] \<longrightarrow> le_InputTransformerName l = lf_InputTransformerName f) \<and>
    (lf_TargetStateMachineName f \<noteq> [] \<longrightarrow> le_TargetStateMachineName l = lf_TargetStateMachineName f) \<and>
    (lf_TargetExecutionID f \<noteq> [] \<longrightarrow> le_TargetExecutionID l = lf_TargetExecutionID f) \<and>
    (case lf_CreatedAfter f of Some t \<Rightarrow> pg_timestamp pg t \<le> le_CreatedAt l | None \<Rightarrow> True) \<and>
    (case lf_CreatedBefore f of Some t \<Rightarrow> le_CreatedAt l \<le> pg_timestamp pg t | None \<Rightarrow> True)"

text \<open>How often the join shows a link: once for every row of its source with the status that is asked for.\<close>

definition link_copies :: "linked_execution_filter \<Rightarrow> 'j db \<Rightarrow> linked_execution_record \<Rightarrow> nat" where
  "link_copies f d l =
    (if lf_SourceExecutionStatus f = [] then 1
     else length (filter (\<lambda>e. xr_execution_id e = le_SourceExecutionID l \<and> xr_status e = lf_SourceExecutionStatus f) (db_executions d)))"

definition matching_links :: "'j postgres \<Rightarrow> linked_execution_filter \<Rightarrow> 'j db \<Rightarrow> linked_execution_record list" where
  "matching_links pg f d = concat (map (\<lambda>l. replicate (link_copies f d l) l) (filter (link_matches pg f) (db_linked d)))"

text \<open>The conditions of a query with the arguments that their placeholders stand for.\<close>

definition bound :: "nat \<times> condition list \<times> sql_arg list \<Rightarrow> (string \<times> string \<times> sql_arg) list" where
  "bound q = map (\<lambda>c. (cond_column c, cond_op c, snd (snd q) ! (cond_arg c - 1))) (fst (snd q))"

definition placed :: "nat \<times> condition list \<times> sql_arg list \<Rightarrow> bool" where
  "placed q \<longleftrightarrow> fst q = Suc (length (snd (snd q))) \<and> (\<forall>c\<in>set (fst (snd q)). cond_arg c - 1 < length (snd (snd q)))"

lemma placed_start [simp]: "placed (Suc 0, [], [])" "bound (Suc 0, [], []) = []"
  by (simp_all add: placed_def bound_def)

lemma placed_add [simp]: "placed q \<Longrightarrow> placed (add_condition g column operator a q)"
  by (cases q) (auto simp: placed_def add_condition_def less_Suc_eq)

lemma bound_add [simp]:
  "placed q \<Longrightarrow> bound (add_condition g column operator a q) = bound q @ (if g then [(column, operator, a)] else [])"
  by (cases q) (auto simp: placed_def bound_def add_condition_def nth_append)

lemma link_holds_bound:
  "(\<forall>c\<in>set (fst (snd q)). link_holds pg (snd (snd q) ! (cond_arg c - 1)) r c) \<longleftrightarrow>
   (\<forall>(column, operator, a)\<in>set (bound q). link_holds pg a r (Condition column operator 0))"
  by (simp add: bound_def link_holds_def)

lemma link_holds_simps [simp]:
  "link_holds pg (AString v) r (Condition column operator n) \<longleftrightarrow> link_column r column = v"
  "link_holds pg (ATime t) r (Condition column ''>='' n) \<longleftrightarrow> pg_timestamp pg t \<le> le_CreatedAt (fst r)"
  "link_holds pg (ATime t) r (Condition column ''<='' n) \<longleftrightarrow> le_CreatedAt (fst r) \<le> pg_timestamp pg t"
  by (simp_all add: link_holds_def)

lemma optional_ball: "(\<forall>x\<in>set (if g then [y] else []). P x) \<longleftrightarrow> (g \<longrightarrow> P y)"
  by simp

lemma link_fields_placed [simp]: "placed (link_fields f)"
  by (simp add: link_fields_def)

lemma link_fields_bound:
  "(\<forall>(column, operator, a)\<in>set (bound (link_fields f)). link_holds pg a (l, status) (Condition column operator 0)) \<longleftrightarrow>
   link_matches pg (f\<lparr>lf_CreatedAfter := None, lf_CreatedBefore := None\<rparr>) l \<and>
   (lf_SourceExecutionStatus f \<noteq> [] \<longrightarrow> status = lf_SourceExecutionStatus f)"
proof -
  note split = ball_Un set_append optional_ball
  show ?thesis
    by (simp add: link_fields_def link_matches_def split link_column_def del: list.set if_distrib cong: if_cong) blast
qed

lemma link_times_bound:
  assumes "placed q"
  shows "(\<forall>(column, operator, a)\<in>set (bound (link_times f q)). link_holds pg a r (Condition column operator 0)) \<longleftrightarrow>
    (\<forall>(column, operator, a)\<in>set (bound q). link_holds pg a r (Condition column operator 0)) \<and>
    (\<forall>t. lf_CreatedAfter f = Some t \<longrightarrow> pg_timestamp pg t \<le> le_CreatedAt (fst r)) \<and>
    (\<forall>t. lf_CreatedBefore f = Some t \<longrightarrow> le_CreatedAt (fst r) \<le> pg_timestamp pg t)"
  by (cases "lf_CreatedAfter f"; cases "lf_CreatedBefore f") (simp_all add: link_times_def assms ball_Un conj_ac)

lemma linked_conditions_hold:
  "(\<forall>c\<in>set (fst (linked_conditions f)). link_holds pg (snd (linked_conditions f) ! (cond_arg c - 1)) (l, status) c) \<longleftrightarrow>
   link_matches pg f l \<and> (lf_SourceExecutionStatus f \<noteq> [] \<longrightarrow> status = lf_SourceExecutionStatus f)"
proof -
  have "link_matches pg f l \<longleftrightarrow> link_matches pg (f\<lparr>lf_CreatedAfter := None, lf_CreatedBefore := None\<rparr>) l \<and>
    (\<forall>t. lf_CreatedAfter f = Some t \<longrightarrow> pg_timestamp pg t \<le> le_CreatedAt l) \<and>
    (\<forall>t. lf_CreatedBefore f = Some t \<longrightarrow> le_CreatedAt l \<le> pg_timestamp pg t)"
    by (simp add: link_matches_def split: option.split)
  then show ?thesis
    unfolding linked_conditions_def link_holds_bound link_times_bound [OF link_fields_placed] link_fields_bound by simp blast
qed

lemma select_links_spec:
  "select_links pg (Some f) d = matching_links pg f d"
proof -
  define P where "P = (\<lambda>r. \<forall>c\<in>set (fst (linked_conditions f)). link_holds pg (snd (linked_conditions f) ! (cond_arg c - 1)) r c)"
  have P: "P (l, status) \<longleftrightarrow> link_matches pg f l \<and> (lf_SourceExecutionStatus f \<noteq> [] \<longrightarrow> status = lf_SourceExecutionStatus f)" for l status
    unfolding P_def by (rule linked_conditions_hold)
  have sel: "select_links pg (Some f) d = map fst (filter P (from_links (Some f) d))"
    by (simp add: select_links_def P_def split: prod.split)
  show ?thesis
  proof (cases "lf_SourceExecutionStatus f = []")
    case True
    have "concat (map (\<lambda>l. [l]) ls) = ls" for ls :: "linked_execution_record list" by (induction ls) auto
    then show ?thesis using True by (simp add: sel from_links_def needsJoin_def filter_map comp_def P link_copies_def matching_links_def)
  next
    case False
    define es where "es = db_executions d"
    have one: "map fst (filter P (map (\<lambda>e. (l, xr_status e)) (filter (\<lambda>e. le_SourceExecutionID l = xr_execution_id e) es))) =
        (if link_matches pg f l then replicate (link_copies f d l) l else [])" for l
      using False by (simp add: P link_copies_def filter_map comp_def es_def [symmetric] map_replicate_const conj_commute eq_commute)
    have "map fst (filter P (from_links (Some f) d)) = concat (map (\<lambda>l. if link_matches pg f l then replicate (link_copies f d l) l else []) ls)"
      if "db_linked d = ls" for ls
      using False by (simp add: from_links_def needsJoin_def es_def [symmetric] filter_concat map_concat comp_def one that)
    also have "concat (map (\<lambda>l. if Q l then g l else []) ls) = concat (map g (filter Q ls))" for Q and g :: "'x \<Rightarrow> 'y list" and ls
      by (induction ls) auto
    finally show ?thesis by (simp add: sel matching_links_def)
  qed
qed

text \<open>Two executions, of which the second one has two rows, and their history.\<close>

definition sample_link :: "string \<Rightarrow> string \<Rightarrow> linked_execution_record" where
  "sample_link i source = \<lparr>le_ID = i, le_SourceStateMachineID = ''m1'', le_SourceExecutionID = source, le_SourceStateName = ''A'',
     le_InputTransformerName = [], le_TargetStateMachineName = ''m2'', le_TargetExecutionID = ''t1'', le_CreatedAt = 0\<rparr>"

definition sample_linked_filter :: "string \<Rightarrow> linked_execution_filter" where
  "sample_linked_filter status = \<lparr>lf_SourceStateMachineID = ''m1'', lf_SourceExecutionID = [], lf_SourceStateName = [],
     lf_SourceExecutionStatus = status, lf_InputTransformerName = [], lf_TargetStateMachineName = [], lf_TargetExecutionID = [],
     lf_CreatedAfter = None, lf_CreatedBefore = None, lf_Limit = 1, lf_Offset = 0\<rparr>"

definition execution_at :: "string \<Rightarrow> int \<Rightarrow> gval execution_row" where
  "execution_at i start = \<lparr>xr_execution_id = i, xr_state_machine_id = ''m1'', xr_name = ''run'', xr_input = GNil, xr_output = GNil,
     xr_status = ''FAILED'', xr_start_time = start, xr_end_time = None, xr_current_state = ''A'', xr_error = [], xr_metadata = GMap [],
     xr_history_sequence_number = 0, xr_created_at = start, xr_updated_at = start\<rparr>"

definition history_at :: "string \<Rightarrow> int \<Rightarrow> gval history_row" where
  "history_at i start = \<lparr>yr_id = i @ ''-A'', yr_execution_id = i, yr_execution_start_time = start, yr_state_name = ''A'', yr_state_type = ''Pass'',
     yr_input = GNil, yr_output = GNil, yr_status = ''FAILED'', yr_start_time = start, yr_end_time = None, yr_error = [], yr_retry_count = 0,
     yr_sequence_number = 0, yr_metadata = GMap []\<rparr>"

definition linked_db :: "gval db" where
  "linked_db = empty_db\<lparr>db_executions := [execution_at ''e1'' 1000, execution_at ''e2'' 1000, execution_at ''e2'' 2000],
     db_history := [history_at ''e1'' 1000, history_at ''e2'' 2000]\<rparr>"

text \<open>Listing and counting of links agree with what the filter says. The list holds every link that matches the fields of the filter, once,
  or, when a status of the source is asked for, once for every stored row of the source execution with that status; newest first and
  cut to the page. The count is the length of that list before it is cut.\<close>

theorem linked_listing_and_count:
  assumes "pg_fault pg (db_tick d) = None"
  shows "fst (Postgres_ListLinkedExecutions pg (Some f) d) =
      Ok (paginate (lf_Limit f) (lf_Offset f) (sort_key (\<lambda>l. - le_CreatedAt l) (matching_links pg f d))) \<and>
    fst (Postgres_CountLinkedExecutions pg (Some f) d) = Ok (int (length (matching_links pg f d)))"
  using assms
  by (simp add: Postgres_ListLinkedExecutions_def Postgres_CountLinkedExecutions_def op_wrap_def sql_def select_links_spec Let_def)

theorem linked_listing_and_count_witness:
  "fst (Postgres_CountLinkedExecutions plain_pg (Some (sample_linked_filter ''FAILED'')) (linked_db\<lparr>db_linked := [sample_link ''l1'' ''e2'']\<rparr>)) = Ok 2 \<and>
   fst (Postgres_CountLinkedExecutions plain_pg (Some (sample_linked_filter [])) (linked_db\<lparr>db_linked := [sample_link ''l1'' ''e2'']\<rparr>)) = Ok 1"
proof -
  have "length (matching_links plain_pg (sample_linked_filter ''FAILED'') (linked_db\<lparr>db_linked := [sample_link ''l1'' ''e2'']\<rparr>)) = 2"
    "length (matching_links plain_pg (sample_linked_filter []) (linked_db\<lparr>db_linked := [sample_link ''l1'' ''e2'']\<rparr>)) = 1" by code_simp+
  then show ?thesis
    using linked_listing_and_count [of plain_pg "linked_db\<lparr>db_linked := [sample_link ''l1'' ''e2'']\<rparr>"] by simp
qed

section \<open>The builder: lemmas\<close>

type_synonym builder = nonLinkedExecutionsQueryBuilder

text \<open>
  A stage of the builder: from the arguments \<open>base\<close> it has come to the conditions \<open>cs\<close>, whose placeholders stand for the arguments in \<open>given\<close>, and the
  next placeholder is the next argument.
\<close>

definition resolved :: "(sql_arg + int) list \<Rightarrow> condition list \<Rightarrow> (string \<times> string \<times> sql_arg) list" where
  "resolved args cs = map (\<lambda>c. (cond_column c, cond_op c, arg_at args (cond_arg c))) cs"

definition stage :: "builder \<Rightarrow> builder \<times> condition list \<Rightarrow> (string \<times> string \<times> sql_arg) list \<Rightarrow> bool" where
  "stage b0 q given \<longleftrightarrow>
    nb_argPos (fst q) = Suc (length (nb_args (fst q))) \<and> (\<exists>ys. nb_args (fst q) = nb_args b0 @ ys) \<and>
    nb_linkedFilter (fst q) = nb_linkedFilter b0 \<and> nb_execFilter (fst q) = nb_execFilter b0 \<and>
    (\<forall>c\<in>set (snd q). cond_arg c - 1 < length (nb_args (fst q))) \<and> resolved (nb_args (fst q)) (snd q) = given"

lemma stage_start: "nb_argPos b = Suc (length (nb_args b)) \<Longrightarrow> stage b (b, []) []"
  by (simp add: stage_def resolved_def)

lemma resolved_append:
  "(\<forall>c\<in>set cs. cond_arg c - 1 < length args) \<Longrightarrow> resolved (args @ ys) cs = resolved args cs"
  by (simp add: resolved_def arg_at_def nth_append)

lemma stage_push:
  assumes "stage b0 (b, cs) given"
  shows "stage b0 (push_arg (Inl v) b, cs @ [Condition column operator (nb_argPos b)]) (given @ [(column, operator, v)])"
  using assms resolved_append [of cs "nb_args b" "[Inl v]"]
  by (auto simp: stage_def push_arg_def less_Suc_eq) (simp add: resolved_def arg_at_def)

lemma stage_condition:
  assumes "stage b0 q given"
  shows "stage b0 (addSubqueryCondition g column operator v q) (given @ (if g then [(column, operator, v)] else []))"
    and "stage b0 (addExecutionCondition g column operator v q) (given @ (if g then [(column, operator, v)] else []))"
  using assms stage_push [of b0 "fst q" "snd q" given v column operator]
  by (cases q; simp add: addSubqueryCondition_def addExecutionCondition_def)+

lemma optional_in: "(\<forall>x\<in>set (xs @ (if g then [y] else [])). P x) \<longleftrightarrow> (\<forall>x\<in>set xs. P x) \<and> (g \<longrightarrow> P y)"
  by auto

definition sub_given :: "linked_execution_filter option \<Rightarrow> (string \<times> string \<times> sql_arg) list" where
  "sub_given lf = (case lf of None \<Rightarrow> [] | Some f \<Rightarrow>
    (((([] @ (if lf_SourceStateName f \<noteq> [] then [(''le.source_state_name'', ''='', AString (lf_SourceStateName f))] else [])) @
       (if lf_InputTransformerName f \<noteq> [] then [(''le.input_transformer_name'', ''='', AString (lf_InputTransformerName f))] else [])) @
      (if lf_TargetStateMachineName f \<noteq> [] then [(''le.target_state_machine_name'', ''='', AString (lf_TargetStateMachineName f))] else [])) @
     (if lf_CreatedAfter f \<noteq> None then [(''le.created_at'', ''>='', ATime (the (lf_CreatedAfter f)))] else [])) @
    (if lf_CreatedBefore f \<noteq> None then [(''le.created_at'', ''<='', ATime (the (lf_CreatedBefore f)))] else []))"

definition source_given :: "linked_execution_filter option \<Rightarrow> (string \<times> string \<times> sql_arg) list" where
  "source_given lf = (case lf of None \<Rightarrow> [] | Some f \<Rightarrow>
    (([] @ (if lf_SourceStateMachineID f \<noteq> [] then [(''e.state_machine_id'', ''='', AString (lf_SourceStateMachineID f))] else [])) @
     (if lf_SourceExecutionID f \<noteq> [] then [(''e.execution_id'', ''='', AString (lf_SourceExecutionID f))] else [])) @
    (if lf_SourceExecutionStatus f \<noteq> [] then [(''e.status'', ''='', AString (lf_SourceExecutionStatus f))] else []))"

lemma buildSubquery_stage:
  assumes "nb_argPos b = Suc (length (nb_args b))"
  shows "stage b (buildSubquery b) (sub_given (nb_linkedFilter b))"
proof (cases "nb_linkedFilter b")
  case (Some f)
  show ?thesis unfolding buildSubquery_def sub_given_def Some option.case
    by (intro stage_condition(1) stage_start assms)
qed (simp add: buildSubquery_def sub_given_def stage_start assms)

lemma addExecutionFilters_stage:
  assumes "nb_argPos b = Suc (length (nb_args b))"
  shows "stage b (addExecutionFilters b) (source_given (nb_linkedFilter b))"
proof (cases "nb_linkedFilter b")
  case (Some f)
  show ?thesis unfolding addExecutionFilters_def source_given_def Some option.case
    by (intro stage_condition(2) stage_start assms)
qed (simp add: addExecutionFilters_def source_given_def stage_start assms)

lemma stage_extends:
  assumes "stage b0 (b, cs) given"
  shows "resolved (nb_args b @ ys) cs = given" and "nb_argPos b = Suc (length (nb_args b))"
    and "nb_linkedFilter b = nb_linkedFilter b0" and "nb_execFilter b = nb_execFilter b0" and "\<exists>zs. nb_args b = nb_args b0 @ zs"
  using assms by (auto simp: stage_def resolved_append)

definition state_given :: "linked_execution_filter option \<Rightarrow> string option" where
  "state_given lf = (case lf of None \<Rightarrow> None | Some f \<Rightarrow> if lf_SourceStateName f \<noteq> [] then Some (lf_SourceStateName f) else None)"

lemma addStateHistoryFilter_args:
  assumes "addStateHistoryFilter b = (b1, st)" and "nb_argPos b = Suc (length (nb_args b))"
  shows "map_option (arg_at (nb_args b1 @ ys)) st = map_option AString (state_given (nb_linkedFilter b))"
    and "nb_argPos b1 = Suc (length (nb_args b1))" and "nb_linkedFilter b1 = nb_linkedFilter b"
    and "nb_execFilter b1 = nb_execFilter b" and "\<exists>zs. nb_args b1 = nb_args b @ zs"
  using assms
  by (auto simp: addStateHistoryFilter_def push_arg_def state_given_def arg_at_def split: option.splits if_splits)

text \<open>The fields of an execution filter that end up behind the order of the query.\<close>

definition misplaced :: "execution_filter option \<Rightarrow> bool" where
  "misplaced ef = (case ef of None \<Rightarrow> False | Some f \<Rightarrow> ef_Name f \<noteq> [] \<or> ef_StartAfter f \<noteq> None \<or> ef_StartBefore f \<noteq> None)"

lemma addExecutionFilterConditions_args:
  assumes "addExecutionFilterConditions b = (b1, trailing)"
  shows "trailing = [] \<longleftrightarrow> \<not> misplaced (nb_execFilter b)" and "\<exists>zs. nb_args b1 = nb_args b @ zs"
proof -
  show "trailing = [] \<longleftrightarrow> \<not> misplaced (nb_execFilter b)"
    using assms by (auto simp: addExecutionFilterConditions_def misplaced_def Let_def split: option.splits if_splits)
  show "\<exists>zs. nb_args b1 = nb_args b @ zs"
    using assms by (auto simp: addExecutionFilterConditions_def push_arg_def Let_def split: option.splits if_splits)
qed

lemma addPagination_args:
  assumes "addPagination b = (b1, limit, offset, trailing)" and "nb_argPos b = Suc (length (nb_args b))"
  shows "trailing = [] \<longleftrightarrow> \<not> misplaced (nb_execFilter b)" and "\<exists>zs. nb_args b1 = nb_args b @ zs"
    and "paginate (int_at (nb_args b1) limit) (int_at (nb_args b1) offset) rows = filter_page (nb_execFilter b) rows"
proof -
  show "trailing = [] \<longleftrightarrow> \<not> misplaced (nb_execFilter b)"
    using assms(1) by (auto simp: addPagination_def push_arg_def misplaced_def Let_def split: option.splits if_splits prod.splits
      dest!: addExecutionFilterConditions_args(1))
  show "\<exists>zs. nb_args b1 = nb_args b @ zs"
    using assms(1) by (auto simp: addPagination_def push_arg_def Let_def split: option.splits if_splits prod.splits
      dest!: addExecutionFilterConditions_args(2))
  show "paginate (int_at (nb_args b1) limit) (int_at (nb_args b1) offset) rows = filter_page (nb_execFilter b) rows"
    using assms by (auto simp: addPagination_def push_arg_def Let_def int_at_def filter_page_def paginate_def nth_append
      split: option.splits if_splits prod.splits dest!: addExecutionFilterConditions_args(2))
qed

lemma build_spec:
  assumes "build (newNonLinkedExecutionsQueryBuilder ef lf) = (q, args)"
  shows "resolved args (nq_links q) = sub_given lf" and "resolved args (nq_where q) = source_given lf"
    and "map_option (arg_at args) (nq_state q) = map_option AString (state_given lf)"
    and "nq_trailing q = [] \<longleftrightarrow> \<not> misplaced ef"
    and "paginate (int_at args (nq_limit q)) (int_at args (nq_offset q)) rows = filter_page ef rows"
proof -
  let ?b = "newNonLinkedExecutionsQueryBuilder ef lf"
  have b: "?b\<lparr>nb_argPos := 1, nb_args := []\<rparr> = ?b" "nb_argPos ?b = Suc (length (nb_args ?b))" "nb_linkedFilter ?b = lf" "nb_execFilter ?b = ef"
    by (simp_all add: newNonLinkedExecutionsQueryBuilder_def)
  obtain b1 links where s1: "buildSubquery ?b = (b1, links)" by fastforce
  obtain b2 st where s2: "addStateHistoryFilter b1 = (b2, st)" by fastforce
  obtain b3 cs where s3: "addExecutionFilters b2 = (b3, cs)" by fastforce
  obtain b4 limit offset trailing where s4: "addPagination b3 = (b4, limit, offset, trailing)" by (metis prod_cases4)
  note r1 = stage_extends [OF buildSubquery_stage [OF b(2), unfolded s1]]
  note r2 = addStateHistoryFilter_args [OF s2 r1(2)]
  note r3 = stage_extends [OF addExecutionFilters_stage [OF r2(2), unfolded s3]]
  note r4 = addPagination_args [OF s4 r3(2)]
  have q: "q = \<lparr>nq_links = links, nq_state = st, nq_where = cs, nq_limit = limit, nq_offset = offset, nq_trailing = trailing\<rparr>"
    and args: "args = nb_args b4"
    using assms by (simp_all only: build_def Let_def b(1) s1 s2 s3 s4 prod.case prod.inject)
  obtain z2 z3 z4 where z: "nb_args b2 = nb_args b1 @ z2" "nb_args b3 = nb_args b2 @ z3" "nb_args b4 = nb_args b3 @ z4"
    using r2(5) r3(5) r4(2) by blast
  show "resolved args (nq_links q) = sub_given lf" using r1(1) [of "z2 @ z3 @ z4"] z by (simp add: q args b(3))
  show "resolved args (nq_where q) = source_given lf" using r3(1) [of z4] z r1(3) r2(3) by (simp add: q args b(3))
  show "map_option (arg_at args) (nq_state q) = map_option AString (state_given lf)"
    using r2(1) [of "z3 @ z4"] z r1(3) by (simp add: q args b(3))
  show "nq_trailing q = [] \<longleftrightarrow> \<not> misplaced ef" using r4(1) r1(4) r2(4) r3(4) by (simp add: q b(4))
  show "paginate (int_at args (nq_limit q)) (int_at args (nq_offset q)) rows = filter_page ef rows"
    using r4(3) r1(4) r2(4) r3(4) by (simp add: q args b(4))
qed

section \<open>Executions without links: properties\<close>

text \<open>
  What the query asks of an execution: an entry of its history (for the given state), no link from it that the filter describes, and the
  fields for the source. The fields \<open>TargetExecutionID\<close> of the filter, and \<open>Status\<close>, \<open>StateMachineID\<close> and \<open>CurrentState\<close> of the filter for
  executions, play no part.
\<close>

definition link_counts :: "'j postgres \<Rightarrow> linked_execution_filter option \<Rightarrow> linked_execution_record \<Rightarrow> bool" where
  "link_counts pg lf l = (case lf of None \<Rightarrow> True | Some f \<Rightarrow>
    link_matches pg (f\<lparr>lf_SourceStateMachineID := [], lf_SourceExecutionID := [], lf_TargetExecutionID := []\<rparr>) l)"

definition source_matches :: "linked_execution_filter option \<Rightarrow> 'j execution_row \<Rightarrow> bool" where
  "source_matches lf e = (case lf of None \<Rightarrow> True | Some f \<Rightarrow>
    (lf_SourceStateMachineID f \<noteq> [] \<longrightarrow> xr_state_machine_id e = lf_SourceStateMachineID f) \<and>
    (lf_SourceExecutionID f \<noteq> [] \<longrightarrow> xr_execution_id e = lf_SourceExecutionID f) \<and>
    (lf_SourceExecutionStatus f \<noteq> [] \<longrightarrow> xr_status e = lf_SourceExecutionStatus f))"

definition non_linked :: "'j postgres \<Rightarrow> linked_execution_filter option \<Rightarrow> 'j db \<Rightarrow> 'j execution_row \<Rightarrow> bool" where
  "non_linked pg lf d e \<longleftrightarrow>
    (\<exists>h\<in>set (db_history d). yr_execution_id h = xr_execution_id e \<and> (\<forall>s. state_given lf = Some s \<longrightarrow> yr_state_name h = s)) \<and>
    (\<forall>l\<in>set (db_linked d). le_SourceExecutionID l = xr_execution_id e \<longrightarrow> \<not> link_counts pg lf l) \<and> source_matches lf e"

lemma sub_given_holds:
  "(\<forall>(column, operator, a)\<in>set (sub_given lf). link_holds pg a (l, []) (Condition column operator 0)) \<longleftrightarrow> link_counts pg lf l"
proof (cases lf)
  case (Some f)
  show ?thesis unfolding Some sub_given_def link_counts_def option.case optional_in
    by (cases "lf_CreatedAfter f"; cases "lf_CreatedBefore f") (simp_all add: link_matches_def link_column_def)
qed (simp add: sub_given_def link_counts_def)

lemma source_given_holds:
  "(\<forall>(column, operator, a)\<in>set (source_given lf). source_holds a e (Condition column operator 0)) \<longleftrightarrow> source_matches lf e"
proof (cases lf)
  case (Some f)
  show ?thesis unfolding Some source_given_def source_matches_def option.case optional_in
    by (auto simp: source_holds_def)
qed (simp add: source_given_def source_matches_def)

lemma resolved_ball:
  assumes "\<And>c. test (arg_at args (cond_arg c)) c \<longleftrightarrow> test (arg_at args (cond_arg c)) (Condition (cond_column c) (cond_op c) 0)"
  shows "(\<forall>c\<in>set cs. test (arg_at args (cond_arg c)) c) \<longleftrightarrow>
    (\<forall>(column, operator, a)\<in>set (resolved args cs). test a (Condition column operator 0))"
  using assms by (simp add: resolved_def)

lemma select_non_linked_spec:
  "select_non_linked pg (build (newNonLinkedExecutionsQueryBuilder ef lf)) d =
    (if pg_recovery_column pg \<noteq> None \<and> \<not> misplaced ef
     then Ok (filter_page ef (latest_rows pg (filter (non_linked pg lf d) (db_executions d))))
     else Err (pg_reject pg ''query''))"
proof -
  obtain q args where q: "build (newNonLinkedExecutionsQueryBuilder ef lf) = (q, args)" by fastforce
  note spec = build_spec [OF q]
  have links: "link_joins pg q args e l \<longleftrightarrow> xr_execution_id e = le_SourceExecutionID l \<and> link_counts pg lf l" for e :: "'a execution_row" and l
    unfolding link_joins_def sub_given_holds [symmetric] spec(1) [symmetric]
    by (subst resolved_ball [where test = "\<lambda>a c. link_holds pg a (l, []) c"]) (simp_all add: link_holds_def split: sql_arg.split)
  have source: "(\<forall>c\<in>set (nq_where q). source_holds (arg_at args (cond_arg c)) e c) \<longleftrightarrow> source_matches lf e" for e :: "'a execution_row"
    unfolding source_given_holds [symmetric] spec(2) [symmetric]
    by (subst resolved_ball [where test = "\<lambda>a c. source_holds a e c"]) (simp_all add: source_holds_def)
  have history: "history_joins q args e h \<longleftrightarrow> yr_execution_id h = xr_execution_id e \<and> (\<forall>s. state_given lf = Some s \<longrightarrow> yr_state_name h = s)"
    for e :: "'a execution_row" and h
    using spec(3) by (cases "nq_state q"; cases "state_given lf") (auto simp: history_joins_def)
  let ?kept = "\<lambda>e. filter (link_joins pg q args e) (db_linked d) = [] \<and> (\<forall>c\<in>set (nq_where q). source_holds (arg_at args (cond_arg c)) e c)"
  let ?hs = "\<lambda>e. filter (history_joins q args e) (db_history d)"
  have "latest_rows pg (filter ?kept (copies ?hs (db_executions d))) = latest_rows pg (filter (non_linked pg lf d) (db_executions d))"
    unfolding filter_copies latest_rows_copies filter_filter
    by (intro arg_cong [where f = "latest_rows pg"] filter_cong) (auto simp: non_linked_def source links history filter_empty_conv)
  then show ?thesis unfolding q
    by (simp add: select_non_linked_def spec(4,5) copies_def)
qed

lemma ListNonLinkedExecutionsAnyState_rows:
  assumes "pg_fault pg (db_tick d) = None"
  shows "fst (Postgres_ListNonLinkedExecutionsAnyState pg ef lf d) =
    (if misplaced ef \<or> pg_recovery_column pg = None then Err (Wrapped ''failed to list non-linked executions'' (pg_reject pg ''query''))
     else all_rows (scanSingleExecution pg) (filter_page ef (latest_rows pg (filter (non_linked pg lf d) (db_executions d)))))"
  using assms
  by (simp add: Postgres_ListNonLinkedExecutionsAnyState_def executeNonLinkedExecutionsQuery_def op_bind_def op_wrap_def op_return_def sql_def
    select_non_linked_spec Let_def)

text \<open>C26: The listing of executions without links, for every filter and every state of the tables. The query selects the column \<open>recovery_metadata\<close>, so
  with the schema that \<open>Initialize\<close> creates every call is refused, and so it is whenever the filter for executions names a part of the name or a
  time of start, because those conditions are appended behind the order of the query. Otherwise, once the column has been added by hand, the
  listing holds, for each execution that has an entry of its history, no link that the filter describes, and the source fields asked for, its latest row
  with the recovery metadata read from the column, ordered and cut to the page; or the error of the first of these rows that does not decode. The connection does not fail.\<close>

theorem ListNonLinkedExecutionsAnyState_spec:
  assumes "pg_fault pg (db_tick d) = None"
  shows "fst (Postgres_ListNonLinkedExecutionsAnyState pg ef lf d) =
    (if misplaced ef \<or> pg_recovery_column pg = None then Err (Wrapped ''failed to list non-linked executions'' (pg_reject pg ''query''))
     else all_rows (scanSingleExecution pg) (filter_page ef (latest_rows pg (filter (non_linked pg lf d) (db_executions d)))))"
  by (rule ListNonLinkedExecutionsAnyState_rows [OF assms])

theorem ListNonLinkedExecutionsAnyState_spec_witness:
  "fst (Postgres_ListNonLinkedExecutionsAnyState plain_pg (Some (sample_filter [] None\<lparr>ef_StartAfter := Some 1000\<rparr>)) None linked_db) =
     Err (Wrapped ''failed to list non-linked executions'' (ErrorNew ''query'')) \<and>
   fst (Postgres_ListNonLinkedExecutionsAnyState (plain_pg\<lparr>pg_recovery_column := None\<rparr>) None None linked_db) =
     Err (Wrapped ''failed to list non-linked executions'' (ErrorNew ''query'')) \<and>
   rbind (fst (Postgres_ListNonLinkedExecutionsAnyState plain_pg (Some (sample_filter ''SUCCEEDED'' None\<lparr>ef_StartAfter := None\<rparr>)) None linked_db))
     (\<lambda>rs. Ok (map (\<lambda>r. (er_ExecutionID r, er_StartTime r, er_RecoveryMetadata r = Some empty_recovery)) rs)) =
     Ok [(''e1'', Some 1000, True), (''e2'', Some 2000, True)]"
proof (intro conjI)
  show "fst (Postgres_ListNonLinkedExecutionsAnyState (plain_pg\<lparr>pg_recovery_column := None\<rparr>) None None linked_db) =
     Err (Wrapped ''failed to list non-linked executions'' (ErrorNew ''query''))"
    using ListNonLinkedExecutionsAnyState_spec [of "plain_pg\<lparr>pg_recovery_column := None\<rparr>" linked_db None None] by (simp add: plain_pg_def)
  have "misplaced (Some (sample_filter [] None\<lparr>ef_StartAfter := Some 1000\<rparr>))" by code_simp
  then show "fst (Postgres_ListNonLinkedExecutionsAnyState plain_pg (Some (sample_filter [] None\<lparr>ef_StartAfter := Some 1000\<rparr>)) None linked_db) =
     Err (Wrapped ''failed to list non-linked executions'' (ErrorNew ''query''))"
    using ListNonLinkedExecutionsAnyState_spec [of plain_pg linked_db "Some (sample_filter [] None\<lparr>ef_StartAfter := Some 1000\<rparr>)" None]
    by (simp add: plain_pg_def)
  show "rbind (fst (Postgres_ListNonLinkedExecutionsAnyState plain_pg (Some (sample_filter ''SUCCEEDED'' None\<lparr>ef_StartAfter := None\<rparr>)) None linked_db))
     (\<lambda>rs. Ok (map (\<lambda>r. (er_ExecutionID r, er_StartTime r, er_RecoveryMetadata r = Some empty_recovery)) rs)) =
     Ok [(''e1'', Some 1000, True), (''e2'', Some 2000, True)]" by code_simp
qed

lemma all_rows_Ok: "all_rows f rows = Ok as \<longleftrightarrow> list_all2 (\<lambda>r a. f r = Ok a) rows as"
proof (induction rows arbitrary: as)
  case (Cons r rows)
  show ?case by (cases "f r"; cases "all_rows f rows"; cases as) (auto simp: Cons.IH [symmetric])
qed auto

lemma all_rows_filter:
  assumes "all_rows f rows = Ok as" and "\<And>r a. f r = Ok a \<Longrightarrow> P r \<longleftrightarrow> Q a"
  shows "all_rows f (filter P rows) = Ok (filter Q as)"
proof -
  have "list_all2 (\<lambda>r a. f r = Ok a) rows as" using assms(1) by (simp add: all_rows_Ok)
  then have "list_all2 (\<lambda>r a. f r = Ok a) (filter P rows) (filter Q as)" by (induction rule: list_all2_induct) (auto simp: assms(2))
  then show ?thesis by (simp add: all_rows_Ok)
qed

lemma scanSingleExecution_ID: "scanSingleExecution pg row = Ok r \<Longrightarrow> er_ExecutionID r = xr_execution_id row"
  by (cases "unmarshalExecutionJSON pg row"; cases "unmarshal_recovery pg") (auto simp: scanSingleExecution_def)

lemma SaveLinkedExecution_Ok:
  assumes "Postgres_SaveLinkedExecution pg l d = (Ok u, d1)"
  shows "d1 = d\<lparr>db_linked := upsert le_ID (\<lambda>old new. old) (l\<lparr>le_CreatedAt := pg_now pg (db_tick d)\<rparr>) (db_linked d), db_tick := Suc (db_tick d)\<rparr>"
  using assms by (auto simp: Postgres_SaveLinkedExecution_def op_wrap_Ok sql_Ok split: if_splits)

text \<open>Saving a link takes its source out of the listing of executions without links and changes nothing else there: if the listing returns \<open>before\<close>
  and a link under a new identifier is then saved, the listing returns the same records in the same order, without those of the
  link's source.\<close>

theorem saved_link_leaves_listing:
  assumes "Postgres_ListNonLinkedExecutionsAnyState pg None None d = (Ok before, d1)"
    and "le_ID l \<notin> le_ID ` set (db_linked d)" and "Postgres_SaveLinkedExecution pg l d1 = (Ok (), d2)"
    and "pg_fault pg (db_tick d2) = None"
  shows "fst (Postgres_ListNonLinkedExecutionsAnyState pg None None d2) = Ok (filter (\<lambda>r. er_ExecutionID r \<noteq> le_SourceExecutionID l) before)"
proof -
  have nofault: "pg_fault pg (db_tick d) = None" and mig: "pg_recovery_column pg \<noteq> None"
    and d1: "d1 = d\<lparr>db_tick := Suc (db_tick d)\<rparr>"
    using assms(1) by (auto simp: Postgres_ListNonLinkedExecutionsAnyState_def executeNonLinkedExecutionsQuery_def op_bind_eq op_wrap_Ok sql_Ok
      select_non_linked_spec split: if_splits)
  let ?row = "l\<lparr>le_CreatedAt := pg_now pg (db_tick d1)\<rparr>"
  have d2: "db_executions d2 = db_executions d" "db_history d2 = db_history d" "set (db_linked d2) = insert ?row (set (db_linked d))"
    using SaveLinkedExecution_Ok [OF assms(3)] assms(2) by (auto simp: d1 upsert_def)
  have before: "all_rows (scanSingleExecution pg) (latest_rows pg (filter (non_linked pg None d) (db_executions d))) = Ok before"
    using assms(1) ListNonLinkedExecutionsAnyState_rows [OF nofault, of None None] mig by (simp add: misplaced_def filter_page_def)
  have "non_linked pg None d2 e \<longleftrightarrow> non_linked pg None d e \<and> xr_execution_id e \<noteq> le_SourceExecutionID l" for e
    by (auto simp: non_linked_def d2 link_counts_def)
  then have "filter (non_linked pg None d2) (db_executions d2) =
      filter (\<lambda>e. xr_execution_id e \<noteq> le_SourceExecutionID l) (filter (non_linked pg None d) (db_executions d))"
    by (auto simp: d2(1) filter_filter intro!: filter_cong)
  then have "latest_rows pg (filter (non_linked pg None d2) (db_executions d2)) =
      filter (\<lambda>e. xr_execution_id e \<noteq> le_SourceExecutionID l) (latest_rows pg (filter (non_linked pg None d) (db_executions d)))"
    by (simp only: latest_rows_filter [where Q = "\<lambda>i. i \<noteq> le_SourceExecutionID l"])
  moreover have "all_rows (scanSingleExecution pg) (filter (\<lambda>e. xr_execution_id e \<noteq> le_SourceExecutionID l)
      (latest_rows pg (filter (non_linked pg None d) (db_executions d)))) = Ok (filter (\<lambda>r. er_ExecutionID r \<noteq> le_SourceExecutionID l) before)"
    by (rule all_rows_filter [OF before]) (simp add: scanSingleExecution_ID)
  ultimately show ?thesis
    using ListNonLinkedExecutionsAnyState_rows [OF assms(4), of None None] mig by (simp add: misplaced_def filter_page_def)
qed

theorem saved_link_leaves_listing_witness:
  "\<exists>before d1 d2. Postgres_ListNonLinkedExecutionsAnyState plain_pg None None linked_db = (Ok before, d1) \<and>
     map er_ExecutionID before = [''e1'', ''e2''] \<and> Postgres_SaveLinkedExecution plain_pg (sample_link ''l1'' ''e2'') d1 = (Ok (), d2) \<and>
     fst (Postgres_ListNonLinkedExecutionsAnyState plain_pg None None d2) = Ok (filter (\<lambda>r. er_ExecutionID r \<noteq> ''e2'') before)"
proof -
  let ?l = "sample_link ''l1'' ''e2''"
  obtain r1 d1 where list: "Postgres_ListNonLinkedExecutionsAnyState plain_pg None None linked_db = (r1, d1)" by fastforce
  obtain r2 d2 where save: "Postgres_SaveLinkedExecution plain_pg ?l d1 = (r2, d2)" by fastforce
  have "rbind (fst (Postgres_ListNonLinkedExecutionsAnyState plain_pg None None linked_db)) (\<lambda>rs. Ok (map er_ExecutionID rs)) = Ok [''e1'', ''e2'']"
    by code_simp
  then obtain before where before: "r1 = Ok before" "map er_ExecutionID before = [''e1'', ''e2'']" by (cases r1) (auto simp: list)
  have "fst (Postgres_SaveLinkedExecution plain_pg ?l (snd (Postgres_ListNonLinkedExecutionsAnyState plain_pg None None linked_db))) = Ok ()"
    by code_simp
  then have ok: "r2 = Ok ()" by (simp add: list save)
  have "le_ID ?l \<notin> le_ID ` set (db_linked linked_db)" "le_SourceExecutionID ?l = ''e2''"
    by (simp_all add: linked_db_def empty_db_def sample_link_def)
  then have "fst (Postgres_ListNonLinkedExecutionsAnyState plain_pg None None d2) = Ok (filter (\<lambda>r. er_ExecutionID r \<noteq> ''e2'') before)"
    using saved_link_leaves_listing [OF list [unfolded before(1)] _ save [unfolded ok]] by simp
  with list save before ok show ?thesis by auto
qed

end
