(* ===== verification/Gorm.thy ===== *)
theory Gorm
  imports PostgresQueries Persistent "HOL-Library.Sublist"
begin

text \<open>
  The GORM backend (\<open>pkg/repository/gorm_postgres.go\<close>, \<open>models.go\<close>): the models of the tables with their conversions and hooks, and the operations
  of the repository with its cache of state machine definitions. GORM, with the server behind it, is the parameter \<open>gorm\<close>: one record \<open>gtable\<close> of
  operations for each table and a few statements of their own. A condition \<open>Where("status = ?", v)\<close> is a predicate on the rows, an order the keys to sort by.

  What the backend relies on of GORM is the locale \<open>gorm_store\<close>: rows are found by their conditions, in any order where none is asked for;
  \<open>Create\<close> adds a row under a new key, \<open>Save\<close> writes it under its key, an update changes the rows that match; a call that fails may or may not
  have taken effect. A row of the model holds what a later read of it gives, that is, JSON columns after \<open>Value\<close> and \<open>Scan\<close>.

  The lemmas show what is read back after a save, that the contract of message correlations holds here too, so that the theorems of \<open>Persistent\<close> carry
  over, and when the cache agrees with the table.
\<close>

section \<open>JSON columns\<close>

type_synonym jsonb = "gmap option"

text \<open>\<open>encoding/json\<close>, and the values that the driver hands to \<open>Scan\<close>.\<close>

record 'j json_codec =
  jc_Marshal :: "gval \<Rightarrow> 'j res"
  jc_Unmarshal :: "'j \<Rightarrow> gval res"

datatype 'j driver_value = Null | Bytes 'j | OtherValue

definition JSONB_Value :: "'j json_codec \<Rightarrow> jsonb \<Rightarrow> 'j driver_value res" where
  "JSONB_Value cd j = (case j of None \<Rightarrow> Ok Null | Some m \<Rightarrow> rbind (jc_Marshal cd (GMap m)) (\<lambda>b. Ok (Bytes b)))"

definition JSONB_Scan :: "'j json_codec \<Rightarrow> 'j driver_value \<Rightarrow> jsonb res" where
  "JSONB_Scan cd v =
    (case v of
       Null \<Rightarrow> Ok None
     | OtherValue \<Rightarrow> Err (ErrorNew ''failed to unmarshal JSONB value'')
     | Bytes b \<Rightarrow> rbind (jc_Unmarshal cd b) (\<lambda>r. case r of GNil \<Rightarrow> Ok None | _ \<Rightarrow> rbind (as_map r) (\<lambda>m. Ok (Some m))))"

definition jsonb_stored :: "'j json_codec \<Rightarrow> jsonb \<Rightarrow> jsonb res" where
  "jsonb_stored cd j = rbind (JSONB_Value cd j) (JSONB_Scan cd)"

definition toJSONB :: "gval \<Rightarrow> jsonb" where
  "toJSONB data = (case data of GNil \<Rightarrow> None | GMap m \<Rightarrow> Some m | _ \<Rightarrow> Some [(''$'', data)])"

text \<open>\<open>fromJSONB\<close> returns a map; stored in an \<open>interface{}\<close> after a test for nil, or at once.\<close>

definition fromJSONB :: "jsonb \<Rightarrow> gmap option" where
  "fromJSONB j = (case j of None \<Rightarrow> None | Some m \<Rightarrow> Some m)"

definition map_value :: "jsonb \<Rightarrow> gval" where
  "map_value j = (case fromJSONB j of None \<Rightarrow> GMap [] | Some m \<Rightarrow> GMap m)"

definition set_value :: "jsonb \<Rightarrow> gval" where
  "set_value j = (if j \<noteq> None then map_value j else GNil)"

section \<open>Models\<close>

text \<open>A \<open>time.Time\<close> that is not set is \<open>zero_time\<close>.\<close>

record state_machine_model =
  sm_ID :: string
  sm_Name :: string
  sm_Description :: string
  sm_Definition :: string
  sm_Type :: string
  sm_Version :: string
  sm_Metadata :: jsonb
  sm_CreatedAt :: int
  sm_UpdatedAt :: int

record execution_model =
  xm_ExecutionID :: string
  xm_StateMachineID :: string
  xm_Name :: string
  xm_Input :: jsonb
  xm_Output :: jsonb
  xm_Status :: string
  xm_StartTime :: int
  xm_EndTime :: int
  xm_CurrentState :: string
  xm_Error :: string
  xm_Metadata :: jsonb
  xm_HistorySequenceNumber :: int
  xm_RecoveryMetadata :: jsonb
  xm_CreatedAt :: int
  xm_UpdatedAt :: int

definition ExecutionModel_BeforeCreate :: "execution_model \<Rightarrow> err option" where
  "ExecutionModel_BeforeCreate e =
    (if xm_Status e \<in> set [''RUNNING'', ''SUCCEEDED'', ''FAILED'', ''CANCELLED'', ''TIMED_OUT'', ''ABORTED'', ''PAUSED''] then None
     else Some (ErrorNew ''invalid execution status''))"

record state_history_model =
  hm_ID :: string
  hm_ExecutionID :: string
  hm_StateName :: string
  hm_StateType :: string
  hm_Input :: jsonb
  hm_Output :: jsonb
  hm_Status :: string
  hm_ExecutionStartTime :: int
  hm_StartTime :: int
  hm_EndTime :: int
  hm_Error :: string
  hm_RetryCount :: int
  hm_SequenceNumber :: int
  hm_Metadata :: jsonb
  hm_CreatedAt :: int

definition StateHistoryModel_BeforeCreate :: "state_history_model \<Rightarrow> err option" where
  "StateHistoryModel_BeforeCreate s =
    (if hm_Status s \<in> set [''SUCCEEDED'', ''FAILED'', ''RUNNING'', ''CANCELLED'', ''TIMED_OUT'', ''RETRYING'', ''WAITING''] then None
     else Some (ErrorNew ''invalid state history status''))"

record message_correlation_model =
  qm_ID :: string
  qm_ExecutionID :: string
  qm_ExecutionStartTime :: int
  qm_StateMachineID :: string
  qm_StateName :: string
  qm_CorrelationKey :: string
  qm_CorrelationValue :: jsonb
  qm_CreatedAt :: int
  qm_TimeoutAt :: "int option"
  qm_Status :: string

record linked_execution_model =
  lm_ID :: string
  lm_SourceStateMachineID :: string
  lm_SourceExecutionID :: string
  lm_SourceStateName :: string
  lm_InputTransformerName :: string
  lm_TargetStateMachineName :: string
  lm_TargetExecutionID :: string
  lm_CreatedAt :: int

section \<open>Conversion\<close>

definition time_or_zero :: "int option \<Rightarrow> int" where
  "time_or_zero t = (case t of Some x \<Rightarrow> x | None \<Rightarrow> zero_time)"

definition toExecutionModel :: "execution_record \<Rightarrow> execution_model" where
  "toExecutionModel r =
    \<lparr>xm_ExecutionID = er_ExecutionID r, xm_StateMachineID = er_StateMachineID r, xm_Name = er_Name r, xm_Input = toJSONB (er_Input r),
     xm_Output = toJSONB (er_Output r), xm_Status = er_Status r, xm_StartTime = time_or_zero (er_StartTime r),
     xm_EndTime = time_or_zero (er_EndTime r), xm_CurrentState = er_CurrentState r, xm_Error = er_Error r,
     xm_Metadata = (case er_Metadata r of None \<Rightarrow> None | Some m \<Rightarrow> toJSONB (GMap m)),
     xm_HistorySequenceNumber = er_HistorySequenceNumber r, xm_RecoveryMetadata = None, xm_CreatedAt = zero_time, xm_UpdatedAt = zero_time\<rparr>"

definition fromExecutionModel :: "execution_model \<Rightarrow> execution_record" where
  "fromExecutionModel m =
    \<lparr>er_ExecutionID = xm_ExecutionID m, er_StateMachineID = xm_StateMachineID m, er_Name = xm_Name m, er_Input = set_value (xm_Input m),
     er_Output = set_value (xm_Output m), er_Status = xm_Status m, er_StartTime = Some (xm_StartTime m),
     er_EndTime = (if xm_EndTime m = zero_time then None else Some (xm_EndTime m)), er_CurrentState = xm_CurrentState m,
     er_Error = xm_Error m, er_Metadata = fromJSONB (xm_Metadata m), er_HistorySequenceNumber = xm_HistorySequenceNumber m,
     er_RecoveryMetadata = None, er_CreatedAt = None, er_UpdatedAt = None\<rparr>"

definition toStateHistoryModel :: "state_history_record \<Rightarrow> state_history_model" where
  "toStateHistoryModel h =
    \<lparr>hm_ID = hr_ID h, hm_ExecutionID = hr_ExecutionID h, hm_StateName = hr_StateName h, hm_StateType = hr_StateType h,
     hm_Input = toJSONB (hr_Input h), hm_Output = toJSONB (hr_Output h), hm_Status = hr_Status h,
     hm_ExecutionStartTime = time_or_zero (hr_ExecutionStartTime h), hm_StartTime = time_or_zero (hr_StartTime h),
     hm_EndTime = time_or_zero (hr_EndTime h), hm_Error = hr_Error h, hm_RetryCount = hr_RetryCount h,
     hm_SequenceNumber = hr_SequenceNumber h, hm_Metadata = (case hr_Metadata h of None \<Rightarrow> None | Some m \<Rightarrow> toJSONB (GMap m)),
     hm_CreatedAt = zero_time\<rparr>"

text \<open>\<open>EndTime\<close> points at the field of the model even when it is zero, and \<open>ExecutionStartTime\<close> is not copied.\<close>

definition fromStateHistoryModel :: "state_history_model \<Rightarrow> state_history_record" where
  "fromStateHistoryModel m =
    \<lparr>hr_ID = hm_ID m, hr_ExecutionID = hm_ExecutionID m, hr_ExecutionStartTime = None, hr_StateName = hm_StateName m,
     hr_StateType = hm_StateType m, hr_Input = set_value (hm_Input m), hr_Output = set_value (hm_Output m), hr_Status = hm_Status m,
     hr_StartTime = Some (hm_StartTime m), hr_EndTime = Some (hm_EndTime m), hr_Error = hm_Error m, hr_RetryCount = hm_RetryCount m,
     hr_SequenceNumber = hm_SequenceNumber m, hr_Metadata = fromJSONB (hm_Metadata m)\<rparr>"

definition toStateMachineModel :: "state_machine_record \<Rightarrow> state_machine_model" where
  "toStateMachineModel r =
    \<lparr>sm_ID = mr_ID r, sm_Name = mr_Name r, sm_Description = mr_Description r, sm_Definition = mr_Definition r, sm_Type = mr_Type r,
     sm_Version = mr_Version r, sm_Metadata = mr_Metadata r, sm_CreatedAt = time_or_zero (mr_CreatedAt r),
     sm_UpdatedAt = time_or_zero (mr_UpdatedAt r)\<rparr>"

definition fromStateMachineModel :: "state_machine_model \<Rightarrow> state_machine_record" where
  "fromStateMachineModel m =
    \<lparr>mr_ID = sm_ID m, mr_Name = sm_Name m, mr_Description = sm_Description m, mr_Definition = sm_Definition m, mr_Type = sm_Type m,
     mr_Version = sm_Version m, mr_CreatedAt = value_time (sm_CreatedAt m), mr_UpdatedAt = value_time (sm_UpdatedAt m),
     mr_Metadata = fromJSONB (sm_Metadata m)\<rparr>"

definition toLinkedExecutionModel :: "linked_execution_record \<Rightarrow> linked_execution_model" where
  "toLinkedExecutionModel r =
    \<lparr>lm_ID = le_ID r, lm_SourceStateMachineID = le_SourceStateMachineID r, lm_SourceExecutionID = le_SourceExecutionID r,
     lm_SourceStateName = le_SourceStateName r, lm_InputTransformerName = le_InputTransformerName r,
     lm_TargetStateMachineName = le_TargetStateMachineName r, lm_TargetExecutionID = le_TargetExecutionID r, lm_CreatedAt = le_CreatedAt r\<rparr>"

definition fromLinkedExecutionModel :: "linked_execution_model \<Rightarrow> linked_execution_record" where
  "fromLinkedExecutionModel m =
    \<lparr>le_ID = lm_ID m, le_SourceStateMachineID = lm_SourceStateMachineID m, le_SourceExecutionID = lm_SourceExecutionID m,
     le_SourceStateName = lm_SourceStateName m, le_InputTransformerName = lm_InputTransformerName m,
     le_TargetStateMachineName = lm_TargetStateMachineName m, le_TargetExecutionID = lm_TargetExecutionID m, le_CreatedAt = lm_CreatedAt m\<rparr>"

definition toMessageCorrelationModel :: "message_correlation_record \<Rightarrow> message_correlation_model" where
  "toMessageCorrelationModel r =
    \<lparr>qm_ID = mc_ID r, qm_ExecutionID = mc_ExecutionID r, qm_ExecutionStartTime = time_or_zero (mc_ExecutionStartTime r),
     qm_StateMachineID = mc_StateMachineID r, qm_StateName = mc_StateName r, qm_CorrelationKey = mc_CorrelationKey r,
     qm_CorrelationValue = toJSONB (mc_CorrelationValue r), qm_CreatedAt = mc_CreatedAt r, qm_TimeoutAt = mc_TimeoutAt r,
     qm_Status = mc_Status r\<rparr>"

definition fromMessageCorrelationModel :: "message_correlation_model \<Rightarrow> message_correlation_record" where
  "fromMessageCorrelationModel m =
    \<lparr>mc_ID = qm_ID m, mc_ExecutionID = qm_ExecutionID m, mc_ExecutionStartTime = Some (qm_ExecutionStartTime m),
     mc_StateMachineID = qm_StateMachineID m, mc_StateName = qm_StateName m, mc_CorrelationKey = qm_CorrelationKey m,
     mc_CorrelationValue = map_value (qm_CorrelationValue m), mc_CreatedAt = qm_CreatedAt m, mc_TimeoutAt = qm_TimeoutAt m,
     mc_Status = qm_Status m\<rparr>"

section \<open>GORM\<close>

text \<open>
  A query: its conditions, the keys of its order (the first one decides first), and the page, where 0 stands for no limit or offset.
  \<open>NotIn f ps\<close> is \<open>f NOT IN (SELECT DISTINCT source_execution_id FROM linked_executions WHERE \<dots>)\<close>.
\<close>

datatype 'm gcond = Where "'m \<Rightarrow> bool" | NotIn "'m \<Rightarrow> string" "(linked_execution_model \<Rightarrow> bool) list"

record 'm gquery =
  gq_where :: "'m gcond list"
  gq_order :: "('m \<Rightarrow> int) list"
  gq_limit :: int
  gq_offset :: int

text \<open>
  A table. \<open>gt_create\<close> inserts a row and returns it as stored, with generated columns; \<open>gt_insert_ignore\<close> adds \<open>ON CONFLICT DO NOTHING\<close>;
  \<open>gt_save\<close> inserts or replaces by the primary key; \<open>gt_update\<close> and \<open>gt_delete\<close> return the number of rows affected.
\<close>

record ('g, 'm) gtable =
  gt_create :: "'m \<Rightarrow> ('g, 'm) op"
  gt_insert_ignore :: "'m \<Rightarrow> ('g, unit) op"
  gt_save :: "'m \<Rightarrow> ('g, unit) op"
  gt_find :: "'m gquery \<Rightarrow> ('g, 'm list) op"
  gt_pluck :: "('m \<Rightarrow> string) \<Rightarrow> 'm gquery \<Rightarrow> ('g, string list) op"
  gt_count :: "'m gquery \<Rightarrow> ('g, int) op"
  gt_update :: "'m gcond list \<Rightarrow> ('m \<Rightarrow> 'm) \<Rightarrow> ('g, nat) op"
  gt_delete :: "'m gcond list \<Rightarrow> ('g, nat) op"

record ('g, 'j) gorm =
  gm_executions :: "('g, execution_model) gtable"
  gm_history :: "('g, state_history_model) gtable"
  gm_machines :: "('g, state_machine_model) gtable"
  gm_correlations :: "('g, message_correlation_model) gtable"
  gm_links :: "('g, linked_execution_model) gtable"
  gm_find_links :: "bool \<Rightarrow> (linked_execution_model \<times> string \<Rightarrow> bool) list \<Rightarrow> int \<Rightarrow> int \<Rightarrow> ('g, linked_execution_model list) op"
  gm_count_links :: "bool \<Rightarrow> (linked_execution_model \<times> string \<Rightarrow> bool) list \<Rightarrow> ('g, int) op"
  gm_transaction :: "('g, execution_model list) op \<Rightarrow> ('g, execution_model list) op"
  gm_set_timeout :: "string \<Rightarrow> ('g, unit) op"
  gm_ping :: "('g, unit) op"
  gm_codec :: "'j json_codec"
  gm_json_eq :: "jsonb \<Rightarrow> jsonb \<Rightarrow> bool"
  gm_ilike :: "string \<Rightarrow> string \<Rightarrow> bool"
  gm_collate :: "string \<Rightarrow> string"
  gm_timestamp :: "int \<Rightarrow> int"
  gm_now :: "'g \<Rightarrow> int"

definition all_where :: "'m gcond list \<Rightarrow> 'm gquery" where
  "all_where cs = \<lparr>gq_where = cs, gq_order = [], gq_limit = 0, gq_offset = 0\<rparr>"

definition first_where :: "'m gcond list \<Rightarrow> 'm gquery" where
  "first_where cs = \<lparr>gq_where = cs, gq_order = [], gq_limit = 1, gq_offset = 0\<rparr>"

text \<open>\<open>Create\<close> runs the hook of the model; in an execution it sets the times of creation and update, which the code uses after a failure.\<close>

definition create_execution :: "('g, 'j) gorm \<Rightarrow> int \<Rightarrow> execution_model \<Rightarrow> ('g, execution_model) op" where
  "create_execution g now m =
    (case ExecutionModel_BeforeCreate m of
       Some e \<Rightarrow> op_return (Err e)
     | None \<Rightarrow> gt_create (gm_executions g) (m\<lparr>xm_CreatedAt := now, xm_UpdatedAt := now\<rparr>))"

definition create_history :: "('g, 'j) gorm \<Rightarrow> state_history_model \<Rightarrow> ('g, state_history_model) op" where
  "create_history g m =
    (case StateHistoryModel_BeforeCreate m of
       Some e \<Rightarrow> op_return (Err e)
     | None \<Rightarrow> gt_create (gm_history g) m)"

section \<open>Configuration\<close>

text \<open>The dynamic values of \<open>Config.Options\<close> that the code looks for.\<close>

datatype option_value = OInt int | ODuration int | OString string | OBool bool | OOther

datatype log_level = Silent | ErrorLevel | Warn | Info

record gorm_config =
  gc_MaxOpenConns :: int
  gc_MaxIdleConns :: int
  gc_ConnMaxLifetime :: int
  gc_ConnMaxIdleTime :: int
  gc_LogLevel :: log_level
  gc_StatementTimeout :: string

definition option_int :: "(string \<times> option_value) list \<Rightarrow> string \<Rightarrow> int \<Rightarrow> int" where
  "option_int opts k v = (case map_of opts k of Some (OInt n) \<Rightarrow> n | _ \<Rightarrow> v)"

definition option_duration :: "(string \<times> option_value) list \<Rightarrow> string \<Rightarrow> int \<Rightarrow> int" where
  "option_duration opts k v = (case map_of opts k of Some (ODuration n) \<Rightarrow> n | _ \<Rightarrow> v)"

definition option_string :: "(string \<times> option_value) list \<Rightarrow> string \<Rightarrow> string \<Rightarrow> string" where
  "option_string opts k v = (case map_of opts k of Some (OString s) \<Rightarrow> s | _ \<Rightarrow> v)"

definition parseGormConfig :: "(string \<times> option_value) list option \<Rightarrow> gorm_config" where
  "parseGormConfig options =
    (let cfg = \<lparr>gc_MaxOpenConns = 25, gc_MaxIdleConns = 5, gc_ConnMaxLifetime = 5 * 60 * 10 ^ 9, gc_ConnMaxIdleTime = 5 * 60 * 10 ^ 9,
           gc_LogLevel = Warn, gc_StatementTimeout = ''30s''\<rparr>
     in case options of
          None \<Rightarrow> cfg
        | Some opts \<Rightarrow>
            \<lparr>gc_MaxOpenConns = option_int opts ''max_open_conns'' (gc_MaxOpenConns cfg),
             gc_MaxIdleConns = option_int opts ''max_idle_conns'' (gc_MaxIdleConns cfg),
             gc_ConnMaxLifetime = option_duration opts ''conn_max_lifetime'' (gc_ConnMaxLifetime cfg),
             gc_ConnMaxIdleTime = option_duration opts ''conn_max_idle_time'' (gc_ConnMaxIdleTime cfg),
             gc_LogLevel = (let v = option_string opts ''log_level'' [] in
                if v = ''silent'' then Silent else if v = ''error'' then ErrorLevel else if v = ''warn'' then Warn
                else if v = ''info'' then Info else gc_LogLevel cfg),
             gc_StatementTimeout = option_string opts ''statement_timeout'' (gc_StatementTimeout cfg)\<rparr>)"

text \<open>The query runs in a transaction with the timeout, unless the timeout is configured as the empty string.\<close>

definition withQueryTimeout ::
  "('g, 'j) gorm \<Rightarrow> (string \<times> option_value) list option \<Rightarrow> ('g, execution_model list) op \<Rightarrow> ('g, execution_model list) op" where
  "withQueryTimeout g options fn =
    (let timeout = gc_StatementTimeout (parseGormConfig options) in
     if timeout = [] then fn
     else gm_transaction g (op_bind (op_wrap ''failed to set query timeout'' (gm_set_timeout g timeout)) (\<lambda>_. fn)))"

section \<open>Executions\<close>

definition strings_Contains :: "string \<Rightarrow> string \<Rightarrow> bool" where
  "strings_Contains s sub = sublist sub s"

definition isDuplicateKeyError :: "err \<Rightarrow> bool" where
  "isDuplicateKeyError e \<longleftrightarrow>
    strings_Contains (Error e) ''23505'' \<or> strings_Contains (Error e) ''duplicate key'' \<or> strings_Contains (Error e) ''unique constraint''"

text \<open>The identifier that the server generates is written back to the caller's record, which is the result.\<close>

definition with_id :: "bool \<Rightarrow> execution_model \<Rightarrow> execution_record \<Rightarrow> execution_record" where
  "with_id generateID m r = (if generateID \<and> xm_ExecutionID m \<noteq> [] then r\<lparr>er_ExecutionID := xm_ExecutionID m\<rparr> else r)"

definition update_columns :: "int \<Rightarrow> execution_model \<Rightarrow> jsonb \<Rightarrow> execution_model \<Rightarrow> execution_model" where
  "update_columns now model out m =
    m\<lparr>xm_Status := xm_Status model, xm_CurrentState := xm_CurrentState model, xm_Output := out, xm_Error := xm_Error model,
      xm_EndTime := xm_EndTime model, xm_UpdatedAt := now, xm_HistorySequenceNumber := xm_HistorySequenceNumber model\<rparr>"

definition Gorm_SaveExecution :: "('g, 'j) gorm \<Rightarrow> execution_record \<Rightarrow> ('g, execution_record) op" where
  "Gorm_SaveExecution g r s =
    (let model = toExecutionModel r; now = gm_now g s; generateID = (xm_ExecutionID model = []) in
     case create_execution g now model s of
       (Err e, s1) \<Rightarrow>
         if isDuplicateKeyError e \<and> generateID then
           op_bind (op_wrap ''failed to save execution after retry'' (create_execution g now model))
             (\<lambda>m. op_return (Ok (with_id True m r))) s1
         else if isDuplicateKeyError e \<and> \<not> generateID then
           op_wrap (''failed to update execution '' @ xm_ExecutionID model)
             (op_bind (op_return (jsonb_stored (gm_codec g) (xm_Output model))) (\<lambda>out.
               op_bind (gt_update (gm_executions g) [Where (\<lambda>m. xm_ExecutionID m = xm_ExecutionID model)]
                   (update_columns (gm_timestamp g now) (model\<lparr>xm_EndTime := gm_timestamp g (xm_EndTime model)\<rparr>) out))
                 (\<lambda>_. op_return (Ok r)))) s1
         else (Err (Wrapped ''failed to save execution'' e), s1)
     | (q, s1) \<Rightarrow> (rbind q (\<lambda>m. Ok (with_id generateID m r)), s1))"

definition Gorm_GetExecution :: "('g, 'j) gorm \<Rightarrow> string \<Rightarrow> ('g, execution_record) op" where
  "Gorm_GetExecution g executionID =
    op_bind (op_wrap ''failed to get execution''
        (gt_find (gm_executions g) (first_where [Where (\<lambda>m. xm_ExecutionID m = executionID)])))
      (\<lambda>models. op_return (case models of
         [] \<Rightarrow> Err (ErrorNew (''execution not found: '' @ executionID))
       | m # _ \<Rightarrow> Ok (fromExecutionModel m)))"

definition Gorm_GetExecutionByName :: "('g, 'j) gorm \<Rightarrow> string \<Rightarrow> string \<Rightarrow> ('g, execution_record) op" where
  "Gorm_GetExecutionByName g stateMachineID name =
    op_bind (op_wrap ''failed to get execution by name''
        (gt_find (gm_executions g) (first_where [Where (\<lambda>m. xm_StateMachineID m = stateMachineID \<and> xm_Name m = name)])))
      (\<lambda>models. op_return (case models of
         [] \<Rightarrow> Err (ErrorNew (''execution not found: name='' @ name @ '', state_machine_id='' @ stateMachineID))
       | m # _ \<Rightarrow> Ok (fromExecutionModel m)))"

definition addFiltersToQuery :: "('g, 'j) gorm \<Rightarrow> execution_filter \<Rightarrow> execution_model gcond list" where
  "addFiltersToQuery g f =
    (if ef_Status f \<noteq> [] then [Where (\<lambda>m. xm_Status m = ef_Status f)] else []) @
    (if ef_CurrentState f \<noteq> [] then [Where (\<lambda>m. gm_ilike g (xm_CurrentState m) (''%'' @ ef_CurrentState f @ ''%''))] else []) @
    (if ef_StateMachineID f \<noteq> [] then [Where (\<lambda>m. xm_StateMachineID m = ef_StateMachineID f)] else []) @
    (if ef_Name f \<noteq> [] then [Where (\<lambda>m. gm_ilike g (xm_Name m) (''%'' @ ef_Name f @ ''%''))] else []) @
    (case ef_StartAfter f of Some t \<Rightarrow> [Where (\<lambda>m. gm_timestamp g t \<le> xm_StartTime m)] | None \<Rightarrow> []) @
    (case ef_StartBefore f of Some t \<Rightarrow> [Where (\<lambda>m. xm_StartTime m \<le> gm_timestamp g t)] | None \<Rightarrow> [])"

definition filter_query :: "('g, 'j) gorm \<Rightarrow> execution_filter option \<Rightarrow> (execution_model \<Rightarrow> int) list \<Rightarrow> execution_model gquery" where
  "filter_query g f order =
    (case f of
       None \<Rightarrow> \<lparr>gq_where = [], gq_order = order, gq_limit = 0, gq_offset = 0\<rparr>
     | Some ef \<Rightarrow> \<lparr>gq_where = addFiltersToQuery g ef, gq_order = order, gq_limit = ef_Limit ef, gq_offset = ef_Offset ef\<rparr>)"

definition Gorm_ListExecutions :: "('g, 'j) gorm \<Rightarrow> execution_filter option \<Rightarrow> ('g, execution_record list) op" where
  "Gorm_ListExecutions g f =
    op_bind (op_wrap ''failed to list executions'' (gt_find (gm_executions g) (filter_query g f [\<lambda>m. - xm_StartTime m])))
      (\<lambda>models. op_return (Ok (map fromExecutionModel models)))"

definition Gorm_ListExecutionIDs :: "('g, 'j) gorm \<Rightarrow> execution_filter option \<Rightarrow> ('g, string list) op" where
  "Gorm_ListExecutionIDs g f =
    op_wrap ''failed to list execution IDs'' (gt_pluck (gm_executions g) xm_ExecutionID (filter_query g f []))"

text \<open>The result of \<open>addFiltersToQuery\<close> is dropped, but the conditions are added to the statement that \<open>query\<close> shares.\<close>

definition Gorm_CountExecutions :: "('g, 'j) gorm \<Rightarrow> execution_filter option \<Rightarrow> ('g, int) op" where
  "Gorm_CountExecutions g f =
    op_wrap ''failed to count executions'' (gt_count (gm_executions g)
      (all_where (case f of None \<Rightarrow> [] | Some ef \<Rightarrow> addFiltersToQuery g ef)))"

definition Gorm_DeleteExecution :: "('g, 'j) gorm \<Rightarrow> string \<Rightarrow> ('g, unit) op" where
  "Gorm_DeleteExecution g executionID =
    op_bind (op_wrap ''failed to delete execution'' (gt_delete (gm_executions g) [Where (\<lambda>m. xm_ExecutionID m = executionID)]))
      (\<lambda>n. op_return (if n = 0 then Err (ErrorNew (''execution not found: '' @ executionID)) else Ok ()))"

definition Gorm_FindOrphanedExecutions :: "('g, 'j) gorm \<Rightarrow> string \<Rightarrow> int \<Rightarrow> ('g, execution_record list) op" where
  "Gorm_FindOrphanedExecutions g stateMachineID threshold s =
    (let cutoffTime = gm_now g s - threshold;
         conditions = [Where (\<lambda>m. xm_Status m = ''RUNNING''), Where (\<lambda>m. xm_StartTime m < gm_timestamp g cutoffTime)] @
           (if stateMachineID \<noteq> [] then [Where (\<lambda>m. xm_StateMachineID m = stateMachineID)] else [])
     in op_bind (op_wrap ''failed to find orphaned executions'' (gt_find (gm_executions g)
            \<lparr>gq_where = conditions, gq_order = [xm_StartTime], gq_limit = 0, gq_offset = 0\<rparr>))
          (\<lambda>models. op_return (Ok (map fromExecutionModel models))) s)"

section \<open>State history\<close>

definition Gorm_SaveStateHistory :: "('g, 'j) gorm \<Rightarrow> state_history_record \<Rightarrow> ('g, unit) op" where
  "Gorm_SaveStateHistory g h s =
    (case create_history g (toStateHistoryModel h) s of
       (Err e, s1) \<Rightarrow> (if isDuplicateKeyError e then Ok () else Err (Wrapped ''failed to save state history'' e), s1)
     | (q, s1) \<Rightarrow> (rbind q (\<lambda>_. Ok ()), s1))"

definition Gorm_GetStateHistory :: "('g, 'j) gorm \<Rightarrow> string \<Rightarrow> ('g, state_history_record list) op" where
  "Gorm_GetStateHistory g executionID =
    op_bind (op_wrap ''failed to get state history'' (gt_find (gm_history g)
        \<lparr>gq_where = [Where (\<lambda>m. hm_ExecutionID m = executionID)], gq_order = [hm_SequenceNumber, hm_StartTime], gq_limit = 0, gq_offset = 0\<rparr>))
      (\<lambda>models. op_return (Ok (map fromStateHistoryModel models)))"

definition Gorm_GetExecutionWithHistory ::
  "('g, 'j) gorm \<Rightarrow> string \<Rightarrow> ('g, execution_record \<times> state_history_record list) op" where
  "Gorm_GetExecutionWithHistory g executionID =
    op_bind (op_wrap ''failed to get execution'' (gt_find (gm_executions g) (first_where [Where (\<lambda>m. xm_ExecutionID m = executionID)])))
      (\<lambda>found. case found of
         [] \<Rightarrow> op_return (Err (ErrorNew (''execution not found: '' @ executionID)))
       | m # _ \<Rightarrow>
           op_bind (op_wrap ''failed to get state history'' (gt_find (gm_history g)
               \<lparr>gq_where = [Where (\<lambda>h. hm_ExecutionID h = executionID)], gq_order = [hm_SequenceNumber], gq_limit = 0, gq_offset = 0\<rparr>))
             (\<lambda>models. op_return (Ok (fromExecutionModel m, map fromStateHistoryModel models))))"

definition Gorm_GetExecutionOutput :: "('g, 'j) gorm \<Rightarrow> string \<Rightarrow> string \<Rightarrow> ('g, gval) op" where
  "Gorm_GetExecutionOutput g executionID stateName =
    (if stateName = [] then
       op_bind (op_wrap ''failed to get execution output'' (gt_find (gm_executions g) (first_where [Where (\<lambda>m. xm_ExecutionID m = executionID)])))
         (\<lambda>found. op_return (case found of
            [] \<Rightarrow> Err (ErrorNew (''execution '' @ [CHR 0x27] @ executionID @ [CHR 0x27] @ '' not found''))
          | m # _ \<Rightarrow> Ok (map_value (xm_Output m))))
     else
       op_bind (op_wrap ''failed to get state output'' (gt_find (gm_history g)
           \<lparr>gq_where = [Where (\<lambda>h. hm_ExecutionID h = executionID \<and> hm_StateName h = stateName)], gq_order = [\<lambda>h. - hm_SequenceNumber h],
            gq_limit = 1, gq_offset = 0\<rparr>))
         (\<lambda>found. op_return (case found of
            [] \<Rightarrow> Err (ErrorNew (''state '' @ [CHR 0x27] @ stateName @ [CHR 0x27] @ '' not found in execution '' @
                      [CHR 0x27] @ executionID @ [CHR 0x27]))
          | h # _ \<Rightarrow> Ok (map_value (hm_Output h)))))"

section \<open>Message correlations\<close>

definition Gorm_SaveMessageCorrelation :: "('g, 'j) gorm \<Rightarrow> message_correlation_record \<Rightarrow> ('g, unit) op" where
  "Gorm_SaveMessageCorrelation g r = gt_save (gm_correlations g) (toMessageCorrelationModel r)"

definition Gorm_GetMessageCorrelation :: "('g, 'j) gorm \<Rightarrow> string \<Rightarrow> ('g, message_correlation_record) op" where
  "Gorm_GetMessageCorrelation g i =
    op_bind (gt_find (gm_correlations g) (first_where [Where (\<lambda>m. qm_ID m = i)]))
      (\<lambda>models. op_return (case models of
         [] \<Rightarrow> Err (ErrorNew (''correlation record not found: '' @ i))
       | m # _ \<Rightarrow> Ok (fromMessageCorrelationModel m)))"

definition waiting_conditions :: "('g, 'j) gorm \<Rightarrow> message_correlation_filter \<Rightarrow> jsonb \<Rightarrow> message_correlation_model gcond list" where
  "waiting_conditions g f val =
    (if mf_CorrelationKey f \<noteq> [] then [Where (\<lambda>m. qm_CorrelationKey m = mf_CorrelationKey f)] else []) @
    (if mf_CorrelationValue f \<noteq> GNil then [Where (\<lambda>m. gm_json_eq g (qm_CorrelationValue m) val)] else []) @
    (if mf_Status f \<noteq> [] then [Where (\<lambda>m. qm_Status m = mf_Status f)] else []) @
    (if mf_StateMachineID f \<noteq> [] then [Where (\<lambda>m. qm_StateMachineID m = mf_StateMachineID f)] else [])"

definition Gorm_FindWaitingCorrelations ::
  "('g, 'j) gorm \<Rightarrow> message_correlation_filter \<Rightarrow> ('g, message_correlation_record list) op" where
  "Gorm_FindWaitingCorrelations g f =
    op_bind (op_return (jsonb_stored (gm_codec g) (toJSONB (mf_CorrelationValue f)))) (\<lambda>val.
      op_bind (gt_find (gm_correlations g)
          \<lparr>gq_where = waiting_conditions g f val, gq_order = [qm_CreatedAt], gq_limit = mf_Limit f, gq_offset = mf_Offset f\<rparr>)
        (\<lambda>models. op_return (Ok (map fromMessageCorrelationModel models))))"

definition Gorm_UpdateCorrelationStatus :: "('g, 'j) gorm \<Rightarrow> string \<Rightarrow> string \<Rightarrow> ('g, unit) op" where
  "Gorm_UpdateCorrelationStatus g i status =
    op_bind (gt_update (gm_correlations g) [Where (\<lambda>m. qm_ID m = i)] (\<lambda>m. m\<lparr>qm_Status := status\<rparr>))
      (\<lambda>n. op_return (if n = 0 then Err (ErrorNew (''correlation record not found: '' @ i)) else Ok ()))"

definition Gorm_DeleteMessageCorrelation :: "('g, 'j) gorm \<Rightarrow> string \<Rightarrow> ('g, unit) op" where
  "Gorm_DeleteMessageCorrelation g i =
    op_bind (gt_delete (gm_correlations g) [Where (\<lambda>m. qm_ID m = i)])
      (\<lambda>n. op_return (if n = 0 then Err (ErrorNew (''correlation record not found: '' @ i)) else Ok ()))"

definition Gorm_ListTimedOutCorrelations :: "('g, 'j) gorm \<Rightarrow> int \<Rightarrow> ('g, message_correlation_record list) op" where
  "Gorm_ListTimedOutCorrelations g currentTimestamp =
    op_bind (gt_find (gm_correlations g) (all_where [Where (\<lambda>m. qm_Status m = ''WAITING'' \<and>
        (case qm_TimeoutAt m of Some t \<Rightarrow> t \<le> currentTimestamp | None \<Rightarrow> False))]))
      (\<lambda>models. op_return (Ok (map fromMessageCorrelationModel models)))"

section \<open>Links\<close>

definition Gorm_SaveLinkedExecution :: "('g, 'j) gorm \<Rightarrow> linked_execution_record \<Rightarrow> ('g, unit) op" where
  "Gorm_SaveLinkedExecution g r =
    op_wrap ''failed to save linked execution'' (gt_insert_ignore (gm_links g) (toLinkedExecutionModel r))"

definition link_conditions :: "('g, 'j) gorm \<Rightarrow> linked_execution_filter \<Rightarrow> (linked_execution_model \<times> string \<Rightarrow> bool) list" where
  "link_conditions g f =
    (if lf_SourceExecutionStatus f \<noteq> [] then [\<lambda>(l, status). status = lf_SourceExecutionStatus f] else []) @
    (if lf_SourceStateMachineID f \<noteq> [] then [\<lambda>(l, status). lm_SourceStateMachineID l = lf_SourceStateMachineID f] else []) @
    (if lf_SourceExecutionID f \<noteq> [] then [\<lambda>(l, status). lm_SourceExecutionID l = lf_SourceExecutionID f] else []) @
    (if lf_SourceStateName f \<noteq> [] then [\<lambda>(l, status). lm_SourceStateName l = lf_SourceStateName f] else []) @
    (if lf_InputTransformerName f \<noteq> [] then [\<lambda>(l, status). lm_InputTransformerName l = lf_InputTransformerName f] else []) @
    (if lf_TargetStateMachineName f \<noteq> [] then [\<lambda>(l, status). lm_TargetStateMachineName l = lf_TargetStateMachineName f] else []) @
    (if lf_TargetExecutionID f \<noteq> [] then [\<lambda>(l, status). lm_TargetExecutionID l = lf_TargetExecutionID f] else []) @
    (case lf_CreatedAfter f of Some t \<Rightarrow> [\<lambda>(l, status). gm_timestamp g t \<le> lm_CreatedAt l] | None \<Rightarrow> []) @
    (case lf_CreatedBefore f of Some t \<Rightarrow> [\<lambda>(l, status). lm_CreatedAt l \<le> gm_timestamp g t] | None \<Rightarrow> [])"

definition Gorm_ListLinkedExecutions :: "('g, 'j) gorm \<Rightarrow> linked_execution_filter option \<Rightarrow> ('g, linked_execution_record list) op" where
  "Gorm_ListLinkedExecutions g f =
    op_bind (op_wrap ''failed to list linked executions'' (case f of
        None \<Rightarrow> gm_find_links g False [] 0 0
      | Some lf \<Rightarrow> gm_find_links g (needsJoin f) (link_conditions g lf) (lf_Limit lf) (lf_Offset lf)))
      (\<lambda>models. op_return (Ok (map fromLinkedExecutionModel models)))"

definition Gorm_CountLinkedExecutions :: "('g, 'j) gorm \<Rightarrow> linked_execution_filter option \<Rightarrow> ('g, int) op" where
  "Gorm_CountLinkedExecutions g f =
    op_wrap ''failed to count linked executions'' (case f of
        None \<Rightarrow> gm_count_links g False []
      | Some lf \<Rightarrow> gm_count_links g (needsJoin f) (link_conditions g lf))"

definition link_subquery :: "linked_execution_filter \<Rightarrow> (linked_execution_model \<Rightarrow> bool) list" where
  "link_subquery f =
    (if lf_SourceStateMachineID f \<noteq> [] then [\<lambda>l. lm_SourceStateMachineID l = lf_SourceStateMachineID f] else []) @
    (if lf_SourceStateName f \<noteq> [] then [\<lambda>l. lm_SourceStateName l = lf_SourceStateName f] else []) @
    (if lf_InputTransformerName f \<noteq> [] then [\<lambda>l. lm_InputTransformerName l = lf_InputTransformerName f] else []) @
    (if lf_TargetStateMachineName f \<noteq> [] then [\<lambda>l. lm_TargetStateMachineName l = lf_TargetStateMachineName f] else []) @
    (if lf_TargetExecutionID f \<noteq> [] then [\<lambda>l. lm_TargetExecutionID l = lf_TargetExecutionID f] else [])"

definition non_linked_conditions ::
  "('g, 'j) gorm \<Rightarrow> execution_filter \<Rightarrow> linked_execution_filter option \<Rightarrow> execution_model gcond list" where
  "non_linked_conditions g f linkedExecutionFilter =
    (case linkedExecutionFilter of None \<Rightarrow> [] | Some lf \<Rightarrow> [NotIn xm_ExecutionID (link_subquery lf)]) @
    (if ef_StateMachineID f \<noteq> [] then [Where (\<lambda>m. xm_StateMachineID m = ef_StateMachineID f)] else []) @
    (if ef_Status f \<noteq> [] then [Where (\<lambda>m. xm_Status m = ef_Status f)] else []) @
    (if ef_CurrentState f \<noteq> [] then [Where (\<lambda>m. xm_CurrentState m = ef_CurrentState f)] else []) @
    (if ef_Name f \<noteq> [] then [Where (\<lambda>m. gm_ilike g (xm_Name m) (''%'' @ ef_Name f @ ''%''))] else []) @
    (case ef_StartAfter f of Some t \<Rightarrow> [Where (\<lambda>m. gm_timestamp g t \<le> xm_StartTime m)] | None \<Rightarrow> []) @
    (case ef_StartBefore f of Some t \<Rightarrow> [Where (\<lambda>m. xm_StartTime m \<le> gm_timestamp g t)] | None \<Rightarrow> [])"

definition empty_filter :: execution_filter where
  "empty_filter = \<lparr>ef_Status = [], ef_StateMachineID = [], ef_Name = [], ef_CurrentState = [], ef_StartAfter = None, ef_StartBefore = None,
     ef_Limit = 0, ef_Offset = 0\<rparr>"

text \<open>The columns that are selected leave out \<open>history_sequence_number\<close> and \<open>recovery_metadata\<close>, which stay zero in the models.\<close>

definition Gorm_ListNonLinkedExecutions ::
  "('g, 'j) gorm \<Rightarrow> (string \<times> option_value) list option \<Rightarrow> execution_filter option \<Rightarrow> linked_execution_filter option
    \<Rightarrow> ('g, execution_record list) op" where
  "Gorm_ListNonLinkedExecutions g options executionFilter linkedExecutionFilter =
    (let f = (case executionFilter of None \<Rightarrow> empty_filter | Some ef \<Rightarrow> ef) in
     op_bind (op_wrap ''failed to list non-linked executions'' (withQueryTimeout g options (gt_find (gm_executions g)
         \<lparr>gq_where = non_linked_conditions g f linkedExecutionFilter, gq_order = [\<lambda>m. - xm_StartTime m],
          gq_limit = ef_Limit f, gq_offset = ef_Offset f\<rparr>)))
       (\<lambda>models. op_return (Ok (map (\<lambda>m. fromExecutionModel (m\<lparr>xm_HistorySequenceNumber := 0, xm_RecoveryMetadata := None\<rparr>)) models))))"

definition Gorm_ListNonLinkedExecutionsAnyState ::
  "('g, 'j) gorm \<Rightarrow> (string \<times> option_value) list option \<Rightarrow> execution_filter option \<Rightarrow> linked_execution_filter option
    \<Rightarrow> ('g, execution_record list) op" where
  "Gorm_ListNonLinkedExecutionsAnyState g options executionFilter linkedExecutionFilter =
    Gorm_ListNonLinkedExecutions g options executionFilter linkedExecutionFilter"

definition Gorm_HealthCheck :: "('g, 'j) gorm \<Rightarrow> ('g, unit) op" where
  "Gorm_HealthCheck g = op_wrap ''database ping failed'' (gm_ping g)"

section \<open>State machines and their cache\<close>

text \<open>The repository: the database and the cache \<open>stateMachineCache\<close>.\<close>

record 'g gorm_state =
  gs_db :: 'g
  gs_stateMachineCache :: "(string \<times> state_machine_record) list"

definition on_db :: "('g, 'a) op \<Rightarrow> ('g gorm_state, 'a) op" where
  "on_db f s = (case f (gs_db s) of (r, d) \<Rightarrow> (r, s\<lparr>gs_db := d\<rparr>))"

definition cache_delete :: "string \<Rightarrow> 'g gorm_state \<Rightarrow> 'g gorm_state" where
  "cache_delete i s = s\<lparr>gs_stateMachineCache := filter (\<lambda>e. fst e \<noteq> i) (gs_stateMachineCache s)\<rparr>"

definition cache_store :: "string \<Rightarrow> state_machine_record \<Rightarrow> 'g gorm_state \<Rightarrow> 'g gorm_state" where
  "cache_store i r s = s\<lparr>gs_stateMachineCache := (i, r) # filter (\<lambda>e. fst e \<noteq> i) (gs_stateMachineCache s)\<rparr>"

definition cache_load :: "string \<Rightarrow> 'g gorm_state \<Rightarrow> state_machine_record option" where
  "cache_load i s = map_of (gs_stateMachineCache s) i"

text \<open>The first half of \<open>SaveStateMachine\<close> writes to the database, the second one invalidates the entry.\<close>

definition save_machine :: "('g, 'j) gorm \<Rightarrow> state_machine_record \<Rightarrow> ('g, unit) op" where
  "save_machine g r = gt_save (gm_machines g) (toStateMachineModel r)"

definition Gorm_SaveStateMachine :: "('g, 'j) gorm \<Rightarrow> state_machine_record \<Rightarrow> ('g gorm_state, unit) op" where
  "Gorm_SaveStateMachine g r =
    op_bind (on_db (save_machine g r)) (\<lambda>_ s. (Ok (), cache_delete (mr_ID r) s))"

definition fetch_machine :: "('g, 'j) gorm \<Rightarrow> string \<Rightarrow> ('g, state_machine_record) op" where
  "fetch_machine g stateMachineID =
    op_bind (gt_find (gm_machines g) (first_where [Where (\<lambda>m. sm_ID m = stateMachineID)]))
      (\<lambda>models. op_return (case models of
         [] \<Rightarrow> Err (ErrorNew (''state machine '' @ [CHR 0x27] @ stateMachineID @ [CHR 0x27] @ '' not found''))
       | m # _ \<Rightarrow> Ok (fromStateMachineModel m)))"

definition Gorm_GetStateMachine :: "('g, 'j) gorm \<Rightarrow> string \<Rightarrow> ('g gorm_state, state_machine_record) op" where
  "Gorm_GetStateMachine g stateMachineID s =
    (case cache_load stateMachineID s of
       Some record \<Rightarrow> (Ok record, s)
     | None \<Rightarrow> op_bind (on_db (fetch_machine g stateMachineID)) (\<lambda>record s1. (Ok record, cache_store stateMachineID record s1)) s)"

definition Gorm_ListStateMachines :: "('g, 'j) gorm \<Rightarrow> definition_filter option \<Rightarrow> ('g, state_machine_record list) op" where
  "Gorm_ListStateMachines g f =
    op_bind (op_wrap ''failed to list state machines'' (gt_find (gm_machines g)
        \<lparr>gq_where = (case f of None \<Rightarrow> [] | Some df \<Rightarrow>
           (if df_StateMachineID df \<noteq> [] then [Where (\<lambda>m. sm_ID m = df_StateMachineID df)] else []) @
           (if df_Name df \<noteq> [] then [Where (\<lambda>m. gm_ilike g (sm_Name m) (''%'' @ df_Name df @ ''%''))] else [])),
         gq_order = [\<lambda>m. - sm_CreatedAt m], gq_limit = 0, gq_offset = 0\<rparr>))
      (\<lambda>models. op_return (Ok (map fromStateMachineModel models)))"

section \<open>The backend\<close>

definition Gorm_repository :: "('g, 'j) gorm \<Rightarrow> (string \<times> option_value) list option \<Rightarrow> 'g gorm_state repository" where
  "Gorm_repository g options =
    \<lparr>rp_SaveExecution = (\<lambda>r. on_db (op_bind (Gorm_SaveExecution g r) (\<lambda>_. op_return (Ok ())))),
     rp_GetExecution = (\<lambda>i. on_db (Gorm_GetExecution g i)),
     rp_GetExecutionByName = (\<lambda>i n. on_db (Gorm_GetExecutionByName g i n)),
     rp_SaveStateHistory = (\<lambda>h. on_db (Gorm_SaveStateHistory g h)), rp_GetStateHistory = (\<lambda>i. on_db (Gorm_GetStateHistory g i)),
     rp_GetExecutionOutput = (\<lambda>i n. on_db (Gorm_GetExecutionOutput g i n)),
     rp_SaveLinkedExecution = (\<lambda>r. on_db (Gorm_SaveLinkedExecution g r)),
     rp_SaveStateMachine = Gorm_SaveStateMachine g, rp_GetStateMachine = Gorm_GetStateMachine g,
     rp_ListExecutionIDs = (\<lambda>f. on_db (Gorm_ListExecutionIDs g f)),
     rp_ListNonLinkedExecutions = (\<lambda>ef lf. on_db (Gorm_ListNonLinkedExecutions g options ef lf)),
     rp_FindOrphanedExecutions = (\<lambda>i threshold. on_db (Gorm_FindOrphanedExecutions g i threshold)), rp_messages = True,
     rp_SaveMessageCorrelation = (\<lambda>r. on_db (Gorm_SaveMessageCorrelation g r)),
     rp_GetMessageCorrelation = (\<lambda>i. on_db (Gorm_GetMessageCorrelation g i)),
     rp_FindWaitingCorrelations = (\<lambda>f. on_db (Gorm_FindWaitingCorrelations g f)),
     rp_UpdateCorrelationStatus = (\<lambda>i st. on_db (Gorm_UpdateCorrelationStatus g i st)),
     rp_DeleteMessageCorrelation = (\<lambda>i. on_db (Gorm_DeleteMessageCorrelation g i)),
     rp_ListTimedOutCorrelations = (\<lambda>now. on_db (Gorm_ListTimedOutCorrelations g now))\<rparr>"

section \<open>What the backend relies on\<close>

definition cond_holds :: "linked_execution_model set \<Rightarrow> 'm \<Rightarrow> 'm gcond \<Rightarrow> bool" where
  "cond_holds links m c =
    (case c of
       Where P \<Rightarrow> P m
     | NotIn f ps \<Rightarrow> \<not> (\<exists>l\<in>links. f m = lm_SourceExecutionID l \<and> list_all (\<lambda>p. p l) ps))"

definition select_rows :: "linked_execution_model set \<Rightarrow> 'm gquery \<Rightarrow> 'm list \<Rightarrow> 'm list" where
  "select_rows links q rows =
    paginate (gq_limit q) (gq_offset q)
      (foldr sort_key (gq_order q) (filter (\<lambda>m. list_all (cond_holds links m) (gq_where q)) rows))"

text \<open>The rows of a table by their keys, and the lists that hold them, in any order.\<close>

definition lists :: "('m \<Rightarrow> string) \<Rightarrow> (string \<Rightarrow> 'm option) \<Rightarrow> 'm list \<Rightarrow> bool" where
  "lists key row rs \<longleftrightarrow> distinct (map key rs) \<and> (\<forall>m. m \<in> set rs \<longleftrightarrow> row (key m) = Some m)"

text \<open>What a row keeps of the model it was written from. A column with a default that the model leaves at zero is not constrained.\<close>

definition execution_kept :: "('g, 'j) gorm \<Rightarrow> execution_model \<Rightarrow> execution_model \<Rightarrow> bool" where
  "execution_kept g m r \<longleftrightarrow>
    (xm_ExecutionID m \<noteq> [] \<longrightarrow> xm_ExecutionID r = xm_ExecutionID m) \<and> xm_StateMachineID r = xm_StateMachineID m \<and> xm_Name r = xm_Name m \<and>
    xm_Status r = xm_Status m \<and> xm_CurrentState r = xm_CurrentState m \<and> xm_Error r = xm_Error m \<and>
    xm_HistorySequenceNumber r = xm_HistorySequenceNumber m \<and> xm_EndTime r = gm_timestamp g (xm_EndTime m) \<and>
    (xm_StartTime m \<noteq> zero_time \<longrightarrow> xm_StartTime r = gm_timestamp g (xm_StartTime m)) \<and>
    jsonb_stored (gm_codec g) (xm_Input m) = Ok (xm_Input r) \<and> jsonb_stored (gm_codec g) (xm_Output m) = Ok (xm_Output r)"

definition machine_kept :: "('g, 'j) gorm \<Rightarrow> state_machine_model \<Rightarrow> state_machine_model \<Rightarrow> bool" where
  "machine_kept g m r \<longleftrightarrow> sm_ID r = sm_ID m \<and> sm_Name r = sm_Name m \<and> sm_Definition r = sm_Definition m \<and> sm_Type r = sm_Type m"

definition correlation_kept :: "('g, 'j) gorm \<Rightarrow> message_correlation_model \<Rightarrow> message_correlation_model \<Rightarrow> bool" where
  "correlation_kept g m r \<longleftrightarrow>
    qm_ID r = qm_ID m \<and> qm_ExecutionID r = qm_ExecutionID m \<and> (qm_Status m \<noteq> [] \<longrightarrow> qm_Status r = qm_Status m) \<and>
    jsonb_stored (gm_codec g) (qm_CorrelationValue m) = Ok (qm_CorrelationValue r)"

locale gorm_table =
  fixes tb :: "('g, 'm) gtable" and key :: "'m \<Rightarrow> string" and row :: "'g \<Rightarrow> string \<Rightarrow> 'm option"
    and links :: "'g \<Rightarrow> linked_execution_model set" and kept :: "'m \<Rightarrow> 'm \<Rightarrow> bool"
  assumes row_key: "row s i = Some m \<Longrightarrow> key m = i"
    and find_rows: "gt_find tb q s = (r, s1) \<Longrightarrow> row s1 = row s \<and>
      (\<forall>ms. r = Ok ms \<longrightarrow> (\<exists>rs. lists key (row s) rs \<and> ms = select_rows (links s) q rs))"
    and create_row: "gt_create tb m s = (created, s1) \<Longrightarrow>
      (row s1 = row s \<or> (\<exists>m'. kept m m' \<and> row s (key m') = None \<and> row s1 = (row s)(key m' \<mapsto> m'))) \<and>
      (\<forall>m'. created = Ok m' \<longrightarrow> kept m m' \<and> row s (key m') = None \<and> row s1 = (row s)(key m' \<mapsto> m')) \<and>
      (\<forall>e. created = Err e \<longrightarrow> isDuplicateKeyError e \<longrightarrow> row s1 = row s \<and> (key m \<noteq> [] \<longrightarrow> row s (key m) \<noteq> None))"
    and save_row: "gt_save tb m s = (saved, s1) \<Longrightarrow>
      (row s1 = row s \<or> (\<exists>m'. kept m m' \<and> row s1 = (row s)(key m' \<mapsto> m'))) \<and>
      (saved = Ok () \<longrightarrow> (\<exists>m'. kept m m' \<and> row s1 = (row s)(key m' \<mapsto> m')))"
    and update_rows: "gt_update tb cs f s = (count, s1) \<Longrightarrow> (\<And>m. key (f m) = key m) \<Longrightarrow>
      (row s1 = row s \<or> row s1 = (\<lambda>i. map_option (\<lambda>m. if list_all (cond_holds (links s) m) cs then f m else m) (row s i))) \<and>
      (\<forall>n. count = Ok n \<longrightarrow> row s1 = (\<lambda>i. map_option (\<lambda>m. if list_all (cond_holds (links s) m) cs then f m else m) (row s i)) \<and>
        (n = 0 \<longleftrightarrow> (\<forall>i m. row s i = Some m \<longrightarrow> \<not> list_all (cond_holds (links s) m) cs)))"
begin

lemma lists_filter_key:
  assumes "lists key (row s) rs"
  shows "filter (\<lambda>m. key m = i) rs = (case row s i of None \<Rightarrow> [] | Some m \<Rightarrow> [m])"
proof -
  have "filter (\<lambda>m. key m = i) rs = (case find (\<lambda>m. key m = i) rs of None \<Rightarrow> [] | Some m \<Rightarrow> [m])"
    if "distinct (map key rs)" for rs
    using that
  proof (induction rs)
    case (Cons a rs)
    have "key a = i \<Longrightarrow> filter (\<lambda>m. key m = i) rs = []" using Cons.prems by (auto simp: filter_empty_conv image_iff)
    with Cons show ?case by simp
  qed simp
  moreover have "find (\<lambda>m. key m = i) rs = row s i"
  proof (cases "row s i")
    case None
    then have "\<forall>m\<in>set rs. key m \<noteq> i" using assms by (auto simp: lists_def)
    with None show ?thesis by (simp add: find_None_iff)
  next
    case (Some m)
    then have "m \<in> set rs" "key m = i" using assms row_key by (auto simp: lists_def)
    then obtain m' where "find (\<lambda>m. key m = i) rs = Some m'" "m' \<in> set rs" "key m' = i"
      by (cases "find (\<lambda>m. key m = i) rs") (auto simp: find_None_iff find_Some_iff)
    with assms Some show ?thesis by (auto simp: lists_def)
  qed
  ultimately show ?thesis using assms by (simp add: lists_def)
qed

lemma find_by_key:
  assumes "gt_find tb (first_where [Where (\<lambda>m. key m = i)]) s = (Ok ms, s1)"
  shows "ms = (case row s i of None \<Rightarrow> [] | Some m \<Rightarrow> [m])"
proof -
  from find_rows [OF assms] obtain rs where rs: "lists key (row s) rs" "ms = select_rows (links s) (first_where [Where (\<lambda>m. key m = i)]) rs" by auto
  have "ms = take 1 (filter (\<lambda>m. key m = i) rs)" by (simp add: rs(2) select_rows_def first_where_def cond_holds_def paginate_def)
  then show ?thesis by (simp add: lists_filter_key [OF rs(1)] split: option.split)
qed

lemma update_by_key:
  assumes "gt_update tb [Where (\<lambda>m. key m = i)] f s = (r, s1)" and "\<And>m. key (f m) = key m"
  shows "row s1 = row s \<or> row s1 = (row s)(i := map_option f (row s i))"
    and "r = Ok n \<Longrightarrow> row s1 = (row s)(i := map_option f (row s i)) \<and> (n = 0 \<longleftrightarrow> row s i = None)"
proof -
  have eq: "(\<lambda>j. map_option (\<lambda>m. if list_all (cond_holds (links s) m) [Where (\<lambda>m. key m = i)] then f m else m) (row s j)) =
      (row s)(i := map_option f (row s i))"
    by (rule ext, rename_tac j, case_tac "row s j") (auto simp: cond_holds_def dest: row_key)
  note law = update_rows [OF assms, unfolded eq]
  from law show "row s1 = row s \<or> row s1 = (row s)(i := map_option f (row s i))" by blast
  assume "r = Ok n"
  with law have n: "row s1 = (row s)(i := map_option f (row s i))" "n = 0 \<longleftrightarrow> (\<forall>j m. row s j = Some m \<longrightarrow> key m \<noteq> i)"
    by (simp_all add: cond_holds_def)
  have "(\<forall>j m. row s j = Some m \<longrightarrow> key m \<noteq> i) \<longleftrightarrow> row s i = None" using row_key by (metis not_None_eq)
  with n show "row s1 = (row s)(i := map_option f (row s i)) \<and> (n = 0 \<longleftrightarrow> row s i = None)" by simp
qed

end

definition stored_status :: "('g \<Rightarrow> string \<Rightarrow> message_correlation_model option) \<Rightarrow> 'g \<Rightarrow> string \<Rightarrow> string option" where
  "stored_status correlations s i = map_option qm_Status (correlations s i)"

lemma stored_status_cong: "correlations d1 = correlations d \<Longrightarrow> stored_status correlations d1 = stored_status correlations d"
  by (simp add: stored_status_def fun_eq_iff)

lemma on_db_simps [simp]: "fst (on_db f s) = fst (f (gs_db s))" "snd (on_db f s) = s\<lparr>gs_db := snd (f (gs_db s))\<rparr>"
  by (auto simp: on_db_def split: prod.split)

text \<open>The tables of the repository, and the statements that leave the correlations alone.\<close>

locale gorm_store =
  xs: gorm_table "gm_executions g" xm_ExecutionID executions links "execution_kept g" +
  qs: gorm_table "gm_correlations g" qm_ID correlations links "correlation_kept g" +
  ms: gorm_table "gm_machines g" sm_ID machines links "machine_kept g"
  for g :: "('g, 'j) gorm" and executions :: "'g \<Rightarrow> string \<Rightarrow> execution_model option"
    and correlations :: "'g \<Rightarrow> string \<Rightarrow> message_correlation_model option"
    and machines :: "'g \<Rightarrow> string \<Rightarrow> state_machine_model option" and links :: "'g \<Rightarrow> linked_execution_model set" +
  assumes create_execution_frame: "correlations (snd (gt_create (gm_executions g) x s)) = correlations s"
    and update_execution_frame: "correlations (snd (gt_update (gm_executions g) cs f s)) = correlations s"
    and create_history_frame: "correlations (snd (gt_create (gm_history g) h s)) = correlations s"
begin

abbreviation status_of :: "'g gorm_state \<Rightarrow> string \<Rightarrow> string option" where
  "status_of s \<equiv> stored_status correlations (gs_db s)"

lemma save_execution_status: "correlations (snd (Gorm_SaveExecution g r s)) = correlations s"
proof -
  have create: "correlations (snd (create_execution g now m s)) = correlations s" for now m s
    by (simp add: create_execution_def create_execution_frame split: option.split)
  have keep: "correlations s1 = correlations s" if "create_execution g now m s = (q, s1)" for now m s q s1
    using create [of now m s] that by simp
  show ?thesis
    by (auto simp: Gorm_SaveExecution_def Let_def update_execution_frame create op_bind_return split: res.splits prod.splits dest!: keep)
qed

lemma save_history_status: "correlations (snd (Gorm_SaveStateHistory g h s)) = correlations s"
proof -
  have "correlations s1 = correlations s" if "create_history g m s = (q, s1)" for m q s1
    using create_history_frame [of m s] that by (auto simp: create_history_def split: option.splits)
  then show ?thesis by (auto simp: Gorm_SaveStateHistory_def split: res.splits prod.splits)
qed

lemma get_correlation:
  assumes "Gorm_GetMessageCorrelation g i s = (r, s1)"
  shows "correlations s1 = correlations s" and "r = Ok c \<Longrightarrow> stored_status correlations s i = Some (mc_Status c)"
proof -
  let ?q = "first_where [Where (\<lambda>m. qm_ID m = i)]"
  obtain found s' where f: "gt_find (gm_correlations g) ?q s = (found, s')" by fastforce
  then have "s1 = s'" using assms by (cases found) (auto simp: Gorm_GetMessageCorrelation_def op_bind_def)
  then show "correlations s1 = correlations s" using qs.find_rows [OF f] by simp
  assume "r = Ok c"
  then obtain m rest where "found = Ok (m # rest)" "c = fromMessageCorrelationModel m"
    using assms f by (cases found) (auto simp: Gorm_GetMessageCorrelation_def op_bind_def split: list.splits)
  with qs.find_by_key [of i s "m # rest" s'] f show "stored_status correlations s i = Some (mc_Status c)"
    by (auto simp: stored_status_def fromMessageCorrelationModel_def split: option.splits)
qed

lemma update_correlation:
  assumes "Gorm_UpdateCorrelationStatus g i st s = (q, s1)"
  shows "correlations s1 = correlations s \<or> correlations s1 = (correlations s)(i := map_option (\<lambda>m. m\<lparr>qm_Status := st\<rparr>) (correlations s i))"
    and "q = Ok u \<Longrightarrow> stored_status correlations s1 i = Some st"
proof -
  obtain count s' where f: "gt_update (gm_correlations g) [Where (\<lambda>m. qm_ID m = i)] (\<lambda>m. m\<lparr>qm_Status := st\<rparr>) s = (count, s')" by fastforce
  then have s': "s1 = s'" using assms by (cases count) (auto simp: Gorm_UpdateCorrelationStatus_def op_bind_def)
  note law = qs.update_by_key [OF f, simplified]
  show "correlations s1 = correlations s \<or> correlations s1 = (correlations s)(i := map_option (\<lambda>m. m\<lparr>qm_Status := st\<rparr>) (correlations s i))"
    using law(1) by (simp add: s')
  assume "q = Ok u"
  then obtain n where "count = Ok n" "n \<noteq> 0" using assms f by (cases count) (auto simp: Gorm_UpdateCorrelationStatus_def op_bind_def split: if_splits)
  with law(2) show "stored_status correlations s1 i = Some st" by (auto simp: s' stored_status_def)
qed

lemma save_correlation:
  assumes "mc_Status c \<noteq> []" and "Gorm_SaveMessageCorrelation g c s = (q, s1)"
  shows "correlations s1 = correlations s \<or> stored_status correlations s1 = (stored_status correlations s)(mc_ID c \<mapsto> mc_Status c)"
    and "q = Ok u \<Longrightarrow> stored_status correlations s1 (mc_ID c) = Some (mc_Status c)"
proof -
  note law = qs.save_row [OF assms(2) [unfolded Gorm_SaveMessageCorrelation_def]]
  have key: "qm_ID (toMessageCorrelationModel c) = mc_ID c" "qm_Status (toMessageCorrelationModel c) = mc_Status c"
    by (simp_all add: toMessageCorrelationModel_def)
  have new: "stored_status correlations s1 = (stored_status correlations s)(mc_ID c \<mapsto> mc_Status c)"
    if "correlation_kept g (toMessageCorrelationModel c) m'" "correlations s1 = (correlations s)(qm_ID m' \<mapsto> m')" for m'
    using that assms(1) key by (auto simp: stored_status_def correlation_kept_def)
  show "correlations s1 = correlations s \<or> stored_status correlations s1 = (stored_status correlations s)(mc_ID c \<mapsto> mc_Status c)"
    using law new key by auto
  assume "q = Ok u"
  then show "stored_status correlations s1 (mc_ID c) = Some (mc_Status c)" using law new key by auto
qed

end

sublocale gorm_store \<subseteq> corr: correlation_store "Gorm_repository g options" "\<lambda>s. stored_status correlations (gs_db s)" for options
proof (unfold_locales, goal_cases)
  case (1 i s r s1)
  then obtain d where "Gorm_GetMessageCorrelation g i (gs_db s) = (r, d)" "s1 = s\<lparr>gs_db := d\<rparr>"
    by (auto simp: Gorm_repository_def on_db_def split: prod.splits)
  with get_correlation show ?case by (auto simp: stored_status_def)
next
  case (2 i st s q s1)
  then obtain d where d: "Gorm_UpdateCorrelationStatus g i st (gs_db s) = (q, d)" "s1 = s\<lparr>gs_db := d\<rparr>"
    by (auto simp: Gorm_repository_def on_db_def split: prod.splits)
  show ?case using update_correlation [OF d(1)] by (auto simp: d(2) stored_status_def option.map_comp comp_def fun_eq_iff)
next
  case (3 c s q s1)
  then obtain d where d: "Gorm_SaveMessageCorrelation g c (gs_db s) = (q, d)" "s1 = s\<lparr>gs_db := d\<rparr>"
    by (auto simp: Gorm_repository_def on_db_def split: prod.splits)
  show ?case using save_correlation [OF 3(1) d(1)] by (auto simp: d(2) stored_status_def)
next
  case (4 x s)
  then show ?case
    by (simp add: Gorm_repository_def stored_status_cong [of correlations, OF save_execution_status])
next
  case (5 h s)
  then show ?case
    by (simp add: Gorm_repository_def stored_status_cong [of correlations, OF save_history_status])
qed

section \<open>Reading back an execution\<close>

text \<open>What the row of an execution holds after it was saved.\<close>

definition saved_row :: "('g, 'j) gorm \<Rightarrow> execution_record \<Rightarrow> execution_model option \<Rightarrow> execution_model \<Rightarrow> bool" where
  "saved_row g r old m \<longleftrightarrow>
    xm_ExecutionID m = er_ExecutionID r \<and> xm_Status m = er_Status r \<and> xm_CurrentState m = er_CurrentState r \<and> xm_Error m = er_Error r \<and>
    xm_HistorySequenceNumber m = er_HistorySequenceNumber r \<and> xm_EndTime m = gm_timestamp g (time_or_zero (er_EndTime r)) \<and>
    jsonb_stored (gm_codec g) (toJSONB (er_Output r)) = Ok (xm_Output m) \<and>
    (case old of
       None \<Rightarrow> xm_StateMachineID m = er_StateMachineID r \<and> xm_Name m = er_Name r \<and> jsonb_stored (gm_codec g) (toJSONB (er_Input r)) = Ok (xm_Input m)
     | Some m0 \<Rightarrow> xm_StateMachineID m = xm_StateMachineID m0 \<and> xm_Name m = xm_Name m0 \<and> xm_Input m = xm_Input m0 \<and> xm_Metadata m = xm_Metadata m0)"

context gorm_store
begin

lemma create_execution_rows:
  assumes "create_execution g now model s = (q, s1)"
  shows "q = Ok m \<Longrightarrow> executions s (xm_ExecutionID m) = None \<and> executions s1 = (executions s)(xm_ExecutionID m \<mapsto> m) \<and>
      execution_kept g (model\<lparr>xm_CreatedAt := now, xm_UpdatedAt := now\<rparr>) m"
    and "q = Err e \<Longrightarrow> isDuplicateKeyError e \<Longrightarrow> executions s1 = executions s \<and> (xm_ExecutionID model \<noteq> [] \<longrightarrow> executions s (xm_ExecutionID model) \<noteq> None)"
proof -
  have "\<not> isDuplicateKeyError (ErrorNew ''invalid execution status'')" by code_simp
  then show "q = Err e \<Longrightarrow> isDuplicateKeyError e \<Longrightarrow> executions s1 = executions s \<and> (xm_ExecutionID model \<noteq> [] \<longrightarrow> executions s (xm_ExecutionID model) \<noteq> None)"
    using assms by (auto simp: create_execution_def ExecutionModel_BeforeCreate_def split: if_splits dest!: xs.create_row)
  show "q = Ok m \<Longrightarrow> executions s (xm_ExecutionID m) = None \<and> executions s1 = (executions s)(xm_ExecutionID m \<mapsto> m) \<and>
      execution_kept g (model\<lparr>xm_CreatedAt := now, xm_UpdatedAt := now\<rparr>) m"
    using assms by (auto simp: create_execution_def split: option.splits dest!: xs.create_row)
qed

lemma save_execution_row:
  assumes "Gorm_SaveExecution g r s = (Ok r1, s1)" and "er_ExecutionID r \<noteq> []"
  shows "\<exists>m. executions s1 = (executions s)(er_ExecutionID r \<mapsto> m) \<and> saved_row g r (executions s (er_ExecutionID r)) m"
proof -
  let ?model = "toExecutionModel r" and ?now = "gm_now g s"
  have id: "xm_ExecutionID ?model = er_ExecutionID r" by (simp add: toExecutionModel_def)
  obtain q s' where create: "create_execution g ?now ?model s = (q, s')" by fastforce
  consider m where "q = Ok m" "s1 = s'" | e where "q = Err e" "isDuplicateKeyError e"
    using assms create by (cases q) (auto simp: Gorm_SaveExecution_def Let_def id split: if_splits)
  then show ?thesis
  proof cases
    case 1
    from create_execution_rows(1) [OF create 1(1)] id assms(2) 1(2) show ?thesis
      by (intro exI [of _ m]) (auto simp: saved_row_def execution_kept_def toExecutionModel_def)
  next
    case 2
    from create_execution_rows(2) [OF create 2] id assms(2) obtain m0
      where old: "executions s' = executions s" "executions s (er_ExecutionID r) = Some m0" by auto
    have upd: "op_bind (op_return (jsonb_stored (gm_codec g) (xm_Output ?model))) (\<lambda>out.
        op_bind (gt_update (gm_executions g) [Where (\<lambda>m. xm_ExecutionID m = er_ExecutionID r)]
          (update_columns (gm_timestamp g ?now) (?model\<lparr>xm_EndTime := gm_timestamp g (xm_EndTime ?model)\<rparr>) out))
          (\<lambda>_. op_return (Ok r))) s' = (Ok r1, s1)"
      using assms create 2 id by (simp add: Gorm_SaveExecution_def Let_def op_wrap_Ok)
    then obtain out n where out: "jsonb_stored (gm_codec g) (xm_Output ?model) = Ok out"
        "gt_update (gm_executions g) [Where (\<lambda>m. xm_ExecutionID m = er_ExecutionID r)]
          (update_columns (gm_timestamp g ?now) (?model\<lparr>xm_EndTime := gm_timestamp g (xm_EndTime ?model)\<rparr>) out) s' = (Ok n, s1)"
      by (cases "jsonb_stored (gm_codec g) (xm_Output ?model)") (auto simp: op_bind_eq)
    have "executions s1 = (executions s')(er_ExecutionID r := map_option (update_columns (gm_timestamp g ?now)
        (?model\<lparr>xm_EndTime := gm_timestamp g (xm_EndTime ?model)\<rparr>) out) (executions s' (er_ExecutionID r)))"
      using xs.update_by_key(2) [OF out(2), of n] by (simp add: update_columns_def)
    with old out(1) xs.row_key [OF old(2)] show ?thesis
      by (auto simp: saved_row_def update_columns_def toExecutionModel_def)
  qed
qed

lemma get_execution_row:
  assumes "Gorm_GetExecution g i s = (Ok r, s1)"
  shows "\<exists>m. executions s i = Some m \<and> r = fromExecutionModel m"
proof -
  let ?q = "first_where [Where (\<lambda>m. xm_ExecutionID m = i)]"
  from assms obtain found where found: "gt_find (gm_executions g) ?q s = (Ok found, s1)"
      "(case found of [] \<Rightarrow> Err (ErrorNew (''execution not found: '' @ i)) | m # _ \<Rightarrow> Ok (fromExecutionModel m)) = Ok r"
    by (auto simp: Gorm_GetExecution_def op_bind_eq op_wrap_Ok)
  then obtain m rest where f: "gt_find (gm_executions g) ?q s = (Ok (m # rest), s1)" "r = fromExecutionModel m" by (cases found) auto
  with xs.find_by_key [OF f(1)] show ?thesis by (auto split: option.splits)
qed

end

section \<open>The cache of definitions\<close>

lemma cache_load_simps [simp]:
  "cache_load i (cache_store j r s) = (if i = j then Some r else cache_load i s)"
  "cache_load i (cache_delete j s) = (if i = j then None else cache_load i s)"
  "cache_load i (s\<lparr>gs_db := d\<rparr>) = cache_load i s"
  "gs_db (cache_store j r s) = gs_db s" "gs_db (cache_delete j s) = gs_db s"
proof -
  have "map_of (filter (\<lambda>e. fst e \<noteq> j) kv) i = (if i = j then None else map_of kv i)" for kv :: "(string \<times> state_machine_record) list"
    by (induction kv) auto
  then show "cache_load i (cache_store j r s) = (if i = j then Some r else cache_load i s)"
    "cache_load i (cache_delete j s) = (if i = j then None else cache_load i s)"
    by (simp_all add: cache_load_def cache_store_def cache_delete_def)
qed (simp_all add: cache_load_def cache_store_def cache_delete_def)

text \<open>Every cached definition is the one in the table.\<close>

definition coherent :: "('g \<Rightarrow> string \<Rightarrow> state_machine_model option) \<Rightarrow> 'g gorm_state \<Rightarrow> bool" where
  "coherent machines s \<longleftrightarrow>
    (\<forall>i r. cache_load i s = Some r \<longrightarrow> (\<exists>m. machines (gs_db s) i = Some m \<and> r = fromStateMachineModel m))"

text \<open>
  Calls one after the other: \<open>GetStateMachine\<close>, and \<open>SaveStateMachine\<close> that either succeeds or leaves the table as it was.
\<close>

inductive cache_calls :: "('g, 'j) gorm \<Rightarrow> ('g \<Rightarrow> string \<Rightarrow> state_machine_model option) \<Rightarrow> 'g gorm_state \<Rightarrow> 'g gorm_state \<Rightarrow> bool" for g machines where
  none: "cache_calls g machines s s"
| get: "cache_calls g machines s s1 \<Longrightarrow> cache_calls g machines s (snd (Gorm_GetStateMachine g i s1))"
| save: "cache_calls g machines s s1 \<Longrightarrow> Gorm_SaveStateMachine g r s1 = (q, s2) \<Longrightarrow>
    q = Ok () \<or> machines (gs_db s2) = machines (gs_db s1) \<Longrightarrow> cache_calls g machines s s2"

text \<open>
  Calls of several goroutines, in their parts: a miss fetches a definition and only later stores it in the cache; a save writes to the table,
  and, when that succeeded, only later invalidates the entry. \<open>fetched\<close> and \<open>written\<close> are the calls in between.
\<close>

record 'g cache_world =
  cw_state :: "'g gorm_state"
  cw_fetched :: "(string \<times> state_machine_record) list"
  cw_written :: "string list"

inductive cache_step :: "('g, 'j) gorm \<Rightarrow> 'g cache_world \<Rightarrow> 'g cache_world \<Rightarrow> bool" for g where
  fetch: "cache_load i (cw_state w) = None \<Longrightarrow> on_db (fetch_machine g i) (cw_state w) = (Ok r, s1) \<Longrightarrow>
    cache_step g w (w\<lparr>cw_state := s1, cw_fetched := cw_fetched w @ [(i, r)]\<rparr>)"
| fetch_failed: "cache_load i (cw_state w) = None \<Longrightarrow> on_db (fetch_machine g i) (cw_state w) = (Err e, s1) \<Longrightarrow>
    cache_step g w (w\<lparr>cw_state := s1\<rparr>)"
| store: "(i, r) \<in> set (cw_fetched w) \<Longrightarrow>
    cache_step g w (w\<lparr>cw_state := cache_store i r (cw_state w), cw_fetched := remove1 (i, r) (cw_fetched w)\<rparr>)"
| wrote: "on_db (save_machine g r) (cw_state w) = (Ok u, s1) \<Longrightarrow>
    cache_step g w (w\<lparr>cw_state := s1, cw_written := cw_written w @ [mr_ID r]\<rparr>)"
| write_failed: "on_db (save_machine g r) (cw_state w) = (Err e, s1) \<Longrightarrow> cache_step g w (w\<lparr>cw_state := s1\<rparr>)"
| invalidate: "i \<in> set (cw_written w) \<Longrightarrow>
    cache_step g w (w\<lparr>cw_state := cache_delete i (cw_state w), cw_written := remove1 i (cw_written w)\<rparr>)"

inductive_cases cache_step_cases: "cache_step g w w1"

text \<open>A definition that the table held at some point of a run from \<open>w0\<close> to \<open>w\<close>.\<close>

definition was_stored ::
  "('g, 'j) gorm \<Rightarrow> ('g \<Rightarrow> string \<Rightarrow> state_machine_model option) \<Rightarrow> 'g cache_world \<Rightarrow> 'g cache_world \<Rightarrow> string \<Rightarrow> state_machine_record \<Rightarrow> bool" where
  "was_stored g machines w0 w i r \<longleftrightarrow>
    (\<exists>w1 m. (cache_step g)\<^sup>*\<^sup>* w0 w1 \<and> (cache_step g)\<^sup>*\<^sup>* w1 w \<and> machines (gs_db (cw_state w1)) i = Some m \<and> r = fromStateMachineModel m)"

lemma was_stored_step: "was_stored g machines w0 w i r \<Longrightarrow> cache_step g w w1 \<Longrightarrow> was_stored g machines w0 w1 i r"
  unfolding was_stored_def by (blast intro: rtranclp.rtrancl_into_rtrancl)

context gorm_store
begin

lemma fetch_row:
  assumes "fetch_machine g i s = (q, s1)"
  shows "machines s1 = machines s" and "q = Ok r \<Longrightarrow> \<exists>m. machines s i = Some m \<and> r = fromStateMachineModel m"
proof -
  let ?q = "first_where [Where (\<lambda>m. sm_ID m = i)]"
  obtain found s' where f: "gt_find (gm_machines g) ?q s = (found, s')" by fastforce
  then have s': "s1 = s'" using assms by (cases found) (auto simp: fetch_machine_def op_bind_def)
  then show "machines s1 = machines s" using ms.find_rows [OF f] by simp
  assume "q = Ok r"
  then obtain m rest where "found = Ok (m # rest)" "r = fromStateMachineModel m"
    using assms f by (cases found) (auto simp: fetch_machine_def op_bind_def split: list.splits)
  with ms.find_by_key [of i s "m # rest" s'] f show "\<exists>m. machines s i = Some m \<and> r = fromStateMachineModel m" by (auto split: option.splits)
qed

lemma fetch_on_db:
  assumes "on_db (fetch_machine g i) s = (q, s1)"
  shows "machines (gs_db s1) = machines (gs_db s)" and "q = Ok r \<Longrightarrow> \<exists>m. machines (gs_db s) i = Some m \<and> r = fromStateMachineModel m"
    and "cache_load j s1 = cache_load j s"
  using assms fetch_row [of i "gs_db s"] by (auto simp: on_db_def split: prod.splits)

lemma get_machine:
  assumes "coherent machines s" and "Gorm_GetStateMachine g i s = (q, s1)"
  shows "coherent machines s1" and "q = Ok r \<Longrightarrow> \<exists>m. machines (gs_db s) i = Some m \<and> r = fromStateMachineModel m"
proof -
  have "coherent machines s1 \<and> (\<forall>r. q = Ok r \<longrightarrow> (\<exists>m. machines (gs_db s) i = Some m \<and> r = fromStateMachineModel m))"
  proof (cases "cache_load i s")
    case (Some r)
    with assms show ?thesis by (auto simp: Gorm_GetStateMachine_def coherent_def)
  next
    case None
    obtain found s' where f: "on_db (fetch_machine g i) s = (found, s')" by fastforce
    note row = fetch_on_db [OF f]
    have "coherent machines s'" using assms(1) row(1,3) by (simp add: coherent_def)
    with assms(2) None f row show ?thesis
      by (cases found) (auto simp: Gorm_GetStateMachine_def op_bind_def coherent_def split: if_splits)
  qed
  then show "coherent machines s1" "q = Ok r \<Longrightarrow> \<exists>m. machines (gs_db s) i = Some m \<and> r = fromStateMachineModel m" by auto
qed

lemma save_machine_coherent:
  assumes "coherent machines s" and "Gorm_SaveStateMachine g r s = (q, s1)" and "q = Ok () \<or> machines (gs_db s1) = machines (gs_db s)"
  shows "coherent machines s1"
proof -
  obtain saved d where f: "gt_save (gm_machines g) (toStateMachineModel r) (gs_db s) = (saved, d)" by fastforce
  have key: "sm_ID (toStateMachineModel r) = mr_ID r" by (simp add: toStateMachineModel_def)
  have s1: "q = saved" "gs_db s1 = d" "cache_load j s1 = (if saved = Ok () \<and> j = mr_ID r then None else cache_load j s)" for j
    using assms(2) f by (cases saved; auto simp: Gorm_SaveStateMachine_def on_db_def save_machine_def op_bind_def)+
  have "machines d j = machines (gs_db s) j" if "saved \<noteq> Ok () \<or> j \<noteq> mr_ID r" for j
    using ms.save_row [OF f] assms(3) that key by (auto simp: s1 machine_kept_def)
  with assms(1) show ?thesis by (auto simp: coherent_def s1 split: if_splits)
qed

lemma calls_coherent: "cache_calls g machines s s1 \<Longrightarrow> coherent machines s \<Longrightarrow> coherent machines s1"
proof (induction rule: cache_calls.induct)
  case (get s s1 i)
  then show ?case using get_machine(1) by (metis prod.collapse)
next
  case (save s s1 r q s2)
  then show ?case using save_machine_coherent by blast
qed

lemma was_stored_now: "machines (gs_db (cw_state w)) i = Some m \<Longrightarrow> (cache_step g)\<^sup>*\<^sup>* w0 w \<Longrightarrow> was_stored g machines w0 w i (fromStateMachineModel m)"
  unfolding was_stored_def by blast

lemma served_was_stored:
  assumes "(cache_step g)\<^sup>*\<^sup>* w0 w" and "gs_stateMachineCache (cw_state w0) = []" and "cw_fetched w0 = []"
  shows "(cache_load i (cw_state w) = Some r \<longrightarrow> was_stored g machines w0 w i r) \<and> ((i, r) \<in> set (cw_fetched w) \<longrightarrow> was_stored g machines w0 w i r)"
  using assms
proof (induction arbitrary: i r rule: rtranclp_induct)
  case base
  then show ?case by (simp add: cache_load_def)
next
  case (step w1 w2)
  note IH = step.IH [OF step.prems]
  have old: "was_stored g machines w0 w2 j x" if "was_stored g machines w0 w1 j x" for j x
    using was_stored_step [OF that step.hyps(2)] .
  from step.hyps(2) show ?case
  proof (cases rule: cache_step.cases)
    case (fetch j x s1)
    note row = fetch_on_db [OF fetch(3)]
    from row(2) [OF refl] obtain m where "machines (gs_db (cw_state w1)) j = Some m" "x = fromStateMachineModel m" by blast
    then have "was_stored g machines w0 w2 j x" using was_stored_now [OF _ step.hyps(1)] old by blast
    then show ?thesis using IH old row(3) by (auto simp: fetch(1))
  next
    case (fetch_failed j e s1)
    then show ?thesis using IH old fetch_on_db(3) [OF fetch_failed(3)] by auto
  next
    case (store j x)
    then have "was_stored g machines w0 w2 j x" using IH old by blast
    moreover have "set (remove1 (j, x) (cw_fetched w1)) \<subseteq> set (cw_fetched w1)" by (rule set_remove1_subset)
    ultimately show ?thesis using IH old by (auto simp: store(1) split: if_splits)
  next
    case (wrote x u s1)
    then have "cache_load i s1 = cache_load i (cw_state w1)" by (metis cache_load_simps(3) on_db_simps(2) snd_conv)
    with IH old show ?thesis by (simp add: wrote(1))
  next
    case (write_failed x e s1)
    then have "cache_load i s1 = cache_load i (cw_state w1)" by (metis cache_load_simps(3) on_db_simps(2) snd_conv)
    with IH old show ?thesis by (simp add: write_failed(1))
  next
    case (invalidate j)
    with IH old show ?thesis by (auto split: if_splits)
  qed
qed

end

section \<open>A reference database\<close>

text \<open>
  Lists of rows in memory, with a connection that may fail at any statement, before or after it took effect. The codec is the identity, the clock counts
  statements, an identifier that is missing is generated from it.
\<close>

record tables =
  tb_tick :: nat
  tb_executions :: "execution_model list"
  tb_history :: "state_history_model list"
  tb_machines :: "state_machine_model list"
  tb_correlations :: "message_correlation_model list"
  tb_links :: "linked_execution_model list"

definition empty_tables :: tables where
  "empty_tables = \<lparr>tb_tick = 0, tb_executions = [], tb_history = [], tb_machines = [], tb_correlations = [], tb_links = []\<rparr>"

definition statement :: "(nat \<Rightarrow> bool option) \<Rightarrow> (tables \<Rightarrow> ('a \<times> tables) res) \<Rightarrow> (tables, 'a) op" where
  "statement faults stmt s =
    (case stmt s of
       Ok (a, s1) \<Rightarrow>
         (case faults (tb_tick s) of
            None \<Rightarrow> (Ok a, s1\<lparr>tb_tick := Suc (tb_tick s)\<rparr>)
          | Some applied \<Rightarrow> (Err (ErrorNew ''connection reset''), (if applied then s1 else s)\<lparr>tb_tick := Suc (tb_tick s)\<rparr>))
     | Err e \<Rightarrow> (Err e, s\<lparr>tb_tick := Suc (tb_tick s)\<rparr>)
     | Panic m \<Rightarrow> (Panic m, s)
     | Crash m \<Rightarrow> (Crash m, s))"

definition row_of :: "('m \<Rightarrow> string) \<Rightarrow> 'm list \<Rightarrow> string \<Rightarrow> 'm option" where
  "row_of key xs i = find (\<lambda>m. key m = i) xs"

definition listing :: "('m \<Rightarrow> string) \<Rightarrow> 'm list \<Rightarrow> 'm list" where
  "listing key xs = map (\<lambda>i. the (row_of key xs i)) (remdups (map key xs))"

definition reference_table ::
  "(nat \<Rightarrow> bool option) \<Rightarrow> (tables \<Rightarrow> 'm list) \<Rightarrow> (('m list \<Rightarrow> 'm list) \<Rightarrow> tables \<Rightarrow> tables) \<Rightarrow> ('m \<Rightarrow> string) \<Rightarrow> (tables \<Rightarrow> 'm \<Rightarrow> 'm)
    \<Rightarrow> (tables, 'm) gtable" where
  "reference_table faults get put key fill =
    \<lparr>gt_create = (\<lambda>m. statement faults (\<lambda>s.
       if row_of key (get s) (key (fill s m)) = None then Ok (fill s m, put (\<lambda>xs. xs @ [fill s m]) s)
       else Err (ErrorNew ''ERROR: duplicate key value violates unique constraint (SQLSTATE 23505)''))),
     gt_insert_ignore = (\<lambda>m. statement faults (\<lambda>s.
       Ok ((), if row_of key (get s) (key (fill s m)) = None then put (\<lambda>xs. xs @ [fill s m]) s else s))),
     gt_save = (\<lambda>m. statement faults (\<lambda>s. Ok ((), put (\<lambda>xs. fill s m # filter (\<lambda>x. key x \<noteq> key (fill s m)) xs) s))),
     gt_find = (\<lambda>q. statement faults (\<lambda>s. Ok (select_rows (set (tb_links s)) q (listing key (get s)), s))),
     gt_pluck = (\<lambda>f q. statement faults (\<lambda>s. Ok (paginate (gq_limit q) (gq_offset q)
       (sort (remdups (map f (filter (\<lambda>m. list_all (cond_holds (set (tb_links s)) m) (gq_where q)) (listing key (get s)))))), s))),
     gt_count = (\<lambda>q. statement faults (\<lambda>s. Ok (int (length (filter (\<lambda>m. list_all (cond_holds (set (tb_links s)) m) (gq_where q)) (listing key (get s)))), s))),
     gt_update = (\<lambda>cs f. statement faults (\<lambda>s.
       let matches = (\<lambda>m. list_all (cond_holds (set (tb_links s)) m) cs) in
       Ok (length (filter matches (listing key (get s))), put (map (\<lambda>m. if matches m then f m else m)) s))),
     gt_delete = (\<lambda>cs. statement faults (\<lambda>s.
       let matches = (\<lambda>m. list_all (cond_holds (set (tb_links s)) m) cs) in
       Ok (length (filter matches (listing key (get s))), put (\<lambda>xs. filter (\<lambda>m. \<not> matches m) (listing key xs)) s)))\<rparr>"

definition joined_links :: "bool \<Rightarrow> tables \<Rightarrow> (linked_execution_model \<times> string) list" where
  "joined_links join s =
    (if join then concat (map (\<lambda>l. map (\<lambda>e. (l, xm_Status e))
       (filter (\<lambda>e. lm_SourceExecutionID l = xm_ExecutionID e) (listing xm_ExecutionID (tb_executions s)))) (listing lm_ID (tb_links s)))
     else map (\<lambda>l. (l, [])) (listing lm_ID (tb_links s)))"

definition reference_gorm :: "(nat \<Rightarrow> bool option) \<Rightarrow> (tables, gval) gorm" where
  "reference_gorm faults =
    \<lparr>gm_executions = reference_table faults tb_executions (\<lambda>f s. s\<lparr>tb_executions := f (tb_executions s)\<rparr>) xm_ExecutionID
       (\<lambda>s m. m\<lparr>xm_ExecutionID := if xm_ExecutionID m = [] then ''uuid-'' @ itoa (int (tb_tick s)) else xm_ExecutionID m,
               xm_StartTime := if xm_StartTime m = zero_time then int (tb_tick s) else xm_StartTime m\<rparr>),
     gm_history = reference_table faults tb_history (\<lambda>f s. s\<lparr>tb_history := f (tb_history s)\<rparr>) hm_ID (\<lambda>s m. m),
     gm_machines = reference_table faults tb_machines (\<lambda>f s. s\<lparr>tb_machines := f (tb_machines s)\<rparr>) sm_ID (\<lambda>s m. m),
     gm_correlations = reference_table faults tb_correlations (\<lambda>f s. s\<lparr>tb_correlations := f (tb_correlations s)\<rparr>) qm_ID
       (\<lambda>s m. if qm_Status m = [] then m\<lparr>qm_Status := ''WAITING''\<rparr> else m),
     gm_links = reference_table faults tb_links (\<lambda>f s. s\<lparr>tb_links := f (tb_links s)\<rparr>) lm_ID (\<lambda>s m. m),
     gm_find_links = (\<lambda>join conds limit offset. statement faults (\<lambda>s. Ok (paginate limit offset (sort_key (\<lambda>l. - lm_CreatedAt l)
       (map fst (filter (\<lambda>r. list_all (\<lambda>p. p r) conds) (joined_links join s)))), s))),
     gm_count_links = (\<lambda>join conds. statement faults (\<lambda>s. Ok (int (length (filter (\<lambda>r. list_all (\<lambda>p. p r) conds) (joined_links join s))), s))),
     gm_transaction = (\<lambda>body. body), gm_set_timeout = (\<lambda>timeout. statement faults (\<lambda>s. Ok ((), s))),
     gm_ping = statement faults (\<lambda>s. Ok ((), s)), gm_codec = \<lparr>jc_Marshal = Ok, jc_Unmarshal = Ok\<rparr>, gm_json_eq = (=),
     gm_ilike = (\<lambda>text pattern. text = pattern), gm_collate = (\<lambda>s. s), gm_timestamp = (\<lambda>t. t), gm_now = (\<lambda>s. int (tb_tick s))\<rparr>"

lemma row_of_key: "row_of key xs i = Some m \<Longrightarrow> key m = i"
  by (auto simp: row_of_def find_Some_iff)

lemma lists_listing: "lists key (row_of key xs) (listing key xs)"
proof -
  have some: "row_of key xs i \<noteq> None" if "i \<in> key ` set xs" for i
    using that by (auto simp: row_of_def find_None_iff)
  have key: "key (the (row_of key xs i)) = i" if "i \<in> key ` set xs" for i
    using some [OF that] row_of_key [of key xs i] by auto
  have "map key (listing key xs) = remdups (map key xs)"
    unfolding listing_def map_map comp_def by (rule map_idI) (simp add: key)
  moreover have "m \<in> set (listing key xs) \<longleftrightarrow> row_of key xs (key m) = Some m" for m
  proof
    assume "m \<in> set (listing key xs)"
    then obtain i where i: "i \<in> key ` set xs" "m = the (row_of key xs i)" by (auto simp: listing_def)
    with some [OF i(1)] key [OF i(1)] show "row_of key xs (key m) = Some m" by auto
  next
    assume row: "row_of key xs (key m) = Some m"
    then have "m \<in> set xs" by (auto simp: row_of_def find_Some_iff)
    with row show "m \<in> set (listing key xs)" by (force simp: listing_def)
  qed
  ultimately show ?thesis by (simp add: lists_def)
qed

lemma row_of_append: "row_of key xs (key m) = None \<Longrightarrow> row_of key (xs @ [m]) = (row_of key xs)(key m \<mapsto> m)"
  by (rule ext, induction xs) (auto simp: row_of_def)

lemma row_of_replace: "row_of key (m # filter (\<lambda>x. key x \<noteq> key m) xs) = (row_of key xs)(key m \<mapsto> m)"
proof
  fix i
  show "row_of key (m # filter (\<lambda>x. key x \<noteq> key m) xs) i = ((row_of key xs)(key m \<mapsto> m)) i"
    by (cases "i = key m"; induction xs) (auto simp: row_of_def)
qed

lemma row_of_map: "(\<And>m. key (f m) = key m) \<Longrightarrow> row_of key (map f xs) = (\<lambda>i. map_option f (row_of key xs i))"
  by (rule ext, induction xs) (auto simp: row_of_def)

lemma statement_cases:
  assumes "statement faults stmt s = (r, s1)"
  obtains "\<exists>e. stmt s = Err e \<and> r = Err e" "s1 = s\<lparr>tb_tick := Suc (tb_tick s)\<rparr>"
  | a s2 where "stmt s = Ok (a, s2)" "r = Ok a" "s1 = s2\<lparr>tb_tick := Suc (tb_tick s)\<rparr>"
  | a s2 where "stmt s = Ok (a, s2)" "r = Err (ErrorNew ''connection reset'')" "s1 = s\<lparr>tb_tick := Suc (tb_tick s)\<rparr> \<or> s1 = s2\<lparr>tb_tick := Suc (tb_tick s)\<rparr>"
  | "s1 = s" "\<forall>e. r \<noteq> Err e" "\<forall>a. r \<noteq> Ok a"
  using assms by (auto simp: statement_def split: res.splits option.splits if_splits)

lemma connection_error: "\<not> isDuplicateKeyError (ErrorNew ''connection reset'')"
  by code_simp

text \<open>A table of the reference database keeps the laws, for any way to fill in the columns that keeps what has to be kept.\<close>

lemma reference_table_laws:
  assumes get_put: "\<And>f s. get (put f s) = f (get s)" "\<And>s n. get (s\<lparr>tb_tick := n\<rparr>) = get s"
    and fill: "\<And>s m. kept m (fill s m)" "\<And>s m. key m \<noteq> [] \<Longrightarrow> key (fill s m) = key m"
  shows "gorm_table (reference_table faults get put key fill) key (\<lambda>s. row_of key (get s)) (\<lambda>s. set (tb_links s)) kept"
proof (unfold_locales, goal_cases)
  case (1 s i m)
  then show ?case by (rule row_of_key)
next
  case (2 q s r s1)
  then have "statement faults (\<lambda>s. Ok (select_rows (set (tb_links s)) q (listing key (get s)), s)) s = (r, s1)" by (simp add: reference_table_def)
  then show ?case using lists_listing [of key "get s"] by (cases rule: statement_cases) (auto simp: get_put)
next
  case (3 m s created s1)
  then have run: "statement faults (\<lambda>s. if row_of key (get s) (key (fill s m)) = None then Ok (fill s m, put (\<lambda>xs. xs @ [fill s m]) s)
      else Err (ErrorNew ''ERROR: duplicate key value violates unique constraint (SQLSTATE 23505)'')) s = (created, s1)" by (simp add: reference_table_def)
  show ?case
  proof (cases "row_of key (get s) (key (fill s m))")
    case None
    then have new: "\<exists>m'. kept m m' \<and> row_of key (get s) (key m') = None \<and>
        (row_of key (get s))(key (fill s m) \<mapsto> fill s m) = (row_of key (get s))(key m' \<mapsto> m')" using fill(1) [of m s] by blast
    from run None show ?thesis using row_of_append [of key "get s" "fill s m"] fill(1) [of m s] new connection_error
      by (cases rule: statement_cases) (auto simp: get_put)
  next
    case (Some x)
    with run show ?thesis using fill(2) [of m s] by (cases rule: statement_cases) (auto simp: get_put)
  qed
next
  case (4 m s saved s1)
  then have "statement faults (\<lambda>s. Ok ((), put (\<lambda>xs. fill s m # filter (\<lambda>x. key x \<noteq> key (fill s m)) xs) s)) s = (saved, s1)"
    by (simp add: reference_table_def)
  then show ?case using row_of_replace [of key "fill s m" "get s"] fill(1) [of m s] by (cases rule: statement_cases) (auto simp: get_put)
next
  case (5 cs f s count s1)
  define P where "P = (\<lambda>m. list_all (cond_holds (set (tb_links s)) m) cs)"
  have "statement faults (\<lambda>s. Ok (length (filter (\<lambda>m. list_all (cond_holds (set (tb_links s)) m) cs) (listing key (get s))),
      put (map (\<lambda>m. if list_all (cond_holds (set (tb_links s)) m) cs then f m else m)) s)) s = (count, s1)"
    using 5(1) by (simp add: reference_table_def Let_def)
  moreover have "row_of key (map (\<lambda>m. if P m then f m else m) (get s)) = (\<lambda>i. map_option (\<lambda>m. if P m then f m else m) (row_of key (get s) i))"
    by (rule row_of_map) (simp add: 5(2))
  moreover have "filter P (listing key (get s)) = [] \<longleftrightarrow> (\<forall>i m. row_of key (get s) i = Some m \<longrightarrow> \<not> P m)"
    using lists_listing [of key "get s"] row_of_key [of key "get s"] by (auto simp: filter_empty_conv lists_def)
  ultimately show ?case by (cases rule: statement_cases) (auto simp: get_put P_def)
qed

lemma identity_codec: "jsonb_stored \<lparr>jc_Marshal = Ok, jc_Unmarshal = Ok\<rparr> j = Ok j"
  by (simp add: jsonb_stored_def JSONB_Value_def JSONB_Scan_def split: option.split)

lemma reference_laws:
  "gorm_store (reference_gorm faults) (\<lambda>s. row_of xm_ExecutionID (tb_executions s)) (\<lambda>s. row_of qm_ID (tb_correlations s))
     (\<lambda>s. row_of sm_ID (tb_machines s)) (\<lambda>s. set (tb_links s))"
proof (intro gorm_store.intro gorm_store_axioms.intro, goal_cases)
  case 1
  show ?case unfolding reference_gorm_def gorm.simps
    by (rule reference_table_laws) (auto simp: execution_kept_def identity_codec)
next
  case 2
  show ?case unfolding reference_gorm_def gorm.simps
    by (rule reference_table_laws) (auto simp: correlation_kept_def identity_codec)
next
  case 3
  show ?case unfolding reference_gorm_def gorm.simps
    by (rule reference_table_laws) (auto simp: machine_kept_def)
qed (auto simp: reference_gorm_def reference_table_def statement_def Let_def split: res.splits option.splits if_splits)

interpretation ref: gorm_store "reference_gorm faults" "\<lambda>s. row_of xm_ExecutionID (tb_executions s)"
    "\<lambda>s. row_of qm_ID (tb_correlations s)" "\<lambda>s. row_of sm_ID (tb_machines s)" "\<lambda>s. set (tb_links s)" for faults
  by (rule reference_laws)

section \<open>Properties\<close>

text \<open>C22: Reading back from GORM. When an execution with an identifier has been saved, whether that inserted a row or updated one, reading it gives the
  status, state, error and sequence number that were saved, and the output as a map: an output that is not a map comes back under the key
  \<open>$\<close>. A row that existed keeps its name and its input; metadata for recovery is never read back. This needs of JSON only that it keeps this output.\<close>

theorem Gorm_SaveExecution_GetExecution:
  assumes "gorm_store g executions correlations machines links"
    and "Gorm_SaveExecution g r s = (Ok r1, s1)" and "er_ExecutionID r \<noteq> []"
    and "Gorm_GetExecution g (er_ExecutionID r) s1 = (Ok r2, s2)"
    and "jsonb_stored (gm_codec g) (toJSONB (er_Output r)) = Ok (toJSONB (er_Output r))"
  shows "er_ExecutionID r2 = er_ExecutionID r \<and> er_Status r2 = er_Status r \<and> er_CurrentState r2 = er_CurrentState r \<and> er_Error r2 = er_Error r \<and>
    er_HistorySequenceNumber r2 = er_HistorySequenceNumber r \<and> er_RecoveryMetadata r2 = None \<and>
    er_Output r2 = (case er_Output r of GNil \<Rightarrow> GNil | GMap m \<Rightarrow> GMap m | v \<Rightarrow> GMap [(''$'', v)]) \<and>
    (\<forall>old. executions s (er_ExecutionID r) = Some old \<longrightarrow> er_Name r2 = xm_Name old \<and> er_Input r2 = set_value (xm_Input old))"
proof -
  obtain m where "executions s1 (er_ExecutionID r) = Some m" "saved_row g r (executions s (er_ExecutionID r)) m"
    using gorm_store.save_execution_row [OF assms(1-3)] by auto
  moreover obtain m' where "executions s1 (er_ExecutionID r) = Some m'" "r2 = fromExecutionModel m'"
    using gorm_store.get_execution_row [OF assms(1,4)] by auto
  ultimately have m: "saved_row g r (executions s (er_ExecutionID r)) m" "r2 = fromExecutionModel m" by simp_all
  from m(1) assms(5) have "xm_Output m = toJSONB (er_Output r)" by (simp add: saved_row_def)
  then have "set_value (xm_Output m) = (case er_Output r of GNil \<Rightarrow> GNil | GMap m \<Rightarrow> GMap m | v \<Rightarrow> GMap [(''$'', v)])"
    by (simp add: toJSONB_def set_value_def map_value_def fromJSONB_def split: gval.split)
  with m show ?thesis by (auto simp: saved_row_def fromExecutionModel_def)
qed

abbreviation plain_gorm :: "(tables, gval) gorm" where
  "plain_gorm \<equiv> reference_gorm (\<lambda>_. None)"

theorem Gorm_SaveExecution_GetExecution_witness:
  "\<exists>r1 s1 r2 s2. Gorm_SaveExecution plain_gorm (sample_record ''PAUSED'' (GBool False))
       (snd (Gorm_SaveExecution plain_gorm (sample_record ''RUNNING'' (GBool True)) empty_tables)) = (Ok r1, s1) \<and>
     Gorm_GetExecution plain_gorm ''e1'' s1 = (Ok r2, s2) \<and> er_Status r2 = ''PAUSED'' \<and> er_Output r2 = GMap [(''$'', GBool False)]"
proof -
  let ?r = "sample_record ''PAUSED'' (GBool False)" and ?s = "snd (Gorm_SaveExecution plain_gorm (sample_record ''RUNNING'' (GBool True)) empty_tables)"
  have id: "er_ExecutionID ?r = ''e1''" "er_Output ?r = GBool False" "er_Status ?r = ''PAUSED''" by (simp_all add: sample_record_def)
  have "rbind (fst (Gorm_SaveExecution plain_gorm ?r ?s)) (\<lambda>_. Ok ()) = Ok ()" by code_simp
  then obtain r1 s1 where save: "Gorm_SaveExecution plain_gorm ?r ?s = (Ok r1, s1)"
    by (cases "Gorm_SaveExecution plain_gorm ?r ?s"; cases "fst (Gorm_SaveExecution plain_gorm ?r ?s)") auto
  have "rbind (fst (Gorm_GetExecution plain_gorm ''e1'' (snd (Gorm_SaveExecution plain_gorm ?r ?s)))) (\<lambda>_. Ok ()) = Ok ()" by code_simp
  then obtain r2 s2 where get: "Gorm_GetExecution plain_gorm ''e1'' s1 = (Ok r2, s2)"
    by (cases "Gorm_GetExecution plain_gorm ''e1'' s1"; cases "fst (Gorm_GetExecution plain_gorm ''e1'' s1)") (auto simp: save)
  have "jsonb_stored (gm_codec plain_gorm) (toJSONB (er_Output ?r)) = Ok (toJSONB (er_Output ?r))"
    by (simp add: reference_gorm_def identity_codec)
  from Gorm_SaveExecution_GetExecution [OF reference_laws save _ _ this] get id have "er_Status r2 = ''PAUSED''" "er_Output r2 = GMap [(''$'', GBool False)]"
    by simp_all
  with save get show ?thesis by blast
qed

text \<open>C23: Calls one after the other keep the cache of definitions in step with the table, as long as no save fails after it took effect: whatever
  \<open>GetStateMachine\<close> returns is the definition in the table.\<close>

theorem sequential_cache_coherent:
  assumes "gorm_store g executions correlations machines links"
    and "cache_calls g machines s s1" and "gs_stateMachineCache s = []" and "Gorm_GetStateMachine g i s1 = (Ok r, s2)"
  shows "\<exists>m. machines (gs_db s1) i = Some m \<and> r = fromStateMachineModel m"
proof -
  have "coherent machines s" using assms(3) by (simp add: coherent_def cache_load_def)
  with gorm_store.calls_coherent [OF assms(1,2)] have "coherent machines s1" by simp
  with gorm_store.get_machine(2) [OF assms(1) _ assms(4)] show ?thesis by blast
qed

definition sample_machine :: "string \<Rightarrow> state_machine_record" where
  "sample_machine definition = \<lparr>mr_ID = ''m'', mr_Name = ''orders'', mr_Description = [], mr_Definition = definition, mr_Type = [], mr_Version = ''1'',
     mr_CreatedAt = None, mr_UpdatedAt = None, mr_Metadata = None\<rparr>"

definition empty_gorm :: "tables gorm_state" where
  "empty_gorm = \<lparr>gs_db = empty_tables, gs_stateMachineCache = []\<rparr>"

definition first_saved :: "tables gorm_state" where
  "first_saved = snd (Gorm_SaveStateMachine plain_gorm (sample_machine ''v1'') empty_gorm)"

definition second_saved :: "tables gorm_state" where
  "second_saved = snd (Gorm_SaveStateMachine plain_gorm (sample_machine ''v2'') (snd (Gorm_GetStateMachine plain_gorm ''m'' first_saved)))"

theorem sequential_cache_coherent_witness:
  "\<exists>r s2 m. Gorm_GetStateMachine plain_gorm ''m'' second_saved = (Ok r, s2) \<and> mr_Definition r = ''v2'' \<and>
     row_of sm_ID (tb_machines (gs_db second_saved)) ''m'' = Some m \<and> r = fromStateMachineModel m"
proof -
  let ?machines = "\<lambda>s. row_of sm_ID (tb_machines s)" and ?s1 = "snd (Gorm_GetStateMachine plain_gorm ''m'' first_saved)"
  have "fst (Gorm_SaveStateMachine plain_gorm (sample_machine ''v1'') empty_gorm) = Ok ()"
    "fst (Gorm_SaveStateMachine plain_gorm (sample_machine ''v2'') ?s1) = Ok ()" by code_simp+
  then have saves: "Gorm_SaveStateMachine plain_gorm (sample_machine ''v1'') empty_gorm = (Ok (), first_saved)"
    "Gorm_SaveStateMachine plain_gorm (sample_machine ''v2'') ?s1 = (Ok (), second_saved)"
    by (simp_all add: first_saved_def second_saved_def prod_eq_iff)
  have "cache_calls plain_gorm ?machines empty_gorm first_saved" by (rule cache_calls.save [OF cache_calls.none saves(1)]) simp
  then have calls: "cache_calls plain_gorm ?machines empty_gorm second_saved"
    using cache_calls.save [OF cache_calls.get saves(2)] by blast
  have "rbind (fst (Gorm_GetStateMachine plain_gorm ''m'' second_saved)) (\<lambda>r. Ok (mr_Definition r)) = Ok ''v2''" by code_simp
  then obtain r s2 where get: "Gorm_GetStateMachine plain_gorm ''m'' second_saved = (Ok r, s2)" "mr_Definition r = ''v2''"
    by (cases "Gorm_GetStateMachine plain_gorm ''m'' second_saved"; cases "fst (Gorm_GetStateMachine plain_gorm ''m'' second_saved)") auto
  have "gs_stateMachineCache empty_gorm = []" by (simp add: empty_gorm_def)
  from sequential_cache_coherent [OF reference_laws calls this get(1)] get show ?thesis by blast
qed

text \<open>However the goroutines of several calls interleave, a definition in the cache is one that the table held at some point of the run.\<close>

theorem cached_definition_was_stored:
  assumes "gorm_store g executions correlations machines links"
    and "(cache_step g)\<^sup>*\<^sup>* w0 w" and "gs_stateMachineCache (cw_state w0) = []" and "cw_fetched w0 = []"
    and "cache_load i (cw_state w) = Some r"
  shows "was_stored g machines w0 w i r"
  using gorm_store.served_was_stored [OF assms(1-4)] assms(5) by blast

lemma sample_fetch:
  obtains r s1 where "on_db (fetch_machine plain_gorm ''m'') first_saved = (Ok r, s1)" "mr_Definition r = ''v1''"
    "fst (on_db (save_machine plain_gorm (sample_machine ''v2'')) s1) = Ok ()" "cache_load ''m'' first_saved = None"
proof -
  have "rbind (fst (on_db (fetch_machine plain_gorm ''m'') first_saved)) (\<lambda>r. Ok (mr_Definition r)) = Ok ''v1''" by code_simp
  moreover have "fst (on_db (save_machine plain_gorm (sample_machine ''v2'')) (snd (on_db (fetch_machine plain_gorm ''m'') first_saved))) = Ok ()" by code_simp
  moreover have "map_option mr_ID (cache_load ''m'' first_saved) = None" by code_simp
  ultimately show thesis using that
    by (cases "on_db (fetch_machine plain_gorm ''m'') first_saved"; cases "fst (on_db (fetch_machine plain_gorm ''m'') first_saved)") auto
qed

theorem cached_definition_was_stored_witness:
  "\<exists>w r. (cache_step plain_gorm)\<^sup>*\<^sup>* \<lparr>cw_state = first_saved, cw_fetched = [], cw_written = []\<rparr> w \<and> cache_load ''m'' (cw_state w) = Some r \<and>
     was_stored plain_gorm (\<lambda>s. row_of sm_ID (tb_machines s)) \<lparr>cw_state = first_saved, cw_fetched = [], cw_written = []\<rparr> w ''m'' r"
proof -
  let ?w0 = "\<lparr>cw_state = first_saved, cw_fetched = [], cw_written = []\<rparr>"
  obtain r s1 where f: "on_db (fetch_machine plain_gorm ''m'') first_saved = (Ok r, s1)" "cache_load ''m'' first_saved = None" by (rule sample_fetch)
  let ?w1 = "\<lparr>cw_state = s1, cw_fetched = [(''m'', r)], cw_written = []\<rparr>" and ?w2 = "\<lparr>cw_state = cache_store ''m'' r s1, cw_fetched = [], cw_written = []\<rparr>"
  have "cache_step plain_gorm ?w0 ?w1" using cache_step.fetch [of "''m''" ?w0 plain_gorm r s1] f by simp
  moreover have "cache_step plain_gorm ?w1 ?w2" using cache_step.store [of "''m''" r ?w1 plain_gorm] by simp
  ultimately have run: "(cache_step plain_gorm)\<^sup>*\<^sup>* ?w0 ?w2" by (meson rtranclp.rtrancl_into_rtrancl rtranclp.rtrancl_refl)
  have "length (gs_stateMachineCache first_saved) = 0" by code_simp
  then have "was_stored plain_gorm (\<lambda>s. row_of sm_ID (tb_machines s)) ?w0 ?w2 ''m'' r"
    by (intro cached_definition_was_stored [OF reference_laws run]) simp_all
  with run show ?thesis by (intro exI [of _ ?w2] exI [of _ r]) simp
qed

text \<open>C24: But the cache can stay stale for good. If a definition is fetched on a miss, and a save of a different definition completes before the fetched one is
  stored, then with no call outstanding \<open>GetStateMachine\<close> returns the old definition while the table holds the new one.\<close>

theorem cache_can_stay_stale:
  assumes "gorm_store g executions correlations machines links"
    and "cache_load i s = None" and "on_db (fetch_machine g i) s = (Ok r, s1)"
    and "on_db (save_machine g new) s1 = (Ok (), s2)" and "mr_ID new = i" and "mr_Definition new \<noteq> mr_Definition r"
  shows "\<exists>w m. (cache_step g)\<^sup>*\<^sup>* \<lparr>cw_state = s, cw_fetched = [], cw_written = []\<rparr> w \<and> cw_fetched w = [] \<and> cw_written w = [] \<and>
    fst (Gorm_GetStateMachine g i (cw_state w)) = Ok r \<and> machines (gs_db (cw_state w)) i = Some m \<and> sm_Definition m \<noteq> mr_Definition r"
proof -
  let ?w = "\<lparr>cw_state = s, cw_fetched = [], cw_written = []\<rparr>" and ?w3 = "\<lparr>cw_state = cache_delete i s2, cw_fetched = [(i, r)], cw_written = []\<rparr>"
  let ?w4 = "\<lparr>cw_state = cache_store i r (cache_delete i s2), cw_fetched = [], cw_written = []\<rparr>"
  have "cache_step g ?w \<lparr>cw_state = s1, cw_fetched = [(i, r)], cw_written = []\<rparr>"
    using cache_step.fetch [of i ?w g r s1] assms(2,3) by simp
  moreover have "cache_step g \<lparr>cw_state = s1, cw_fetched = [(i, r)], cw_written = []\<rparr> \<lparr>cw_state = s2, cw_fetched = [(i, r)], cw_written = [i]\<rparr>"
    using cache_step.wrote [of g new "\<lparr>cw_state = s1, cw_fetched = [(i, r)], cw_written = []\<rparr>" "()" s2] assms(4,5) by simp
  moreover have "cache_step g \<lparr>cw_state = s2, cw_fetched = [(i, r)], cw_written = [i]\<rparr> ?w3"
    using cache_step.invalidate [of i "\<lparr>cw_state = s2, cw_fetched = [(i, r)], cw_written = [i]\<rparr>" g] by simp
  moreover have "cache_step g ?w3 ?w4"
    using cache_step.store [of i r ?w3 g] by simp
  ultimately have steps: "(cache_step g)\<^sup>*\<^sup>* ?w ?w4" by (meson rtranclp.rtrancl_into_rtrancl rtranclp.rtrancl_refl)
  obtain d where save: "gt_save (gm_machines g) (toStateMachineModel new) (gs_db s1) = (Ok (), d)" "s2 = s1\<lparr>gs_db := d\<rparr>"
    using assms(4) by (auto simp: on_db_def save_machine_def split: prod.splits)
  obtain m where m: "machine_kept g (toStateMachineModel new) m" "machines d = (machines (gs_db s1))(sm_ID m \<mapsto> m)"
    using gorm_table.save_row [OF gorm_store.axioms(3) [OF assms(1)] save(1)] by auto
  then have "machines (gs_db (cw_state ?w4)) i = Some m" "sm_Definition m = mr_Definition new"
    using assms(5) by (auto simp: machine_kept_def toStateMachineModel_def save(2))
  moreover have "fst (Gorm_GetStateMachine g i (cw_state ?w4)) = Ok r" by (simp add: Gorm_GetStateMachine_def)
  ultimately show ?thesis using steps assms(6) by (intro exI [of _ ?w4] exI [of _ m]) auto
qed

theorem cache_can_stay_stale_witness:
  "\<exists>w m r. (cache_step plain_gorm)\<^sup>*\<^sup>* \<lparr>cw_state = first_saved, cw_fetched = [], cw_written = []\<rparr> w \<and> cw_fetched w = [] \<and> cw_written w = [] \<and>
     fst (Gorm_GetStateMachine plain_gorm ''m'' (cw_state w)) = Ok r \<and> row_of sm_ID (tb_machines (gs_db (cw_state w))) ''m'' = Some m \<and>
     sm_Definition m \<noteq> mr_Definition r"
proof -
  obtain r s1 where f: "on_db (fetch_machine plain_gorm ''m'') first_saved = (Ok r, s1)" "mr_Definition r = ''v1''"
    "fst (on_db (save_machine plain_gorm (sample_machine ''v2'')) s1) = Ok ()" "cache_load ''m'' first_saved = None" by (rule sample_fetch)
  then obtain s2 where "on_db (save_machine plain_gorm (sample_machine ''v2'')) s1 = (Ok (), s2)" by (metis prod.collapse)
  from cache_can_stay_stale [OF reference_laws f(4,1) this] f(2) show ?thesis by (auto simp: sample_machine_def)
qed

section \<open>The engine on GORM\<close>

sublocale gorm_store \<subseteq> geng: persistent_store "on_database (Gorm_repository g options)" "\<lambda>s. stored_status correlations (gs_db (fst s))"
    "Some (queue_on cd policy)" for options cd policy
  by (rule persistent_store.intro [OF on_database_store [OF corr.correlation_store_axioms]], unfold_locales) (auto simp: queue_on_def)

context gorm_store
begin

lemma resumed_once:
  assumes "ps_repository pm = on_database (Gorm_repository g options)" and "ps_queueClient pm = Some (queue_on cd policy)" and "\<not> is_timeout_input x"
    and "fst (Manager_UpdateCorrelationStatus (ps_repository pm) (correlation_id (ID x) (CurrentState x)) ''RECEIVED'' s) = Ok u"
    and "Persistent_ResumeExecution fuel env pm x s = Some (Ok (x', e), s')"
    and "Status x' = ''PAUSED'' \<Longrightarrow> correlation_id (ID x') (CurrentState x') \<noteq> correlation_id (ID x) (CurrentState x)"
  shows "\<exists>r. ProcessTimeoutTrigger fuel' env' pm (correlation_id (ID x) (CurrentState x)) s' =
    Some (r, snd (Manager_GetMessageCorrelation (ps_repository pm) (correlation_id (ID x) (CurrentState x)) s'))"
  using geng.timeout_after_message [OF assms(1-3) _ assms(5,6), of u fuel' env'] assms(1,4) by simp

end

text \<open>C25: On GORM too no execution is resumed twice in sequence. When a message has resumed a paused execution, its correlation was marked RECEIVED, and the run
  did not pause there again, then a timeout trigger for that correlation reads the correlation and stops, whatever calls have failed
  in between.\<close>

theorem Gorm_timeout_after_message_ignored:
  assumes "gorm_store g executions correlations machines links"
    and "ps_repository pm = on_database (Gorm_repository g options)" and "ps_queueClient pm = Some (queue_on cd policy)" and "\<not> is_timeout_input x"
    and "fst (Gorm_UpdateCorrelationStatus g (correlation_id (ID x) (CurrentState x)) ''RECEIVED'' (gs_db (fst s))) = Ok ()"
    and "Persistent_ResumeExecution fuel env pm x s = Some (Ok (x', e), s')"
    and "Status x' = ''PAUSED'' \<longrightarrow> correlation_id (ID x') (CurrentState x') \<noteq> correlation_id (ID x) (CurrentState x)"
  shows "\<exists>r. ProcessTimeoutTrigger fuel' env' pm (correlation_id (ID x) (CurrentState x)) s' =
    Some (r, (fst s')\<lparr>gs_db := snd (Gorm_GetMessageCorrelation g (correlation_id (ID x) (CurrentState x)) (gs_db (fst s')))\<rparr>, snd s')"
proof -
  let ?i = "correlation_id (ID x) (CurrentState x)" and ?rp = "on_database (Gorm_repository g options) :: ('a gorm_state \<times> aq_state) repository"
  have "fst (Manager_UpdateCorrelationStatus ?rp ?i ''RECEIVED'' s) = Ok ()"
    using assms(5) by (simp add: Manager_UpdateCorrelationStatus_def on_database_def Gorm_repository_def)
  moreover have "snd (Manager_GetMessageCorrelation ?rp ?i s') =
      ((fst s')\<lparr>gs_db := snd (Gorm_GetMessageCorrelation g ?i (gs_db (fst s')))\<rparr>, snd s')"
    by (rule prod_eqI) (simp_all add: Manager_GetMessageCorrelation_def on_database_def Gorm_repository_def)
  ultimately show ?thesis
    using gorm_store.resumed_once [OF assms(1-4) _ assms(6), of "()" fuel' env'] assms(2,7) by simp
qed

text \<open>An engine on the reference database, whose execution waits for the message that has arrived.\<close>

definition gorm_engine :: "(tables gorm_state \<times> aq_state) persistent" where
  "gorm_engine = \<lparr>ps_machine = machine ''M'' [(''M'', message_M)], ps_repository = on_database (Gorm_repository plain_gorm None),
     ps_stateMachineID = ''m1'', ps_queueClient = Some (queue_on sample_codec None)\<rparr>"

definition sample_waiting :: message_correlation_record where
  "sample_waiting = \<lparr>mc_ID = ''corr-e1-M'', mc_ExecutionID = ''e1'', mc_ExecutionStartTime = Some 5000, mc_StateMachineID = ''m1'', mc_StateName = ''M'',
     mc_CorrelationKey = ''order'', mc_CorrelationValue = GString ''42'', mc_CreatedAt = 5, mc_TimeoutAt = Some 60, mc_Status = ''WAITING''\<rparr>"

definition waiting_gorm :: "tables gorm_state \<times> aq_state" where
  "waiting_gorm = (\<lparr>gs_db = snd (Gorm_SaveMessageCorrelation plain_gorm sample_waiting empty_tables), gs_stateMachineCache = []\<rparr>, \<lambda>_. None)"

lemma gorm_resume_run:
  obtains x' s' where "Persistent_ResumeExecution 5 quiet_env gorm_engine answered waiting_gorm = Some (Ok (x', None), s')" "Status x' = ''SUCCEEDED''"
proof -
  let ?s = "persistExecution gorm_engine (answered\<lparr>Status := ''RUNNING''\<rparr>) (settle_correlation gorm_engine answered waiting_gorm)"
  let ?c = "\<lparr>pc_step = 0, pc_StateName = ''M'', pc_Exec = answered\<lparr>Status := ''RUNNING''\<rparr>, pc_Store = ?s\<rparr>"
  define out where "out = advance quiet_env 0 gorm_engine (numbered_execution (answered\<lparr>Status := ''RUNNING''\<rparr>))
      (snd (newStateHistory 0 ''M'' message_M (answered\<lparr>Status := ''RUNNING''\<rparr>))) message_M ''M'' (GString ''paid'') None None ?s"
  have "IsEnd message_M" by code_simp
  then obtain x' s' where adv: "out = Inr (Ok (x', None), s')" "Status x' = ''SUCCEEDED''" by (simp add: out_def advance_def Let_def)
  have "map_of (sm_States (ps_machine gorm_engine)) ''M'' = Some message_M" by (simp add: gorm_engine_def machine_def)
  then have "prun_once 4 quiet_env gorm_engine ?c = Some out"
    using prun_once_state [of quiet_env ?c gorm_engine message_M 4 "GString ''paid''" None None] resume_exec by (simp add: quiet_env_simps out_def)
  then have "Persistent_ResumeExecution 5 quiet_env gorm_engine answered waiting_gorm = Some (Ok (x', None), s')"
    by (simp add: Persistent_ResumeExecution_def prun_start answered_def start_def NewContext_def eval_nat_numeral adv(1) Let_def)
  with that adv(2) show thesis by blast
qed

theorem Gorm_timeout_after_message_ignored_witness:
  "\<exists>x' s' r. Persistent_ResumeExecution 5 quiet_env gorm_engine answered waiting_gorm = Some (Ok (x', None), s') \<and>
     ProcessTimeoutTrigger 5 quiet_env gorm_engine ''corr-e1-M'' s' =
       Some (r, (fst s')\<lparr>gs_db := snd (Gorm_GetMessageCorrelation plain_gorm ''corr-e1-M'' (gs_db (fst s')))\<rparr>, snd s')"
proof -
  obtain x' s' where run: "Persistent_ResumeExecution 5 quiet_env gorm_engine answered waiting_gorm = Some (Ok (x', None), s')" "Status x' = ''SUCCEEDED''"
    by (rule gorm_resume_run)
  have corr: "correlation_id (ID answered) (CurrentState answered) = ''corr-e1-M''"
    by (simp add: correlation_id_def answered_def start_def NewContext_def)
  have upd: "fst (Gorm_UpdateCorrelationStatus plain_gorm ''corr-e1-M'' ''RECEIVED'' (gs_db (fst waiting_gorm))) = Ok ()" by code_simp
  have "\<not> is_timeout_input answered" by code_simp
  with Gorm_timeout_after_message_ignored [OF reference_laws _ _ _ _ run(1), where options = None and cd = sample_codec and policy = None and fuel' = 5 and env' = quiet_env] upd run show ?thesis
    unfolding corr by (auto simp: gorm_engine_def)
qed

end
