(* ===== verification/RepositoryTypes.thy ===== *)
theory RepositoryTypes
  imports Gorm
begin

text \<open>
  The remaining parts of \<open>pkg/repository\<close>: the choice of a backend with its configuration (\<open>NewRepository\<close> in \<open>types.go\<close>, \<open>NewPersistenceManager\<close> in
  \<open>repository.go\<close>, \<open>NewPostgresRepository\<close> and \<open>parsePostgresConfig\<close> in \<open>postgres.go\<close>), and the life of the value types \<open>Execution\<close> and \<open>StateHistory\<close>
  of \<open>types.go\<close>: creation, marking, copying, validation. Opening a connection, the clock and random bytes are parameters. The lemmas show which
  values pass validation and how that compares with what the tables accept.
\<close>

section \<open>Choice of a backend\<close>

record repo_config =
  cfg_Strategy :: string
  cfg_ConnectionURL :: string
  cfg_Options :: "(string \<times> option_value) list option"

record postgres_config =
  pc_MaxOpenConns :: int
  pc_MaxIdleConns :: int
  pc_ConnMaxLifetime :: int
  pc_ConnMaxIdleTime :: int
  pc_EnableWAL :: bool
  pc_StatementTimeout :: string
  pc_SearchPath :: string

definition parsePostgresConfig :: "(string \<times> option_value) list option \<Rightarrow> postgres_config" where
  "parsePostgresConfig options =
    (let cfg = \<lparr>pc_MaxOpenConns = 25, pc_MaxIdleConns = 5, pc_ConnMaxLifetime = 5 * 60 * 10 ^ 9, pc_ConnMaxIdleTime = 5 * 60 * 10 ^ 9,
           pc_EnableWAL = True, pc_StatementTimeout = ''30s'', pc_SearchPath = ''public''\<rparr>
     in case options of
          None \<Rightarrow> cfg
        | Some opts \<Rightarrow>
            \<lparr>pc_MaxOpenConns = option_int opts ''max_open_conns'' (pc_MaxOpenConns cfg),
             pc_MaxIdleConns = option_int opts ''max_idle_conns'' (pc_MaxIdleConns cfg),
             pc_ConnMaxLifetime = option_duration opts ''conn_max_lifetime'' (pc_ConnMaxLifetime cfg),
             pc_ConnMaxIdleTime = option_duration opts ''conn_max_idle_time'' (pc_ConnMaxIdleTime cfg),
             pc_EnableWAL = (case map_of opts ''enable_wal'' of Some (OBool b) \<Rightarrow> b | _ \<Rightarrow> pc_EnableWAL cfg),
             pc_StatementTimeout = option_string opts ''statement_timeout'' (pc_StatementTimeout cfg),
             pc_SearchPath = option_string opts ''search_path'' (pc_SearchPath cfg)\<rparr>)"

text \<open>\<open>open_db\<close> is \<open>sql.Open\<close>, \<open>pool\<close> sets the limits of the pool on its result.\<close>

definition NewPostgresRepository :: "(string \<Rightarrow> 'c res) \<Rightarrow> (postgres_config \<Rightarrow> 'c \<Rightarrow> 'c) \<Rightarrow> repo_config \<Rightarrow> 'c res" where
  "NewPostgresRepository open_db pool config =
    (if cfg_ConnectionURL config = [] then Err (ErrorNew ''connection URL is required for PostgreSQL repository'')
     else rbind (wrap_err ''failed to open postgres connection'' (open_db (cfg_ConnectionURL config))) (\<lambda>db.
       Ok (pool (parsePostgresConfig (cfg_Options config)) db)))"

definition NewGormPostgresRepository :: "(gorm_config \<Rightarrow> string \<Rightarrow> 'o res) \<Rightarrow> ('o \<Rightarrow> 'c res) \<Rightarrow> (gorm_config \<Rightarrow> 'c \<Rightarrow> 'c) \<Rightarrow> repo_config \<Rightarrow> 'c res" where
  "NewGormPostgresRepository open_gorm db_of pool config =
    (if cfg_ConnectionURL config = [] then Err (ErrorNew ''connection URL is required'')
     else
       (let gormCfg = parseGormConfig (cfg_Options config) in
        rbind (wrap_err ''failed to connect to database'' (open_gorm gormCfg (cfg_ConnectionURL config))) (\<lambda>db.
        rbind (wrap_err ''failed to get database instance'' (db_of db)) (\<lambda>sqlDB. Ok (pool gormCfg sqlDB)))))"

definition NewRepository :: "(repo_config \<Rightarrow> 'r res) \<Rightarrow> (repo_config \<Rightarrow> 'r res) \<Rightarrow> repo_config \<Rightarrow> 'r res" where
  "NewRepository new_gorm new_postgres config =
    (if cfg_Strategy config = ''gorm'' then new_gorm config
     else if cfg_Strategy config = ''postgres'' then new_postgres config
     else if cfg_Strategy config = ''memory'' then Err (ErrorNew (''in-memory repository is not supported: '' @ cfg_Strategy config))
     else Err (ErrorNew (''unsupported repository repository: '' @ cfg_Strategy config)))"

definition NewPersistenceManager :: "(repo_config \<Rightarrow> 'r res) \<Rightarrow> (repo_config \<Rightarrow> 'r res) \<Rightarrow> repo_config \<Rightarrow> 'r res" where
  "NewPersistenceManager new_gorm new_postgres config =
    (if cfg_Strategy config = ''postgres'' then wrap_err ''failed to create persistence repository'' (new_postgres config)
     else if cfg_Strategy config = ''gorm-postgres'' then wrap_err ''failed to create persistence repository'' (new_gorm config)
     else if cfg_Strategy config = ''dynamodb'' then Err (ErrorNew ''DynamoDB repository not yet implemented'')
     else if cfg_Strategy config = ''redis'' then Err (ErrorNew ''redis repository not yet implemented'')
     else if cfg_Strategy config = ''memory'' then Err (ErrorNew ''InMemory repository not yet implemented'')
     else Err (ErrorNew (''unsupported persistence repository: '' @ cfg_Strategy config)))"

section \<open>Executions and history entries as values\<close>

record repo_execution =
  rx_ID :: string
  rx_StateMachineID :: string
  rx_Name :: string
  rx_Input :: "gmap option"
  rx_Output :: "gmap option"
  rx_Status :: string
  rx_StartTime :: "int option"
  rx_EndTime :: "int option"
  rx_CurrentState :: string
  rx_Error :: "err option"
  rx_Metadata :: "gmap option"

record repo_history =
  rh_ID :: string
  rh_ExecutionID :: string
  rh_StateName :: string
  rh_StateType :: string
  rh_Input :: "gmap option"
  rh_Output :: "gmap option"
  rh_Status :: string
  rh_StartTime :: "int option"
  rh_EndTime :: "int option"
  rh_Error :: "err option"
  rh_RetryCount :: int
  rh_SequenceNumber :: int
  rh_Metadata :: "gmap option"

definition Execution_IsTerminal :: "repo_execution \<Rightarrow> bool" where
  "Execution_IsTerminal e \<longleftrightarrow> rx_Status e \<in> set [''SUCCEEDED'', ''FAILED'', ''CANCELLED'', ''TIMED_OUT'', ''ABORTED'']"

definition StateHistory_IsTerminal :: "repo_history \<Rightarrow> bool" where
  "StateHistory_IsTerminal h \<longleftrightarrow> rh_Status h \<in> set [''SUCCEEDED'', ''FAILED'', ''CANCELLED'', ''TIMED_OUT'']"

definition Execution_Duration :: "int \<Rightarrow> repo_execution \<Rightarrow> int" where
  "Execution_Duration now e = time_sub (case rx_EndTime e of None \<Rightarrow> now | Some t \<Rightarrow> t) (time_or_zero (rx_StartTime e))"

definition StateHistory_Duration :: "int \<Rightarrow> repo_history \<Rightarrow> int" where
  "StateHistory_Duration now h = time_sub (case rh_EndTime h of None \<Rightarrow> now | Some t \<Rightarrow> t) (time_or_zero (rh_StartTime h))"

definition hex_byte :: "nat \<Rightarrow> string" where
  "hex_byte b = [''0123456789abcdef'' ! (b div 16 mod 16), ''0123456789abcdef'' ! (b mod 16)]"

definition EncodeToString :: "nat list \<Rightarrow> string" where
  "EncodeToString bs = concat (map hex_byte bs)"

text \<open>The text that belongs to the log message is part of the identifier.\<close>

definition generateExecutionID :: "nat list \<Rightarrow> string" where
  "generateExecutionID random = ''[generateExecutionID] exec-'' @ EncodeToString random"

definition generateStateHistoryID :: "nat list \<Rightarrow> string \<Rightarrow> string \<Rightarrow> int \<Rightarrow> string" where
  "generateStateHistoryID random executionID stateName sequenceNumber =
    executionID @ ''-'' @ stateName @ ''-'' @ itoa sequenceNumber @ ''-'' @ take 8 (EncodeToString random)"

definition Repo_NewExecution :: "nat list \<Rightarrow> int \<Rightarrow> string \<Rightarrow> string \<Rightarrow> gmap option \<Rightarrow> repo_execution" where
  "Repo_NewExecution random now stateMachineID name input =
    \<lparr>rx_ID = generateExecutionID random, rx_StateMachineID = stateMachineID, rx_Name = name, rx_Input = input, rx_Output = None,
     rx_Status = ''RUNNING'', rx_StartTime = value_time now, rx_EndTime = None, rx_CurrentState = [], rx_Error = None, rx_Metadata = Some []\<rparr>"

definition NewStateHistory :: "nat list \<Rightarrow> int \<Rightarrow> string \<Rightarrow> string \<Rightarrow> string \<Rightarrow> gmap option \<Rightarrow> int \<Rightarrow> repo_history" where
  "NewStateHistory random now executionID stateName stateType input sequenceNumber =
    \<lparr>rh_ID = generateStateHistoryID random executionID stateName sequenceNumber, rh_ExecutionID = executionID, rh_StateName = stateName,
     rh_StateType = stateType, rh_Input = input, rh_Output = None, rh_Status = ''RUNNING'', rh_StartTime = value_time now, rh_EndTime = None,
     rh_Error = None, rh_RetryCount = 0, rh_SequenceNumber = sequenceNumber, rh_Metadata = Some []\<rparr>"

definition Execution_MarkSucceeded :: "int \<Rightarrow> gmap option \<Rightarrow> repo_execution \<Rightarrow> repo_execution" where
  "Execution_MarkSucceeded now out e = e\<lparr>rx_Status := ''SUCCEEDED'', rx_Output := out, rx_EndTime := value_time now\<rparr>"

definition Execution_MarkFailed :: "int \<Rightarrow> err option \<Rightarrow> repo_execution \<Rightarrow> repo_execution" where
  "Execution_MarkFailed now err e = e\<lparr>rx_Status := ''FAILED'', rx_Error := err, rx_EndTime := value_time now\<rparr>"

definition Execution_MarkCancelled :: "int \<Rightarrow> repo_execution \<Rightarrow> repo_execution" where
  "Execution_MarkCancelled now e = e\<lparr>rx_Status := ''CANCELLED'', rx_EndTime := value_time now\<rparr>"

definition Execution_MarkTimedOut :: "int \<Rightarrow> repo_execution \<Rightarrow> repo_execution" where
  "Execution_MarkTimedOut now e = e\<lparr>rx_Status := ''TIMED_OUT'', rx_EndTime := value_time now\<rparr>"

definition StateHistory_MarkSucceeded :: "int \<Rightarrow> gmap option \<Rightarrow> repo_history \<Rightarrow> repo_history" where
  "StateHistory_MarkSucceeded now out h = h\<lparr>rh_Status := ''SUCCEEDED'', rh_Output := out, rh_EndTime := value_time now\<rparr>"

definition StateHistory_MarkFailed :: "int \<Rightarrow> err option \<Rightarrow> repo_history \<Rightarrow> repo_history" where
  "StateHistory_MarkFailed now err h = h\<lparr>rh_Status := ''FAILED'', rh_Error := err, rh_EndTime := value_time now\<rparr>"

definition IncrementRetry :: "repo_history \<Rightarrow> repo_history" where
  "IncrementRetry h = h\<lparr>rh_RetryCount := wrap64 (rh_RetryCount h + 1), rh_Status := ''RETRYING''\<rparr>"

text \<open>A clone has new maps with the same entries; an entry that refers to further data refers to the same data.\<close>

definition cloneMap :: "gmap \<Rightarrow> gmap" where
  "cloneMap m = foldl (\<lambda>clone (k, v). AList.update k v clone) [] m"

definition Execution_Clone :: "repo_execution \<Rightarrow> repo_execution" where
  "Execution_Clone e =
    \<lparr>rx_ID = rx_ID e, rx_StateMachineID = rx_StateMachineID e, rx_Name = rx_Name e, rx_Input = map_option cloneMap (rx_Input e),
     rx_Output = map_option cloneMap (rx_Output e), rx_Status = rx_Status e, rx_StartTime = rx_StartTime e, rx_EndTime = rx_EndTime e,
     rx_CurrentState = rx_CurrentState e, rx_Error = rx_Error e, rx_Metadata = map_option cloneMap (rx_Metadata e)\<rparr>"

definition StateHistory_Clone :: "repo_history \<Rightarrow> repo_history" where
  "StateHistory_Clone h =
    \<lparr>rh_ID = rh_ID h, rh_ExecutionID = rh_ExecutionID h, rh_StateName = rh_StateName h, rh_StateType = rh_StateType h,
     rh_Input = map_option cloneMap (rh_Input h), rh_Output = map_option cloneMap (rh_Output h), rh_Status = rh_Status h,
     rh_StartTime = rh_StartTime h, rh_EndTime = rh_EndTime h, rh_Error = rh_Error h, rh_RetryCount = rh_RetryCount h,
     rh_SequenceNumber = rh_SequenceNumber h, rh_Metadata = map_option cloneMap (rh_Metadata h)\<rparr>"

definition isValidExecutionStatus :: "string \<Rightarrow> bool" where
  "isValidExecutionStatus status \<longleftrightarrow> status \<in> set [''RUNNING'', ''SUCCEEDED'', ''FAILED'', ''CANCELLED'', ''TIMED_OUT'', ''ABORTED'']"

definition isValidStateHistoryStatus :: "string \<Rightarrow> bool" where
  "isValidStateHistoryStatus status \<longleftrightarrow> status \<in> set [''SUCCEEDED'', ''FAILED'', ''RUNNING'', ''CANCELLED'', ''TIMED_OUT'', ''RETRYING'']"

definition RepoExecution_Validate :: "repo_execution \<Rightarrow> err option" where
  "RepoExecution_Validate e =
    (if rx_ID e = [] then Some (ErrorNew ''execution ID is required'')
     else if rx_StateMachineID e = [] then Some (ErrorNew ''state machine ID is required'')
     else if rx_Name e = [] then Some (ErrorNew ''execution name is required'')
     else if rx_Status e = [] then Some (ErrorNew ''execution status is required'')
     else if \<not> isValidExecutionStatus (rx_Status e) then Some (ErrorNew (''invalid execution status: '' @ rx_Status e))
     else if rx_StartTime e = None then Some (ErrorNew ''start time is required'')
     else None)"

definition RepoHistory_Validate :: "repo_history \<Rightarrow> err option" where
  "RepoHistory_Validate h =
    (if rh_ID h = [] then Some (ErrorNew ''state history ID is required'')
     else if rh_ExecutionID h = [] then Some (ErrorNew ''execution ID is required'')
     else if rh_StateName h = [] then Some (ErrorNew ''state name is required'')
     else if rh_StateType h = [] then Some (ErrorNew ''state type is required'')
     else if rh_Status h = [] then Some (ErrorNew ''state history status is required'')
     else if \<not> isValidStateHistoryStatus (rh_Status h) then Some (ErrorNew (''invalid state history status: '' @ rh_Status h))
     else if rh_StartTime h = None then Some (ErrorNew ''start time is required'')
     else if rh_SequenceNumber h < 0 then Some (ErrorNew ''sequence number must be non-negative'')
     else None)"

section \<open>Lemmas\<close>

text \<open>A value under way: created, then marked any number of times.\<close>

inductive execution_life :: "repo_execution \<Rightarrow> bool" where
  created: "name \<noteq> [] \<Longrightarrow> smID \<noteq> [] \<Longrightarrow> now \<noteq> zero_time \<Longrightarrow> execution_life (Repo_NewExecution random now smID name input)"
| succeeded: "execution_life e \<Longrightarrow> now \<noteq> zero_time \<Longrightarrow> execution_life (Execution_MarkSucceeded now out e)"
| failed: "execution_life e \<Longrightarrow> now \<noteq> zero_time \<Longrightarrow> execution_life (Execution_MarkFailed now err e)"
| cancelled: "execution_life e \<Longrightarrow> now \<noteq> zero_time \<Longrightarrow> execution_life (Execution_MarkCancelled now e)"
| timed_out: "execution_life e \<Longrightarrow> now \<noteq> zero_time \<Longrightarrow> execution_life (Execution_MarkTimedOut now e)"

lemma execution_life_ok:
  assumes "execution_life e"
  shows "RepoExecution_Validate e = None \<and> (Execution_IsTerminal e \<longleftrightarrow> rx_EndTime e \<noteq> None) \<and> rx_Status e \<in> set execution_statuses"
  using assms
  by induction
    (auto simp: Repo_NewExecution_def generateExecutionID_def Execution_MarkSucceeded_def Execution_MarkFailed_def Execution_MarkCancelled_def
      Execution_MarkTimedOut_def RepoExecution_Validate_def isValidExecutionStatus_def Execution_IsTerminal_def value_time_def
      execution_statuses_def split: if_splits)

text \<open>Validation is stricter than the tables: it refuses the statuses of an execution and of an entry that wait for a message.\<close>

lemma validation_stricter:
  "isValidExecutionStatus st \<longleftrightarrow> st \<in> set execution_statuses \<and> st \<noteq> ''PAUSED''"
  "isValidStateHistoryStatus st \<longleftrightarrow> st \<in> set history_statuses \<and> st \<noteq> ''WAITING''"
  by (auto simp: isValidExecutionStatus_def isValidStateHistoryStatus_def execution_statuses_def history_statuses_def)

lemma cloneMap_same: "distinct_keys m \<Longrightarrow> cloneMap m = m"
proof -
  have "foldl (\<lambda>clone (k, v). AList.update k v clone) acc m = acc @ m" if "distinct (map fst (acc @ m))" for acc m :: gmap
    using that
  proof (induction m arbitrary: acc)
    case (Cons kv m)
    obtain k v where kv: "kv = (k, v)" by fastforce
    have "AList.update k v acc = acc @ [(k, v)]" if "k \<notin> fst ` set acc" for acc :: gmap using that by (induction acc) auto
    then have "AList.update k v acc = acc @ [(k, v)]" using Cons.prems kv by auto
    with Cons.IH [of "acc @ [(k, v)]"] Cons.prems kv show ?case by simp
  qed simp
  from this [of "[]" m] show "distinct_keys m \<Longrightarrow> cloneMap m = m" by (simp add: cloneMap_def)
qed

end
