(* ===== verification/Spec2Isabelle.thy ===== *)
theory Spec2Isabelle
  imports Recovery Handler RepositoryTypes
begin

text \<open>
  \<^bold>\<open>A state machine engine for the Amazon States Language, in Go.\<close>

  The program loads a definition of states, validates it, and runs executions of it. A run is a loop over states: each state
  reads its input through JSON paths, does its work (calls a task handler, chooses a branch, waits, pauses for a message, runs
  parallel branches) and names the state that follows. The engine exists twice: in memory, and with persistence, where executions, their
  histories and the correlations of pending messages are kept in a repository with two PostgreSQL backends (hand-written SQL, and GORM), so
  that an execution can pause for a message, time out, and be recovered after a crash. Timeouts and batches travel as
  tasks over a queue to workers, whose handler runs them on the persistent engine. A batch is run on goroutines, as single tasks, or as
  micro-batches: an orchestrator, itself a state machine of this engine, slices the work, forks it into tasks, joins them at a Redis
  barrier and decides by failure metrics whether to go on.

  \<^bold>\<open>Theories and sources.\<close>
  \<^item> \<open>Prelude\<close>: results (\<open>res\<close>: a value, an error, a panic of the goroutine, a crash of the process), checks, 64-bit
    integers with wrap-around, decimal conversion, association lists with distinct keys.
  \<^item> \<open>GoValue\<close>: the dynamic values behind \<open>interface{}\<close> (\<open>gval\<close>), IEEE doubles with their rounding (\<open>f64\<close>).
  \<^item> \<open>Jsonpath\<close>: \<open>internal/states/jsonpath.go\<close>; path splitting, \<open>getValue\<close>, \<open>setValue\<close>, \<open>mergeMaps\<close>, parameter expansion.
  \<^item> \<open>BaseState\<close>: \<open>internal/states/state.go\<close>; the embedded struct, the path processors, and the environment \<open>env\<close> of a run (task
    handlers, the clock, cancellation of the context, the order in which goroutines finish).
  \<^item> \<open>SimpleStates\<close>, \<open>Choice\<close>, \<open>Task\<close>, \<open>Wait\<close>, \<open>Message\<close>: \<open>pass.go\<close>, \<open>fail.go\<close>, \<open>succeed.go\<close>, \<open>choice.go\<close>,
    \<open>task.go\<close>, \<open>wait.go\<close>, \<open>message.go\<close>; one record per struct, one definition per method.
  \<^item> \<open>States\<close>: the \<open>State\<close> interface as a datatype over these records with its dynamic dispatch, and \<open>parallel.go\<close>.
  \<^item> \<open>Validator\<close>: \<open>internal/validator/validator.go\<close>. \<open>Factory\<close>: \<open>pkg/factory/factory.go\<close> and the unmarshaler of branches.
  \<^item> \<open>Execution\<close>: \<open>pkg/execution/execution.go\<close>. \<open>Errors\<close>: \<open>pkg/errors/errors.go\<close>.
  \<^item> \<open>StateMachine\<close>: \<open>pkg/statemachine/statemachine.go\<close>; loading, one iteration of the loop (\<open>run_once\<close>), the loop, options.
  \<^item> \<open>Repository\<close>: \<open>repository.go\<close> and \<open>repository_messages.go\<close> of \<open>pkg/repository\<close>; the records, the manager, and a backend as a
    record of operations. \<open>RepositoryTypes\<close>: \<open>types.go\<close> and the choice and configuration of a backend.
  \<^item> \<open>Postgres\<close>, \<open>PostgresQueries\<close>: \<open>postgres.go\<close> and \<open>postgres_message_repository.go\<close>; the tables with their constraints, the
    statements that change them, and the queries with the builders of their text.
  \<^item> \<open>Gorm\<close>: \<open>gorm_postgres.go\<close> and \<open>models.go\<close>; the models, their conversions and hooks, the operations, the cache of definitions.
  \<^item> \<open>Queue\<close>: \<open>pkg/queue\<close>; payloads, tasks, client, aggregator, configuration, dispatch of the worker.
  \<^item> \<open>Persistent\<close>: \<open>pkg/statemachine/persistent/persistent.go\<close>; the loop with its writes (\<open>prun_once\<close>), start, pause, resumption,
    timeout triggers. \<open>BatchExecution\<close>: its batch operations and \<open>persistent_microbatch.go\<close>.
  \<^item> \<open>Executor\<close>: \<open>pkg/executor\<close>; registries, the table of paused executions, delivery of messages.
  \<^item> \<open>Recovery\<close>: \<open>pkg/recovery/recovery.go\<close>; orphans, reconstruction, strategies, the background scanner.
  \<^item> \<open>Batch\<close>: \<open>keys.go\<close>, \<open>barrier.go\<close>, \<open>metrics.go\<close>, \<open>evaluator.go\<close> and \<open>resume.go\<close> of \<open>pkg/batch\<close>. \<open>Orchestrator\<close>: its
    \<open>orchestrator.go\<close> and \<open>types.go\<close>.
  \<^item> \<open>Handler\<close>: \<open>pkg/handler/execution_handler.go\<close> and \<open>pkg/registry/registry.go\<close>.

  \<^bold>\<open>Correspondence.\<close> Names are those of the source, prefixed by the receiver's type where several types have the method
  (\<open>TaskState_Execute\<close>) and by an abbreviation where several records have the field (\<open>sh_StateName\<close>). A Go map is an association list
  with distinct keys; iteration over one is in the order of the list, and results that could depend on the order are stated for
  any list. A reading of the clock, a handler call, a check of the context is a value of the environment at an \<^emph>\<open>event\<close>
  (\<open>evid\<close>), a position in the run, so theorems quantified over the environment hold for every behaviour over time. Goroutines of
  a Parallel state store their results in an arbitrary order of completion; those of a local batch move by a schedule, an arbitrary list of moves;
  the scanner, the calls at the barrier and the calls around the cache of definitions are step relations, whose runs are all interleavings.
  An operation of the repository, the queue or Redis is a function from the state to a result and the new state (\<open>op\<close>). Objects that the
  executor shares by reference live in a heap.

  \<^bold>\<open>Parameters.\<close> Code outside the repository is a parameter: task handlers, \<open>encoding/json\<close> (\<open>decoder\<close>, \<open>payload_codec\<close>, \<open>json_codec\<close>, \<open>batch_json\<close>),
  \<open>time.Parse\<close> and \<open>fmt\<close> (fields of \<open>env\<close>), the front end that turns the text of a definition into a machine (\<open>newSM\<close>), the server and the
  connection (\<open>postgres\<close>, with faults at any statement and the column \<open>recovery_metadata\<close> that the README has added by hand), GORM (\<open>gorm\<close>), Asynq (\<open>asynq\<close>) and Redis (\<open>redis\<close>).

  \<^bold>\<open>Interfaces.\<close> What one part relies on in another is a locale, in which the facts about its clients are proved once:
  \<^item> \<open>path_processor\<close> and \<open>state_interface\<close>: the interfaces of \<open>state.go\<close>; interpreted on the processor and on \<open>Execute\<close>.
  \<^item> \<open>fuelled_loop\<close>: loops with fuel; interpreted on both engines. \<open>depth_first\<close>: the searches of the validator.
  \<^item> \<open>correlation_store\<close>: what the message operations of a backend promise; interpreted on \<open>Postgres_repository\<close>, and by a \<open>sublocale\<close> on every
    \<open>gorm_store\<close>. \<open>persistent_store\<close> extends it to the state of the engine, so a timeout after a message is shown to be ignored once for both backends.
  \<^item> \<open>gorm_table\<close>, \<open>gorm_store\<close>: the laws of GORM; interpreted on a reference database with faults.
  \<^item> \<open>machine_contract\<close>: what the executor expects of a machine; interpreted on the persistent engine and the adapter.
  \<^item> \<open>asynq_store\<close>, \<open>task_log\<close>: the laws of Asynq. \<open>redis_store\<close>, \<open>batch_store\<close>: those of Redis. \<open>batch_dispatch\<close> and \<open>reliable_dispatch\<close> put
    them together for the orchestrator, without and with the assumption that no call fails.
  \<^item> \<open>stored_task\<close>: a task whose execution is already stored, for the retries of the handler.

  \<^bold>\<open>Fuel.\<close> \<open>Execute\<close> (for branches), \<open>RunExecution\<close> and \<open>Persistent_RunExecution\<close> are loops that a cyclic machine may never leave; they take fuel and
  \<open>None\<close> means that it ran out. More fuel never changes a result (\<open>Execute_mono\<close>, \<open>fuelled_loop\<close>); \<open>acyclic_returns\<close> and
  \<open>ranked_machine_bound\<close>, and a theorem of \<open>Persistent\<close>, give a bound for states and machines without cycles. The polling
  \<open>waitForTermination\<close> and the operations of the executor, the handler and recovery that run executions take the fuel of those runs. The
  searches of the validator take the fuel \<open>search_fuel\<close> (the number of states plus two), which always suffices (\<open>canReachAnyEndState_returns\<close>).
  A local batch ends within three moves for each item.

  \<^bold>\<open>What the lemmas show.\<close> \<open>Jsonpath\<close>: reading after writing, the frame of a write, the round trip of paths. \<open>Choice\<close>: the first match
  decides; what validation excludes. \<open>Task\<close>: the retry loop as a specification, success, catch, the cap on backoff. \<open>Wait\<close>: exact
  durations and their overflow. \<open>Message\<close>: the three phases. \<open>States\<close>: next states are declared, concurrency does not show,
  the join, termination. \<open>Validator\<close>: the graph check is exact. \<open>StateMachine\<close>: the invariant of the history by induction over the
  step relation \<open>run_step\<close>, completion, termination, containment of panics, and behaviour that differs from what the code's
  comments or the recorded history suggest. \<open>Postgres\<close>: integrity of the tables under every sequence of calls and faults, calls about one
  execution leave the others alone, what is read after a save, what a listing returns. \<open>PostgresQueries\<close>: each query against the rows its filter describes. \<open>Gorm\<close>: reading after a save, the
  cache under sequences and interleavings of calls. \<open>RepositoryTypes\<close>: what validation accepts. \<open>Queue\<close>: tasks and their options, schedule and
  cancellation of a timeout. \<open>Persistent\<close>: history and outcome of a run, its independence of the store, messages against timeouts.
  \<open>Executor\<close>: the table stays consistent, a message finds all that wait, and where it gets lost. \<open>Recovery\<close>: what is recovered after
  a crash at any point, the life of the scanner. \<open>Batch\<close>: one winner for each barrier that is made, in every interleaving, injective keys, the window
  of outcomes, resume signals that are consumed once. \<open>Orchestrator\<close>: micro-batches partition the work, none is enqueued twice, the last
  worker resumes the orchestrator, the lock of a launch. \<open>BatchExecution\<close>: local batches end and return the results of their executions, for
  every schedule. \<open>Handler\<close>: tasks, retries and the barrier.

  \<^bold>\<open>Not modelled.\<close> The statements that create and migrate schemas, partitions, indexes and materialised views, the percentile statistics of
  GORM, opening and closing of connections, and starting and stopping the Asynq server: they only hand fixed texts or settings to another
  program. Decoding of JSON and YAML and the embedded definition files are parameters; \<open>MarshalJSON\<close> of the larger states, accessors, and
  methods that only forward to another one are left out. The expiry of Redis keys and callbacks of batch options have no counterpart. The
  programs under \<open>examples\<close> are demonstrations.
\<close>

section \<open>From a definition to a finished execution\<close>

lemma sample_loaded:
  "New sample_decoder ''id'' 0 sample_raw =
   Ok (machine ''S'' [(''S'', SucceedState (new_base ''S'' ''Succeed''))])"
  by code_simp

lemma loaded_state:
  assumes "New dec newID now raw = Ok sm" and "map_of (sm_States sm) name \<noteq> None"
  shows "name \<in> fst ` set (raw_States raw) \<and> (\<exists>s. map_of (sm_States sm) name = Some s \<and> GetName s = name \<and> Validate s = None)"
proof -
  from assms(2) obtain s where s: "map_of (sm_States sm) name = Some s" by blast
  then have mem: "(name, s) \<in> set (sm_States sm)" by (rule map_of_in_set)
  note new = New_Ok [OF assms(1)]
  have "GetName s = name \<and> Validate s = None" using new mem by auto
  moreover have "name \<in> set (map fst (sm_States sm))" using mem by force
  then have "name \<in> set (map fst (raw_States raw))" using new by simp
  ultimately show ?thesis using s by simp
qed

lemma loaded_execution:
  assumes "New dec newID now raw = Ok sm" and "StateMachine_Execute m env execID sm input opts = Some (Ok (x, e))"
  shows "IsComplete x \<and> ExecError x = e \<and> (e = None \<longleftrightarrow> Status x = ''SUCCEEDED'') \<and>
       (\<forall>h\<in>set (History x). sh_StateName h \<in> fst ` set (raw_States raw) \<and>
          (\<exists>s. map_of (sm_States sm) (sh_StateName h) = Some s \<and> GetName s = sh_StateName h \<and> Validate s = None))"
proof -
  obtain x0 where x0: "RunExecution m env sm x0 = Some (Ok (x, e))" "History x0 = []" "ExecError x0 = None"
    using StateMachine_Execute_start [of env execID sm input opts] assms(2) by metis
  have "\<forall>h\<in>set (History x). map_of (sm_States sm) (sh_StateName h) \<noteq> None"
    using history_states [OF x0(1,2)] by blast
  with loaded_state [OF assms(1)] RunExecution_final [OF x0] show ?thesis by metis
qed

text \<open>C4: End to end. Take any machine that \<open>New\<close> has loaded and whose transitions have no cycle. There is a bound on the fuel beyond
  which \<open>Execute\<close> returns one and the same result, for every environment, input and list of options; and whenever that
  result is an execution, it is complete, carries the returned error, is SUCCEEDED exactly without an error, and every entry of its
  history belongs to a state of the definition that carries the recorded name and has passed validation.\<close>

theorem loaded_machine_completes:
  assumes "New dec newID now raw = Ok sm" and "ranked_machine rank sm"
  shows "\<exists>n. \<forall>env execID input opts. \<exists>r. (\<forall>m\<ge>n. StateMachine_Execute m env execID sm input opts = Some r) \<and>
    (\<forall>x e. r = Ok (x, e) \<longrightarrow> IsComplete x \<and> ExecError x = e \<and> (e = None \<longleftrightarrow> Status x = ''SUCCEEDED'') \<and>
       (\<forall>h\<in>set (History x). sh_StateName h \<in> fst ` set (raw_States raw) \<and>
          (\<exists>s. map_of (sm_States sm) (sh_StateName h) = Some s \<and> GetName s = sh_StateName h \<and> Validate s = None)))"
proof -
  obtain n where n: "\<forall>env x. \<exists>r. \<forall>m\<ge>n. RunExecution m env sm x = Some r"
    using ranked_machine_bound [OF assms(2)] by blast
  show ?thesis
  proof (intro exI [of _ n] allI)
    fix env execID input opts
    obtain r where r: "\<forall>m\<ge>n. StateMachine_Execute m env execID sm input opts = Some r"
      using n StateMachine_Execute_start [of env execID sm input opts] by metis
    show "\<exists>r. (\<forall>m\<ge>n. StateMachine_Execute m env execID sm input opts = Some r) \<and>
      (\<forall>x e. r = Ok (x, e) \<longrightarrow> IsComplete x \<and> ExecError x = e \<and> (e = None \<longleftrightarrow> Status x = ''SUCCEEDED'') \<and>
         (\<forall>h\<in>set (History x). sh_StateName h \<in> fst ` set (raw_States raw) \<and>
            (\<exists>s. map_of (sm_States sm) (sh_StateName h) = Some s \<and> GetName s = sh_StateName h \<and> Validate s = None)))"
    proof (intro exI [of _ r] conjI [OF r] allI impI)
      fix x e
      assume "r = Ok (x, e)"
      with r have "StateMachine_Execute n env execID sm input opts = Some (Ok (x, e))" by simp
      from loaded_execution [OF assms(1) this] show "IsComplete x \<and> ExecError x = e \<and> (e = None \<longleftrightarrow> Status x = ''SUCCEEDED'') \<and>
        (\<forall>h\<in>set (History x). sh_StateName h \<in> fst ` set (raw_States raw) \<and>
           (\<exists>s. map_of (sm_States sm) (sh_StateName h) = Some s \<and> GetName s = sh_StateName h \<and> Validate s = None))" .
    qed
  qed
qed

theorem loaded_machine_completes_witness:
  "\<exists>n. \<forall>env execID input opts. \<exists>r. \<forall>m\<ge>n.
     StateMachine_Execute m env execID (machine ''S'' [(''S'', SucceedState (new_base ''S'' ''Succeed''))]) input opts = Some r"
proof -
  have "ranked_machine (\<lambda>_. 0) (machine ''S'' [(''S'', SucceedState (new_base ''S'' ''Succeed''))])"
    by (auto simp: ranked_machine_def machine_def new_base_def BaseState_GetNextStates_def intro!: acyclic_state.leaf)
  from loaded_machine_completes [OF sample_loaded this] show ?thesis by (elim ex_forward all_forward) (elim conjunct1)
qed

end
